(* ===== verification/Prelude.thy ===== *)
theory Prelude
  imports Main "HOL-Library.Word" "HOL-Library.AList"
begin

text \<open>
  Shared vocabulary of the development: the machine types of the Rust sources, big-endian
  byte encodings of words, slices, hash maps as association lists with distinct keys, and the
  saturating arithmetic the engine uses. Fixed-size byte arrays of the sources are words of the
  same width (\<open>[u8; 32]\<close> is a \<open>256 word\<close>), so that their length is part of their type.
\<close>

named_theorems wire \<open>rewriting of byte strings in the wire codecs\<close>
named_theorems hm \<open>rewriting of hash-map operations\<close>

type_synonym byte = "8 word"
type_synonym bytes = "byte list"
type_synonym u8 = "8 word"
type_synonym u16 = "16 word"
type_synonym u32 = "32 word"
type_synonym u64 = "64 word"
type_synonym key32 = "256 word"
type_synonym sig64 = "512 word"

type_synonym ('e, 'a) result = "'e + 'a"

section \<open>Results\<close>

text \<open>\<open>r?\<close> followed by the rest of the function, and \<open>Result::map_err\<close>.\<close>

fun and_then :: "('e, 'a) result \<Rightarrow> ('a \<Rightarrow> ('e, 'b) result) \<Rightarrow> ('e, 'b) result" where
  "and_then (Inl e) f = Inl e"
| "and_then (Inr a) f = f a"

fun map_err :: "('e \<Rightarrow> 'f) \<Rightarrow> ('e, 'a) result \<Rightarrow> ('f, 'a) result" where
  "map_err g (Inl e) = Inl (g e)"
| "map_err g (Inr a) = Inr a"

lemma and_then_Inr: "and_then r f = Inr b \<longleftrightarrow> (\<exists>a. r = Inr a \<and> f a = Inr b)"
  by (cases r) auto

lemma and_then_Inl: "and_then r f = Inl e \<longleftrightarrow> r = Inl e \<or> (\<exists>a. r = Inr a \<and> f a = Inl e)"
  by (cases r) auto

text \<open>Evaluation stops at the first error.\<close>

lemma and_then_case [code_unfold]: "and_then r f = (case r of Inl e \<Rightarrow> Inl e | Inr a \<Rightarrow> f a)"
  by (cases r) auto

lemma map_err_Inr [simp]: "map_err g r = Inr a \<longleftrightarrow> r = Inr a"
  by (cases r) auto

lemma and_then_cong [fundef_cong]:
  "r = r' \<Longrightarrow> (\<And>a. r' = Inr a \<Longrightarrow> f a = f' a) \<Longrightarrow> and_then r f = and_then r' f'"
  by (cases r') auto

text \<open>Loops that stop at the first error: \<open>try_map\<close> collects, \<open>try_all\<close> only checks.\<close>

fun try_map :: "('a \<Rightarrow> ('e, 'b) result) \<Rightarrow> 'a list \<Rightarrow> ('e, 'b list) result" where
  "try_map f [] = Inr []"
| "try_map f (x # xs) = and_then (f x) (\<lambda>y. and_then (try_map f xs) (\<lambda>ys. Inr (y # ys)))"

fun try_all :: "('a \<Rightarrow> 'e option) \<Rightarrow> 'a list \<Rightarrow> ('e, unit) result" where
  "try_all f [] = Inr ()"
| "try_all f (x # xs) = (case f x of Some e \<Rightarrow> Inl e | None \<Rightarrow> try_all f xs)"

lemma try_map_Inr: "try_map f xs = Inr ys \<longleftrightarrow> list_all2 (\<lambda>x y. f x = Inr y) xs ys"
  by (induction xs arbitrary: ys) (auto simp: and_then_Inr list_all2_Cons1)

lemma try_all_Inr: "try_all f xs = Inr u \<longleftrightarrow> (\<forall>x\<in>set xs. f x = None)"
  by (induction xs) (auto split: option.splits)

text \<open>The pairs \<open>(xs ! i, xs ! j)\<close> with \<open>i < j\<close>, in the order of two nested loops.\<close>

fun pairs :: "'a list \<Rightarrow> ('a \<times> 'a) list" where
  "pairs [] = []"
| "pairs (x # xs) = map (Pair x) xs @ pairs xs"

lemma pairs_distinct: "(\<forall>(x, y)\<in>set (pairs xs). f x \<noteq> f y) \<longleftrightarrow> distinct (map f xs)"
  by (induction xs) (auto simp: image_iff)

lemma pairs_nth: "i < j \<Longrightarrow> j < length xs \<Longrightarrow> (xs ! i, xs ! j) \<in> set (pairs xs)"
proof (induction xs arbitrary: i j)
  case Nil
  then show ?case by simp
next
  case (Cons x xs)
  then obtain j' where j: "j = Suc j'" by (cases j) auto
  then show ?case using Cons by (cases i) auto
qed

section \<open>Strings\<close>

text \<open>
  A Rust \<open>String\<close> is the list of its UTF-8 bytes, each as a character; \<open>ascii\<close> is \<open>as_bytes\<close>. Not
  every list is a \<open>String\<close>: \<open>utf8_ok\<close> is the check of \<open>std::str::from_utf8\<close>.
\<close>

definition ascii :: "string \<Rightarrow> bytes" where
  "ascii s = map (\<lambda>c. word_of_nat (of_char c)) s"

definition str_of_bytes :: "bytes \<Rightarrow> string" where
  "str_of_bytes bs = map (\<lambda>b. char_of (unat b)) bs"

definition utf8_cont :: "byte \<Rightarrow> bool" where
  "utf8_cont b \<longleftrightarrow> 0x80 \<le> b \<and> b \<le> 0xBF"

fun utf8_ok :: "bytes \<Rightarrow> bool" where
  "utf8_ok [] \<longleftrightarrow> True"
| "utf8_ok (a # r1) \<longleftrightarrow>
     (if a < 0x80 then utf8_ok r1
      else case r1 of [] \<Rightarrow> False | b # r2 \<Rightarrow>
        if 0xC2 \<le> a \<and> a \<le> 0xDF then utf8_cont b \<and> utf8_ok r2
        else case r2 of [] \<Rightarrow> False | c # r3 \<Rightarrow>
          if 0xE0 \<le> a \<and> a \<le> 0xEF then
            (a = 0xE0 \<longrightarrow> 0xA0 \<le> b) \<and> (a = 0xED \<longrightarrow> b \<le> 0x9F) \<and> utf8_cont b \<and> utf8_cont c \<and> utf8_ok r3
          else case r3 of [] \<Rightarrow> False | d # r4 \<Rightarrow>
            0xF0 \<le> a \<and> a \<le> 0xF4 \<and> (a = 0xF0 \<longrightarrow> 0x90 \<le> b) \<and> (a = 0xF4 \<longrightarrow> b \<le> 0x8F) \<and>
            utf8_cont b \<and> utf8_cont c \<and> utf8_cont d \<and> utf8_ok r4)"

lemma unat_byte_lt: "unat (b :: byte) < 256"
proof -
  have "unat b < 2 ^ LENGTH(8)" by (rule unsigned_less)
  then show ?thesis by simp
qed

lemma unat_small_byte: "n < 256 \<Longrightarrow> unat (of_nat n :: u8) = n"
  by (simp add: unat_of_nat take_bit_eq_mod)

lemma length_ascii [simp]: "length (ascii s) = length s"
  by (simp add: ascii_def)

lemma length_str_of_bytes [simp]: "length (str_of_bytes bs) = length bs"
  by (simp add: str_of_bytes_def)

lemma ascii_str_of_bytes [simp]: "ascii (str_of_bytes bs) = bs"
proof -
  have "word_of_nat (unat b mod 256) = b" for b :: byte
    using unat_byte_lt [of b] by (simp add: word_unat_eq_iff unat_of_nat take_bit_eq_mod)
  then show ?thesis by (simp add: ascii_def str_of_bytes_def o_def map_idI)
qed

lemma str_of_ascii [simp]: "str_of_bytes (ascii s) = s"
  by (simp add: ascii_def str_of_bytes_def o_def map_idI unat_of_nat take_bit_eq_mod)

lemma ascii_inject: "ascii s = ascii t \<longleftrightarrow> s = t"
  by (metis str_of_ascii)

section \<open>Big-endian bytes\<close>

fun to_be_bytes :: "nat \<Rightarrow> 'a::len word \<Rightarrow> bytes" where
  "to_be_bytes 0 w = []"
| "to_be_bytes (Suc n) w = to_be_bytes n (drop_bit 8 w) @ [ucast w]"

definition be_step :: "'a::len word \<Rightarrow> byte \<Rightarrow> 'a word" where
  "be_step acc b = acc * 256 + ucast b"

definition from_be_bytes :: "bytes \<Rightarrow> 'a::len word" where
  "from_be_bytes bs = foldl be_step 0 bs"

text \<open>The number a byte string denotes, without the width of the target word.\<close>

definition be_val :: "bytes \<Rightarrow> nat" where
  "be_val bs = foldl (\<lambda>acc b. acc * 256 + unat b) 0 bs"

lemma length_to_be_bytes [simp]: "length (to_be_bytes n w) = n"
  by (induction n arbitrary: w) auto

lemma be_val_snoc [simp]: "be_val (bs @ [b]) = be_val bs * 256 + unat b"
  by (simp add: be_val_def)

lemma be_val_Nil [simp]: "be_val [] = 0"
  by (simp add: be_val_def)

lemma from_be_bytes_Nil [simp]: "from_be_bytes [] = 0"
  by (simp add: from_be_bytes_def)

lemma from_be_bytes_snoc [simp]: "from_be_bytes (bs @ [b]) = from_be_bytes bs * 256 + ucast b"
  by (simp add: from_be_bytes_def be_step_def)

lemma be_val_lt: "be_val bs < 256 ^ length bs"
proof (induction bs rule: rev_induct)
  case Nil
  then show ?case by simp
next
  case (snoc b bs)
  then have "be_val bs + 1 \<le> 256 ^ length bs" by simp
  then have "(be_val bs + 1) * 256 \<le> 256 ^ length bs * 256" by (rule mult_le_mono1)
  then show ?case using unat_byte_lt [of b] by (simp add: algebra_simps)
qed

lemma from_be_bytes_eq_be_val: "from_be_bytes bs = (of_nat (be_val bs) :: 'a::len word)"
  by (induction bs rule: rev_induct) (simp_all add: of_nat_unat)

lemma be_val_to_be_bytes: "be_val (to_be_bytes n w) = unat w mod 256 ^ n"
proof (induction n arbitrary: w)
  case 0
  then show ?case by simp
next
  case (Suc n)
  have "unat (drop_bit 8 w) = unat w div 256"
    using unat_drop_bit_eq [of 8 w] by (simp only: drop_bit_eq_div [of 8 "unat w"]) simp
  moreover have "unat (ucast w :: byte) = unat w mod 256"
    by (simp add: unsigned_ucast_eq take_bit_eq_mod)
  ultimately show ?case
    by (simp add: Suc.IH mod_mult2_eq mult.commute)
qed

lemma from_to_be_bytes:
  fixes w :: "'a::len word"
  assumes "LENGTH('a) = 8 * n"
  shows "from_be_bytes (to_be_bytes n w) = w"
proof -
  have "unat w < 2 ^ LENGTH('a)" by (rule unsigned_less)
  then have "unat w < 256 ^ n" by (simp add: assms power_mult)
  then show ?thesis
    by (simp add: from_be_bytes_eq_be_val be_val_to_be_bytes)
qed

lemma be_val_inject:
  assumes "length xs = length ys" and "be_val xs = be_val ys"
  shows "xs = ys"
  using assms
proof (induction xs arbitrary: ys rule: rev_induct)
  case Nil
  then show ?case by simp
next
  case (snoc x xs)
  then obtain ys' y where ys: "ys = ys' @ [y]" by (cases ys rule: rev_cases) auto
  with snoc.prems have eq: "be_val xs * 256 + unat x = be_val ys' * 256 + unat y" by simp
  from eq have "(be_val xs * 256 + unat x) mod 256 = (be_val ys' * 256 + unat y) mod 256"
    by (rule arg_cong)
  with unat_byte_lt [of x] unat_byte_lt [of y] have x: "unat x = unat y" by simp
  with eq have "be_val xs = be_val ys'" by simp
  with x snoc ys show ?case by (simp add: word_unat_eq_iff)
qed

lemma to_from_be_bytes:
  assumes "LENGTH('a) = 8 * n" and "length bs = n"
  shows "to_be_bytes n (from_be_bytes bs :: 'a::len word) = bs"
proof (rule be_val_inject)
  have "be_val bs < 2 ^ LENGTH('a)"
    using be_val_lt [of bs] by (simp add: assms power_mult)
  then show "be_val (to_be_bytes n (from_be_bytes bs :: 'a word)) = be_val bs"
    using be_val_lt [of bs] assms
    by (simp add: be_val_to_be_bytes from_be_bytes_eq_be_val unat_of_nat take_bit_eq_mod)
qed (simp add: assms)

text \<open>The bits of an encoded word, byte by byte.\<close>

lemma bit_to_be_bytes:
  "j < n \<Longrightarrow> k < 8 \<Longrightarrow> bit (to_be_bytes n w ! j) k \<longleftrightarrow> bit w (8 * (n - 1 - j) + k)"
proof (induction n arbitrary: w)
  case 0
  then show ?case by simp
next
  case (Suc n)
  show ?case
  proof (cases "j < n")
    case True
    then have "8 + (8 * (n - 1 - j) + k) = 8 * (Suc n - 1 - j) + k" by simp
    moreover have "bit (to_be_bytes (Suc n) w ! j) k = bit w (8 + (8 * (n - 1 - j) + k))"
      using True Suc by (simp add: nth_append bit_drop_bit_eq)
    ultimately show ?thesis by (simp only:)
  next
    case False
    with Suc.prems have "j = n" by simp
    with Suc.prems show ?thesis by (simp add: nth_append bit_ucast_iff)
  qed
qed

lemma word_eq_bits: "a = b \<longleftrightarrow> (\<forall>i. bit a i = bit b i)"
  for a b :: "'a::len word"
  by (auto intro: bit_eqI)

lemma word_eq_bits_less: "a = b \<longleftrightarrow> (\<forall>i<LENGTH('a). bit a i = bit b i)"
  for a b :: "'a::len word"
  by (auto intro: bit_word_eqI)

text \<open>The widths the sources use: \<open>u16\<close>, \<open>u64\<close>, IPv6 addresses, keys and signatures.\<close>

abbreviation u16_be :: "u16 \<Rightarrow> bytes" where "u16_be \<equiv> to_be_bytes 2"
abbreviation u64_be :: "u64 \<Rightarrow> bytes" where "u64_be \<equiv> to_be_bytes 8"
abbreviation octets16 :: "128 word \<Rightarrow> bytes" where "octets16 \<equiv> to_be_bytes 16"
abbreviation octets32 :: "key32 \<Rightarrow> bytes" where "octets32 \<equiv> to_be_bytes 32"
abbreviation octets64 :: "sig64 \<Rightarrow> bytes" where "octets64 \<equiv> to_be_bytes 64"

lemma from_to_be [simp]:
  "from_be_bytes (u16_be a) = a" "from_be_bytes (u64_be b) = b"
  "from_be_bytes (octets16 c) = c" "from_be_bytes (octets32 d) = d"
  "from_be_bytes (octets64 e) = e"
  by (simp_all add: from_to_be_bytes)

lemma to_from_be:
  "length bs = 2 \<Longrightarrow> u16_be (from_be_bytes bs) = bs"
  "length bs = 8 \<Longrightarrow> u64_be (from_be_bytes bs) = bs"
  "length bs = 16 \<Longrightarrow> octets16 (from_be_bytes bs) = bs"
  "length bs = 32 \<Longrightarrow> octets32 (from_be_bytes bs) = bs"
  "length bs = 64 \<Longrightarrow> octets64 (from_be_bytes bs) = bs"
  by (simp_all add: to_from_be_bytes)

section \<open>Slices\<close>

definition slice :: "nat \<Rightarrow> nat \<Rightarrow> 'a list \<Rightarrow> 'a list" where
  "slice i j xs = take (j - i) (drop i xs)"

lemma length_slice [simp]: "length (slice i j xs) = min (j - i) (length xs - i)"
  by (simp add: slice_def min.commute)

lemma slice_append_left: "j \<le> length xs \<Longrightarrow> slice i j (xs @ ys) = slice i j xs"
  by (simp add: slice_def)

lemma slice_append_right: "length xs \<le> i \<Longrightarrow> slice i j (xs @ ys) = slice (i - length xs) (j - length xs) ys"
  by (simp add: slice_def)

lemma slice_all: "j = length xs \<Longrightarrow> slice 0 j xs = xs"
  by (simp add: slice_def)

lemma slice_take_split: "i \<le> j \<Longrightarrow> take j xs = take i xs @ slice i j xs"
  using take_add [of i "j - i" xs] by (simp add: slice_def)

text \<open>A byte string is the concatenation of its consecutive slices.\<close>

lemma slice_join: "i \<le> j \<Longrightarrow> j \<le> k \<Longrightarrow> slice i j xs @ slice j k xs = slice i k xs"
  using take_add [of "j - i" "k - j" "drop i xs"] by (simp add: slice_def)

lemma slice_Cons: "i < length xs \<Longrightarrow> i < j \<Longrightarrow> slice i j xs = xs ! i # slice (Suc i) j xs"
  by (cases "j - i") (auto simp: slice_def Cons_nth_drop_Suc [symmetric] Suc_diff_Suc diff_Suc)

lemma slice_nth: "i < length xs \<Longrightarrow> slice i (Suc i) xs = [xs ! i]"
  by (simp add: slice_def take_Suc_conv_app_nth Cons_nth_drop_Suc [symmetric])

lemma slice_split: "i \<le> j \<Longrightarrow> j \<le> k \<Longrightarrow> slice i k xs = slice i j xs @ slice j k xs"
  by (simp add: slice_join)

lemma slice_zero: "slice 0 j xs = take j xs"
  by (simp add: slice_def)

lemma nth_slice: "i + k < j \<Longrightarrow> i + k < length xs \<Longrightarrow> slice i j xs ! k = xs ! (i + k)"
  by (simp add: slice_def)

lemmas slice_append = slice_append_left slice_append_right slice_all

declare slice_append_left [wire] slice_append_right [wire] slice_all [wire] nth_append [wire]

section \<open>Message authentication\<close>

text \<open>
  HMAC-SHA256 is a parameter (key bytes and message give a 32-byte digest). The protocols send its
  first 16 bytes and verify with \<open>verify_truncated_left\<close>: the given tag is the left part of the
  digest.
\<close>

type_synonym hmac = "bytes \<Rightarrow> bytes \<Rightarrow> key32"

definition mac16 :: "hmac \<Rightarrow> key32 \<Rightarrow> bytes \<Rightarrow> bytes" where
  "mac16 mac key msg = take 16 (octets32 (mac (octets32 key) msg))"

lemma length_mac16 [simp]: "length (mac16 mac key msg) = 16"
  by (simp add: mac16_def)

section \<open>Hash maps\<close>

text \<open>
  A \<open>HashMap\<close> is an association list with distinct keys; \<open>map_of\<close> reads it, \<open>length\<close> is its
  \<open>len\<close>. The order of the list stands for the unspecified iteration order.
\<close>

definition hm_ok :: "('k \<times> 'v) list \<Rightarrow> bool" where
  "hm_ok m = distinct (map fst m)"

abbreviation hm_get :: "('k \<times> 'v) list \<Rightarrow> 'k \<Rightarrow> 'v option" where
  "hm_get \<equiv> map_of"

abbreviation hm_insert :: "'k \<Rightarrow> 'v \<Rightarrow> ('k \<times> 'v) list \<Rightarrow> ('k \<times> 'v) list" where
  "hm_insert \<equiv> AList.update"

abbreviation hm_remove :: "'k \<Rightarrow> ('k \<times> 'v) list \<Rightarrow> ('k \<times> 'v) list" where
  "hm_remove \<equiv> AList.delete"

definition hm_retain :: "('k \<Rightarrow> 'v \<Rightarrow> bool) \<Rightarrow> ('k \<times> 'v) list \<Rightarrow> ('k \<times> 'v) list" where
  "hm_retain P m = filter (\<lambda>(k, v). P k v) m"

lemma hm_ok_Nil [simp]: "hm_ok []"
  by (simp add: hm_ok_def)

lemma hm_ok_insert [simp, intro]: "hm_ok m \<Longrightarrow> hm_ok (hm_insert k v m)"
  by (simp add: hm_ok_def distinct_update)

lemma hm_ok_remove [simp, intro]: "hm_ok m \<Longrightarrow> hm_ok (hm_remove k m)"
  by (simp add: hm_ok_def distinct_delete)

lemma hm_ok_retain [simp, intro]: "hm_ok m \<Longrightarrow> hm_ok (hm_retain P m)"
  by (induction m) (auto simp: hm_ok_def hm_retain_def)

lemma hm_get_insert [hm]: "hm_get (hm_insert k v m) k' = (if k' = k then Some v else hm_get m k')"
  by (simp add: update_conv')

lemma hm_get_remove [hm]: "hm_get (hm_remove k m) k' = (if k' = k then None else hm_get m k')"
  by (simp add: delete_conv')

lemma hm_get_retain [hm]:
  "hm_ok m \<Longrightarrow> hm_get (hm_retain P m) k =
     (case hm_get m k of None \<Rightarrow> None | Some v \<Rightarrow> if P k v then Some v else None)"
proof (induction m)
  case Nil
  then show ?case by (simp add: hm_retain_def)
next
  case (Cons x m)
  have gone: "hm_get (filter (\<lambda>(k, v). P k v) m) (fst x) = None"
    using Cons.prems by (force simp: hm_ok_def map_of_eq_None_iff)
  from Cons.prems have "hm_ok m" by (simp add: hm_ok_def)
  with Cons.IH gone show ?case by (cases x) (auto simp: hm_retain_def)
qed

lemma hm_len_insert:
  "length (hm_insert k v m) = (if hm_get m k = None then Suc (length m) else length m)"
  by (induction m) auto

lemma hm_set_insert: "set (hm_insert k v m) \<subseteq> insert (k, v) (set m)"
  by (induction m) auto

lemma hm_set_remove: "set (hm_remove k m) \<subseteq> set m"
  by (induction m) auto

lemma hm_set_retain: "set (hm_retain P m) \<subseteq> set m"
  by (auto simp: hm_retain_def)

lemma hm_len_keys: "hm_ok m \<Longrightarrow> length m = card (fst ` set m)"
  using distinct_card [of "map fst m"] by (simp add: hm_ok_def)

lemma hm_get_in_set: "hm_ok m \<Longrightarrow> hm_get m k = Some v \<longleftrightarrow> (k, v) \<in> set m"
  by (simp add: hm_ok_def)

lemma hm_len_remove_le: "length (hm_remove k m) \<le> length m"
  by (rule length_delete_le)

lemma hm_len_retain_le: "length (hm_retain P m) \<le> length m"
  by (simp add: hm_retain_def)

text \<open>Removing a list of keys.\<close>

abbreviation hm_remove_all :: "'k list \<Rightarrow> ('k \<times> 'v) list \<Rightarrow> ('k \<times> 'v) list" where
  "hm_remove_all ks m \<equiv> foldl (\<lambda>m k. hm_remove k m) m ks"

lemma hm_get_remove_all [hm]: "hm_get (hm_remove_all ks m) k = (if k \<in> set ks then None else hm_get m k)"
  by (induction ks arbitrary: m) (auto simp: hm_get_remove)

lemma hm_ok_remove_all [simp, intro]: "hm_ok m \<Longrightarrow> hm_ok (hm_remove_all ks m)"
  by (induction ks arbitrary: m) auto

lemma hm_set_remove_all: "set (hm_remove_all ks m) \<subseteq> set m"
proof (induction ks arbitrary: m)
  case (Cons k ks)
  then show ?case using hm_set_remove [of k m] by fastforce
qed simp

lemma hm_len_remove_all_le: "length (hm_remove_all ks m) \<le> length m"
proof (induction ks arbitrary: m)
  case (Cons k ks)
  then show ?case using hm_len_remove_le [of k m] le_trans by fastforce
qed simp

lemma hm_keys_remove: "fst ` set (hm_remove k m) = fst ` set m - {k}"
  by (induction m) auto

lemma hm_keys_remove_all: "fst ` set (hm_remove_all ks m) = fst ` set m - set ks"
  by (induction ks arbitrary: m) (auto simp: hm_keys_remove)

lemma hm_keys_insert: "fst ` set (hm_insert k v m) = insert k (fst ` set m)"
  by (simp add: dom_update)

lemma hm_get_Some_key: "hm_get m k = Some v \<Longrightarrow> k \<in> fst ` set m"
  by (metis map_of_eq_None_iff option.distinct(1))

lemma hm_keys_replace: "hm_get m k = Some w \<Longrightarrow> fst ` set (hm_insert k v m) = fst ` set m"
  by (simp add: hm_keys_insert insert_absorb hm_get_Some_key)

lemma hm_ball_insert: "\<forall>p\<in>set m. P p \<Longrightarrow> P (k, v) \<Longrightarrow> \<forall>p\<in>set (hm_insert k v m). P p"
  using hm_set_insert [of k v m] by blast

lemma hm_get_None: "hm_get m k = None \<longleftrightarrow> k \<notin> fst ` set m"
  by (rule map_of_eq_None_iff)

section \<open>Saturating arithmetic and clocks\<close>

definition sat_add :: "'a::len word \<Rightarrow> 'a word \<Rightarrow> 'a word" where
  "sat_add a b = (if unat a + unat b < 2 ^ LENGTH('a) then a + b else - 1)"

definition sat_sub :: "'a::len word \<Rightarrow> 'a word \<Rightarrow> 'a word" where
  "sat_sub a b = (if a < b then 0 else a - b)"

definition abs_diff :: "'a::len word \<Rightarrow> 'a word \<Rightarrow> 'a word" where
  "abs_diff a b = (if a < b then b - a else a - b)"

lemma unat_sat_sub: "unat (sat_sub a b) = unat a - unat b"
  by (auto simp: sat_sub_def word_less_nat_alt unat_sub word_le_nat_alt not_less)

lemma unat_sat_add: "unat (sat_add a b) = min (unat a + unat b) (2 ^ LENGTH('a) - 1)"
  for a b :: "'a::len word"
  by (auto simp: sat_add_def unat_word_ariths unsigned_minus_1_eq_mask mask_eq_exp_minus_1)

lemma unat_abs_diff: "int (unat (abs_diff a b)) = \<bar>int (unat a) - int (unat b)\<bar>"
  by (auto simp: abs_diff_def word_less_nat_alt unat_sub word_le_nat_alt not_less of_nat_diff
      simp del: of_nat_unat)

lemma word_less_Suc: "x \<noteq> - 1 \<Longrightarrow> x < x + 1"
  for x :: "'a::len word"
proof -
  assume "x \<noteq> - 1"
  then have "unat x \<noteq> unat (- 1 :: 'a word)" by (simp add: word_unat_eq_iff)
  then have "unat x \<noteq> 2 ^ LENGTH('a) - 1" by (simp add: unsigned_minus_1_eq_mask mask_eq_exp_minus_1)
  moreover have "unat x < 2 ^ LENGTH('a)" by (rule unsigned_less)
  ultimately have "unat x + 1 < 2 ^ LENGTH('a)" by linarith
  then show ?thesis by (simp add: word_less_nat_alt unat_word_ariths)
qed

text \<open>
  \<open>SystemTime\<close> and \<open>Instant\<close> are nanoseconds since the epoch (an integer: a \<open>SystemTime\<close> may lie
  before it). \<open>SystemTime::duration_since\<close> fails when the argument is later;
  \<open>Instant::duration_since\<close> is zero then.
\<close>

type_synonym time = int

definition secs :: "int \<Rightarrow> int" where
  "secs n = n * 1000000000"

definition millis :: "int \<Rightarrow> int" where
  "millis n = n * 1000000"

definition duration_since :: "time \<Rightarrow> time \<Rightarrow> int option" where
  "duration_since now t = (if t \<le> now then Some (now - t) else None)"

definition instant_since :: "time \<Rightarrow> time \<Rightarrow> int" where
  "instant_since now t = (if t \<le> now then now - t else 0)"

section \<open>Positions and order-preserving deduplication\<close>

fun position :: "('a \<Rightarrow> bool) \<Rightarrow> 'a list \<Rightarrow> nat option" where
  "position P [] = None"
| "position P (x # xs) = (if P x then Some 0 else map_option Suc (position P xs))"

lemma position_Some: "position P xs = Some i \<Longrightarrow> i < length xs \<and> P (xs ! i) \<and> (\<forall>j<i. \<not> P (xs ! j))"
proof (induction xs arbitrary: i)
  case Nil
  then show ?case by simp
next
  case (Cons x xs)
  then show ?case
    by (auto split: if_splits simp: less_Suc_eq_0_disj)
qed

lemma position_None: "position P xs = None \<longleftrightarrow> (\<forall>x\<in>set xs. \<not> P x)"
  by (induction xs) auto

definition get :: "'a list \<Rightarrow> nat \<Rightarrow> 'a option" where
  "get xs i = (if i < length xs then Some (xs ! i) else None)"

fun dedup_onto :: "'a list \<Rightarrow> 'a list \<Rightarrow> 'a list" where
  "dedup_onto acc [] = acc"
| "dedup_onto acc (x # xs) = dedup_onto (if x \<in> set acc then acc else acc @ [x]) xs"

lemma set_dedup_onto [simp]: "set (dedup_onto acc xs) = set acc \<union> set xs"
  by (induction acc xs rule: dedup_onto.induct) auto

lemma distinct_dedup_onto [simp]: "distinct acc \<Longrightarrow> distinct (dedup_onto acc xs)"
  by (induction acc xs rule: dedup_onto.induct) auto

lemma dedup_onto_distinct: "distinct (acc @ xs) \<Longrightarrow> dedup_onto acc xs = acc @ xs"
  by (induction acc xs rule: dedup_onto.induct) auto

end
