(* ===== verification/Contracts.thy ===== *)
theory Contracts
  imports Prelude
begin

text \<open>
  The interfaces the components rely on, as locales. \<open>machine\<close>: a state machine and an invariant
  every operation keeps. \<open>bounded_table\<close>: a soft-state table whose size never passes its cap.
  \<open>codec\<close> and \<open>exact_codec\<close>: what a wire format promises to its users. \<open>lww_order\<close>: the order
  behind a last-writer-wins table and the convergence it gives. Each is interpreted on the
  definitions of the component that provides it.
\<close>

section \<open>State machines\<close>

locale machine =
  fixes init :: "'s"
    and step :: "'s \<Rightarrow> 'e \<Rightarrow> 's"
    and inv :: "'s \<Rightarrow> bool"
  assumes inv_init: "inv init"
    and inv_step: "inv s \<Longrightarrow> inv (step s e)"
begin

lemma inv_run: "inv s \<Longrightarrow> inv (foldl step s es)"
  by (induction es arbitrary: s) (auto intro: inv_step)

lemma inv_reachable: "inv (foldl step init es)"
  by (rule inv_run) (rule inv_init)

end

section \<open>Bounded soft-state tables\<close>

locale bounded_table =
  fixes empty :: "'t"
    and update :: "'t \<Rightarrow> 'e \<Rightarrow> 't"
    and ok :: "'t \<Rightarrow> bool"
    and len :: "'t \<Rightarrow> nat"
    and cap :: nat
  assumes empty_ok: "ok empty"
    and empty_len: "len empty \<le> cap"
    and update_ok: "ok t \<Longrightarrow> ok (update t e)"
    and update_len: "ok t \<Longrightarrow> len t \<le> cap \<Longrightarrow> len (update t e) \<le> cap"

sublocale bounded_table \<subseteq> table: machine empty update "\<lambda>t. ok t \<and> len t \<le> cap"
  by unfold_locales (auto intro: empty_ok empty_len update_ok update_len)

context bounded_table
begin

lemma never_over_cap: "len (foldl update empty es) \<le> cap"
  using table.inv_reachable by blast

lemma always_ok: "ok (foldl update empty es)"
  using table.inv_reachable by blast

end

section \<open>Wire codecs\<close>

locale codec =
  fixes encode :: "'a \<Rightarrow> ('x, bytes) result"
    and decode :: "bytes \<Rightarrow> ('e, 'a) result"
    and valid :: "'a \<Rightarrow> bool"
  assumes roundtrip: "valid a \<Longrightarrow> \<exists>bs. encode a = Inr bs \<and> decode bs = Inr a"
    and sound: "decode bs = Inr a \<Longrightarrow> valid a"
    and canonical: "decode bs = Inr a \<Longrightarrow> \<exists>body pad. encode a = Inr body \<and> bs = body @ pad"
begin

lemma encode_inject: "valid a \<Longrightarrow> valid b \<Longrightarrow> encode a = encode b \<Longrightarrow> a = b"
  using roundtrip [of a] roundtrip [of b] by auto

lemma decode_iff: "decode bs = Inr a \<Longrightarrow> encode a = Inr body \<Longrightarrow> decode body = Inr a"
  using sound [of bs a] roundtrip [of a] by auto

lemma valid_iff: "valid a \<longleftrightarrow> (\<exists>bs. decode bs = Inr a)"
  using sound roundtrip by blast

end

text \<open>The weakest promise of a format: what is written reads back.\<close>

locale reversible =
  fixes encode :: "'a \<Rightarrow> ('x, 'b) result"
    and decode :: "'b \<Rightarrow> ('e, 'a) result"
    and valid :: "'a \<Rightarrow> bool"
  assumes reads_back: "valid a \<Longrightarrow> encode a = Inr b \<Longrightarrow> decode b = Inr a"
begin

lemma written_inject: "valid a \<Longrightarrow> valid b \<Longrightarrow> encode a = Inr x \<Longrightarrow> encode b = Inr x \<Longrightarrow> a = b"
  using reads_back [of a x] reads_back [of b x] by simp

lemma never_misread: "valid a \<Longrightarrow> encode a = Inr x \<Longrightarrow> decode x = Inr b \<Longrightarrow> b = a"
  using reads_back [of a x] by simp

end

sublocale codec \<subseteq> written: reversible encode decode valid
  using roundtrip by unfold_locales (metis sum.inject(2))

locale exact_codec = codec +
  assumes exact: "decode bs = Inr a \<Longrightarrow> encode a = Inr bs"
begin

lemma decode_inject: "decode bs = Inr a \<Longrightarrow> decode cs = Inr a \<Longrightarrow> bs = cs"
  using exact [of bs a] exact [of cs a] by simp

lemma decode_eq_iff: "decode bs = Inr a \<longleftrightarrow> valid a \<and> encode a = Inr bs"
  using exact [of bs a] sound [of bs a] roundtrip [of a] by auto

end

section \<open>Last writer wins\<close>

text \<open>
  Merging an entry into a table keyed by \<open>key\<close>: it is stored when the slot is free or when it
  \<open>wins\<close> over the stored one.
\<close>

definition lww_merge :: "('e \<Rightarrow> 'k) \<Rightarrow> ('e \<Rightarrow> 'e \<Rightarrow> bool) \<Rightarrow> ('k \<Rightarrow> 'e option) \<Rightarrow> 'e \<Rightarrow> ('k \<Rightarrow> 'e option)" where
  "lww_merge key wins m e =
     (case m (key e) of
        None \<Rightarrow> m(key e := Some e)
      | Some old \<Rightarrow> if wins e old then m(key e := Some e) else m)"

lemma lww_merge_get:
  "lww_merge key wins m e k =
     (if k = key e then Some (case m k of None \<Rightarrow> e | Some old \<Rightarrow> if wins e old then e else old) else m k)"
  by (auto simp: lww_merge_def split: option.splits)

text \<open>The entry a table must hold for a key, given all the entries it has seen.\<close>

definition lww_best :: "('e \<Rightarrow> 'k) \<Rightarrow> ('e \<Rightarrow> 'e \<Rightarrow> bool) \<Rightarrow> 'e set \<Rightarrow> 'k \<Rightarrow> 'e \<Rightarrow> bool" where
  "lww_best key wins E k e \<longleftrightarrow>
     e \<in> E \<and> key e = k \<and> (\<forall>e'\<in>E. key e' = k \<longrightarrow> e' = e \<or> wins e e')"

locale lww_order =
  fixes key :: "'e \<Rightarrow> 'k"
    and wins :: "'e \<Rightarrow> 'e \<Rightarrow> bool"
    and valid :: "'e \<Rightarrow> bool"
  assumes wins_asym: "wins a b \<Longrightarrow> \<not> wins b a"
    and wins_trans: "valid a \<Longrightarrow> valid b \<Longrightarrow> valid c \<Longrightarrow> wins a b \<Longrightarrow> wins b c \<Longrightarrow> wins a c"
    and wins_total: "valid a \<Longrightarrow> valid b \<Longrightarrow> key a = key b \<Longrightarrow> a \<noteq> b \<Longrightarrow> wins a b \<or> wins b a"
begin

lemma best_unique: "lww_best key wins E k a \<Longrightarrow> lww_best key wins E k b \<Longrightarrow> a = b"
  unfolding lww_best_def using wins_asym by blast

lemma best_insert:
  assumes v: "\<forall>x\<in>insert e E. valid x" and best: "lww_best key wins E k old" and e: "key e = k"
  shows "lww_best key wins (insert e E) k (if wins e old then e else old)"
proof (cases "wins e old")
  case True
  have "x = e \<or> wins e x" if "x \<in> insert e E" "key x = k" for x
    using that v best True wins_trans [of e old x] unfolding lww_best_def by auto
  with True e show ?thesis by (auto simp: lww_best_def)
next
  case False
  then have "e = old \<or> wins old e"
    using v best e wins_total [of e old] unfolding lww_best_def by auto
  with False best show ?thesis by (auto simp: lww_best_def)
qed

text \<open>
  After merging any list of valid entries, each slot holds the best entry seen for its key: the
  table is a function of the set of entries, not of their order or multiplicity.
\<close>

lemma merge_all_best:
  assumes "\<forall>e\<in>set es. valid e"
  shows "case foldl (lww_merge key wins) (\<lambda>_. None) es k of
           None \<Rightarrow> k \<notin> key ` set es
         | Some e \<Rightarrow> lww_best key wins (set es) k e"
  using assms
proof (induction es rule: rev_induct)
  case Nil
  show ?case by simp
next
  case (snoc x es)
  let ?m = "foldl (lww_merge key wins) (\<lambda>_. None) es"
  from snoc.prems have v: "\<forall>y\<in>insert x (set es). valid y" by auto
  from snoc have IH: "case ?m k of None \<Rightarrow> k \<notin> key ` set es | Some e \<Rightarrow> lww_best key wins (set es) k e"
    by simp
  show ?case
  proof (cases "key x = k")
    case False
    then have "lww_best key wins (set (es @ [x])) k e \<longleftrightarrow> lww_best key wins (set es) k e" for e
      by (auto simp: lww_best_def)
    with False IH show ?thesis
      by (auto simp: lww_merge_get [of key wins ?m x k] split: option.splits)
  next
    case key: True
    show ?thesis
    proof (cases "?m k")
      case None
      with IH have "\<forall>y\<in>set es. key y \<noteq> k" by auto
      then have "lww_best key wins (set (es @ [x])) k x" using key by (simp add: lww_best_def)
      with None key show ?thesis by (simp add: lww_merge_get [of key wins ?m x k])
    next
      case (Some old)
      with IH have "lww_best key wins (set es) k old" by simp
      then have "lww_best key wins (insert x (set es)) k (if wins x old then x else old)"
        using best_insert [OF v _ key] by blast
      with Some key show ?thesis by (simp add: lww_merge_get [of key wins ?m x k])
    qed
  qed
qed

lemma convergence:
  assumes "\<forall>e\<in>set es. valid e" and "set es = set fs"
  shows "foldl (lww_merge key wins) (\<lambda>_. None) es = foldl (lww_merge key wins) (\<lambda>_. None) fs"
proof
  fix k
  have v: "\<forall>e\<in>set fs. valid e" using assms by simp
  have none: "lww_best key wins (set es) k e \<Longrightarrow> k \<in> key ` set es" for e
    by (auto simp: lww_best_def)
  show "foldl (lww_merge key wins) (\<lambda>_. None) es k = foldl (lww_merge key wins) (\<lambda>_. None) fs k"
    using merge_all_best [OF assms(1), of k] merge_all_best [OF v, of k] assms(2) none best_unique
    by (auto split: option.splits)
qed

end

end
