(* ===== verification/Net_Addr.thy ===== *)
theory Net_Addr
  imports Prelude
begin

text \<open>
  Identities, network prefixes and addresses (\<open>crates/core/src/\<close> \<open>network.rs\<close>, \<open>addr.rs\<close>,
  \<open>identity.rs\<close>, \<open>defaults.rs\<close>): the ULA prefix a network key gives, the site and node address a
  public key gives under it, the addresses that may serve as endpoints, and subnet collisions.
  SHA-256, HKDF and the curve-point check are parameters: they are third-party code.
\<close>

unbundle bit_operations_syntax

section \<open>Addresses\<close>

type_synonym ipv6 = "128 word"

definition octets :: "ipv6 \<Rightarrow> bytes" where
  "octets a = octets16 a"

definition ipv6_of_octets :: "bytes \<Rightarrow> ipv6" where
  "ipv6_of_octets bs = from_be_bytes bs"

text \<open>The first of the eight 16-bit groups (\<open>Ipv6Addr::segments()[0]\<close>).\<close>

definition segment0 :: "ipv6 \<Rightarrow> u16" where
  "segment0 a = ucast (drop_bit 112 a)"

definition is_ula :: "ipv6 \<Rightarrow> bool" where
  "is_ula a \<longleftrightarrow> segment0 a AND 0xfe00 = 0xfc00"

definition is_link_local :: "ipv6 \<Rightarrow> bool" where
  "is_link_local a \<longleftrightarrow> segment0 a AND 0xffc0 = 0xfe80"

text \<open>The predicates of \<open>std::net::Ipv6Addr\<close> the code calls.\<close>

definition is_loopback :: "ipv6 \<Rightarrow> bool" where
  "is_loopback a \<longleftrightarrow> a = 1"

definition is_unspecified :: "ipv6 \<Rightarrow> bool" where
  "is_unspecified a \<longleftrightarrow> a = 0"

definition is_multicast :: "ipv6 \<Rightarrow> bool" where
  "is_multicast a \<longleftrightarrow> segment0 a AND 0xff00 = 0xff00"

definition is_ipv4_mapped :: "ipv6 \<Rightarrow> bool" where
  "is_ipv4_mapped a \<longleftrightarrow> drop_bit 32 a = 0xffff"

definition is_usable_endpoint_addr :: "ipv6 \<Rightarrow> bool" where
  "is_usable_endpoint_addr a \<longleftrightarrow>
     \<not> is_ula a \<and> \<not> is_link_local a \<and> \<not> is_loopback a \<and> \<not> is_multicast a \<and>
     \<not> is_unspecified a \<and> \<not> is_ipv4_mapped a"

record socket_v6 =
  ip :: ipv6
  port :: u16
  flowinfo :: u32
  scope_id :: u32

text \<open>\<open>SocketAddrV6::new(ip, port, 0, 0)\<close>.\<close>

definition sock :: "ipv6 \<Rightarrow> u16 \<Rightarrow> socket_v6" where
  "sock a p = \<lparr>ip = a, port = p, flowinfo = 0, scope_id = 0\<rparr>"

text \<open>\<open>SocketAddr\<close>: both families reach the code, IPv4 only to be refused.\<close>

datatype socket_addr = V4 u32 u16 | V6 socket_v6

section \<open>Defaults\<close>

definition DEFAULT_PORT :: u16 where "DEFAULT_PORT = 4193"
definition DEFAULT_MTU :: u32 where "DEFAULT_MTU = 1400"
definition DEFAULT_INTERFACE :: string where "DEFAULT_INTERFACE = ''hextet0''"
definition DEFAULT_PROBE_PORT :: u16 where "DEFAULT_PROBE_PORT = 4194"
definition DEFAULT_STATE_DIR :: string where "DEFAULT_STATE_DIR = ''/var/lib/hextet''"
definition DEFAULT_LAN_PORT :: u16 where "DEFAULT_LAN_PORT = 4195"
definition DEFAULT_RELAY_PORT :: u16 where "DEFAULT_RELAY_PORT = 4196"
definition DEFAULT_GOSSIP_PORT :: u16 where "DEFAULT_GOSSIP_PORT = 4197"
definition DEFAULT_KEEPALIVE_SECS :: u16 where "DEFAULT_KEEPALIVE_SECS = 25"
definition LAN_MULTICAST_GROUP :: ipv6 where
  "LAN_MULTICAST_GROUP = ipv6_of_octets [0xff, 0x02, 0, 0, 0, 0, 0, 0, 0, 0, 0, 0, 0, 0, 0x41, 0x93]"

section \<open>Network prefix\<close>

type_synonym network_key = key32

text \<open>HKDF-SHA256 expansion: salt, input key material, info and the length wanted.\<close>

type_synonym hkdf = "bytes \<Rightarrow> bytes \<Rightarrow> bytes \<Rightarrow> nat \<Rightarrow> bytes"

text \<open>What HKDF documents of its output: it has the requested length.\<close>

definition hkdf_fills :: "hkdf \<Rightarrow> bool" where
  "hkdf_fills kdf \<longleftrightarrow> (\<forall>salt ikm info n. length (kdf salt ikm info n) = n)"

definition SALT :: bytes where
  "SALT = ascii ''hextet-v1''"

datatype network_prefix = NetworkPrefix (prefix_bytes: bytes)

definition PREFIX_LEN :: u8 where
  "PREFIX_LEN = 48"

definition prefix_derive :: "hkdf \<Rightarrow> network_key \<Rightarrow> network_prefix" where
  "prefix_derive kdf key = NetworkPrefix (0xfd # kdf SALT (octets32 key) (ascii ''network-id'') 5)"

definition prefix_network :: "network_prefix \<Rightarrow> ipv6" where
  "prefix_network p = ipv6_of_octets (prefix_bytes p @ replicate 10 0)"

text \<open>A prefix as the code builds it: six bytes, the first \<open>0xfd\<close>.\<close>

definition prefix_ok :: "network_prefix \<Rightarrow> bool" where
  "prefix_ok p \<longleftrightarrow> length (prefix_bytes p) = 6 \<and> hd (prefix_bytes p) = 0xfd"

definition derive_probe_key :: "hkdf \<Rightarrow> network_key \<Rightarrow> key32" where
  "derive_probe_key kdf key = from_be_bytes (kdf SALT (octets32 key) (ascii ''doctor-probe'') 32)"

definition derive_lan_key :: "hkdf \<Rightarrow> network_key \<Rightarrow> key32" where
  "derive_lan_key kdf key = from_be_bytes (kdf SALT (octets32 key) (ascii ''lan-beacon'') 32)"

definition derive_relay_key :: "hkdf \<Rightarrow> network_key \<Rightarrow> key32" where
  "derive_relay_key kdf key = from_be_bytes (kdf SALT (octets32 key) (ascii ''relay'') 32)"

section \<open>Node addresses\<close>

text \<open>
  \<open>NodePublicKey\<close> wraps a verifying key; its 32 bytes determine it. \<open>NodePublicKey::from_bytes\<close>
  succeeds exactly on the encodings of curve points, the parameter \<open>valid_point\<close>.
\<close>

type_synonym public_key = key32

datatype identity_error = Io string | InvalidEncoding | InvalidPublicKey

definition pk_from_bytes :: "(key32 \<Rightarrow> bool) \<Rightarrow> key32 \<Rightarrow> (identity_error, public_key) result" where
  "pk_from_bytes valid_point raw = (if valid_point raw then Inr raw else Inl InvalidPublicKey)"

datatype addr_error = DegenerateIid | SubnetCollision string string

record node_addr =
  subnet_id :: u16
  site :: ipv6
  address :: ipv6

type_synonym sha256 = "bytes \<Rightarrow> key32"

definition derive_node_addr :: "sha256 \<Rightarrow> network_prefix \<Rightarrow> public_key \<Rightarrow> (addr_error, node_addr) result" where
  "derive_node_addr sha prefix pubkey =
     (let d1 = octets32 (sha (ascii ''hextet-v1 subnet-id'' @ octets32 pubkey));
          sid = (from_be_bytes (take 2 d1) :: u16);
          d2 = octets32 (sha (ascii ''hextet-v1 iid'' @ octets32 pubkey));
          iid = take 8 d2
      in if iid = replicate 8 0 then Inl DegenerateIid
         else let site_bytes = prefix_bytes prefix @ u16_be sid @ replicate 8 0;
                  addr_bytes = prefix_bytes prefix @ u16_be sid @ iid
              in Inr \<lparr>subnet_id = sid, site = ipv6_of_octets site_bytes,
                      address = ipv6_of_octets addr_bytes\<rparr>)"

text \<open>
  \<open>check_subnet_collisions\<close> inserts each subnet id into a hash map and reports the name it
  displaced.
\<close>

fun check_subnets_from :: "(u16 \<times> string) list \<Rightarrow> (string \<times> node_addr) list \<Rightarrow> (addr_error, unit) result" where
  "check_subnets_from seen [] = Inr ()"
| "check_subnets_from seen ((name, a) # rest) =
     (case hm_get seen (subnet_id a) of
        Some prev \<Rightarrow> Inl (SubnetCollision prev name)
      | None \<Rightarrow> check_subnets_from (hm_insert (subnet_id a) name seen) rest)"

definition check_subnet_collisions :: "(string \<times> node_addr) list \<Rightarrow> (addr_error, unit) result" where
  "check_subnet_collisions nodes = check_subnets_from [] nodes"

definition is_within_prefix :: "ipv6 \<Rightarrow> network_prefix \<Rightarrow> bool" where
  "is_within_prefix a p \<longleftrightarrow> take 6 (octets a) = prefix_bytes p"

text \<open>\<open>members.rs\<close>: the /64 site an overlay address belongs to.\<close>

definition site_of :: "ipv6 \<Rightarrow> ipv6" where
  "site_of a = ipv6_of_octets (take 8 (octets a) @ replicate 8 0)"

section \<open>Facts about derived addresses\<close>

lemma length_octets [simp]: "length (octets a) = 16"
  by (simp add: octets_def)

lemma octets_of_octets: "length bs = 16 \<Longrightarrow> octets (ipv6_of_octets bs) = bs"
  by (simp add: octets_def ipv6_of_octets_def to_from_be)

lemma ipv6_octets [simp]: "ipv6_of_octets (octets a) = a"
  by (simp add: octets_def ipv6_of_octets_def)

lemma octets_inject: "octets a = octets b \<longleftrightarrow> a = b"
  by (metis ipv6_octets)

text \<open>Address lists on the wire: consecutive 16-byte blocks.\<close>

definition addr_block :: "ipv6 list \<Rightarrow> bytes" where
  "addr_block as = concat (map octets as)"

definition read_addrs :: "nat \<Rightarrow> nat \<Rightarrow> bytes \<Rightarrow> ipv6 list" where
  "read_addrs off n bs = map (\<lambda>i. ipv6_of_octets (slice (off + 16 * i) (off + 16 * i + 16) bs)) [0..<n]"

lemma length_addr_block [simp]: "length (addr_block as) = 16 * length as"
  by (induction as) (simp_all add: addr_block_def)

lemma length_read_addrs [simp]: "length (read_addrs off n bs) = n"
  by (simp add: read_addrs_def)

lemma read_addrs_Suc:
  "read_addrs off (Suc n) bs = ipv6_of_octets (slice off (off + 16) bs) # read_addrs (off + 16) n bs"
proof -
  have "[0..<Suc n] = 0 # map Suc [0..<n]" by (simp add: map_Suc_upt upt_conv_Cons del: upt_Suc)
  then show ?thesis by (simp add: read_addrs_def del: upt_Suc) (simp add: ac_simps)
qed

lemma read_addr_block: "off = length xs \<Longrightarrow> read_addrs off (length as) (xs @ addr_block as @ ys) = as"
proof (induction as arbitrary: off xs)
  case Nil
  then show ?case by (simp add: read_addrs_def)
next
  case (Cons a as)
  have "slice off (off + 16) (xs @ addr_block (a # as) @ ys) = octets a"
    using Cons.prems by (simp add: addr_block_def slice_def)
  moreover have "read_addrs (off + 16) (length as) ((xs @ octets a) @ addr_block as @ ys) = as"
    using Cons.prems by (intro Cons.IH) simp
  ultimately show ?case by (simp add: read_addrs_Suc addr_block_def)
qed

lemma addr_block_read: "off + 16 * n \<le> length bs \<Longrightarrow> addr_block (read_addrs off n bs) = slice off (off + 16 * n) bs"
proof (induction n arbitrary: off)
  case 0
  then show ?case by (simp add: read_addrs_def addr_block_def slice_def)
next
  case (Suc n)
  then have "addr_block (read_addrs (off + 16) n bs) = slice (off + 16) (off + 16 + 16 * n) bs" by simp
  with Suc.prems show ?case
    using slice_split [of off "off + 16" "off + 16 + 16 * n" bs]
    by (simp add: read_addrs_Suc addr_block_def octets_of_octets ac_simps)
qed

lemma prefix_derive_ok: "hkdf_fills kdf \<Longrightarrow> prefix_ok (prefix_derive kdf key)"
  by (simp add: prefix_ok_def prefix_derive_def hkdf_fills_def)

lemma octets_prefix_network:
  "prefix_ok p \<Longrightarrow> octets (prefix_network p) = prefix_bytes p @ replicate 10 0"
  by (simp add: prefix_network_def prefix_ok_def octets_of_octets)

lemma derive_node_addr_Inr:
  assumes "derive_node_addr sha p k = Inr a" and "prefix_ok p"
  shows "octets (site a) = prefix_bytes p @ u16_be (subnet_id a) @ replicate 8 0"
    and "\<exists>iid. length iid = 8 \<and> iid \<noteq> replicate 8 0 \<and>
           octets (address a) = prefix_bytes p @ u16_be (subnet_id a) @ iid"
  using assms
  by (auto simp: derive_node_addr_def Let_def prefix_ok_def octets_of_octets split: if_splits)

lemma derive_subnet_id_fun:
  "derive_node_addr sha p k = Inr a \<Longrightarrow> derive_node_addr sha q k = Inr b \<Longrightarrow> subnet_id a = subnet_id b"
  by (auto simp: derive_node_addr_def Let_def split: if_splits)

lemma check_subnets_from_Inr:
  "check_subnets_from seen nodes = Inr () \<longleftrightarrow>
     distinct (map (subnet_id \<circ> snd) nodes) \<and> (\<forall>n\<in>set nodes. hm_get seen (subnet_id (snd n)) = None)"
proof (induction seen nodes rule: check_subnets_from.induct)
  case (1 seen)
  then show ?case by simp
next
  case (2 seen name a rest)
  have "(\<forall>n\<in>set rest. hm_get (hm_insert (subnet_id a) name seen) (subnet_id (snd n)) = None) \<longleftrightarrow>
      subnet_id a \<notin> (subnet_id \<circ> snd) ` set rest \<and> (\<forall>n\<in>set rest. hm_get seen (subnet_id (snd n)) = None)"
    by (force simp: hm image_iff)
  with 2 show ?case by (cases "hm_get seen (subnet_id a)") auto
qed

text \<open>
  Collision checking is exactly distinctness of the derived subnet ids.
\<close>

lemma check_subnet_collisions_iff:
  "check_subnet_collisions nodes = Inr () \<longleftrightarrow> distinct (map (subnet_id \<circ> snd) nodes)"
  by (simp add: check_subnet_collisions_def check_subnets_from_Inr)

end
