(* ===== verification/Site_Route.thy ===== *)
theory Site_Route
  imports Net_Addr
begin

text \<open>
  Site-to-site routes (\<open>crates/core/src/route.rs\<close>): normalised IPv6 prefixes, their masks,
  \<open>contains\<close> and \<open>overlaps\<close>, and the AllowedIPs of a peer. The byte-wise mask of the code is shown
  to be the high bits of the address, and \<open>overlaps\<close> to be intersection of the address sets.
\<close>

datatype route_error = RouteInvalid string | RouteIpv4 string | BadPrefixLen u8 | HostBitsSet ipv6 u8

record ipv6_route =
  prefix :: ipv6
  prefix_len :: u8

definition route_mask :: "u8 \<Rightarrow> bytes" where
  "route_mask len =
     (let whole = unat len div 8; r = unat len mod 8;
          m = replicate whole 0xff @ replicate (16 - whole) 0
      in if r > 0 then m[whole := push_bit (8 - r) 0xff] else m)"

definition apply_mask :: "ipv6 \<Rightarrow> u8 \<Rightarrow> ipv6" where
  "apply_mask a len = ipv6_of_octets (map2 (AND) (octets a) (route_mask len))"

definition route_new :: "ipv6 \<Rightarrow> u8 \<Rightarrow> (route_error, ipv6_route) result" where
  "route_new p len =
     (if len = 0 \<or> len > 128 then Inl (BadPrefixLen len)
      else if apply_mask p len \<noteq> p then Inl (HostBitsSet p len)
      else Inr \<lparr>prefix = p, prefix_len = len\<rparr>)"

definition contains :: "ipv6_route \<Rightarrow> ipv6 \<Rightarrow> bool" where
  "contains r a \<longleftrightarrow> apply_mask a (prefix_len r) = prefix r"

definition overlaps :: "ipv6_route \<Rightarrow> ipv6_route \<Rightarrow> bool" where
  "overlaps r s \<longleftrightarrow> contains r (prefix s) \<or> contains s (prefix r)"

fun push_allowed :: "(ipv6 \<times> u8) list \<Rightarrow> ipv6_route list \<Rightarrow> (ipv6 \<times> u8) list" where
  "push_allowed out [] = out"
| "push_allowed out (r # rs) =
     push_allowed (if (prefix r, prefix_len r) \<in> set out then out else out @ [(prefix r, prefix_len r)]) rs"

definition allowed_ips_for :: "ipv6 \<Rightarrow> ipv6_route list \<Rightarrow> (ipv6 \<times> u8) list" where
  "allowed_ips_for st routes = push_allowed [(st, 64)] routes"

text \<open>The invariant the type documents: a length in \<open>1..=128\<close> and no host bits.\<close>

definition route_ok :: "ipv6_route \<Rightarrow> bool" where
  "route_ok r \<longleftrightarrow> route_new (prefix r) (prefix_len r) = Inr r"

section \<open>The mask keeps the high bits\<close>

lemma length_route_mask: "len \<le> 128 \<Longrightarrow> length (route_mask len) = 16"
  by (auto simp: route_mask_def Let_def word_le_nat_alt)

lemma bit_ff: "k < 8 \<Longrightarrow> bit (0xff :: byte) k"
proof -
  have "(0xff :: byte) = - 1" by simp
  then show "k < 8 \<Longrightarrow> bit (0xff :: byte) k" by (simp only: bit_minus_1_iff possible_bit_word) simp
qed

lemma bit_route_mask:
  assumes "len \<le> 128" "j < 16" "k < 8"
  shows "bit (route_mask len ! j) k \<longleftrightarrow> 8 * j + (7 - k) < unat len"
proof -
  let ?w = "unat len div 8" and ?r = "unat len mod 8"
  have le: "unat len \<le> 128" using assms(1) by (simp add: word_le_nat_alt)
  have len: "unat len = 8 * ?w + ?r" by simp
  consider "j < ?w" | "j = ?w" "?r > 0" | "?w \<le> j" "j = ?w \<longrightarrow> ?r = 0" by linarith
  then show ?thesis
  proof cases
    case 1
    then have "route_mask len ! j = 0xff"
      using assms le by (auto simp: route_mask_def Let_def nth_append)
    moreover have "8 * j + (7 - k) < unat len" using 1 len assms by linarith
    ultimately show ?thesis using bit_ff [OF assms(3)] by simp
  next
    case 2
    then have "route_mask len ! j = push_bit (8 - ?r) 0xff"
      using assms le by (simp add: route_mask_def Let_def)
    then have "bit (route_mask len ! j) k \<longleftrightarrow> 8 - ?r \<le> k"
      using assms 2 bit_ff [of "k - (8 - ?r)"] by (auto simp: bit_push_bit_iff)
    moreover have "8 * j + (7 - k) < unat len \<longleftrightarrow> 7 - k < ?r" using 2(1) len by linarith
    moreover have "7 - k < ?r \<longleftrightarrow> 8 - ?r \<le> k" using 2(2) assms(3) by linarith
    ultimately show ?thesis by blast
  next
    case 3
    then have "route_mask len ! j = 0"
      using assms le by (auto simp: route_mask_def Let_def nth_append nth_list_update)
    moreover have "\<not> 8 * j + (7 - k) < unat len"
    proof (cases "j = ?w")
      case True
      with 3 len show ?thesis by linarith
    next
      case False
      with 3 have "?w + 1 \<le> j" by simp
      then show ?thesis using len by linarith
    qed
    ultimately show ?thesis by simp
  qed
qed

lemma bit_apply_mask:
  assumes "len \<le> 128"
  shows "bit (apply_mask a len) i \<longleftrightarrow> 128 - unat len \<le> i \<and> bit a i"
proof (cases "i < 128")
  case False
  then show ?thesis using bit_imp_le_length [of "apply_mask a len" i] bit_imp_le_length [of a i] by auto
next
  case True
  let ?j = "15 - i div 8" and ?k = "i mod 8"
  have j: "?j < 16" and k: "?k < 8" by simp_all
  have i: "8 * (16 - 1 - ?j) + ?k = i" using True by simp
  have len: "length (map2 (AND) (octets a) (route_mask len)) = 16"
    using assms by (simp add: length_route_mask)
  have "bit (apply_mask a len) i \<longleftrightarrow> bit (octets (apply_mask a len) ! ?j) ?k"
    using bit_to_be_bytes [OF j k, of "apply_mask a len"] by (simp only: octets_def i)
  also have "\<dots> \<longleftrightarrow> bit (octets a ! ?j) ?k \<and> bit (route_mask len ! ?j) ?k"
    using j assms by (simp add: apply_mask_def octets_of_octets [OF len] length_route_mask bit_and_iff)
  also have "bit (octets a ! ?j) ?k \<longleftrightarrow> bit a i"
    using bit_to_be_bytes [OF j k, of a] by (simp only: octets_def i)
  also have "bit (route_mask len ! ?j) ?k \<longleftrightarrow> 128 - unat len \<le> i"
  proof -
    have "8 * ?j + (7 - ?k) = 127 - i" using True by presburger
    then show ?thesis using bit_route_mask [OF assms j k] True by linarith
  qed
  finally show ?thesis by blast
qed

text \<open>Two addresses agree on their first \<open>n\<close> bits.\<close>

definition same_prefix :: "nat \<Rightarrow> ipv6 \<Rightarrow> ipv6 \<Rightarrow> bool" where
  "same_prefix n a b \<longleftrightarrow> drop_bit (128 - n) a = drop_bit (128 - n) b"

lemma same_prefix_bits: "same_prefix n a b \<longleftrightarrow> (\<forall>i\<ge>128 - n. bit a i = bit b i)"
proof -
  have "same_prefix n a b \<longleftrightarrow> (\<forall>i. bit a (128 - n + i) = bit b (128 - n + i))"
    by (auto simp: same_prefix_def word_eq_bits bit_drop_bit_eq)
  also have "\<dots> \<longleftrightarrow> (\<forall>i\<ge>128 - n. bit a i = bit b i)"
    by (auto dest!: le_Suc_ex)
  finally show ?thesis .
qed

lemma apply_mask_eq_iff:
  "len \<le> 128 \<Longrightarrow> apply_mask a len = apply_mask b len \<longleftrightarrow> same_prefix (unat len) a b"
  by (auto simp: same_prefix_bits word_eq_bits bit_apply_mask)

lemma apply_mask_idem: "len \<le> 128 \<Longrightarrow> apply_mask (apply_mask a len) len = apply_mask a len"
  by (auto simp: word_eq_bits bit_apply_mask)

lemma route_ok_iff:
  "route_ok r \<longleftrightarrow> 0 < prefix_len r \<and> prefix_len r \<le> 128 \<and> apply_mask (prefix r) (prefix_len r) = prefix r"
  by (auto simp: route_ok_def route_new_def word_neq_0_conv not_less split: if_splits)

lemma route_new_ok: "route_new p len = Inr r \<Longrightarrow> route_ok r"
  by (auto simp: route_new_def route_ok_def split: if_splits)

text \<open>The address set of a route: the addresses sharing its first \<open>prefix_len\<close> bits.\<close>

lemma contains_iff:
  "route_ok r \<Longrightarrow> contains r a \<longleftrightarrow> same_prefix (unat (prefix_len r)) a (prefix r)"
  unfolding contains_def route_ok_iff by (metis apply_mask_eq_iff)

lemma same_prefix_refl [simp]: "same_prefix n a a"
  by (simp add: same_prefix_def)

lemma same_prefix_mono: "same_prefix n a b \<Longrightarrow> m \<le> n \<Longrightarrow> same_prefix m a b"
  by (auto simp: same_prefix_bits)

lemma same_prefix_trans: "same_prefix n a b \<Longrightarrow> same_prefix n b c \<Longrightarrow> same_prefix n a c"
  by (simp add: same_prefix_def)

lemma same_prefix_sym: "same_prefix n a b \<Longrightarrow> same_prefix n b a"
  by (simp add: same_prefix_def)

lemma contains_prefix: "route_ok r \<Longrightarrow> contains r (prefix r)"
  by (simp add: contains_iff)

lemma contains_both:
  assumes "route_ok r" "route_ok s" "contains r a" "contains s a" "prefix_len r \<le> prefix_len s"
  shows "contains r (prefix s)"
proof -
  have "same_prefix (unat (prefix_len r)) a (prefix s)"
    using assms by (auto simp: contains_iff word_le_nat_alt intro: same_prefix_mono)
  with assms show ?thesis
    by (simp add: contains_iff) (blast intro: same_prefix_trans same_prefix_sym)
qed

lemma overlaps_sym: "overlaps r s = overlaps s r"
  by (auto simp: overlaps_def)

lemma overlaps_iff_common:
  assumes "route_ok r" "route_ok s"
  shows "overlaps r s \<longleftrightarrow> (\<exists>a. contains r a \<and> contains s a)"
proof
  assume "overlaps r s"
  then show "\<exists>a. contains r a \<and> contains s a"
    using assms contains_prefix by (auto simp: overlaps_def)
next
  assume "\<exists>a. contains r a \<and> contains s a"
  then obtain a where a: "contains r a" "contains s a" by blast
  show "overlaps r s"
    using contains_both [OF assms(1,2) a] contains_both [OF assms(2,1) a(2,1)]
      linorder_linear [of "prefix_len r" "prefix_len s"]
    by (auto simp: overlaps_def)
qed

section \<open>AllowedIPs\<close>

lemma set_push_allowed: "set (push_allowed out rs) = set out \<union> (\<lambda>r. (prefix r, prefix_len r)) ` set rs"
  by (induction out rs rule: push_allowed.induct) auto

lemma distinct_push_allowed: "distinct out \<Longrightarrow> distinct (push_allowed out rs)"
  by (induction out rs rule: push_allowed.induct) auto

lemma hd_push_allowed: "out \<noteq> [] \<Longrightarrow> hd (push_allowed out rs) = hd out"
  by (induction out rs rule: push_allowed.induct) auto

section \<open>Overlay and site routes\<close>

text \<open>An address whose bytes end in zeros is a network address.\<close>

lemma apply_mask_zero_tail:
  assumes "octets a = bs @ replicate (16 - length bs) 0" "length bs \<le> 16" "unat len = 8 * length bs" "len \<le> 128"
  shows "apply_mask a len = a"
proof -
  have "\<not> bit a i" if "i < 128 - unat len" for i
  proof -
    let ?j = "15 - i div 8"
    have j: "?j < 16" and k: "i mod 8 < 8" by simp_all
    have i: "8 * (16 - 1 - ?j) + i mod 8 = i" using that by simp
    have "length bs \<le> ?j" using that assms(3) by linarith
    then have "octets a ! ?j = 0" using assms by (simp add: nth_append)
    then show ?thesis
      using bit_to_be_bytes [OF j k, of a] by (simp only: octets_def i) simp
  qed
  then have "128 - unat len \<le> i" if "bit a i" for i using that not_less by blast
  then show ?thesis using assms(4) by (auto simp: word_eq_bits bit_apply_mask)
qed

lemma overlay_route_ok:
  "prefix_ok p \<Longrightarrow> route_new (prefix_network p) PREFIX_LEN = Inr \<lparr>prefix = prefix_network p, prefix_len = PREFIX_LEN\<rparr>"
  using apply_mask_zero_tail [of "prefix_network p" "prefix_bytes p" 48]
  by (simp add: route_new_def PREFIX_LEN_def octets_prefix_network prefix_ok_def)

lemma site_route_ok:
  assumes "derive_node_addr sha p k = Inr a" "prefix_ok p"
  shows "route_new (site a) 64 = Inr \<lparr>prefix = site a, prefix_len = 64\<rparr>"
  using apply_mask_zero_tail [of "site a" "prefix_bytes p @ u16_be (subnet_id a)" 64] assms
    derive_node_addr_Inr(1) [OF assms]
  by (simp add: route_new_def prefix_ok_def)

text \<open>A route of whole bytes contains the addresses with the same leading bytes.\<close>

lemma same_prefix_octets:
  assumes "n \<le> 16"
  shows "same_prefix (8 * n) a b \<longleftrightarrow> take n (octets a) = take n (octets b)"
proof -
  have key: "bit (octets c ! j) k \<longleftrightarrow> bit c (8 * (15 - j) + k)" if "j < 16" "k < 8" for c j k
    using bit_to_be_bytes [OF that, of c] by (simp add: octets_def)
  have "take n (octets a) = take n (octets b) \<longleftrightarrow> (\<forall>j<n. octets a ! j = octets b ! j)"
    using assms by (auto simp: list_eq_iff_nth_eq)
  also have "\<dots> \<longleftrightarrow> (\<forall>j<n. \<forall>k<8. bit (octets a ! j) k = bit (octets b ! j) k)"
    by (simp add: word_eq_bits_less)
  also have "\<dots> \<longleftrightarrow> (\<forall>i. 128 - 8 * n \<le> i \<longrightarrow> i < 128 \<longrightarrow> bit a i = bit b i)"
  proof (rule iffI; intro allI impI)
    fix i assume h: "\<forall>j<n. \<forall>k<8. bit (octets a ! j) k = bit (octets b ! j) k" and i: "128 - 8 * n \<le> i" "i < 128"
    have "15 - i div 8 < n" using i by linarith
    then have "bit (octets a ! (15 - i div 8)) (i mod 8) = bit (octets b ! (15 - i div 8)) (i mod 8)" using h by simp
    moreover have "8 * (15 - (15 - i div 8)) + i mod 8 = i" using i by simp
    ultimately show "bit a i = bit b i" using key [of "15 - i div 8" "i mod 8"] by simp
  next
    fix j k assume h: "\<forall>i. 128 - 8 * n \<le> i \<longrightarrow> i < 128 \<longrightarrow> bit a i = bit b i" and jk: "j < n" "k < (8::nat)"
    have "128 - 8 * n \<le> 8 * (15 - j) + k" "8 * (15 - j) + k < 128" using jk assms by linarith+
    then show "bit (octets a ! j) k = bit (octets b ! j) k" using h key [of j k] jk assms by simp
  qed
  also have "\<dots> \<longleftrightarrow> same_prefix (8 * n) a b"
  proof -
    have "bit a i = bit b i" if "\<not> i < 128" for i
      using that bit_imp_le_length [of a i] bit_imp_le_length [of b i] by auto
    then show ?thesis unfolding same_prefix_bits by blast
  qed
  finally show ?thesis by simp
qed

lemma contains_octets:
  assumes "route_new p len = Inr r" and "unat len = 8 * n" and "n \<le> 16"
  shows "contains r a \<longleftrightarrow> take n (octets a) = take n (octets p)"
proof -
  have "route_ok r" "prefix r = p" "prefix_len r = len"
    using assms(1) route_new_ok by (auto simp: route_new_def split: if_splits)
  then show ?thesis using assms(2) same_prefix_octets [OF assms(3)] by (simp add: contains_iff)
qed

section \<open>Properties\<close>

text \<open>For well-formed routes, the code's overlap test holds exactly when the two prefixes have an
  address in common, and an address is contained in a route exactly when it shares its leading
  bits.\<close>

theorem route_overlap_spec:
  assumes "route_ok r" and "route_ok s"
  shows "(overlaps r s \<longleftrightarrow> (\<exists>a. contains r a \<and> contains s a)) \<and>
    (contains r a \<longleftrightarrow> same_prefix (unat (prefix_len r)) a (prefix r))"
  using overlaps_iff_common [OF assms] contains_iff [OF assms(1)] by blast

theorem route_overlap_spec_witness:
  "(overlaps \<lparr>prefix = 0, prefix_len = 1\<rparr> \<lparr>prefix = 0, prefix_len = 8\<rparr> \<longleftrightarrow>
      (\<exists>a. contains \<lparr>prefix = 0, prefix_len = 1\<rparr> a \<and> contains \<lparr>prefix = 0, prefix_len = 8\<rparr> a)) \<and>
   (contains \<lparr>prefix = 0, prefix_len = 1\<rparr> 5 \<longleftrightarrow> same_prefix 1 5 0)"
proof -
  have m: "apply_mask 0 l = 0" if "l \<le> 128" for l using that by (simp add: word_eq_bits bit_apply_mask)
  have "route_ok \<lparr>prefix = 0, prefix_len = 1\<rparr>" "route_ok \<lparr>prefix = 0, prefix_len = 8\<rparr>"
    by (simp_all add: route_ok_iff m)
  from route_overlap_spec [OF this, of 5] show ?thesis by simp
qed

text \<open>The address a node derives lies in its own site, and its site lies in the network's overlay
  prefix: both the /48 of the network and the /64 of the site are valid routes, and they contain the
  address.\<close>

theorem derived_address_routed:
  assumes "hkdf_fills kdf" and "derive_node_addr sha (prefix_derive kdf key) k = Inr a"
  shows "\<exists>overlay site_route.
     route_new (prefix_network (prefix_derive kdf key)) PREFIX_LEN = Inr overlay \<and>
     route_new (site a) 64 = Inr site_route \<and>
     contains overlay (address a) \<and> contains site_route (address a) \<and> contains overlay (site a) \<and>
     is_within_prefix (address a) (prefix_derive kdf key)"
proof -
  let ?p = "prefix_derive kdf key"
  have p: "prefix_ok ?p" by (rule prefix_derive_ok [OF assms(1)])
  note d = derive_node_addr_Inr [OF assms(2) p]
  show ?thesis using overlay_route_ok [OF p] site_route_ok [OF assms(2) p] d p
    by (auto simp: contains_octets prefix_ok_def PREFIX_LEN_def octets_prefix_network [OF p] is_within_prefix_def)
qed

theorem derived_address_routed_witness:
  "\<exists>(a :: node_addr) overlay site_route.
     route_new (prefix_network (prefix_derive (\<lambda>_ _ _ n. replicate n 1) 3)) PREFIX_LEN = Inr overlay \<and>
     route_new (site a) 64 = Inr site_route \<and> contains overlay (address a) \<and> contains site_route (address a)"
proof -
  have "\<exists>a. derive_node_addr (\<lambda>_. - 1) (prefix_derive (\<lambda>_ _ _ n. replicate n 1) 3) 5 = Inr a"
    by (simp add: derive_node_addr_def Let_def) code_simp
  then obtain a where "derive_node_addr (\<lambda>_. - 1) (prefix_derive (\<lambda>_ _ _ n. replicate n 1) 3) 5 = Inr a" by blast
  from derived_address_routed [OF _ this] show ?thesis by (simp add: hkdf_fills_def) blast
qed

end
