(* ===== verification/Probe_Packet.thy ===== *)
theory Probe_Packet
  imports Contracts
begin

text \<open>
  The doctor probe packet (\<open>crates/core/src/probe.rs\<close>): 32 bytes, authenticated with a truncated
  HMAC. \<open>probe_encode\<close> and \<open>probe_decode\<close> are the code's \<open>encode\<close> and \<open>decode\<close>, check by check.
\<close>

datatype probe_error = ProbeTooShort | ProbeBadMagic | ProbeBadVersion u8 | ProbeBadKind u8 | ProbeBadMac

datatype probe_kind = Request | Response | Unsolicited

definition PROBE_PACKET_LEN :: nat where "PROBE_PACKET_LEN = 32"
definition PROBE_MACED_LEN :: nat where "PROBE_MACED_LEN = 16"
definition PROBE_MAGIC :: bytes where "PROBE_MAGIC = [0x48, 0x58, 0x54, 0x50]"
definition PROBE_VERSION :: u8 where "PROBE_VERSION = 1"

fun probe_kind_as_u8 :: "probe_kind \<Rightarrow> u8" where
  "probe_kind_as_u8 Request = 1"
| "probe_kind_as_u8 Response = 2"
| "probe_kind_as_u8 Unsolicited = 3"

definition probe_kind_from_u8 :: "u8 \<Rightarrow> (probe_error, probe_kind) result" where
  "probe_kind_from_u8 v =
     (if v = 1 then Inr Request else if v = 2 then Inr Response
      else if v = 3 then Inr Unsolicited else Inl (ProbeBadKind v))"

record probe_packet =
  pkind :: probe_kind
  nonce :: u64
  reply_port :: u16

definition probe_body :: "probe_packet \<Rightarrow> bytes" where
  "probe_body p = PROBE_MAGIC @ [PROBE_VERSION, probe_kind_as_u8 (pkind p)] @ u64_be (nonce p) @ u16_be (reply_port p)"

definition probe_encode :: "hmac \<Rightarrow> key32 \<Rightarrow> probe_packet \<Rightarrow> bytes" where
  "probe_encode mac probe_key p = probe_body p @ mac16 mac probe_key (probe_body p)"

definition probe_decode :: "hmac \<Rightarrow> key32 \<Rightarrow> bytes \<Rightarrow> (probe_error, probe_packet) result" where
  "probe_decode mac probe_key bs =
     (if length bs < PROBE_PACKET_LEN then Inl ProbeTooShort
      else if slice 0 4 bs \<noteq> PROBE_MAGIC then Inl ProbeBadMagic
      else if bs ! 4 \<noteq> PROBE_VERSION then Inl (ProbeBadVersion (bs ! 4))
      else case probe_kind_from_u8 (bs ! 5) of
        Inl e \<Rightarrow> Inl e
      | Inr k \<Rightarrow>
          if mac16 mac probe_key (take PROBE_MACED_LEN bs) \<noteq> slice PROBE_MACED_LEN 32 bs then Inl ProbeBadMac
          else Inr \<lparr>pkind = k, nonce = from_be_bytes (slice 6 14 bs), reply_port = from_be_bytes (slice 14 16 bs)\<rparr>)"

lemmas probe_consts = PROBE_PACKET_LEN_def PROBE_MACED_LEN_def PROBE_MAGIC_def PROBE_VERSION_def

lemma probe_kind_roundtrip [simp]: "probe_kind_from_u8 (probe_kind_as_u8 k) = Inr k"
  by (cases k) (simp_all add: probe_kind_from_u8_def)

lemma probe_kind_from_u8_Inr: "probe_kind_from_u8 v = Inr k \<Longrightarrow> probe_kind_as_u8 k = v"
  by (auto simp: probe_kind_from_u8_def split: if_splits)

lemma length_probe_body [simp]: "length (probe_body p) = 16"
  by (simp add: probe_body_def probe_consts)

lemma length_probe_encode [simp]: "length (probe_encode mac k p) = 32"
  by (simp add: probe_encode_def)

lemma probe_body_fields:
  "slice 0 4 (probe_body p) = PROBE_MAGIC" "probe_body p ! 4 = PROBE_VERSION"
  "probe_body p ! 5 = probe_kind_as_u8 (pkind p)"
  "slice 6 14 (probe_body p) = u64_be (nonce p)" "slice 14 16 (probe_body p) = u16_be (reply_port p)"
  by (simp_all add: probe_body_def probe_consts slice_def nth_append)

lemma probe_decode_encode: "probe_decode mac key (probe_encode mac key p @ pad) = Inr p"
  by (simp add: probe_decode_def probe_encode_def PROBE_PACKET_LEN_def PROBE_MACED_LEN_def
      wire probe_body_fields)

lemma probe_split: "16 \<le> length bs \<Longrightarrow> take 16 bs = slice 0 4 bs @ [bs ! 4, bs ! 5] @ slice 6 14 bs @ slice 14 16 bs"
  using slice_split [of 0 4 16 bs] slice_Cons [of 4 bs 16] slice_Cons [of 5 bs 16] slice_split [of 6 14 16 bs]
  by (simp add: slice_zero)

lemma probe_decode_canonical:
  assumes "probe_decode mac key bs = Inr p"
  shows "bs = probe_encode mac key p @ drop 32 bs"
proof -
  from assms have len: "32 \<le> length bs" and m: "slice 0 4 bs = PROBE_MAGIC" and v: "bs ! 4 = PROBE_VERSION"
    and k: "probe_kind_from_u8 (bs ! 5) = Inr (pkind p)"
    and mac: "mac16 mac key (take 16 bs) = slice 16 32 bs"
    and n: "nonce p = from_be_bytes (slice 6 14 bs)" and r: "reply_port p = from_be_bytes (slice 14 16 bs)"
    by (auto simp: probe_decode_def PROBE_PACKET_LEN_def PROBE_MACED_LEN_def split: if_splits sum.splits)
  have "take 16 bs = probe_body p"
    using probe_split [of bs] len m v n r probe_kind_from_u8_Inr [OF k]
    by (simp add: probe_body_def to_from_be)
  with mac have "take 32 bs = probe_encode mac key p"
    using slice_take_split [of 16 32 bs] by (simp add: probe_encode_def)
  then show ?thesis by (metis append_take_drop_id)
qed

interpretation probe_wire: codec "\<lambda>p. Inr (probe_encode mac key p)" "probe_decode mac key" "\<lambda>_. True"
  for mac key
proof unfold_locales
  fix p :: probe_packet and bs
  show "\<exists>bs. Inr (probe_encode mac key p) = Inr bs \<and> probe_decode mac key bs = Inr p"
    using probe_decode_encode [of mac key p "[]"] by simp
  assume "probe_decode mac key bs = Inr p"
  then show "\<exists>body pad. Inr (probe_encode mac key p) = Inr body \<and> bs = body @ pad"
    using probe_decode_canonical by blast
qed simp

section \<open>Properties\<close>

text \<open>The probe codec is exact up to trailing bytes: a datagram decodes to a packet exactly when it
  starts with the 32 bytes that encoding the packet under the same key gives. So decoding inverts
  encoding, and nothing that was not produced with the key is accepted.\<close>

theorem probe_codec_exact: "probe_decode mac key bs = Inr p \<longleftrightarrow> (\<exists>pad. bs = probe_encode mac key p @ pad)"
  using probe_decode_encode probe_decode_canonical by metis

end
