(* ===== verification/Relay_Frame.thy ===== *)
theory Relay_Frame
  imports Contracts Net_Addr "HOL-Library.List_Lexorder"
begin

text \<open>
  Relay control frames (\<open>crates/core/src/relay.rs\<close>): 96 bytes, MAC-authenticated, naming the two
  ends of a session; the unordered session key; and the test that separates control frames from
  forwarded WireGuard packets.
\<close>

datatype relay_error =
    RelayTooShort | RelayBadMagic | RelayBadVersion u8 | RelayBadKind u8 | RelayBadMac
  | RelayBadPublicKey | SelfPair

datatype relay_kind = Register | RegisterAck | Unregister

definition RELAY_MAGIC :: bytes where "RELAY_MAGIC = [0x48, 0x58, 0x54, 0x52]"
definition RELAY_VERSION :: u8 where "RELAY_VERSION = 1"
definition RELAY_FRAME_LEN :: nat where "RELAY_FRAME_LEN = 96"
definition RELAY_MACED_LEN :: nat where "RELAY_MACED_LEN = 80"

type_synonym session_key = "key32 \<times> key32"

fun relay_kind_as_u8 :: "relay_kind \<Rightarrow> u8" where
  "relay_kind_as_u8 Register = 1"
| "relay_kind_as_u8 RegisterAck = 2"
| "relay_kind_as_u8 Unregister = 3"

definition relay_kind_from_u8 :: "u8 \<Rightarrow> (relay_error, relay_kind) result" where
  "relay_kind_from_u8 v =
     (if v = 1 then Inr Register else if v = 2 then Inr RegisterAck
      else if v = 3 then Inr Unregister else Inl (RelayBadKind v))"

record relay_frame =
  fr_kind :: relay_kind
  fr_port :: u16
  fr_seq :: u64
  fr_self :: public_key
  fr_peer :: public_key

definition relay_body :: "relay_frame \<Rightarrow> bytes" where
  "relay_body f =
     RELAY_MAGIC @ [RELAY_VERSION, relay_kind_as_u8 (fr_kind f)] @ u16_be (fr_port f) @ u64_be (fr_seq f) @
     octets32 (fr_self f) @ octets32 (fr_peer f)"

definition relay_encode :: "hmac \<Rightarrow> key32 \<Rightarrow> relay_frame \<Rightarrow> bytes" where
  "relay_encode mac relay_key f = relay_body f @ mac16 mac relay_key (relay_body f)"

definition relay_decode :: "hmac \<Rightarrow> (key32 \<Rightarrow> bool) \<Rightarrow> key32 \<Rightarrow> bytes \<Rightarrow> (relay_error, relay_frame) result" where
  "relay_decode mac valid_point relay_key bs =
     (if length bs < RELAY_FRAME_LEN then Inl RelayTooShort
      else if slice 0 4 bs \<noteq> RELAY_MAGIC then Inl RelayBadMagic
      else if bs ! 4 \<noteq> RELAY_VERSION then Inl (RelayBadVersion (bs ! 4))
      else case relay_kind_from_u8 (bs ! 5) of
        Inl e \<Rightarrow> Inl e
      | Inr k \<Rightarrow>
          if mac16 mac relay_key (take RELAY_MACED_LEN bs) \<noteq> slice RELAY_MACED_LEN RELAY_FRAME_LEN bs
          then Inl RelayBadMac
          else let p = from_be_bytes (slice 6 8 bs); s = from_be_bytes (slice 8 16 bs);
                   self_raw = from_be_bytes (slice 16 48 bs); peer_raw = from_be_bytes (slice 48 80 bs)
               in if self_raw = peer_raw then Inl SelfPair
                  else case pk_from_bytes valid_point self_raw of
                    Inl _ \<Rightarrow> Inl RelayBadPublicKey
                  | Inr self_key \<Rightarrow>
                      (case pk_from_bytes valid_point peer_raw of
                         Inl _ \<Rightarrow> Inl RelayBadPublicKey
                       | Inr peer_key \<Rightarrow>
                           Inr \<lparr>fr_kind = k, fr_port = p, fr_seq = s, fr_self = self_key, fr_peer = peer_key\<rparr>))"

text \<open>Arrays are compared byte by byte, the first difference deciding.\<close>

definition session_key_of :: "key32 \<Rightarrow> key32 \<Rightarrow> session_key" where
  "session_key_of a b = (if octets32 a \<le> octets32 b then (a, b) else (b, a))"

definition frame_session_key :: "relay_frame \<Rightarrow> session_key" where
  "frame_session_key f = session_key_of (fr_self f) (fr_peer f)"

definition is_relay_frame :: "bytes \<Rightarrow> bool" where
  "is_relay_frame bs \<longleftrightarrow> length bs \<ge> 4 \<and> slice 0 4 bs = RELAY_MAGIC"

text \<open>The frames \<open>decode\<close> can return: two different curve points.\<close>

definition frame_valid :: "(key32 \<Rightarrow> bool) \<Rightarrow> relay_frame \<Rightarrow> bool" where
  "frame_valid valid_point f \<longleftrightarrow> fr_self f \<noteq> fr_peer f \<and> valid_point (fr_self f) \<and> valid_point (fr_peer f)"

lemmas relay_consts = RELAY_FRAME_LEN_def RELAY_MACED_LEN_def RELAY_MAGIC_def RELAY_VERSION_def

lemma relay_kind_roundtrip [simp]: "relay_kind_from_u8 (relay_kind_as_u8 k) = Inr k"
  by (cases k) (simp_all add: relay_kind_from_u8_def)

lemma relay_kind_from_u8_Inr: "relay_kind_from_u8 v = Inr k \<Longrightarrow> relay_kind_as_u8 k = v"
  by (auto simp: relay_kind_from_u8_def split: if_splits)

lemma length_relay_body [simp]: "length (relay_body f) = 80"
  by (simp add: relay_body_def relay_consts)

lemma length_relay_encode [simp]: "length (relay_encode mac k f) = 96"
  by (simp add: relay_encode_def)

lemma relay_body_fields:
  "slice 0 4 (relay_body f) = RELAY_MAGIC" "relay_body f ! 4 = RELAY_VERSION"
  "relay_body f ! 5 = relay_kind_as_u8 (fr_kind f)"
  "slice 6 8 (relay_body f) = u16_be (fr_port f)" "slice 8 16 (relay_body f) = u64_be (fr_seq f)"
  "slice 16 48 (relay_body f) = octets32 (fr_self f)" "slice 48 80 (relay_body f) = octets32 (fr_peer f)"
  by (simp_all add: relay_body_def relay_consts slice_def nth_append)

lemma relay_decode_encode:
  "frame_valid valid_point f \<Longrightarrow> relay_decode mac valid_point key (relay_encode mac key f @ pad) = Inr f"
  by (simp add: relay_decode_def relay_encode_def RELAY_FRAME_LEN_def RELAY_MACED_LEN_def
      wire relay_body_fields frame_valid_def pk_from_bytes_def)

lemma relay_split:
  "80 \<le> length bs \<Longrightarrow> take 80 bs =
     slice 0 4 bs @ [bs ! 4, bs ! 5] @ slice 6 8 bs @ slice 8 16 bs @ slice 16 48 bs @ slice 48 80 bs"
  using slice_split [of 0 4 80 bs] slice_Cons [of 4 bs 80] slice_Cons [of 5 bs 80] slice_split [of 6 8 80 bs]
    slice_split [of 8 16 80 bs] slice_split [of 16 48 80 bs]
  by (simp add: slice_zero)

lemma relay_decode_Inr:
  assumes "relay_decode mac valid_point key bs = Inr f"
  shows "96 \<le> length bs" "slice 0 4 bs = RELAY_MAGIC" "bs ! 4 = RELAY_VERSION"
    "relay_kind_from_u8 (bs ! 5) = Inr (fr_kind f)"
    "mac16 mac key (take 80 bs) = slice 80 96 bs"
    "fr_port f = from_be_bytes (slice 6 8 bs)" "fr_seq f = from_be_bytes (slice 8 16 bs)"
    "fr_self f = from_be_bytes (slice 16 48 bs)" "fr_peer f = from_be_bytes (slice 48 80 bs)"
    "frame_valid valid_point f"
  using assms
  by (auto simp: relay_decode_def RELAY_FRAME_LEN_def RELAY_MACED_LEN_def pk_from_bytes_def frame_valid_def
      Let_def split: if_splits sum.splits)

lemma relay_decode_canonical:
  assumes "relay_decode mac valid_point key bs = Inr f"
  shows "bs = relay_encode mac key f @ drop 96 bs"
proof -
  note d = relay_decode_Inr [OF assms]
  have "take 80 bs = relay_body f"
    using relay_split [of bs] d relay_kind_from_u8_Inr [OF d(4)]
    by (simp add: relay_body_def to_from_be)
  with d(5) have "take 96 bs = relay_encode mac key f"
    using slice_take_split [of 80 96 bs] by (simp add: relay_encode_def)
  then show ?thesis by (metis append_take_drop_id)
qed

interpretation relay_wire: codec "\<lambda>f. Inr (relay_encode mac key f)" "relay_decode mac valid_point key" "frame_valid valid_point"
  for mac valid_point key
proof unfold_locales
  fix f and bs
  show "frame_valid valid_point f \<Longrightarrow>
      \<exists>bs. Inr (relay_encode mac key f) = Inr bs \<and> relay_decode mac valid_point key bs = Inr f"
    using relay_decode_encode [of valid_point f mac key "[]"] by simp
  assume dec: "relay_decode mac valid_point key bs = Inr f"
  show "frame_valid valid_point f" by (rule relay_decode_Inr [OF dec])
  show "\<exists>body pad. Inr (relay_encode mac key f) = Inr body \<and> bs = body @ pad"
    using relay_decode_canonical [OF dec] by blast
qed

section \<open>Session keys\<close>

lemma octets32_inject: "octets32 a = octets32 b \<longleftrightarrow> a = b"
  by (metis from_to_be(4))

lemma session_key_of_commute: "session_key_of a b = session_key_of b a"
  using linorder_linear [of "octets32 a" "octets32 b"] antisym [of "octets32 a" "octets32 b"]
  by (auto simp: session_key_of_def octets32_inject)

lemma session_key_of_set: "{fst (session_key_of a b), snd (session_key_of a b)} = {a, b}"
  by (auto simp: session_key_of_def)

lemma session_key_of_inject: "session_key_of a b = session_key_of c d \<longleftrightarrow> {a, b} = {c, d}"
proof
  assume "session_key_of a b = session_key_of c d"
  then show "{a, b} = {c, d}" using session_key_of_set [of a b] session_key_of_set [of c d] by simp
next
  assume "{a, b} = {c, d}"
  then have "a = c \<and> b = d \<or> a = d \<and> b = c" by (simp only: doubleton_eq_iff)
  then show "session_key_of a b = session_key_of c d" using session_key_of_commute [of a b] by auto
qed

lemma relay_encode_is_frame: "is_relay_frame (relay_encode mac key f)"
  by (simp add: is_relay_frame_def relay_encode_def wire relay_body_fields)

section \<open>Properties\<close>

text \<open>A relay control frame is accepted exactly when it is the encoding, under the network's relay key,
  of a frame between two different valid public keys, possibly followed by padding. A frame with an
  altered byte, another key, an unknown kind or a self-pair is refused.\<close>

theorem relay_codec_exact:
  "relay_decode mac valid_point key bs = Inr f \<longleftrightarrow>
     frame_valid valid_point f \<and> (\<exists>pad. bs = relay_encode mac key f @ pad)"
  using relay_decode_encode relay_decode_canonical relay_decode_Inr(10) by metis

text \<open>The session key of a relay frame does not depend on who sends it, and different pairs of peers
  never share a session: the keys agree exactly when the unordered pairs do.\<close>

theorem session_key_unordered:
  "frame_session_key f = frame_session_key g \<longleftrightarrow> {fr_self f, fr_peer f} = {fr_self g, fr_peer g}"
  by (simp add: frame_session_key_def session_key_of_inject)

end
