(* ===== verification/Lan_Beacon.thy ===== *)
theory Lan_Beacon
  imports Contracts Net_Addr
begin

text \<open>
  LAN announcements (\<open>crates/core/src/beacon.rs\<close>): a variable-length datagram of up to four
  addresses whose length must agree with its address count, authenticated with the key derived from
  the network key. \<open>beacon_endpoints\<close> keeps only the addresses a handshake may be sent to.
\<close>

datatype beacon_error =
    BeaconTooShort | BeaconBadMagic | BeaconBadVersion u8 | BeaconBadKind u8 | BeaconBadReserved
  | BeaconTooManyAddrs nat | BeaconLengthMismatch nat nat | BeaconBadMac | BeaconBadPublicKey

definition BEACON_MAGIC :: bytes where "BEACON_MAGIC = [0x48, 0x58, 0x54, 0x4C]"
definition BEACON_VERSION :: u8 where "BEACON_VERSION = 1"
definition BEACON_MAX_ADDRS :: nat where "BEACON_MAX_ADDRS = 4"
definition BEACON_HEADER_LEN :: nat where "BEACON_HEADER_LEN = 50"
definition BEACON_MAC_LEN :: nat where "BEACON_MAC_LEN = 16"
definition BEACON_MAX_LEN :: nat where
  "BEACON_MAX_LEN = BEACON_HEADER_LEN + 16 * BEACON_MAX_ADDRS + BEACON_MAC_LEN"
definition KIND_ANNOUNCE :: u8 where "KIND_ANNOUNCE = 1"

record beacon =
  node_public_key :: public_key
  listen_port :: u16
  seq :: u64
  addresses :: "ipv6 list"

definition beacon_head :: "beacon \<Rightarrow> bytes" where
  "beacon_head b =
     BEACON_MAGIC @ [BEACON_VERSION, KIND_ANNOUNCE, of_nat (length (addresses b)), 0] @
     u16_be (listen_port b) @ u64_be (seq b) @ octets32 (node_public_key b)"

definition beacon_body :: "beacon \<Rightarrow> bytes" where
  "beacon_body b = beacon_head b @ addr_block (addresses b)"

definition beacon_encode :: "hmac \<Rightarrow> key32 \<Rightarrow> beacon \<Rightarrow> (beacon_error, bytes) result" where
  "beacon_encode mac lan_key b =
     (if length (addresses b) > BEACON_MAX_ADDRS then Inl (BeaconTooManyAddrs (length (addresses b)))
      else Inr (beacon_body b @ mac16 mac lan_key (beacon_body b)))"

definition beacon_decode :: "hmac \<Rightarrow> (key32 \<Rightarrow> bool) \<Rightarrow> key32 \<Rightarrow> bytes \<Rightarrow> (beacon_error, beacon) result" where
  "beacon_decode mac valid_point lan_key bs =
     (if length bs < BEACON_HEADER_LEN + BEACON_MAC_LEN then Inl BeaconTooShort
      else if slice 0 4 bs \<noteq> BEACON_MAGIC then Inl BeaconBadMagic
      else if bs ! 4 \<noteq> BEACON_VERSION then Inl (BeaconBadVersion (bs ! 4))
      else if bs ! 5 \<noteq> KIND_ANNOUNCE then Inl (BeaconBadKind (bs ! 5))
      else if bs ! 7 \<noteq> 0 then Inl BeaconBadReserved
      else let n = unat (bs ! 6) in
        if n > BEACON_MAX_ADDRS then Inl (BeaconTooManyAddrs n)
        else let expected = BEACON_HEADER_LEN + 16 * n + BEACON_MAC_LEN in
          if length bs \<noteq> expected then Inl (BeaconLengthMismatch expected (length bs))
          else if mac16 mac lan_key (take (expected - BEACON_MAC_LEN) bs) \<noteq> drop (expected - BEACON_MAC_LEN) bs
          then Inl BeaconBadMac
          else case pk_from_bytes valid_point (from_be_bytes (slice 18 50 bs)) of
            Inl _ \<Rightarrow> Inl BeaconBadPublicKey
          | Inr k \<Rightarrow>
              Inr \<lparr>node_public_key = k, listen_port = from_be_bytes (slice 8 10 bs),
                   seq = from_be_bytes (slice 10 18 bs), addresses = read_addrs BEACON_HEADER_LEN n bs\<rparr>)"

definition beacon_endpoints :: "beacon \<Rightarrow> socket_v6 list" where
  "beacon_endpoints b =
     (if listen_port b = 0 then []
      else map (\<lambda>a. sock a (listen_port b)) (filter is_usable_endpoint_addr (addresses b)))"

text \<open>The beacons \<open>decode\<close> can return.\<close>

definition beacon_valid :: "(key32 \<Rightarrow> bool) \<Rightarrow> beacon \<Rightarrow> bool" where
  "beacon_valid valid_point b \<longleftrightarrow> length (addresses b) \<le> BEACON_MAX_ADDRS \<and> valid_point (node_public_key b)"

lemmas beacon_consts = BEACON_MAGIC_def BEACON_VERSION_def KIND_ANNOUNCE_def
lemmas beacon_sizes = BEACON_MAX_ADDRS_def BEACON_HEADER_LEN_def BEACON_MAC_LEN_def

lemma length_beacon_head [simp]: "length (beacon_head b) = 50"
  by (simp add: beacon_head_def beacon_consts)

lemma length_beacon_body [simp]: "length (beacon_body b) = 50 + 16 * length (addresses b)"
  by (simp add: beacon_body_def)

lemma length_beacon_encode:
  "beacon_encode mac key b = Inr bs \<Longrightarrow> length bs = 66 + 16 * length (addresses b) \<and> length bs \<le> BEACON_MAX_LEN"
  by (auto simp: beacon_encode_def BEACON_MAX_LEN_def beacon_sizes split: if_splits)

lemma beacon_head_fields:
  "slice 0 4 (beacon_head b) = BEACON_MAGIC" "beacon_head b ! 4 = BEACON_VERSION"
  "beacon_head b ! 5 = KIND_ANNOUNCE" "beacon_head b ! 6 = of_nat (length (addresses b))"
  "beacon_head b ! 7 = 0" "slice 8 10 (beacon_head b) = u16_be (listen_port b)"
  "slice 10 18 (beacon_head b) = u64_be (seq b)" "slice 18 50 (beacon_head b) = octets32 (node_public_key b)"
  by (simp_all add: beacon_head_def beacon_consts slice_def nth_append)

lemma beacon_decode_encode:
  assumes "beacon_valid valid_point b" and "beacon_encode mac key b = Inr bs"
  shows "beacon_decode mac valid_point key bs = Inr b"
proof -
  have n: "unat (of_nat (length (addresses b)) :: u8) = length (addresses b)"
    using assms(1) by (simp add: unat_small_byte beacon_valid_def BEACON_MAX_ADDRS_def)
  have bs: "bs = beacon_head b @ addr_block (addresses b) @ mac16 mac key (beacon_body b)"
    using assms(2) by (auto simp: beacon_encode_def beacon_body_def split: if_splits)
  have cut: "take (50 + 16 * length (addresses b)) bs = beacon_body b"
    "drop (50 + 16 * length (addresses b)) bs = mac16 mac key (beacon_body b)"
    by (simp_all add: bs beacon_body_def)
  have addrs: "read_addrs 50 (length (addresses b)) bs = addresses b"
    unfolding bs by (rule read_addr_block) simp
  have f: "length bs = 66 + 16 * length (addresses b)" "slice 0 4 bs = BEACON_MAGIC" "bs ! 4 = BEACON_VERSION"
    "bs ! 5 = KIND_ANNOUNCE" "bs ! 7 = 0" "bs ! 6 = of_nat (length (addresses b))"
    "slice 8 10 bs = u16_be (listen_port b)" "slice 10 18 bs = u64_be (seq b)"
    "slice 18 50 bs = octets32 (node_public_key b)"
    by (simp_all add: bs slice_append_left nth_append beacon_head_fields)
  show ?thesis
    using assms(1) by (simp add: beacon_decode_def beacon_valid_def beacon_sizes f n cut addrs pk_from_bytes_def)
qed

lemma beacon_decode_Inr:
  assumes "beacon_decode mac valid_point key bs = Inr b"
  shows "slice 0 4 bs = BEACON_MAGIC" "bs ! 4 = BEACON_VERSION" "bs ! 5 = KIND_ANNOUNCE" "bs ! 7 = 0"
    "unat (bs ! 6) = length (addresses b)" "length bs = 66 + 16 * length (addresses b)"
    "mac16 mac key (take (50 + 16 * length (addresses b)) bs) = drop (50 + 16 * length (addresses b)) bs"
    "listen_port b = from_be_bytes (slice 8 10 bs)" "seq b = from_be_bytes (slice 10 18 bs)"
    "node_public_key b = from_be_bytes (slice 18 50 bs)"
    "addresses b = read_addrs 50 (length (addresses b)) bs" "beacon_valid valid_point b"
  using assms
  by (auto simp: beacon_decode_def beacon_valid_def beacon_sizes pk_from_bytes_def Let_def
      split: if_splits sum.splits)

lemma beacon_split:
  "50 \<le> length bs \<Longrightarrow> take 50 bs =
     slice 0 4 bs @ [bs ! 4, bs ! 5, bs ! 6, bs ! 7] @ slice 8 10 bs @ slice 10 18 bs @ slice 18 50 bs"
  using slice_split [of 0 4 50 bs] slice_Cons [of 4 bs 50] slice_Cons [of 5 bs 50] slice_Cons [of 6 bs 50]
    slice_Cons [of 7 bs 50] slice_split [of 8 10 50 bs] slice_split [of 10 18 50 bs]
  by (simp add: slice_zero)

lemma beacon_decode_exact:
  assumes "beacon_decode mac valid_point key bs = Inr b"
  shows "beacon_encode mac key b = Inr bs"
proof -
  note d = beacon_decode_Inr [OF assms]
  let ?n = "length (addresses b)"
  have n: "bs ! 6 = of_nat ?n" 
    using d(12) by (simp add: word_unat_eq_iff d(5) unat_small_byte beacon_valid_def BEACON_MAX_ADDRS_def)
  have len: "length bs = 66 + 16 * ?n" by (rule d(6))
  have head: "take 50 bs = beacon_head b"
    using beacon_split [of bs] len d(1-4) d(8-10) n by (simp add: beacon_head_def to_from_be)
  have "addr_block (read_addrs 50 ?n bs) = slice 50 (50 + 16 * ?n) bs"
    by (rule addr_block_read) (simp add: len)
  with head have body: "take (50 + 16 * ?n) bs = beacon_body b"
    using slice_take_split [of 50 "50 + 16 * ?n" bs] d(11) by (simp add: beacon_body_def)
  with d(7) have "bs = beacon_body b @ mac16 mac key (beacon_body b)"
    by (metis append_take_drop_id)
  then show ?thesis using d(12) by (simp add: beacon_encode_def beacon_valid_def)
qed

interpretation beacon_wire: exact_codec "beacon_encode mac key" "beacon_decode mac valid_point key" "beacon_valid valid_point"
  for mac valid_point key
proof unfold_locales
  fix b :: beacon and bs
  show "beacon_valid valid_point b \<Longrightarrow> \<exists>bs. beacon_encode mac key b = Inr bs \<and> beacon_decode mac valid_point key bs = Inr b"
    using beacon_decode_encode [of valid_point b mac key] by (simp add: beacon_encode_def beacon_valid_def)
  assume dec: "beacon_decode mac valid_point key bs = Inr b"
  show "beacon_valid valid_point b" by (rule beacon_decode_Inr [OF dec])
  show "beacon_encode mac key b = Inr bs" by (rule beacon_decode_exact [OF dec])
  then show "\<exists>body pad. beacon_encode mac key b = Inr body \<and> bs = body @ pad" by simp
qed

lemma set_beacon_endpoints:
  "e \<in> set (beacon_endpoints b) \<longleftrightarrow>
     listen_port b \<noteq> 0 \<and> (\<exists>a\<in>set (addresses b). is_usable_endpoint_addr a \<and> e = sock a (listen_port b))"
  by (auto simp: beacon_endpoints_def)

section \<open>Properties\<close>

text \<open>A datagram is accepted as a LAN announcement exactly when it is, byte for byte, the encoding of an
  announcement of at most four addresses by a valid public key, under the same LAN key. There is no
  second encoding and no trailing padding.\<close>

theorem beacon_codec_exact:
  "beacon_decode mac valid_point key bs = Inr b \<longleftrightarrow>
     beacon_valid valid_point b \<and> beacon_encode mac key b = Inr bs"
  by (rule beacon_wire.decode_eq_iff)

end
