(* ===== verification/Gossip_Entry.thy ===== *)
theory Gossip_Entry
  imports Contracts Net_Addr
begin

text \<open>
  Signed gossip entries (\<open>crates/core/src/gossip.rs\<close>, lines 36 to 481): endpoint, member and
  revocation statements, their canonical encoding, decoding with signature check, and signing.
  Ed25519 is a parameter: \<open>verify\<close> (public key, message, signature), and for signing a secret type
  with its public key and its signature.
\<close>

datatype gossip_error =
    GossipTooShort | GossipBadMagic | GossipBadVersion u8 | GossipBadKind u8 | GossipTooManyAddrs nat
  | NameTooLong nat | BadUtf8 | GossipLengthMismatch nat nat | BadSignature | GossipBadPublicKey
  | EndpointNotSelfSigned | SelfIssued

definition GOSSIP_MAGIC :: bytes where "GOSSIP_MAGIC = [0x48, 0x58, 0x54, 0x47]"
definition GOSSIP_VERSION :: u8 where "GOSSIP_VERSION = 1"
definition GOSSIP_MAX_ADDRS :: nat where "GOSSIP_MAX_ADDRS = 4"
definition GOSSIP_MAX_NAME :: nat where "GOSSIP_MAX_NAME = 255"
definition SIG_LEN :: nat where "SIG_LEN = 64"
definition GOSSIP_HEADER_LEN :: nat where "GOSSIP_HEADER_LEN = 4 + 1 + 1 + 8 + 32 + 32"
definition INVITE_ID_LEN :: nat where "INVITE_ID_LEN = 16"

datatype gossip_kind = KEndpoint | KMember | KRevocation

fun gossip_kind_as_u8 :: "gossip_kind \<Rightarrow> u8" where
  "gossip_kind_as_u8 KEndpoint = 1"
| "gossip_kind_as_u8 KMember = 2"
| "gossip_kind_as_u8 KRevocation = 3"

definition gossip_kind_from_u8 :: "u8 \<Rightarrow> (gossip_error, gossip_kind) result" where
  "gossip_kind_from_u8 v =
     (if v = 1 then Inr KEndpoint else if v = 2 then Inr KMember
      else if v = 3 then Inr KRevocation else Inl (GossipBadKind v))"

type_synonym invite_id = "128 word"

text \<open>
  Fields in the order of the source: \<open>Endpoint node endpoints port seq sig\<close>,
  \<open>Member node name site seq sig issued_by invite_id\<close>, \<open>Revocation node seq sig issued_by\<close>.
\<close>

datatype entry =
    Endpoint public_key "ipv6 list" u16 u64 sig64
  | Member public_key string u16 u64 sig64 public_key invite_id
  | Revocation public_key u64 sig64 public_key

fun entry_kind :: "entry \<Rightarrow> gossip_kind" where
  "entry_kind (Endpoint _ _ _ _ _) = KEndpoint"
| "entry_kind (Member _ _ _ _ _ _ _) = KMember"
| "entry_kind (Revocation _ _ _ _) = KRevocation"

fun entry_node :: "entry \<Rightarrow> public_key" where
  "entry_node (Endpoint n _ _ _ _) = n"
| "entry_node (Member n _ _ _ _ _ _) = n"
| "entry_node (Revocation n _ _ _) = n"

fun entry_signer :: "entry \<Rightarrow> public_key" where
  "entry_signer (Endpoint n _ _ _ _) = n"
| "entry_signer (Member _ _ _ _ _ issuer _) = issuer"
| "entry_signer (Revocation _ _ _ issuer) = issuer"

fun entry_seq :: "entry \<Rightarrow> u64" where
  "entry_seq (Endpoint _ _ _ s _) = s"
| "entry_seq (Member _ _ _ s _ _ _) = s"
| "entry_seq (Revocation _ s _ _) = s"

fun entry_sig :: "entry \<Rightarrow> sig64" where
  "entry_sig (Endpoint _ _ _ _ g) = g"
| "entry_sig (Member _ _ _ _ g _ _) = g"
| "entry_sig (Revocation _ _ g _) = g"

text \<open>\<open>decode\<close> and the signing functions build an entry with a zero signature and then set it.\<close>

fun with_sig :: "sig64 \<Rightarrow> entry \<Rightarrow> entry" where
  "with_sig g (Endpoint n es p s _) = Endpoint n es p s g"
| "with_sig g (Member n nm st s _ iss i) = Member n nm st s g iss i"
| "with_sig g (Revocation n s _ iss) = Revocation n s g iss"

definition entry_head :: "entry \<Rightarrow> bytes" where
  "entry_head e =
     GOSSIP_MAGIC @ [GOSSIP_VERSION, gossip_kind_as_u8 (entry_kind e)] @ u64_be (entry_seq e) @
     octets32 (entry_node e) @ octets32 (entry_signer e)"

fun entry_payload :: "entry \<Rightarrow> (gossip_error, bytes) result" where
  "entry_payload (Endpoint _ endpoints pt _ _) =
     (if length endpoints > GOSSIP_MAX_ADDRS then Inl (GossipTooManyAddrs (length endpoints))
      else Inr ([of_nat (length endpoints)] @ u16_be pt @ addr_block endpoints))"
| "entry_payload (Member _ name st _ _ _ invite_id) =
     (if length name > GOSSIP_MAX_NAME then Inl (NameTooLong (length name))
      else Inr (u16_be st @ [of_nat (length name)] @ ascii name @ octets16 invite_id))"
| "entry_payload (Revocation _ _ _ _) = Inr []"

definition signed_region :: "entry \<Rightarrow> (gossip_error, bytes) result" where
  "signed_region e = and_then (entry_payload e) (\<lambda>p. Inr (entry_head e @ p))"

definition entry_encode :: "entry \<Rightarrow> (gossip_error, bytes) result" where
  "entry_encode e = and_then (signed_region e) (\<lambda>r. Inr (r @ octets64 (entry_sig e)))"

definition decode_payload :: "gossip_kind \<Rightarrow> public_key \<Rightarrow> public_key \<Rightarrow> u64 \<Rightarrow> bytes \<Rightarrow> (gossip_error, entry) result" where
  "decode_payload kind node signer sq bs =
     (case kind of
        KEndpoint \<Rightarrow>
          let n = unat (bs ! 78) in
          if n > GOSSIP_MAX_ADDRS then Inl (GossipTooManyAddrs n)
          else let expected = GOSSIP_HEADER_LEN + 3 + 16 * n + SIG_LEN in
            if length bs \<noteq> expected then Inl (GossipLengthMismatch expected (length bs))
            else Inr (Endpoint node (read_addrs (GOSSIP_HEADER_LEN + 3) n bs) (from_be_bytes (slice 79 81 bs)) sq 0)
      | KMember \<Rightarrow>
          let st = from_be_bytes (slice 78 80 bs); name_len = unat (bs ! 80);
              expected = GOSSIP_HEADER_LEN + 3 + name_len + INVITE_ID_LEN + SIG_LEN in
          if length bs \<noteq> expected then Inl (GossipLengthMismatch expected (length bs))
          else let name_start = GOSSIP_HEADER_LEN + 3; name_end = name_start + name_len;
                   name = slice name_start name_end bs in
            if \<not> utf8_ok name then Inl BadUtf8
            else Inr (Member node (str_of_bytes name) st sq 0 signer
                       (from_be_bytes (slice name_end (name_end + INVITE_ID_LEN) bs)))
      | KRevocation \<Rightarrow>
          let expected = GOSSIP_HEADER_LEN + SIG_LEN in
          if length bs \<noteq> expected then Inl (GossipLengthMismatch expected (length bs))
          else Inr (Revocation node sq 0 signer))"

type_synonym verify_fn = "public_key \<Rightarrow> bytes \<Rightarrow> sig64 \<Rightarrow> bool"

definition entry_decode :: "verify_fn \<Rightarrow> (key32 \<Rightarrow> bool) \<Rightarrow> bytes \<Rightarrow> (gossip_error, entry) result" where
  "entry_decode verify valid_point bs =
     (if length bs < GOSSIP_HEADER_LEN + SIG_LEN then Inl GossipTooShort
      else if slice 0 4 bs \<noteq> GOSSIP_MAGIC then Inl GossipBadMagic
      else if bs ! 4 \<noteq> GOSSIP_VERSION then Inl (GossipBadVersion (bs ! 4))
      else
        and_then (gossip_kind_from_u8 (bs ! 5)) (\<lambda>kind.
        let sq = from_be_bytes (slice 6 14 bs); node_raw = from_be_bytes (slice 14 46 bs);
            signer_raw = from_be_bytes (slice 46 78 bs) in
        and_then (map_err (\<lambda>_. GossipBadPublicKey) (pk_from_bytes valid_point node_raw)) (\<lambda>node.
        and_then (map_err (\<lambda>_. GossipBadPublicKey) (pk_from_bytes valid_point signer_raw)) (\<lambda>signer.
        and_then (decode_payload kind node signer sq bs) (\<lambda>e.
        let sig_start = length bs - SIG_LEN; sig = from_be_bytes (drop sig_start bs) in
        if \<not> verify signer (take sig_start bs) sig then Inl BadSignature
        else if kind = KEndpoint \<and> signer \<noteq> node then Inl EndpointNotSelfSigned
        else if kind \<noteq> KEndpoint \<and> signer = node then Inl SelfIssued
        else Inr (with_sig sig e))))))"

definition entry_verify :: "verify_fn \<Rightarrow> entry \<Rightarrow> bool" where
  "entry_verify verify e =
     (case signed_region e of Inl _ \<Rightarrow> False | Inr region \<Rightarrow> verify (entry_signer e) region (entry_sig e))"

definition signer_ok :: "entry \<Rightarrow> bool" where
  "signer_ok e = (case e of Endpoint n _ _ _ _ \<Rightarrow> entry_signer e = n | _ \<Rightarrow> entry_signer e \<noteq> entry_node e)"

definition entry_is_valid :: "verify_fn \<Rightarrow> entry \<Rightarrow> bool" where
  "entry_is_valid verify e \<longleftrightarrow> signer_ok e \<and> entry_verify verify e"

fun endpoint_addrs :: "entry \<Rightarrow> socket_v6 list" where
  "endpoint_addrs (Endpoint _ endpoints pt _ _) =
     (if pt = 0 then [] else map (\<lambda>a. sock a pt) (filter is_usable_endpoint_addr endpoints))"
| "endpoint_addrs (Member _ _ _ _ _ _ _) = []"
| "endpoint_addrs (Revocation _ _ _ _) = []"

section \<open>Signing\<close>

text \<open>\<open>NodeIdentity\<close>: an ed25519 secret; its public key and its signature on a message.\<close>

record 'sk signer_ops =
  sk_public :: "'sk \<Rightarrow> public_key"
  sk_sign :: "'sk \<Rightarrow> bytes \<Rightarrow> sig64"

definition sign_entry :: "'sk signer_ops \<Rightarrow> 'sk \<Rightarrow> entry \<Rightarrow> (gossip_error, entry) result" where
  "sign_entry ops sk e = and_then (signed_region e) (\<lambda>r. Inr (with_sig (sk_sign ops sk r) e))"

definition sign_endpoint :: "'sk signer_ops \<Rightarrow> 'sk \<Rightarrow> ipv6 list \<Rightarrow> u16 \<Rightarrow> u64 \<Rightarrow> (gossip_error, entry) result" where
  "sign_endpoint ops node endpoints pt sq =
     (if length endpoints > GOSSIP_MAX_ADDRS then Inl (GossipTooManyAddrs (length endpoints))
      else sign_entry ops node (Endpoint (sk_public ops node) endpoints pt sq 0))"

definition sign_member :: "'sk signer_ops \<Rightarrow> 'sk \<Rightarrow> public_key \<Rightarrow> string \<Rightarrow> u16 \<Rightarrow> u64 \<Rightarrow> invite_id \<Rightarrow> (gossip_error, entry) result" where
  "sign_member ops issuer node name st sq invite_id =
     (if length name > GOSSIP_MAX_NAME then Inl (NameTooLong (length name))
      else sign_entry ops issuer (Member node name st sq 0 (sk_public ops issuer) invite_id))"

definition sign_revocation :: "'sk signer_ops \<Rightarrow> 'sk \<Rightarrow> public_key \<Rightarrow> u64 \<Rightarrow> (gossip_error, entry) result" where
  "sign_revocation ops issuer node sq = sign_entry ops issuer (Revocation node sq 0 (sk_public ops issuer))"

text \<open>What a signature scheme documents: its own signatures verify, and its public keys are points.\<close>

definition signatures_verify :: "verify_fn \<Rightarrow> (key32 \<Rightarrow> bool) \<Rightarrow> 'sk signer_ops \<Rightarrow> bool" where
  "signatures_verify verify valid_point ops \<longleftrightarrow>
     (\<forall>sk m. verify (sk_public ops sk) m (sk_sign ops sk m)) \<and> (\<forall>sk. valid_point (sk_public ops sk))"

text \<open>The entries \<open>decode\<close> can return.\<close>

fun name_utf8 :: "entry \<Rightarrow> bool" where
  "name_utf8 (Member _ name _ _ _ _ _) = utf8_ok (ascii name)"
| "name_utf8 _ = True"

definition entry_ok :: "verify_fn \<Rightarrow> (key32 \<Rightarrow> bool) \<Rightarrow> entry \<Rightarrow> bool" where
  "entry_ok verify valid_point e \<longleftrightarrow>
     entry_is_valid verify e \<and> valid_point (entry_node e) \<and> valid_point (entry_signer e) \<and> name_utf8 e"

lemmas gossip_sizes = GOSSIP_MAX_ADDRS_def GOSSIP_MAX_NAME_def SIG_LEN_def GOSSIP_HEADER_LEN_def INVITE_ID_LEN_def

section \<open>The codec\<close>

lemma gossip_kind_roundtrip [simp]: "gossip_kind_from_u8 (gossip_kind_as_u8 k) = Inr k"
  by (cases k) (simp_all add: gossip_kind_from_u8_def)

lemma gossip_kind_from_u8_Inr: "gossip_kind_from_u8 v = Inr k \<Longrightarrow> gossip_kind_as_u8 k = v"
  by (auto simp: gossip_kind_from_u8_def split: if_splits)

lemma with_sig_fields [simp]:
  "entry_kind (with_sig g e) = entry_kind e" "entry_node (with_sig g e) = entry_node e"
  "entry_signer (with_sig g e) = entry_signer e" "entry_seq (with_sig g e) = entry_seq e"
  "entry_sig (with_sig g e) = g" "entry_payload (with_sig g e) = entry_payload e"
  "with_sig g (with_sig h e) = with_sig g e" "with_sig (entry_sig e) e = e"
  "name_utf8 (with_sig g e) = name_utf8 e" "signer_ok (with_sig g e) = signer_ok e"
  by (cases e; simp add: signer_ok_def)+

lemma signed_region_with_sig [simp]: "signed_region (with_sig g e) = signed_region e"
  by (simp add: signed_region_def entry_head_def)

lemma length_entry_head [simp]: "length (entry_head e) = 78"
  by (simp add: entry_head_def GOSSIP_MAGIC_def)

lemma entry_head_fields:
  "slice 0 4 (entry_head e) = GOSSIP_MAGIC" "entry_head e ! 4 = GOSSIP_VERSION"
  "entry_head e ! 5 = gossip_kind_as_u8 (entry_kind e)" "slice 6 14 (entry_head e) = u64_be (entry_seq e)"
  "slice 14 46 (entry_head e) = octets32 (entry_node e)" "slice 46 78 (entry_head e) = octets32 (entry_signer e)"
  by (simp_all add: entry_head_def GOSSIP_MAGIC_def slice_def nth_append)

lemma signer_ok_cases:
  "signer_ok e \<longleftrightarrow> (if entry_kind e = KEndpoint then entry_signer e = entry_node e else entry_signer e \<noteq> entry_node e)"
  by (cases e) (auto simp: signer_ok_def)

lemma decode_payload_encode:
  assumes "entry_payload e = Inr p" and "name_utf8 e" and "length h = 78" and "length g = 64"
  shows "decode_payload (entry_kind e) (entry_node e) (entry_signer e) (entry_seq e) (h @ p @ g) = Inr (with_sig 0 e)"
proof (cases e)
  case (Endpoint n es pt s sg)
  with assms have le: "length es \<le> 4" and p: "p = [of_nat (length es)] @ u16_be pt @ addr_block es"
    by (auto simp: gossip_sizes split: if_splits)
  have n: "unat (of_nat (length es) :: u8) = length es" using le by (simp add: unat_small_byte)
  have "read_addrs 81 (length es) ((h @ [of_nat (length es)] @ u16_be pt) @ addr_block es @ g) = es"
    by (rule read_addr_block) (simp add: assms)
  moreover have "slice 79 81 (h @ p @ g) = u16_be pt" using assms(3) by (simp add: p slice_def)
  ultimately show ?thesis using assms(3,4) le n
    by (simp add: decode_payload_def Endpoint gossip_sizes p nth_append)
next
  case (Member n nm st s sg iss i)
  with assms have le: "length nm < 256" and p: "p = u16_be st @ [of_nat (length nm)] @ ascii nm @ octets16 i"
    by (auto simp: gossip_sizes split: if_splits)
  have n: "unat (of_nat (length nm) :: u8) = length nm" using le by (simp add: unat_small_byte)
  have "slice 78 80 (h @ p @ g) = u16_be st" "slice 81 (81 + length nm) (h @ p @ g) = ascii nm"
    "slice (81 + length nm) (97 + length nm) (h @ p @ g) = octets16 i"
    using assms(3) by (simp_all add: p slice_def)
  then show ?thesis using assms le n
    by (simp add: decode_payload_def Member gossip_sizes p nth_append)
next
  case (Revocation n s sg iss)
  with assms show ?thesis by (simp add: decode_payload_def gossip_sizes)
qed

lemma entry_decode_encode:
  assumes ok: "entry_ok verify valid_point e" and enc: "entry_encode e = Inr bs"
  shows "entry_decode verify valid_point bs = Inr e"
proof -
  from enc obtain p where p: "entry_payload e = Inr p" and bs: "bs = entry_head e @ p @ octets64 (entry_sig e)"
    by (auto simp: entry_encode_def signed_region_def and_then_Inr)
  have pay: "decode_payload (entry_kind e) (entry_node e) (entry_signer e) (entry_seq e) bs = Inr (with_sig 0 e)"
    unfolding bs by (rule decode_payload_encode) (use p ok in \<open>simp_all add: entry_ok_def\<close>)
  have f: "slice 0 4 bs = GOSSIP_MAGIC" "bs ! 4 = GOSSIP_VERSION" "bs ! 5 = gossip_kind_as_u8 (entry_kind e)"
    "slice 6 14 bs = u64_be (entry_seq e)" "slice 14 46 bs = octets32 (entry_node e)"
    "slice 46 78 bs = octets32 (entry_signer e)"
    by (simp_all add: bs slice_append_left nth_append entry_head_fields)
  have len: "142 \<le> length bs" by (simp add: bs)
  have sig: "take (length bs - 64) bs = entry_head e @ p" "drop (length bs - 64) bs = octets64 (entry_sig e)"
    by (simp_all add: bs)
  from ok have v: "verify (entry_signer e) (entry_head e @ p) (entry_sig e)"
    by (simp add: entry_ok_def entry_is_valid_def entry_verify_def signed_region_def p)
  from ok have s: "signer_ok e" and vp: "valid_point (entry_node e)" "valid_point (entry_signer e)"
    by (simp_all add: entry_ok_def entry_is_valid_def)
  have sz: "SIG_LEN = 64" "GOSSIP_HEADER_LEN = 78" by (simp_all add: gossip_sizes)
  show ?thesis using len s
    by (simp add: entry_decode_def sz f vp pay sig v pk_from_bytes_def signer_ok_cases Let_def split: if_splits)
qed

lemma decode_payload_Inr:
  assumes "decode_payload kind node signer sq bs = Inr e" and "142 \<le> length bs"
  shows "entry_kind e = kind" "entry_node e = node" "entry_seq e = sq" "name_utf8 e"
    "kind \<noteq> KEndpoint \<Longrightarrow> entry_signer e = signer" "kind = KEndpoint \<Longrightarrow> entry_signer e = node"
  using assms by (auto simp: decode_payload_def Let_def split: gossip_kind.splits if_splits)

lemma decode_payload_bytes:
  assumes "decode_payload kind node signer sq bs = Inr e" and "142 \<le> length bs"
  shows "entry_payload e = Inr (slice 78 (length bs - 64) bs)"
proof (cases kind)
  case KEndpoint
  let ?n = "unat (bs ! 78)"
  from assms(1) KEndpoint have le: "?n \<le> 4" and len: "length bs = 145 + 16 * ?n"
    and e: "e = Endpoint node (read_addrs 81 ?n bs) (from_be_bytes (slice 79 81 bs)) sq 0"
    by (auto simp: decode_payload_def Let_def gossip_sizes split: if_splits)
  have "slice 78 (81 + 16 * ?n) bs = bs ! 78 # slice 79 81 bs @ slice 81 (81 + 16 * ?n) bs"
    using slice_Cons [of 78 bs "81 + 16 * ?n"] slice_split [of 79 81 "81 + 16 * ?n" bs] len by simp
  moreover have "addr_block (read_addrs 81 ?n bs) = slice 81 (81 + 16 * ?n) bs"
    by (rule addr_block_read) (simp add: len)
  moreover have "(of_nat ?n :: u8) = bs ! 78" using le by (simp add: word_unat_eq_iff unat_small_byte)
  moreover have "length bs - 64 = 81 + 16 * ?n" using len by simp
  ultimately show ?thesis using le by (simp add: e gossip_sizes to_from_be len)
next
  case KMember
  let ?n = "unat (bs ! 80)"
  from assms(1) KMember have len: "length bs = 161 + ?n" and u: "utf8_ok (slice 81 (81 + ?n) bs)"
    and e: "e = Member node (str_of_bytes (slice 81 (81 + ?n) bs)) (from_be_bytes (slice 78 80 bs)) sq 0 signer
             (from_be_bytes (slice (81 + ?n) (97 + ?n) bs))"
    by (auto simp: decode_payload_def Let_def gossip_sizes split: if_splits)
  have le: "?n < 256" by (rule unat_byte_lt)
  have "slice 78 (97 + ?n) bs = slice 78 80 bs @ bs ! 80 # slice 81 (81 + ?n) bs @ slice (81 + ?n) (97 + ?n) bs"
    using slice_split [of 78 80 "97 + ?n" bs] slice_Cons [of 80 bs "97 + ?n"]
      slice_split [of 81 "81 + ?n" "97 + ?n" bs] len by simp
  moreover have "(of_nat ?n :: u8) = bs ! 80" using le by (simp add: word_unat_eq_iff unat_small_byte)
  moreover have "length bs - 64 = 97 + ?n" using len by simp
  ultimately show ?thesis using le by (simp add: e gossip_sizes to_from_be len)
next
  case KRevocation
  with assms show ?thesis
    by (auto simp: decode_payload_def Let_def gossip_sizes slice_def split: if_splits)
qed

lemma entry_split:
  "78 \<le> length bs \<Longrightarrow> take 78 bs =
     slice 0 4 bs @ [bs ! 4, bs ! 5] @ slice 6 14 bs @ slice 14 46 bs @ slice 46 78 bs"
  using slice_split [of 0 4 78 bs] slice_Cons [of 4 bs 78] slice_Cons [of 5 bs 78] slice_split [of 6 14 78 bs]
    slice_split [of 14 46 78 bs]
  by (simp add: slice_zero)

lemma entry_decode_Inr:
  assumes "entry_decode verify valid_point bs = Inr e"
  shows "142 \<le> length bs" "slice 0 4 bs = GOSSIP_MAGIC" "bs ! 4 = GOSSIP_VERSION"
    "gossip_kind_from_u8 (bs ! 5) = Inr (entry_kind e)" "entry_seq e = from_be_bytes (slice 6 14 bs)"
    "entry_node e = from_be_bytes (slice 14 46 bs)" "entry_signer e = from_be_bytes (slice 46 78 bs)"
    "entry_sig e = from_be_bytes (drop (length bs - 64) bs)"
    "entry_payload e = Inr (slice 78 (length bs - 64) bs)"
    "verify (entry_signer e) (take (length bs - 64) bs) (entry_sig e)"
    "valid_point (entry_node e)" "valid_point (entry_signer e)" "signer_ok e" "name_utf8 e"
proof -
  have sz: "SIG_LEN = 64" "GOSSIP_HEADER_LEN = 78" by (simp_all add: gossip_sizes)
  from assms obtain kind e0 where len: "142 \<le> length bs" and m: "slice 0 4 bs = GOSSIP_MAGIC" "bs ! 4 = GOSSIP_VERSION"
    and k: "gossip_kind_from_u8 (bs ! 5) = Inr kind"
    and vp: "valid_point (from_be_bytes (slice 14 46 bs))" "valid_point (from_be_bytes (slice 46 78 bs))"
    and pay: "decode_payload kind (from_be_bytes (slice 14 46 bs)) (from_be_bytes (slice 46 78 bs)) (from_be_bytes (slice 6 14 bs)) bs = Inr e0"
    and v: "verify (from_be_bytes (slice 46 78 bs)) (take (length bs - 64) bs) (from_be_bytes (drop (length bs - 64) bs))"
    and c: "kind = KEndpoint \<longrightarrow> from_be_bytes (slice 46 78 bs) = (from_be_bytes (slice 14 46 bs) :: key32)"
      "kind \<noteq> KEndpoint \<longrightarrow> from_be_bytes (slice 46 78 bs) \<noteq> (from_be_bytes (slice 14 46 bs) :: key32)"
    and e: "e = with_sig (from_be_bytes (drop (length bs - 64) bs)) e0"
    by (auto simp: entry_decode_def sz Let_def and_then_Inr pk_from_bytes_def split: if_splits)
  note d = decode_payload_Inr [OF pay len]
  have s: "entry_signer e0 = from_be_bytes (slice 46 78 bs)" using d(5,6) c by (cases "kind = KEndpoint") auto
  show "142 \<le> length bs" "slice 0 4 bs = GOSSIP_MAGIC" "bs ! 4 = GOSSIP_VERSION" by (fact len m)+
  show "gossip_kind_from_u8 (bs ! 5) = Inr (entry_kind e)" "entry_seq e = from_be_bytes (slice 6 14 bs)"
    "entry_node e = from_be_bytes (slice 14 46 bs)" "entry_signer e = from_be_bytes (slice 46 78 bs)"
    "entry_sig e = from_be_bytes (drop (length bs - 64) bs)" "name_utf8 e"
    "verify (entry_signer e) (take (length bs - 64) bs) (entry_sig e)"
    "valid_point (entry_node e)" "valid_point (entry_signer e)"
    using k d s v vp by (simp_all add: e)
  show "entry_payload e = Inr (slice 78 (length bs - 64) bs)"
    using decode_payload_bytes [OF pay len] by (simp add: e)
  show "signer_ok e" using c d s by (simp add: signer_ok_cases e)
qed

lemma entry_decode_region:
  assumes "entry_decode verify valid_point bs = Inr e"
  shows "signed_region e = Inr (take (length bs - 64) bs)"
proof -
  note d = entry_decode_Inr [OF assms]
  have "take 78 bs = entry_head e"
    using entry_split [of bs] d(1-3,5-7) gossip_kind_from_u8_Inr [OF d(4)]
    by (simp add: entry_head_def to_from_be)
  then show ?thesis
    using d(1,9) slice_take_split [of 78 "length bs - 64" bs] by (simp add: signed_region_def)
qed

lemma entry_decode_exact:
  assumes "entry_decode verify valid_point bs = Inr e"
  shows "entry_encode e = Inr bs"
  using entry_decode_region [OF assms] entry_decode_Inr(1,8) [OF assms]
  by (simp add: entry_encode_def to_from_be)

lemma entry_decode_ok:
  assumes "entry_decode verify valid_point bs = Inr e"
  shows "entry_ok verify valid_point e"
  using entry_decode_region [OF assms] entry_decode_Inr(10-14) [OF assms]
  by (simp add: entry_ok_def entry_is_valid_def entry_verify_def)

lemma entry_is_valid_encodes: "entry_is_valid verify e \<Longrightarrow> \<exists>bs. entry_encode e = Inr bs"
  by (auto simp: entry_is_valid_def entry_verify_def entry_encode_def and_then_Inr split: sum.splits)

interpretation gossip_wire: exact_codec entry_encode "entry_decode verify valid_point" "entry_ok verify valid_point"
  for verify valid_point
proof unfold_locales
  fix e :: entry and bs
  show "entry_ok verify valid_point e \<Longrightarrow> \<exists>bs. entry_encode e = Inr bs \<and> entry_decode verify valid_point bs = Inr e"
    using entry_decode_encode entry_is_valid_encodes unfolding entry_ok_def by metis
  assume dec: "entry_decode verify valid_point bs = Inr e"
  show "entry_ok verify valid_point e" by (rule entry_decode_ok [OF dec])
  show "entry_encode e = Inr bs" by (rule entry_decode_exact [OF dec])
  then show "\<exists>body pad. entry_encode e = Inr body \<and> bs = body @ pad" by simp
qed

section \<open>Signed entries are accepted\<close>

lemma sign_entry_ok:
  assumes "sign_entry ops sk e = Inr e'" and "signatures_verify verify valid_point ops"
    and "entry_signer e = sk_public ops sk" and "signer_ok e" and "valid_point (entry_node e)" and "name_utf8 e"
  shows "entry_ok verify valid_point e'"
  using assms
  by (auto simp: sign_entry_def and_then_Inr entry_ok_def entry_is_valid_def entry_verify_def signatures_verify_def)

lemma sign_endpoint_ok:
  "sign_endpoint ops sk es p s = Inr e \<Longrightarrow> signatures_verify verify valid_point ops \<Longrightarrow> entry_ok verify valid_point e"
  by (auto simp: sign_endpoint_def signer_ok_def signatures_verify_def intro!: sign_entry_ok split: if_splits)

lemma sign_endpoint_Inr: "length es \<le> GOSSIP_MAX_ADDRS \<Longrightarrow> \<exists>e. sign_endpoint ops sk es p s = Inr e"
  by (simp add: sign_endpoint_def sign_entry_def signed_region_def)

lemma set_endpoint_addrs:
  "a \<in> set (endpoint_addrs e) \<Longrightarrow> is_usable_endpoint_addr (ip a) \<and> port a \<noteq> 0 \<and> entry_kind e = KEndpoint"
  by (cases e) (auto simp: sock_def split: if_splits)

section \<open>Properties\<close>

text \<open>C22: A datagram decodes to a gossip entry exactly when it is the canonical encoding of that entry, and
  the entry is well signed: endpoints by their own node, members and revocations by somebody else, the
  signature covering the encoded region, both keys valid points, the name valid UTF-8.\<close>

theorem gossip_codec_exact:
  "entry_decode verify valid_point bs = Inr e \<longleftrightarrow> entry_ok verify valid_point e \<and> entry_encode e = Inr bs"
  by (rule gossip_wire.decode_eq_iff)

text \<open>What a node signs about itself is accepted by every other node: an endpoint entry produced by
  \<open>sign_endpoint\<close> encodes, and its encoding decodes to the same entry.\<close>

theorem signed_endpoint_accepted:
  assumes "signatures_verify verify valid_point ops" and "length addrs \<le> GOSSIP_MAX_ADDRS"
  shows "\<exists>e bs. sign_endpoint ops sk addrs p sq = Inr e \<and> entry_encode e = Inr bs \<and>
           entry_decode verify valid_point bs = Inr e"
  using sign_endpoint_Inr [OF assms(2)] sign_endpoint_ok [OF _ assms(1)] gossip_wire.roundtrip by metis

theorem signed_endpoint_accepted_witness:
  "\<exists>e bs. sign_endpoint \<lparr>sk_public = (\<lambda>sk. 7), sk_sign = (\<lambda>sk m. 9)\<rparr> () [1, 2] 4193 5 = Inr e \<and>
     entry_encode e = Inr bs \<and> entry_decode (\<lambda>k m g. k = 7 \<and> g = 9) (\<lambda>k. k = 7) bs = Inr e"
  by (rule signed_endpoint_accepted) (simp_all add: signatures_verify_def GOSSIP_MAX_ADDRS_def)

end
