(* ===== verification/Gossip_Store.thy ===== *)
theory Gossip_Store
  imports Gossip_Entry "HOL-Library.List_Lexorder"
begin

text \<open>
  The gossip table (\<open>crates/core/src/gossip.rs\<close>, lines 483 to 590): one entry per subject and kind,
  the last writer winning, at most \<open>MAX_STORE_ENTRIES\<close> keys. \<open>lww_compare\<close> is interpreted as an
  \<open>lww_order\<close>, which gives the convergence of the table below the cap, and the table as a
  \<open>bounded_table\<close>.
\<close>

datatype ordering = Less | Equal | Greater

definition cmp :: "'a::linorder \<Rightarrow> 'a \<Rightarrow> ordering" where
  "cmp a b = (if a < b then Less else if a = b then Equal else Greater)"

datatype merge_outcome = Applied | Stale | Invalid | Rejected

definition lww_compare :: "entry \<Rightarrow> entry \<Rightarrow> ordering" where
  "lww_compare a b =
     (case cmp (entry_seq a) (entry_seq b) of
        Equal \<Rightarrow> (case (entry_encode a, entry_encode b) of (Inr x, Inr y) \<Rightarrow> cmp y x | _ \<Rightarrow> Equal)
      | other \<Rightarrow> other)"

type_synonym store_key = "public_key \<times> gossip_kind"
type_synonym gossip_store = "(store_key \<times> entry) list"

definition MAX_STORE_ENTRIES :: nat where "MAX_STORE_ENTRIES = 512"

definition store_new :: gossip_store where "store_new = []"

definition entry_key :: "entry \<Rightarrow> store_key" where
  "entry_key e = (entry_node e, entry_kind e)"

definition store_merge :: "verify_fn \<Rightarrow> gossip_store \<Rightarrow> entry \<Rightarrow> gossip_store \<times> merge_outcome" where
  "store_merge verify s e =
     (if \<not> entry_is_valid verify e then (s, Invalid)
      else case hm_get s (entry_key e) of
        Some existing \<Rightarrow>
          if lww_compare e existing \<noteq> Greater then (s, Stale)
          else (hm_insert (entry_key e) e s, Applied)
      | None \<Rightarrow>
          if length s \<ge> MAX_STORE_ENTRIES then (s, Rejected)
          else (hm_insert (entry_key e) e s, Applied))"

definition endpoint_of :: "gossip_store \<Rightarrow> public_key \<Rightarrow> entry option" where
  "endpoint_of s n = hm_get s (n, KEndpoint)"

definition member_of :: "gossip_store \<Rightarrow> public_key \<Rightarrow> entry option" where
  "member_of s n = hm_get s (n, KMember)"

definition is_revoked :: "gossip_store \<Rightarrow> public_key \<Rightarrow> bool" where
  "is_revoked s n \<longleftrightarrow> hm_get s (n, KRevocation) \<noteq> None"

definition store_entries :: "gossip_store \<Rightarrow> entry list" where
  "store_entries s = map snd s"

text \<open>The table after merging a list of entries, in order.\<close>

definition merge_all :: "verify_fn \<Rightarrow> entry list \<Rightarrow> gossip_store" where
  "merge_all verify es = foldl (\<lambda>s e. fst (store_merge verify s e)) store_new es"

section \<open>The last-writer-wins order\<close>

text \<open>\<open>wins a b\<close>: the code replaces a stored \<open>b\<close> by \<open>a\<close>.\<close>

definition wins :: "entry \<Rightarrow> entry \<Rightarrow> bool" where
  "wins a b \<longleftrightarrow> lww_compare a b = Greater"

definition mergeable :: "verify_fn \<Rightarrow> entry \<Rightarrow> bool" where
  "mergeable verify e \<longleftrightarrow> entry_is_valid verify e \<and> name_utf8 e"

lemma cmp_simps [simp]:
  "cmp a b = Greater \<longleftrightarrow> b < a" "cmp a b = Less \<longleftrightarrow> a < b" "cmp a b = Equal \<longleftrightarrow> a = b"
  by (auto simp: cmp_def)

lemma wins_iff:
  assumes "entry_encode a = Inr x" and "entry_encode b = Inr y"
  shows "wins a b \<longleftrightarrow> entry_seq b < entry_seq a \<or> entry_seq a = entry_seq b \<and> x < y"
  using assms by (auto simp: wins_def lww_compare_def split: ordering.splits)

lemma wins_seq: "wins a b \<Longrightarrow> entry_seq b \<le> entry_seq a"
  by (auto simp: wins_def lww_compare_def split: ordering.splits)

lemma mergeable_encodes: "mergeable verify e \<Longrightarrow> \<exists>bs. entry_encode e = Inr bs"
  by (auto simp: mergeable_def intro: entry_is_valid_encodes)

lemma mergeable_inject:
  assumes "mergeable verify a" and "mergeable verify b" and "entry_encode a = entry_encode b"
  shows "a = b"
proof (rule gossip_wire.encode_inject)
  show "entry_ok verify (\<lambda>_. True) a" "entry_ok verify (\<lambda>_. True) b"
    using assms by (simp_all add: mergeable_def entry_ok_def)
qed (rule assms)

interpretation gossip_lww: lww_order entry_key wins "mergeable verify" for verify
proof unfold_locales
  fix a b c :: entry
  show "wins a b \<Longrightarrow> \<not> wins b a"
    by (auto simp: wins_def lww_compare_def split: ordering.splits sum.splits)
  assume v: "mergeable verify a" "mergeable verify b"
  then obtain x y where xy: "entry_encode a = Inr x" "entry_encode b = Inr y"
    using mergeable_encodes by blast
  show "entry_key a = entry_key b \<Longrightarrow> a \<noteq> b \<Longrightarrow> wins a b \<or> wins b a"
    using mergeable_inject [OF v] xy wins_iff [OF xy] wins_iff [OF xy(2) xy(1)]
    by (metis linorder_neqE)
  assume "mergeable verify c"
  then obtain z where z: "entry_encode c = Inr z" using mergeable_encodes by blast
  show "wins a b \<Longrightarrow> wins b c \<Longrightarrow> wins a c"
    using wins_iff [OF xy] wins_iff [OF xy(2) z] wins_iff [OF xy(1) z] by auto
qed

section \<open>The table\<close>

definition store_ok :: "verify_fn \<Rightarrow> gossip_store \<Rightarrow> bool" where
  "store_ok verify s \<longleftrightarrow> hm_ok s \<and> (\<forall>(k, e)\<in>set s. k = entry_key e \<and> entry_is_valid verify e)"

lemma store_ok_get: "store_ok verify s \<Longrightarrow> hm_get s k = Some e \<Longrightarrow> k = entry_key e \<and> entry_is_valid verify e"
  by (auto simp: store_ok_def dest: map_of_SomeD)

lemma store_ok_insert:
  "store_ok verify s \<Longrightarrow> entry_is_valid verify e \<Longrightarrow> store_ok verify (hm_insert (entry_key e) e s)"
  using hm_set_insert [of "entry_key e" e s] by (fastforce simp: store_ok_def)

lemma store_ok_merge: "store_ok verify s \<Longrightarrow> store_ok verify (fst (store_merge verify s e))"
  by (auto simp: store_merge_def store_ok_insert split: option.splits)

lemma store_len_merge:
  "length s \<le> MAX_STORE_ENTRIES \<Longrightarrow> length (fst (store_merge verify s e)) \<le> MAX_STORE_ENTRIES"
  by (auto simp: store_merge_def hm_len_insert split: option.splits)

interpretation gossip_table: bounded_table store_new "\<lambda>s e. fst (store_merge verify s e)" "store_ok verify" length MAX_STORE_ENTRIES
  for verify
  by unfold_locales (auto simp: store_new_def store_ok_merge store_len_merge, simp add: store_ok_def)

text \<open>One merge is one step of the abstract last-writer-wins table, unless the table is full.\<close>

lemma store_merge_abs:
  "hm_get (fst (store_merge verify s e)) =
     (if entry_is_valid verify e \<and> (hm_get s (entry_key e) \<noteq> None \<or> length s < MAX_STORE_ENTRIES)
      then lww_merge entry_key wins (hm_get s) e else hm_get s)"
  by (auto simp: store_merge_def lww_merge_def wins_def update_conv' split: option.splits)

lemma store_merge_keys:
  "fst ` set (fst (store_merge verify s e)) \<subseteq> (if entry_is_valid verify e then {entry_key e} else {}) \<union> fst ` set s"
  by (auto simp: store_merge_def dom_update split: option.splits)

lemma merge_all_snoc: "merge_all verify (es @ [e]) = fst (store_merge verify (merge_all verify es) e)"
  by (simp add: merge_all_def)

lemma merge_all_ok: "store_ok verify (merge_all verify es)"
  using gossip_table.always_ok by (simp add: merge_all_def)

lemma merge_all_keys: "fst ` set (merge_all verify es) \<subseteq> entry_key ` set (filter (entry_is_valid verify) es)"
proof (induction es rule: rev_induct)
  case Nil
  then show ?case by (simp add: merge_all_def store_new_def)
next
  case (snoc e es)
  have "fst ` set (merge_all verify (es @ [e])) \<subseteq>
      (if entry_is_valid verify e then {entry_key e} else {}) \<union> fst ` set (merge_all verify es)"
    unfolding merge_all_snoc by (rule store_merge_keys)
  also have "\<dots> \<subseteq> entry_key ` set (filter (entry_is_valid verify) (es @ [e]))"
    using snoc by (auto split: if_splits)
  finally show ?case .
qed

text \<open>As long as the keys seen fit the cap, the table is the abstract one.\<close>

lemma merge_all_abs:
  assumes "card (entry_key ` set (filter (entry_is_valid verify) es)) \<le> MAX_STORE_ENTRIES"
  shows "hm_get (merge_all verify es) =
     foldl (lww_merge entry_key wins) (\<lambda>_. None) (filter (entry_is_valid verify) es)"
  using assms
proof (induction es rule: rev_induct)
  case Nil
  then show ?case by (simp add: merge_all_def store_new_def)
next
  case (snoc e es)
  let ?K = "\<lambda>xs. entry_key ` set (filter (entry_is_valid verify) xs)"
  let ?s = "merge_all verify es"
  have "card (?K es) \<le> card (?K (es @ [e]))" by (intro card_mono) auto
  with snoc have IH: "hm_get ?s = foldl (lww_merge entry_key wins) (\<lambda>_. None) (filter (entry_is_valid verify) es)"
    by simp
  have "length ?s < MAX_STORE_ENTRIES" if v: "entry_is_valid verify e" and new: "hm_get ?s (entry_key e) = None"
  proof -
    have "insert (entry_key e) (fst ` set ?s) \<subseteq> ?K (es @ [e])"
      using merge_all_keys [of verify es] v by auto
    then have "card (insert (entry_key e) (fst ` set ?s)) \<le> MAX_STORE_ENTRIES"
      using snoc.prems card_mono [of "?K (es @ [e])"] by (meson finite_imageI finite_set le_trans)
    moreover have "entry_key e \<notin> fst ` set ?s" using new by (simp add: map_of_eq_None_iff)
    moreover have "length ?s = card (fst ` set ?s)"
      using merge_all_ok [of verify es] by (simp add: hm_len_keys store_ok_def)
    ultimately show ?thesis by simp
  qed
  then show ?case using IH by (auto simp: merge_all_snoc store_merge_abs)
qed

lemma merge_all_converges:
  assumes "\<forall>e\<in>set es. name_utf8 e" and "set es = set fs"
    and "card (entry_key ` set (filter (entry_is_valid verify) es)) \<le> MAX_STORE_ENTRIES"
  shows "hm_get (merge_all verify es) = hm_get (merge_all verify fs)"
proof -
  have "foldl (lww_merge entry_key wins) (\<lambda>_. None) (filter (entry_is_valid verify) es) =
      foldl (lww_merge entry_key wins) (\<lambda>_. None) (filter (entry_is_valid verify) fs)"
    by (rule gossip_lww.convergence [of _ verify]) (use assms in \<open>auto simp: mergeable_def\<close>)
  then show ?thesis using assms by (simp add: merge_all_abs)
qed

text \<open>A stored sequence number never goes back, and a stored revocation never goes away.\<close>

lemma store_merge_mono:
  assumes "hm_get s k = Some old"
  obtains new where "hm_get (fst (store_merge verify s e)) k = Some new" "entry_seq old \<le> entry_seq new"
proof -
  have "\<exists>new. hm_get (fst (store_merge verify s e)) k = Some new \<and> entry_seq old \<le> entry_seq new"
    using assms by (auto simp: store_merge_abs lww_merge_get dest: wins_seq)
  then show ?thesis using that by blast
qed

lemma store_run_mono:
  "hm_get s k = Some old \<Longrightarrow>
     \<exists>new. hm_get (foldl (\<lambda>s e. fst (store_merge verify s e)) s es) k = Some new \<and> entry_seq old \<le> entry_seq new"
proof (induction es arbitrary: s old)
  case Nil
  then show ?case by simp
next
  case (Cons e es)
  from Cons.prems obtain mid where m: "hm_get (fst (store_merge verify s e)) k = Some mid" "entry_seq old \<le> entry_seq mid"
    by (rule store_merge_mono)
  from Cons.IH [OF m(1)] m(2) show ?case by auto
qed

lemma store_merge_idem:
  assumes "snd (store_merge verify s e) = Applied"
  shows "store_merge verify (fst (store_merge verify s e)) e = (fst (store_merge verify s e), Stale)"
proof -
  have "\<not> wins e e" by (simp add: wins_def lww_compare_def split: ordering.splits sum.splits)
  with assms show ?thesis
    by (auto simp: store_merge_def wins_def hm split: option.splits if_splits)
qed

section \<open>Properties\<close>

text \<open>C3: Gossip converges. Two nodes that have seen the same set of entries, in any order and with any
  repetitions, hold the same table, as long as the valid entries name no more keys than the table
  holds.\<close>

theorem gossip_converges:
  assumes "\<forall>e\<in>set es. name_utf8 e" and "set es = set fs"
    and "card (entry_key ` set (filter (entry_is_valid verify) es)) \<le> MAX_STORE_ENTRIES"
  shows "hm_get (merge_all verify es) = hm_get (merge_all verify fs)"
  by (rule merge_all_converges [OF assms])

theorem gossip_converges_witness:
  "hm_get (merge_all (\<lambda>_ _ _. True) [Endpoint 1 [] 5 7 0, Revocation 1 8 0 2, Endpoint 1 [] 6 8 0]) =
   hm_get (merge_all (\<lambda>_ _ _. True) [Endpoint 1 [] 6 8 0, Endpoint 1 [] 5 7 0, Revocation 1 8 0 2, Endpoint 1 [] 5 7 0])"
  by (rule gossip_converges)
    (auto simp: entry_key_def entry_is_valid_def signer_ok_def entry_verify_def signed_region_def
      MAX_STORE_ENTRIES_def GOSSIP_MAX_ADDRS_def card_insert_if)

text \<open>The gossip table holds at most 512 entries after any sequence of merges, one per node and kind,
  each stored under its own key and each validly signed.\<close>

theorem gossip_table_bounded:
  "length (merge_all verify es) \<le> MAX_STORE_ENTRIES \<and> store_ok verify (merge_all verify es)"
  using gossip_table.never_over_cap merge_all_ok by (simp add: merge_all_def)

text \<open>A node cannot be rolled back: once the table holds an entry for a key, later merges keep an entry
  for it whose sequence number is not smaller. In particular a revocation is never forgotten.\<close>

theorem gossip_no_rollback:
  assumes "hm_get (merge_all verify es) k = Some old"
  shows "\<exists>new. hm_get (merge_all verify (es @ fs)) k = Some new \<and> entry_seq old \<le> entry_seq new"
  using store_run_mono [OF assms, of verify fs] by (simp add: merge_all_def)

theorem gossip_no_rollback_witness:
  "\<exists>new. hm_get (merge_all (\<lambda>_ _ _. True) ([Endpoint 1 [] 5 7 0] @ [Endpoint 1 [] 6 3 0])) (1, KEndpoint) = Some new \<and>
     entry_seq (Endpoint 1 [] 5 7 0) \<le> entry_seq new"
  by (rule gossip_no_rollback)
    (simp add: merge_all_def store_merge_def store_new_def entry_key_def entry_is_valid_def signer_ok_def
      entry_verify_def signed_region_def MAX_STORE_ENTRIES_def GOSSIP_MAX_ADDRS_def)

end
