(* ===== verification/Candidates.thy ===== *)
theory Candidates
  imports Contracts Net_Addr
begin

text \<open>
  Candidate endpoints and the endpoint cache (\<open>crates/engine/src/candidates.rs\<close> and
  \<open>cache.rs\<close>): the list of addresses a peer is tried on, assembled from the cache, the
  rendezvous layers, the configuration and the relay, and the history of endpoints that worked.
\<close>

section \<open>Endpoints and their sources\<close>

definition MAX_CANDIDATES :: nat where "MAX_CANDIDATES = 8"

definition normalize :: "socket_v6 \<Rightarrow> socket_v6" where
  "normalize ep = sock (ip ep) (port ep)"

datatype source = Lan | Gossip | Dht | Ddns

fun source_as_str :: "source \<Rightarrow> string" where
  "source_as_str Lan = ''lan''"
| "source_as_str Gossip = ''gossip''"
| "source_as_str Dht = ''dht''"
| "source_as_str Ddns = ''ddns''"

fun priority :: "source \<Rightarrow> nat" where
  "priority Lan = 0"
| "priority Gossip = 1"
| "priority Dht = 2"
| "priority Ddns = 3"

lemma priority_inject: "priority s = priority t \<longleftrightarrow> s = t"
  by (cases s; cases t) simp_all

text \<open>Sources are ordered by priority, the first tried first.\<close>

instantiation source :: linorder
begin

definition less_eq_source :: "source \<Rightarrow> source \<Rightarrow> bool" where
  "less_eq_source s t \<longleftrightarrow> priority s \<le> priority t"

definition less_source :: "source \<Rightarrow> source \<Rightarrow> bool" where
  "less_source s t \<longleftrightarrow> priority s < priority t"

instance
  by standard (auto simp: less_eq_source_def less_source_def priority_inject)

end

record discovered_endpoints =
  de_source :: source
  peer_key :: string
  endpoints :: "socket_v6 list"

record cached_endpoint =
  endpoint :: socket_v6
  last_seen_unix :: u64

text \<open>\<open>sort_by_key(|c| Reverse(c.last_seen_unix))\<close>: stable, newest first.\<close>

definition newest_first :: "cached_endpoint list \<Rightarrow> cached_endpoint list" where
  "newest_first cs = sort_key (\<lambda>c. - uint (last_seen_unix c)) cs"

section \<open>Building the candidate list\<close>

definition push_unique :: "nat \<Rightarrow> socket_v6 list \<Rightarrow> socket_v6 \<Rightarrow> socket_v6 list" where
  "push_unique cap out ep =
     (let ep = normalize ep in if length out < cap \<and> ep \<notin> set out then out @ [ep] else out)"

record candidate_sources =
  cs_last_good :: "socket_v6 option"
  cs_discovered :: "(source \<times> socket_v6) list"
  cs_configured :: "socket_v6 list"
  cs_cached :: "cached_endpoint list"
  cs_relay :: "socket_v6 option"

definition build_candidates :: "candidate_sources \<Rightarrow> socket_v6 list" where
  "build_candidates s =
     (let direct_cap = MAX_CANDIDATES - (if cs_relay s = None then 0 else 1);
          out0 = (case cs_last_good s of None \<Rightarrow> [] | Some ep \<Rightarrow> push_unique direct_cap [] ep);
          out1 = foldl (\<lambda>out d. push_unique direct_cap out (snd d)) out0 (cs_discovered s);
          out2 = foldl (push_unique direct_cap) out1 (cs_configured s);
          out3 = foldl (\<lambda>out c. push_unique direct_cap out (endpoint c)) out2 (newest_first (cs_cached s))
      in case cs_relay s of None \<Rightarrow> out3 | Some r \<Rightarrow> push_unique MAX_CANDIDATES out3 r)"

section \<open>The endpoint cache\<close>

definition CACHE_VERSION :: u32 where "CACHE_VERSION = 1"
definition CACHE_SEEN_MAX :: nat where "CACHE_SEEN_MAX = 8"

record peer_cache_entry =
  last_good :: "socket_v6 option"
  seen :: "cached_endpoint list"

definition peer_cache_default :: peer_cache_entry where
  "peer_cache_default = \<lparr>last_good = None, seen = []\<rparr>"

record endpoint_cache =
  version :: u32
  peers :: "(string \<times> peer_cache_entry) list"

definition cache_new :: endpoint_cache where
  "cache_new = \<lparr>version = CACHE_VERSION, peers = []\<rparr>"

text \<open>\<open>EndpointCache::load\<close>, given what reading and parsing the file gave.\<close>

datatype io_error = NotFound | OtherIo string

definition cache_load :: "(io_error, endpoint_cache) result \<Rightarrow> endpoint_cache" where
  "cache_load r = (case r of Inr c \<Rightarrow> if version c = CACHE_VERSION then c else cache_new | Inl _ \<Rightarrow> cache_new)"

definition cache_entry :: "endpoint_cache \<Rightarrow> string \<Rightarrow> peer_cache_entry option" where
  "cache_entry c k = hm_get (peers c) k"

fun touch :: "socket_v6 \<Rightarrow> u64 \<Rightarrow> cached_endpoint list \<Rightarrow> cached_endpoint list" where
  "touch ep now [] = [\<lparr>endpoint = ep, last_seen_unix = now\<rparr>]"
| "touch ep now (c # cs) =
     (if endpoint c = ep then c\<lparr>last_seen_unix := now\<rparr> # cs else c # touch ep now cs)"

definition record_good :: "endpoint_cache \<Rightarrow> string \<Rightarrow> socket_v6 \<Rightarrow> u64 \<Rightarrow> endpoint_cache" where
  "record_good c k ep now =
     (let ep = normalize ep;
          e = (case hm_get (peers c) k of None \<Rightarrow> peer_cache_default | Some e \<Rightarrow> e);
          e' = \<lparr>last_good = Some ep, seen = take CACHE_SEEN_MAX (newest_first (touch ep now (seen e)))\<rparr>
      in c\<lparr>peers := hm_insert k e' (peers c)\<rparr>)"

definition evict :: "endpoint_cache \<Rightarrow> string \<Rightarrow> socket_v6 \<Rightarrow> endpoint_cache" where
  "evict c k ep =
     (let ep = normalize ep in
      case hm_get (peers c) k of
        None \<Rightarrow> c
      | Some e \<Rightarrow>
          c\<lparr>peers := hm_insert k
              \<lparr>last_good = (if last_good e = Some ep then None else last_good e),
               seen = filter (\<lambda>s. endpoint s \<noteq> ep) (seen e)\<rparr> (peers c)\<rparr>)"

section \<open>Facts about candidate lists\<close>

lemma normalize_idem [simp]: "normalize (normalize ep) = normalize ep"
  by (simp add: normalize_def sock_def)

text \<open>\<open>push_unique\<close> over a list is the deduplicated list cut at the cap.\<close>

lemma push_unique_all:
  "length out \<le> cap \<Longrightarrow> foldl (push_unique cap) out eps = take cap (dedup_onto out (map normalize eps))"
proof (induction eps arbitrary: out)
  case Nil
  then show ?case by simp
next
  case (Cons e eps)
  show ?case
  proof (cases "length out < cap \<or> normalize e \<in> set out")
    case True
    then show ?thesis using Cons by (auto simp: push_unique_def)
  next
    case False
    then have full: "length out = cap" using Cons.prems by simp
    have cut: "take cap (dedup_onto zs ys) = take cap zs" if "length zs \<ge> cap" for zs ys :: "socket_v6 list"
      using that by (induction zs ys rule: dedup_onto.induct) auto
    have "foldl (push_unique cap) out (e # eps) = take cap (dedup_onto out (map normalize eps))"
      using Cons.IH [OF Cons.prems] full by (simp add: push_unique_def [of cap out e])
    then show ?thesis using full by (simp add: cut)
  qed
qed

text \<open>All direct sources of a peer, in the order they are tried.\<close>

definition direct_sources :: "candidate_sources \<Rightarrow> socket_v6 list" where
  "direct_sources s =
     (case cs_last_good s of None \<Rightarrow> [] | Some ep \<Rightarrow> [ep]) @ map snd (cs_discovered s) @ cs_configured s @
     map endpoint (newest_first (cs_cached s))"

definition direct_cap :: "candidate_sources \<Rightarrow> nat" where
  "direct_cap s = (if cs_relay s = None then MAX_CANDIDATES else MAX_CANDIDATES - 1)"

definition reference_candidates :: "candidate_sources \<Rightarrow> socket_v6 list" where
  "reference_candidates s =
     (let direct = take (direct_cap s) (dedup_onto [] (map normalize (direct_sources s)))
      in case cs_relay s of
           None \<Rightarrow> direct
         | Some r \<Rightarrow> if normalize r \<in> set direct then direct else direct @ [normalize r])"

lemma build_direct:
  "foldl (push_unique (direct_cap s)) [] (direct_sources s) =
     take (direct_cap s) (dedup_onto [] (map normalize (direct_sources s)))"
  by (rule push_unique_all) simp

lemma build_candidates_reference: "build_candidates s = reference_candidates s"
proof -
  have cap: "MAX_CANDIDATES - (if cs_relay s = None then 0 else 1) = direct_cap s"
    by (simp add: direct_cap_def)
  have "build_candidates s =
      (let direct = foldl (push_unique (direct_cap s)) [] (direct_sources s)
       in case cs_relay s of None \<Rightarrow> direct | Some r \<Rightarrow> push_unique MAX_CANDIDATES direct r)"
    unfolding build_candidates_def cap direct_sources_def Let_def
    by (cases "cs_last_good s"; cases "cs_relay s") (simp_all add: foldl_map)
  moreover have "length (take (direct_cap s) xs) < MAX_CANDIDATES" if "cs_relay s = Some r" for r xs
    using that by (simp add: direct_cap_def MAX_CANDIDATES_def min_def)
  ultimately show ?thesis
    by (auto simp: build_direct reference_candidates_def Let_def push_unique_def split: option.splits)
qed

lemma distinct_reference: "distinct (reference_candidates s)"
  by (auto simp: reference_candidates_def Let_def distinct_dedup_onto split: option.splits)

lemma length_reference: "length (reference_candidates s) \<le> MAX_CANDIDATES"
  by (auto simp: reference_candidates_def Let_def direct_cap_def MAX_CANDIDATES_def split: option.splits)

lemma set_reference:
  "c \<in> set (reference_candidates s) \<Longrightarrow>
     (\<exists>ep\<in>set (direct_sources s). c = normalize ep) \<or> (\<exists>r. cs_relay s = Some r \<and> c = normalize r)"
  by (auto simp: reference_candidates_def Let_def dest!: in_set_takeD split: option.splits if_splits)

section \<open>Facts about the cache\<close>

definition seen_ok :: "cached_endpoint list \<Rightarrow> bool" where
  "seen_ok cs \<longleftrightarrow>
     length cs \<le> CACHE_SEEN_MAX \<and> distinct (map endpoint cs) \<and> (\<forall>c\<in>set cs. normalize (endpoint c) = endpoint c) \<and>
     sorted (map (\<lambda>c. - uint (last_seen_unix c)) cs)"

definition cache_ok :: "endpoint_cache \<Rightarrow> bool" where
  "cache_ok c \<longleftrightarrow>
     hm_ok (peers c) \<and>
     (\<forall>(k, e)\<in>set (peers c). seen_ok (seen e) \<and> (\<forall>ep\<in>set_option (last_good e). normalize ep = ep))"

lemma set_newest_first [simp]: "set (newest_first cs) = set cs"
  by (simp add: newest_first_def)

lemma length_newest_first [simp]: "length (newest_first cs) = length cs"
  by (simp add: newest_first_def)

lemma distinct_newest_first: "distinct (map endpoint (newest_first cs)) \<longleftrightarrow> distinct (map endpoint cs)"
  by (simp add: distinct_map newest_first_def)

lemma sorted_newest_first: "sorted (map (\<lambda>c. - uint (last_seen_unix c)) (newest_first cs))"
  by (simp add: newest_first_def)

lemma endpoints_touch: "endpoint ` set (touch ep now cs) = insert ep (endpoint ` set cs)"
  by (induction cs) auto

lemma distinct_touch: "distinct (map endpoint cs) \<Longrightarrow> distinct (map endpoint (touch ep now cs))"
  using endpoints_touch by (induction cs) auto

lemma touch_mem: "\<lparr>endpoint = ep, last_seen_unix = now\<rparr> \<in> set (touch ep now cs)"
proof (induction cs)
  case Nil
  then show ?case by simp
next
  case (Cons c cs)
  then show ?case by (cases c) auto
qed

lemma seen_ok_record:
  assumes "seen_ok cs" and "normalize ep = ep"
  shows "seen_ok (take CACHE_SEEN_MAX (newest_first (touch ep now cs)))"
proof -
  have "distinct (map endpoint (newest_first (touch ep now cs)))"
    using assms by (simp add: distinct_newest_first distinct_touch seen_ok_def)
  moreover have "normalize (endpoint c) = endpoint c" if "c \<in> set (touch ep now cs)" for c
  proof -
    have "endpoint c \<in> insert ep (endpoint ` set cs)" using that endpoints_touch [of ep now cs] by blast
    then show ?thesis using assms by (auto simp: seen_ok_def)
  qed
  ultimately show ?thesis
    using sorted_newest_first [of "touch ep now cs"]
    by (auto simp: seen_ok_def take_map [symmetric] sorted_wrt_take dest: in_set_takeD)
qed

lemma cache_ok_get:
  "cache_ok c \<Longrightarrow> hm_get (peers c) k = Some e \<Longrightarrow> seen_ok (seen e) \<and> (\<forall>ep\<in>set_option (last_good e). normalize ep = ep)"
  by (auto simp: cache_ok_def dest!: map_of_SomeD)

lemma cache_ok_insert:
  assumes "cache_ok c" and "seen_ok (seen e)" and "\<forall>ep\<in>set_option (last_good e). normalize ep = ep"
  shows "cache_ok (c\<lparr>peers := hm_insert k e (peers c)\<rparr>)"
  using assms hm_set_insert [of k e "peers c"] by (fastforce simp: cache_ok_def)

lemma seen_ok_Nil [simp]: "seen_ok []"
  by (simp add: seen_ok_def)

lemma cache_ok_record_good: "cache_ok c \<Longrightarrow> cache_ok (record_good c k ep now)"
  unfolding record_good_def Let_def
  by (rule cache_ok_insert) (auto simp: peer_cache_default_def split: option.split
      intro!: seen_ok_record dest: cache_ok_get simp del: touch.simps)

lemma seen_ok_filter: "seen_ok cs \<Longrightarrow> seen_ok (filter P cs)"
  by (auto simp: seen_ok_def distinct_map_filter sorted_filter intro: le_trans [OF length_filter_le])

lemma cache_ok_evict: "cache_ok c \<Longrightarrow> cache_ok (evict c k ep)"
  by (auto simp: evict_def Let_def split: option.splits intro!: cache_ok_insert seen_ok_filter dest: cache_ok_get)

datatype cache_event = RecordGood string socket_v6 u64 | Evict string socket_v6

fun cache_step :: "endpoint_cache \<Rightarrow> cache_event \<Rightarrow> endpoint_cache" where
  "cache_step c (RecordGood k ep now) = record_good c k ep now"
| "cache_step c (Evict k ep) = evict c k ep"

interpretation cache: machine cache_new cache_step cache_ok
proof unfold_locales
  show "cache_ok cache_new" by (simp add: cache_ok_def cache_new_def)
  show "cache_ok (cache_step c e)" if "cache_ok c" for c e
    using that by (cases e) (simp_all add: cache_ok_record_good cache_ok_evict)
qed

section \<open>Properties\<close>

text \<open>The incremental construction of the candidate list equals its specification: the last good,
  discovered, configured and cached endpoints in that order, normalised and without duplicates, cut so
  that the relay always has a place, which is last.\<close>

theorem build_candidates_spec: "build_candidates s = reference_candidates s"
  by (rule build_candidates_reference)

text \<open>A candidate list has at most eight endpoints, all different; a configured relay is always among
  them, and every other one comes from a direct source.\<close>

theorem build_candidates_bounded:
  "distinct (build_candidates s) \<and> length (build_candidates s) \<le> MAX_CANDIDATES \<and>
   (\<forall>r. cs_relay s = Some r \<longrightarrow> normalize r \<in> set (build_candidates s))"
  using distinct_reference [of s] length_reference [of s]
  by (auto simp: build_candidates_reference) (auto simp: reference_candidates_def Let_def)

theorem build_candidates_bounded_witness:
  "normalize (sock 9 1) \<in> set (build_candidates
     \<lparr>cs_last_good = None, cs_discovered = [], cs_configured = map (\<lambda>i. sock (of_nat i) 1) [1..<12], cs_cached = [],
      cs_relay = Some (sock 9 1)\<rparr>)"
  using build_candidates_bounded [of "\<lparr>cs_last_good = None, cs_discovered = [],
    cs_configured = map (\<lambda>i. sock (of_nat i) 1) [1..<12], cs_cached = [], cs_relay = Some (sock 9 1)\<rparr>"] by simp

text \<open>After any sequence of updates and evictions, the endpoint cache keeps for each peer at most eight
  endpoints, all different and normalised, newest first.\<close>

theorem cache_invariant: "cache_ok (foldl cache_step cache_new es)"
  by (rule cache.inv_reachable)

end
