(* ===== verification/Punch_Fsm.thy ===== *)
theory Punch_Fsm
  imports Candidates
begin

text \<open>
  The hole-punching state machine of one peer (\<open>crates/engine/src/fsm.rs\<close>): it rotates through the
  candidate endpoints while probing and follows the kernel once a handshake is fresh. Each method is
  a function from the machine to the machine and the actions it asks for.
\<close>

definition ROTATE_INTERVAL :: int where "ROTATE_INTERVAL = millis 2500"
definition HANDSHAKE_FRESH :: int where "HANDSHAKE_FRESH = secs 180"

datatype punch_state = Probing (candidate_index: nat) (rounds: u32) | Connected (connected_to: socket_v6)

record observation =
  last_handshake :: "time option"
  kernel_endpoint :: "socket_v6 option"

datatype action = SetEndpoint socket_v6 | Rehandshake socket_v6 | Nudge | MarkGood socket_v6

record peer_fsm =
  candidates :: "socket_v6 list"
  state :: punch_state
  last_transition :: time
  last_rotate :: time

definition handshake_is_fresh :: "time option \<Rightarrow> time \<Rightarrow> bool" where
  "handshake_is_fresh h now =
     (case h of
        None \<Rightarrow> False
      | Some t \<Rightarrow> (case duration_since now t of None \<Rightarrow> True | Some d \<Rightarrow> d < HANDSHAKE_FRESH))"

definition fsm_new :: "socket_v6 list \<Rightarrow> time \<Rightarrow> peer_fsm" where
  "fsm_new cs now =
     \<lparr>candidates = map normalize cs, state = Probing 0 0, last_transition = now, last_rotate = now\<rparr>"

definition current_candidate :: "peer_fsm \<Rightarrow> socket_v6 option" where
  "current_candidate f =
     (case state f of Connected ep \<Rightarrow> Some ep | Probing i _ \<Rightarrow> get (candidates f) i)"

definition kick :: "peer_fsm \<Rightarrow> time \<Rightarrow> peer_fsm \<times> action list" where
  "kick f now =
     (f\<lparr>last_rotate := now\<rparr>,
      case state f of
        Connected _ \<Rightarrow> [Nudge]
      | Probing i _ \<Rightarrow> (case get (candidates f) i of Some ep \<Rightarrow> [SetEndpoint ep, Nudge] | None \<Rightarrow> []))"

text \<open>Where a probing machine points after its list changed: at the first endpoint it did not know, else
  at the one it pointed at, else at the first.\<close>

definition next_index :: "socket_v6 list \<Rightarrow> socket_v6 option \<Rightarrow> socket_v6 list \<Rightarrow> nat" where
  "next_index old previous next =
     (case position (\<lambda>ep. ep \<notin> set old) next of
        Some fresh \<Rightarrow> fresh
      | None \<Rightarrow>
          (case Option.bind previous (\<lambda>ep. position (\<lambda>c. c = ep) next) of Some j \<Rightarrow> j | None \<Rightarrow> 0))"

definition adopt_candidates :: "peer_fsm \<Rightarrow> socket_v6 list \<Rightarrow> time \<Rightarrow> peer_fsm \<times> action list" where
  "adopt_candidates f next now =
     (let old = candidates f; f = f\<lparr>candidates := next\<rparr> in
      if old = next then (f, [])
      else case state f of
        Connected _ \<Rightarrow> (f, [])
      | Probing i r \<Rightarrow>
          if next = [] then (f\<lparr>state := Probing 0 0\<rparr>, [])
          else let previous = get old i;
                   index = next_index old previous next;
                   f = f\<lparr>state := Probing index r\<rparr>;
                   pointed = next ! index
               in if Some pointed = previous then (f, [])
                  else (f\<lparr>last_transition := now, last_rotate := now\<rparr>, [SetEndpoint pointed, Nudge]))"

definition set_candidates :: "peer_fsm \<Rightarrow> socket_v6 list \<Rightarrow> time \<Rightarrow> peer_fsm \<times> action list" where
  "set_candidates f cs now = adopt_candidates f (dedup_onto [] (map normalize cs)) now"

definition retry_from_impl :: "peer_fsm \<Rightarrow> socket_v6 option \<Rightarrow> time \<Rightarrow> bool \<Rightarrow> peer_fsm \<times> action list" where
  "retry_from_impl f avoid now flush =
     (case state f of
        Probing _ _ \<Rightarrow> (f, [])
      | Connected _ \<Rightarrow>
          let avoid = map_option normalize avoid in
          case position (\<lambda>c. Some c \<noteq> avoid) (candidates f) of
            None \<Rightarrow> (f, [])
          | Some index \<Rightarrow>
              let target = candidates f ! index in
              (f\<lparr>state := Probing index 0, last_transition := now, last_rotate := now\<rparr>,
               [if flush then Rehandshake target else SetEndpoint target, Nudge]))"

definition retry_from :: "peer_fsm \<Rightarrow> socket_v6 option \<Rightarrow> time \<Rightarrow> peer_fsm \<times> action list" where
  "retry_from f avoid now = retry_from_impl f avoid now False"

definition retry_from_flush :: "peer_fsm \<Rightarrow> socket_v6 option \<Rightarrow> time \<Rightarrow> peer_fsm \<times> action list" where
  "retry_from_flush f avoid now = retry_from_impl f avoid now True"

text \<open>A handshake counts for the current candidate when it is not older than the last switch, or when
  there is only one candidate it can belong to.\<close>

definition attributable :: "peer_fsm \<Rightarrow> observation \<Rightarrow> bool" where
  "attributable f obs \<longleftrightarrow>
     (case last_handshake obs of None \<Rightarrow> False | Some t \<Rightarrow> t \<ge> last_transition f) \<or> length (candidates f) = 1"

text \<open>The rotation of a probing machine whose interval has passed.\<close>

definition rotate_fsm :: "peer_fsm \<Rightarrow> nat \<Rightarrow> u32 \<Rightarrow> time \<Rightarrow> peer_fsm \<times> action list" where
  "rotate_fsm f i r now =
     (let next = (i + 1) mod length (candidates f);
          r = (if next = 0 then sat_add r 1 else r);
          f = f\<lparr>state := Probing next r, last_rotate := now\<rparr>
      in if next \<noteq> i then (f\<lparr>last_transition := now\<rparr>, [SetEndpoint (candidates f ! next), Nudge])
         else (f, [Nudge]))"

definition tick :: "peer_fsm \<Rightarrow> time \<Rightarrow> observation \<Rightarrow> peer_fsm \<times> action list" where
  "tick f now obs =
     (let fresh = handshake_is_fresh (last_handshake obs) now;
          ke = map_option normalize (kernel_endpoint obs) in
      case state f of
        Probing i r \<Rightarrow>
          if fresh \<and> attributable f obs then
            (case (case ke of Some ep \<Rightarrow> Some ep | None \<Rightarrow> get (candidates f) i) of
               None \<Rightarrow> (f, [])
             | Some ep \<Rightarrow> (f\<lparr>state := Connected ep, last_transition := now\<rparr>, [MarkGood ep]))
          else if candidates f = [] then (f, [])
          else let elapsed = (case duration_since now (last_rotate f) of None \<Rightarrow> 0 | Some d \<Rightarrow> d) in
            if elapsed < ROTATE_INTERVAL then (f, []) else rotate_fsm f i r now
      | Connected ep \<Rightarrow>
          if \<not> fresh then
            (f\<lparr>state := Probing 0 0, last_transition := now, last_rotate := now\<rparr>,
             case candidates f of [] \<Rightarrow> [] | c # _ \<Rightarrow> [SetEndpoint c, Nudge])
          else (case ke of
                  Some k \<Rightarrow> if k \<noteq> ep then (f\<lparr>state := Connected k, last_transition := now\<rparr>, [MarkGood k]) else (f, [])
                | None \<Rightarrow> (f, [])))"

section \<open>Every operation keeps the machine well formed\<close>

text \<open>Candidates are normalized, and a probing machine points at one of them when there is one.\<close>

definition fsm_ok :: "peer_fsm \<Rightarrow> bool" where
  "fsm_ok f \<longleftrightarrow>
     (\<forall>c\<in>set (candidates f). normalize c = c) \<and>
     (case state f of
        Probing i _ \<Rightarrow> (if candidates f = [] then i = 0 else i < length (candidates f))
      | Connected ep \<Rightarrow> normalize ep = ep)"

datatype fsm_event =
    Tick time observation | Kick time | SetCandidates "socket_v6 list" time
  | RetryFrom "socket_v6 option" time | RetryFromFlush "socket_v6 option" time

fun fsm_exec :: "peer_fsm \<Rightarrow> fsm_event \<Rightarrow> peer_fsm \<times> action list" where
  "fsm_exec f (Tick now obs) = tick f now obs"
| "fsm_exec f (Kick now) = kick f now"
| "fsm_exec f (SetCandidates cs now) = set_candidates f cs now"
| "fsm_exec f (RetryFrom avoid now) = retry_from f avoid now"
| "fsm_exec f (RetryFromFlush avoid now) = retry_from_flush f avoid now"

lemma position_less: "position P xs = Some i \<Longrightarrow> i < length xs"
  using position_Some by blast

lemma get_Some: "get xs i = Some x \<longleftrightarrow> i < length xs \<and> xs ! i = x"
  by (auto simp: get_def)

lemma get_None: "get xs i = None \<longleftrightarrow> length xs \<le> i"
  by (auto simp: get_def)

lemma fsm_ok_new: "fsm_ok (fsm_new cs now)"
  by (auto simp: fsm_ok_def fsm_new_def)

lemma fsm_ok_kick: "fsm_ok f \<Longrightarrow> fsm_ok (fst (kick f now))"
  by (simp add: fsm_ok_def kick_def split: punch_state.splits)

lemma fsm_ok_retry: "fsm_ok f \<Longrightarrow> fsm_ok (fst (retry_from_impl f avoid now flush))"
  by (auto simp: fsm_ok_def retry_from_impl_def Let_def split: punch_state.splits option.splits dest: position_less)

lemma next_index_less: "next \<noteq> [] \<Longrightarrow> next_index old previous next < length next"
  by (auto simp: next_index_def bind_eq_Some_conv split: option.splits dest: position_less)

lemma adopt_Connected: "state f = Connected ep \<Longrightarrow> adopt_candidates f next now = (f\<lparr>candidates := next\<rparr>, [])"
  by (simp add: adopt_candidates_def Let_def)

lemma fsm_ok_adopt:
  assumes "fsm_ok f" and "\<forall>c\<in>set next. normalize c = c"
  shows "fsm_ok (fst (adopt_candidates f next now))"
proof (cases "state f")
  case (Connected ep)
  then show ?thesis using assms by (simp add: fsm_ok_def adopt_Connected)
next
  case (Probing i r)
  then show ?thesis using assms next_index_less [of "next" "candidates f" "get (candidates f) i"]
    by (auto simp: fsm_ok_def adopt_candidates_def Let_def)
qed

lemma fsm_ok_set_candidates: "fsm_ok f \<Longrightarrow> fsm_ok (fst (set_candidates f cs now))"
  unfolding set_candidates_def by (rule fsm_ok_adopt) auto

lemma fsm_ok_rotate:
  assumes "fsm_ok f" and "candidates f \<noteq> []"
  shows "fsm_ok (fst (rotate_fsm f i r now))"
proof -
  have lt: "(i + 1) mod length (candidates f) < length (candidates f)" using assms(2) by simp
  obtain n where n: "(i + 1) mod length (candidates f) = n" by blast
  with lt have "n < length (candidates f)" by simp
  then show ?thesis using assms unfolding rotate_fsm_def n by (simp add: fsm_ok_def Let_def)
qed

lemma fsm_ok_tick: "fsm_ok f \<Longrightarrow> fsm_ok (fst (tick f now obs))"
  by (auto simp: tick_def Let_def fsm_ok_rotate split: punch_state.splits option.splits)
     (auto simp: fsm_ok_def get_Some)

lemma fsm_ok_exec: "fsm_ok f \<Longrightarrow> fsm_ok (fst (fsm_exec f e))"
  by (cases e) (simp_all add: fsm_ok_tick fsm_ok_kick fsm_ok_set_candidates retry_from_def retry_from_flush_def fsm_ok_retry)

interpretation punch: machine "fsm_new cs now" "\<lambda>f e. fst (fsm_exec f e)" fsm_ok for cs now
  by unfold_locales (simp_all add: fsm_ok_new fsm_ok_exec)

section \<open>What a peer sees: the abstract connection\<close>

text \<open>
  The contract of the machine without its candidate list and clocks: a peer is searched for or up on
  an endpoint. It comes up only on a fresh handshake, follows the kernel while up, and goes down only
  when the handshake is stale or when a retry asks for it.
\<close>

datatype phase = Searching | Up socket_v6

definition phase_of :: "peer_fsm \<Rightarrow> phase" where
  "phase_of f = (case state f of Probing _ _ \<Rightarrow> Searching | Connected ep \<Rightarrow> Up ep)"

definition search_action :: "action \<Rightarrow> bool" where
  "search_action a \<longleftrightarrow> (case a of SetEndpoint _ \<Rightarrow> True | Nudge \<Rightarrow> True | _ \<Rightarrow> False)"

inductive peer_step :: "phase \<Rightarrow> fsm_event \<Rightarrow> action list \<Rightarrow> phase \<Rightarrow> bool" where
  establish: "handshake_is_fresh (last_handshake obs) now \<Longrightarrow>
    peer_step Searching (Tick now obs) [MarkGood ep] (Up ep)"
| search: "list_all search_action acts \<Longrightarrow> peer_step Searching e acts Searching"
| lose: "\<not> handshake_is_fresh (last_handshake obs) now \<Longrightarrow> list_all search_action acts \<Longrightarrow>
    peer_step (Up ep) (Tick now obs) acts Searching"
| roam: "handshake_is_fresh (last_handshake obs) now \<Longrightarrow> kernel_endpoint obs = Some k \<Longrightarrow> normalize k \<noteq> ep \<Longrightarrow>
    peer_step (Up ep) (Tick now obs) [MarkGood (normalize k)] (Up (normalize k))"
| hold: "acts = [] \<or> acts = [Nudge] \<Longrightarrow> peer_step (Up ep) e acts (Up ep)"
| leave: "Some c \<noteq> map_option normalize avoid \<Longrightarrow>
    peer_step (Up ep) (RetryFrom avoid now) [SetEndpoint c, Nudge] Searching"
| flush: "Some c \<noteq> map_option normalize avoid \<Longrightarrow>
    peer_step (Up ep) (RetryFromFlush avoid now) [Rehandshake c, Nudge] Searching"

inductive_cases peer_step_upE: "peer_step p e acts (Up ep)"
inductive_cases peer_step_downE: "peer_step (Up ep) e acts Searching"

lemma rotate_phase: "phase_of (fst (rotate_fsm f i r now)) = Searching \<and> list_all search_action (snd (rotate_fsm f i r now))"
  by (simp add: rotate_fsm_def phase_of_def search_action_def Let_def)

lemma tick_refines: "peer_step (phase_of f) (Tick now obs) (snd (tick f now obs)) (phase_of (fst (tick f now obs)))"
proof (cases "state f")
  case (Probing i r)
  then have ph: "phase_of f = Searching" by (simp add: phase_of_def)
  show ?thesis
  proof (cases "handshake_is_fresh (last_handshake obs) now \<and> attributable f obs")
    case True
    then show ?thesis unfolding ph
      by (auto simp: tick_def Probing Let_def phase_of_def intro: peer_step.intros split: option.splits)
  next
    case False
    then show ?thesis unfolding ph using rotate_phase [of f i r now]
      by (auto simp: tick_def Probing Let_def phase_of_def intro!: peer_step.search)
  qed
next
  case (Connected ep)
  then show ?thesis
    by (auto simp: tick_def Let_def phase_of_def search_action_def
        intro!: peer_step.intros split: option.splits list.splits)
qed

lemma retry_refines:
  "peer_step (phase_of f) (if flush then RetryFromFlush avoid now else RetryFrom avoid now)
     (snd (retry_from_impl f avoid now flush)) (phase_of (fst (retry_from_impl f avoid now flush)))"
proof (cases "state f")
  case (Probing i r)
  then show ?thesis by (simp add: retry_from_impl_def phase_of_def peer_step.search)
next
  case (Connected ep)
  show ?thesis
  proof (cases "position (\<lambda>c. Some c \<noteq> map_option normalize avoid) (candidates f)")
    case None
    then show ?thesis by (simp add: retry_from_impl_def Connected phase_of_def Let_def peer_step.hold)
  next
    case (Some j)
    from position_Some [OF this] have "Some (candidates f ! j) \<noteq> map_option normalize avoid" by blast
    with Some show ?thesis
      by (simp add: retry_from_impl_def Connected phase_of_def Let_def peer_step.leave peer_step.flush)
  qed
qed

lemma kick_refines: "peer_step (phase_of f) (Kick now) (snd (kick f now)) (phase_of (fst (kick f now)))"
  by (auto simp: kick_def phase_of_def search_action_def intro!: peer_step.search peer_step.hold
      split: punch_state.splits option.splits)

lemma adopt_refines: "peer_step (phase_of f) e (snd (adopt_candidates f next now)) (phase_of (fst (adopt_candidates f next now)))"
proof (cases "state f")
  case (Connected ep)
  then show ?thesis by (simp add: adopt_Connected phase_of_def peer_step.hold)
next
  case (Probing i r)
  then show ?thesis
    by (auto simp: adopt_candidates_def phase_of_def search_action_def Let_def intro!: peer_step.search)
qed

lemma fsm_refines: "peer_step (phase_of f) e (snd (fsm_exec f e)) (phase_of (fst (fsm_exec f e)))"
proof (cases e)
  case (RetryFrom avoid now)
  then show ?thesis using retry_refines [of f False avoid now] by (simp add: retry_from_def)
next
  case (RetryFromFlush avoid now)
  then show ?thesis using retry_refines [of f True avoid now] by (simp add: retry_from_flush_def)
qed (simp_all add: tick_refines kick_refines set_candidates_def adopt_refines)

text \<open>A peer that is up after a run of events saw a fresh handshake during it.\<close>

definition saw_handshake :: "fsm_event list \<Rightarrow> bool" where
  "saw_handshake es \<longleftrightarrow>
     list_ex (\<lambda>e. case e of Tick now obs \<Rightarrow> handshake_is_fresh (last_handshake obs) now | _ \<Rightarrow> False) es"

lemma up_needs_handshake:
  "phase_of f = Searching \<Longrightarrow> phase_of (foldl (\<lambda>f e. fst (fsm_exec f e)) f es) = Up ep \<Longrightarrow> saw_handshake es"
proof (induction es arbitrary: ep rule: rev_induct)
  case Nil
  then show ?case by simp
next
  case (snoc e es)
  let ?f = "foldl (\<lambda>f e. fst (fsm_exec f e)) f es"
  have "peer_step (phase_of ?f) e (snd (fsm_exec ?f e)) (Up ep)"
    using fsm_refines [of ?f e] snoc.prems by simp
  then show ?case
    by (cases rule: peer_step_upE) (use snoc in \<open>auto simp: saw_handshake_def\<close>)
qed

section \<open>Rotation reaches every candidate\<close>

fun run_ticks :: "peer_fsm \<Rightarrow> (time \<times> observation) list \<Rightarrow> peer_fsm \<times> action list" where
  "run_ticks f [] = (f, [])"
| "run_ticks f ((now, obs) # es) =
     (let (f1, as) = tick f now obs; (f2, bs) = run_ticks f1 es in (f2, as @ bs))"

text \<open>Ticks without a fresh handshake, each at least one rotation interval after the one before.\<close>

fun quiet_ticks :: "time \<Rightarrow> (time \<times> observation) list \<Rightarrow> bool" where
  "quiet_ticks t [] \<longleftrightarrow> True"
| "quiet_ticks t ((now, obs) # es) \<longleftrightarrow>
     t + ROTATE_INTERVAL \<le> now \<and> \<not> handshake_is_fresh (last_handshake obs) now \<and> quiet_ticks now es"

lemma tick_quiet:
  assumes "state f = Probing i r" and "candidates f \<noteq> []" and "quiet_ticks (last_rotate f) ((now, obs) # es)"
  shows "tick f now obs = rotate_fsm f i r now"
  using assms by (auto simp: tick_def duration_since_def ROTATE_INTERVAL_def millis_def Let_def)

lemma rotate_fields:
  "candidates (fst (rotate_fsm f i r now)) = candidates f" "last_rotate (fst (rotate_fsm f i r now)) = now"
  "state (fst (rotate_fsm f i r now)) =
     Probing ((i + 1) mod length (candidates f)) (if (i + 1) mod length (candidates f) = 0 then sat_add r 1 else r)"
proof -
  obtain n where n: "(i + 1) mod length (candidates f) = n" by blast
  show "candidates (fst (rotate_fsm f i r now)) = candidates f" "last_rotate (fst (rotate_fsm f i r now)) = now"
    "state (fst (rotate_fsm f i r now)) =
       Probing ((i + 1) mod length (candidates f)) (if (i + 1) mod length (candidates f) = 0 then sat_add r 1 else r)"
    unfolding rotate_fsm_def n by (simp_all add: Let_def)
qed

lemma rotate_points:
  "(i + 1) mod length (candidates f) \<noteq> i \<Longrightarrow>
     SetEndpoint (candidates f ! ((i + 1) mod length (candidates f))) \<in> set (snd (rotate_fsm f i r now))"
  by (simp add: rotate_fsm_def Let_def)

lemma step_div: "i < n \<Longrightarrow> (i + Suc k) div n = ((i + 1) mod n + k) div n + (if (i + 1) mod n = 0 then 1 else 0)"
  for i n k :: nat
  using div_add_self1 [of "Suc i" k] by (cases "i + 1 = n") auto

lemma step_mod: "((i + 1) mod n + k) mod n = (i + Suc k) mod n" for i n k :: nat
  by (metis add.assoc mod_add_left_eq plus_1_eq_Suc)

lemma quiet_run:
  assumes "state f = Probing i r" and "i < length (candidates f)" and "quiet_ticks (last_rotate f) es"
  shows "candidates (fst (run_ticks f es)) = candidates f \<and>
    (\<exists>r'. state (fst (run_ticks f es)) = Probing ((i + length es) mod length (candidates f)) r' \<and>
      unat r' = min (unat r + (i + length es) div length (candidates f)) (2 ^ 32 - 1))"
  using assms
proof (induction es arbitrary: f i r)
  case Nil
  have "unat r < 2 ^ 32" using unsigned_less [of r] by simp
  with Nil show ?case by simp
next
  case (Cons e es)
  obtain now obs where e: "e = (now, obs)" by (cases e) auto
  let ?n = "length (candidates f)" and ?f = "fst (rotate_fsm f i r now)"
  let ?r = "if (i + 1) mod ?n = 0 then sat_add r 1 else r"
  from Cons.prems have tk: "tick f now obs = rotate_fsm f i r now"
    by (intro tick_quiet) (auto simp: e)
  have st: "state ?f = Probing ((i + 1) mod ?n) ?r" "candidates ?f = candidates f" "last_rotate ?f = now"
    by (simp_all add: rotate_fields)
  have lt: "(i + 1) mod ?n < ?n" using Cons.prems(2) by (intro mod_less_divisor) linarith
  have "candidates (fst (run_ticks ?f es)) = candidates ?f \<and>
    (\<exists>r'. state (fst (run_ticks ?f es)) = Probing (((i + 1) mod ?n + length es) mod length (candidates ?f)) r' \<and>
      unat r' = min (unat ?r + ((i + 1) mod ?n + length es) div length (candidates ?f)) (2 ^ 32 - 1))"
    by (rule Cons.IH) (use Cons.prems st lt in \<open>simp_all add: e\<close>)
  then show ?case
    using step_div [OF Cons.prems(2), of "length es"] step_mod [of i ?n "length es"]
    by (auto simp: e tk st split_beta unat_sat_add simp del: mod_Suc_eq)
qed

lemma quiet_run_points:
  assumes "state f = Probing i r" and "i < length (candidates f)" and "2 \<le> length (candidates f)"
    and "quiet_ticks (last_rotate f) es" and "1 \<le> j" and "j \<le> length es"
  shows "SetEndpoint (candidates f ! ((i + j) mod length (candidates f))) \<in> set (snd (run_ticks f es))"
  using assms
proof (induction es arbitrary: f i r j)
  case Nil
  then show ?case by simp
next
  case (Cons e es)
  obtain now obs where e: "e = (now, obs)" by (cases e) auto
  let ?n = "length (candidates f)" and ?f = "fst (rotate_fsm f i r now)"
  from Cons.prems have tk: "tick f now obs = rotate_fsm f i r now"
    by (intro tick_quiet) (auto simp: e)
  have lt: "(i + 1) mod ?n < ?n" using Cons.prems(2) by (intro mod_less_divisor) linarith
  have ne: "(i + 1) mod ?n \<noteq> i"
    using Cons.prems(2,3) by (cases "i + 1 = ?n") auto
  have acts: "snd (run_ticks f (e # es)) = snd (rotate_fsm f i r now) @ snd (run_ticks ?f es)"
    by (simp add: e tk split_beta)
  show ?case
  proof (cases "j = 1")
    case True
    then show ?thesis unfolding acts using rotate_points [OF ne] by simp
  next
    case False
    then obtain k where k: "j = Suc k" "1 \<le> k" using Cons.prems(5) by (cases j) auto
    have "SetEndpoint (candidates ?f ! (((i + 1) mod ?n + k) mod length (candidates ?f))) \<in> set (snd (run_ticks ?f es))"
      using Cons.prems k lt by (intro Cons.IH [OF rotate_fields(3)]) (simp_all add: rotate_fields e)
    then show ?thesis unfolding acts k by (simp only: rotate_fields step_mod set_append Un_iff) simp
  qed
qed

lemma residue_hit: "i < n \<Longrightarrow> m < n \<Longrightarrow> \<exists>j. 1 \<le> j \<and> j \<le> n \<and> (i + j) mod n = m" for i m n :: nat
  by (rule exI [of _ "if i < m then m - i else n - i + m"]) auto

lemma rotation_complete:
  assumes "fsm_ok f" and "state f = Probing i r" and "2 \<le> length (candidates f)"
    and "quiet_ticks (last_rotate f) es" and "length es = length (candidates f)" and "c \<in> set (candidates f)"
  shows "SetEndpoint c \<in> set (snd (run_ticks f es))"
proof -
  have lt: "i < length (candidates f)" using assms(1-3) by (auto simp: fsm_ok_def split: if_splits)
  obtain m where m: "m < length (candidates f)" "c = candidates f ! m"
    using assms(6) by (auto simp: in_set_conv_nth)
  then obtain j where "1 \<le> j" "j \<le> length (candidates f)" "(i + j) mod length (candidates f) = m"
    using residue_hit [OF lt] by blast
  then show ?thesis
    using quiet_run_points [OF assms(2) lt assms(3) assms(4), of j] m assms(5) by simp
qed

section \<open>Endpoints the machine asks for\<close>

fun action_target :: "action \<Rightarrow> socket_v6 option" where
  "action_target (SetEndpoint ep) = Some ep"
| "action_target (Rehandshake ep) = Some ep"
| "action_target Nudge = None"
| "action_target (MarkGood ep) = None"

lemma target_tick:
  assumes "a \<in> set (snd (tick f now obs))" and "action_target a = Some ep"
  shows "ep \<in> set (candidates (fst (tick f now obs)))"
proof (cases "state f")
  case (Connected k)
  then show ?thesis using assms
    by (auto simp: tick_def Let_def split: option.splits list.splits if_splits)
next
  case (Probing i r)
  have lt: "(i + 1) mod length (candidates f) < length (candidates f)" if "candidates f \<noteq> []"
    using that by simp
  show ?thesis using assms Probing lt nth_mem [OF lt]
    by (auto simp: tick_def rotate_fsm_def Let_def split: option.splits if_splits)
qed

lemma target_adopt:
  assumes "a \<in> set (snd (adopt_candidates f next now))" and "action_target a = Some ep"
  shows "ep \<in> set (candidates (fst (adopt_candidates f next now)))"
  using assms next_index_less [of "next"]
  by (auto simp: adopt_candidates_def Let_def split: punch_state.splits if_splits)

lemma target_retry:
  assumes "a \<in> set (snd (retry_from_impl f avoid now fl))" and "action_target a = Some ep"
  shows "ep \<in> set (candidates (fst (retry_from_impl f avoid now fl))) \<and> Some ep \<noteq> map_option normalize avoid"
  using assms
  by (auto simp: retry_from_impl_def Let_def dest!: position_Some split: punch_state.splits option.splits if_splits)

lemma target_kick:
  "a \<in> set (snd (kick f now)) \<Longrightarrow> action_target a = Some ep \<Longrightarrow> ep \<in> set (candidates (fst (kick f now)))"
  by (auto simp: kick_def get_Some split: punch_state.splits option.splits)

lemma target_exec:
  "a \<in> set (snd (fsm_exec f e)) \<Longrightarrow> action_target a = Some ep \<Longrightarrow> ep \<in> set (candidates (fst (fsm_exec f e)))"
  by (cases e) (auto simp: set_candidates_def retry_from_def retry_from_flush_def
      dest: target_tick target_adopt target_kick target_retry)

section \<open>Properties\<close>


text \<open>After any sequence of ticks, kicks, candidate updates and retries, all candidates are normalised
  and a probing machine points inside its list, so no indexing can panic.\<close>

theorem punch_invariant: "fsm_ok (foldl (\<lambda>f e. fst (fsm_exec f e)) (fsm_new cs now) es)"
  by (rule punch.inv_reachable)



text \<open>The number of rounds a probing peer reports is exact: after \<open>k\<close> quiet ticks it has grown by the
  number of times the index wrapped, \<open>(i + k) div n\<close>, saturating at the largest 32-bit value.\<close>

theorem punch_rounds_counted:
  assumes "state f = Probing i r" and "i < length (candidates f)" and "quiet_ticks (last_rotate f) es"
  shows "\<exists>r'. state (fst (run_ticks f es)) = Probing ((i + length es) mod length (candidates f)) r' \<and>
    unat r' = min (unat r + (i + length es) div length (candidates f)) (2 ^ 32 - 1)"
  using quiet_run [OF assms] by blast

theorem punch_rounds_counted_witness:
  "\<exists>r'. state (fst (run_ticks (fsm_new [sock 1 1] 0) [(secs 3, \<lparr>last_handshake = None, kernel_endpoint = None\<rparr>)])) =
      Probing 0 r' \<and> unat r' = 1"
  using punch_rounds_counted [of "fsm_new [sock 1 1] 0" 0 0 "[(secs 3, \<lparr>last_handshake = None, kernel_endpoint = None\<rparr>)]"]
  by (simp add: fsm_new_def handshake_is_fresh_def ROTATE_INTERVAL_def secs_def millis_def)

text \<open>A peer that is reported connected after any run from a new machine has had a fresh handshake
  during that run.\<close>

theorem punch_connected_needs_handshake:
  assumes "state (foldl (\<lambda>f e. fst (fsm_exec f e)) (fsm_new cs now) es) = Connected ep"
  shows "saw_handshake es"
  by (rule up_needs_handshake [of "fsm_new cs now"]) (use assms in \<open>simp_all add: phase_of_def fsm_new_def\<close>)

theorem punch_connected_needs_handshake_witness:
  "saw_handshake [Kick 0, Tick 5 \<lparr>last_handshake = Some 4, kernel_endpoint = None\<rparr>]"
  by (rule punch_connected_needs_handshake [of "[sock 1 1]" 0 _ "sock 1 1"])
    (simp add: fsm_new_def kick_def tick_def Let_def handshake_is_fresh_def duration_since_def HANDSHAKE_FRESH_def
      secs_def attributable_def get_def normalize_def sock_def)

text \<open>The machine never sends a peer anywhere else than to its candidates: an endpoint it sets, with or
  without a session flush, is in the candidate list it then holds.\<close>

theorem punch_targets_candidates:
  assumes "a \<in> set (snd (fsm_exec f e))" and "action_target a = Some ep"
  shows "ep \<in> set (candidates (fst (fsm_exec f e)))"
  by (rule target_exec [OF assms])

theorem punch_targets_candidates_witness:
  "sock 1 1 \<in> set (candidates (fst (fsm_exec (fsm_new [sock 1 1] 0) (Kick 5))))"
  by (rule punch_targets_candidates [of "SetEndpoint (sock 1 1)"])
    (simp_all add: fsm_new_def kick_def get_def normalize_def sock_def)

end
