(* ===== verification/Relay_Server.thy ===== *)
theory Relay_Server
  imports Relay_Frame Candidates
begin

text \<open>
  The relay server (\<open>crates/engine/src/relay_server.rs\<close>): the session table, the per-session packet
  limiter, the control loop \<open>serve\<close> as a step function on the events its \<open>select!\<close> waits for, and
  the forwarding task of a session. A task is known by the channel the control loop keeps the sending
  end of; the control loop and the tasks share nothing else.
\<close>

definition SESSION_TTL :: u64 where "SESSION_TTL = 180"
definition MAX_SESSIONS :: nat where "MAX_SESSIONS = 256"
definition SEQ_SKEW_TOLERANCE_SECS :: u64 where "SEQ_SKEW_TOLERANCE_SECS = 300"
definition MAX_PACKETS_PER_SEC :: u32 where "MAX_PACKETS_PER_SEC = 2000"
definition FORWARD_BUF :: nat where "FORWARD_BUF = 2048"
definition CONTROL_BUF :: nat where "CONTROL_BUF = 256"
definition CHANNEL_CAP :: nat where "CHANNEL_CAP = 4"

datatype relay_policy = AnyMember | Allowlist "key32 list"

definition policy_allows :: "relay_policy \<Rightarrow> key32 \<Rightarrow> bool" where
  "policy_allows p key = (case p of AnyMember \<Rightarrow> True | Allowlist ks \<Rightarrow> key \<in> set ks)"

section \<open>The session table\<close>

type_synonym session_addrs = "socket_v6 option \<times> socket_v6 option"

record session =
  ss_port :: u16
  ss_addrs :: session_addrs
  ss_last_seen :: u64

type_synonym relay_table = "(session_key \<times> session) list"

definition table_insert :: "relay_table \<Rightarrow> session_key \<Rightarrow> u16 \<Rightarrow> u64 \<Rightarrow> relay_table \<times> bool" where
  "table_insert t key p now =
     (if length t \<ge> MAX_SESSIONS then (t, False)
      else (hm_insert key \<lparr>ss_port = p, ss_addrs = (None, None), ss_last_seen = now\<rparr> t, True))"

text \<open>Side \<open>0\<close> is the key that sorts first; \<open>side.min(1)\<close> makes every other index side \<open>1\<close>.\<close>

definition side_addr :: "nat \<Rightarrow> session_addrs \<Rightarrow> socket_v6 option" where
  "side_addr i a = (if i = 0 then fst a else snd a)"

definition set_side :: "nat \<Rightarrow> socket_v6 \<Rightarrow> session_addrs \<Rightarrow> session_addrs" where
  "set_side i ep a = (if i = 0 then (Some ep, snd a) else (fst a, Some ep))"

definition touch_addr :: "relay_table \<Rightarrow> session_key \<Rightarrow> nat \<Rightarrow> socket_v6 \<Rightarrow> u64 \<Rightarrow> relay_table \<times> bool" where
  "touch_addr t key i ep now =
     (case hm_get t key of
        None \<Rightarrow> (t, False)
      | Some s \<Rightarrow>
          if side_addr i (ss_addrs s) = Some ep then (hm_insert key (s\<lparr>ss_last_seen := now\<rparr>) t, False)
          else (hm_insert key (s\<lparr>ss_last_seen := now, ss_addrs := set_side i ep (ss_addrs s)\<rparr>) t, True))"

definition table_addrs :: "relay_table \<Rightarrow> session_key \<Rightarrow> session_addrs" where
  "table_addrs t key = (case hm_get t key of None \<Rightarrow> (None, None) | Some s \<Rightarrow> ss_addrs s)"

definition table_port :: "relay_table \<Rightarrow> session_key \<Rightarrow> u16 option" where
  "table_port t key = map_option ss_port (hm_get t key)"

definition session_stale :: "u64 \<Rightarrow> session \<Rightarrow> bool" where
  "session_stale now s \<longleftrightarrow> sat_sub now (ss_last_seen s) > SESSION_TTL"

definition table_prune :: "relay_table \<Rightarrow> u64 \<Rightarrow> relay_table \<times> session_key list" where
  "table_prune t now =
     (let stale = map fst (filter (\<lambda>(k, s). session_stale now s) t)
      in (foldl (\<lambda>t k. hm_remove k t) t stale, stale))"

section \<open>The packet limiter\<close>

record packet_limiter =
  window_start :: time
  pl_count :: u32
  pl_dropped :: u32

definition limiter_new :: "time \<Rightarrow> packet_limiter" where
  "limiter_new now = \<lparr>window_start = now, pl_count = 0, pl_dropped = 0\<rparr>"

definition limiter_allow :: "packet_limiter \<Rightarrow> time \<Rightarrow> packet_limiter \<times> bool" where
  "limiter_allow l now =
     (let l = (if instant_since now (window_start l) \<ge> secs 1 then limiter_new now else l)
      in if pl_count l \<ge> MAX_PACKETS_PER_SEC then (l\<lparr>pl_dropped := sat_add (pl_dropped l) 1\<rparr>, False)
         else (l\<lparr>pl_count := pl_count l + 1\<rparr>, True))"

section \<open>The forwarding task\<close>

record forward_task =
  ft_addrs :: session_addrs
  ft_queue :: "session_addrs list"
  ft_limiter :: packet_limiter

definition task_new :: "time \<Rightarrow> forward_task" where
  "task_new now = \<lparr>ft_addrs = (None, None), ft_queue = [], ft_limiter = limiter_new now\<rparr>"

text \<open>
  One turn of the task: an address update taken from the channel (the task ends when the channel is
  empty and its sender is gone), or a datagram on the session socket, which may be sent on.
\<close>

definition task_update :: "bool \<Rightarrow> forward_task \<Rightarrow> forward_task option" where
  "task_update sender_alive ft =
     (case ft_queue ft of
        a # q \<Rightarrow> Some (ft\<lparr>ft_addrs := a, ft_queue := q\<rparr>)
      | [] \<Rightarrow> if sender_alive then Some ft else None)"

definition forward_to :: "session_addrs \<Rightarrow> socket_v6 \<Rightarrow> socket_v6 option" where
  "forward_to a from =
     (if Some from = fst a then snd a else if Some from = snd a then fst a else None)"

definition task_recv :: "forward_task \<Rightarrow> socket_addr \<Rightarrow> bytes \<Rightarrow> time \<Rightarrow> forward_task \<times> (bytes \<times> socket_v6) option" where
  "task_recv ft src datagram now =
     (let bs = take FORWARD_BUF datagram in
      case src of
        V4 _ _ \<Rightarrow> (ft, None)
      | V6 src6 \<Rightarrow>
          if is_relay_frame bs then (ft, None)
          else if length bs = FORWARD_BUF then (ft, None)
          else case forward_to (ft_addrs ft) (normalize src6) of
            None \<Rightarrow> (ft, None)
          | Some dst \<Rightarrow>
              let (l, ok) = limiter_allow (ft_limiter ft) now in
              (ft\<lparr>ft_limiter := l\<rparr>, if ok then Some (bs, dst) else None))"

section \<open>The control loop\<close>

text \<open>
  The state of \<open>serve\<close>: the table, the senders it keeps per session (by channel number), and the
  forwarding tasks it has spawned, with the counter that numbers channels.
\<close>

record relay_server =
  sv_table :: relay_table
  sv_senders :: "(session_key \<times> nat) list"
  sv_tasks :: "(nat \<times> forward_task) list"
  sv_next :: nat

definition server_new :: relay_server where
  "server_new = \<lparr>sv_table = [], sv_senders = [], sv_tasks = [], sv_next = 0\<rparr>"

definition drop_senders :: "session_key list \<Rightarrow> relay_server \<Rightarrow> relay_server" where
  "drop_senders ks s = s\<lparr>sv_senders := foldl (\<lambda>m k. hm_remove k m) (sv_senders s) ks\<rparr>"

definition server_prune :: "u64 \<Rightarrow> relay_server \<Rightarrow> relay_server" where
  "server_prune now s = (let (t, stale) = table_prune (sv_table s) now in drop_senders stale (s\<lparr>sv_table := t\<rparr>))"

text \<open>\<open>tx.try_send\<close>: lost when the channel is full or the task has ended.\<close>

definition try_send :: "nat \<Rightarrow> session_addrs \<Rightarrow> (nat \<times> forward_task) list \<Rightarrow> (nat \<times> forward_task) list" where
  "try_send ch a tasks =
     (case hm_get tasks ch of
        None \<Rightarrow> tasks
      | Some ft \<Rightarrow> if length (ft_queue ft) < CHANNEL_CAP then hm_insert ch (ft\<lparr>ft_queue := ft_queue ft @ [a]\<rparr>) tasks else tasks)"

text \<open>
  What the operating system does during a register: \<open>bind\<close> and \<open>local_addr\<close> give the port of the new
  session socket, or fail.
\<close>

definition open_session :: "session_key \<Rightarrow> u64 \<Rightarrow> time \<Rightarrow> u16 option \<Rightarrow> relay_server \<Rightarrow> relay_server option" where
  "open_session key now inst bound s =
     (let s = server_prune now s in
      if length (sv_table s) \<ge> MAX_SESSIONS then None
      else case bound of
        None \<Rightarrow> None
      | Some p \<Rightarrow>
          let (t, ok) = table_insert (sv_table s) key p now in
          if \<not> ok then None
          else Some (s\<lparr>sv_table := t, sv_senders := hm_insert key (sv_next s) (sv_senders s),
                       sv_tasks := hm_insert (sv_next s) (task_new inst) (sv_tasks s), sv_next := sv_next s + 1\<rparr>))"

definition frame_side :: "relay_frame \<Rightarrow> nat" where
  "frame_side f = (if fr_self f \<noteq> fst (frame_session_key f) then 1 else 0)"

definition refresh_session :: "hmac \<Rightarrow> key32 \<Rightarrow> relay_frame \<Rightarrow> socket_v6 \<Rightarrow> u64 \<Rightarrow> relay_server \<Rightarrow> relay_server \<times> (bytes \<times> socket_addr) list" where
  "refresh_session mac relay_key f src now s =
     (let key = frame_session_key f;
          data_addr = normalize (sock (ip src) (fr_port f));
          t = fst (touch_addr (sv_table s) key (frame_side f) data_addr now);
          s = s\<lparr>sv_table := t\<rparr>;
          s = (case hm_get (sv_senders s) key of
                 None \<Rightarrow> s
               | Some ch \<Rightarrow> s\<lparr>sv_tasks := try_send ch (table_addrs t key) (sv_tasks s)\<rparr>);
          ack = \<lparr>fr_kind = RegisterAck, fr_port = (case table_port t key of None \<Rightarrow> 0 | Some p \<Rightarrow> p),
                 fr_seq = now, fr_self = fr_self f, fr_peer = fr_peer f\<rparr>
      in (s, [(relay_encode mac relay_key ack, V6 src)]))"

text \<open>A register frame that finds no session prunes before it looks for room, also when it then fails.\<close>

definition on_register :: "hmac \<Rightarrow> key32 \<Rightarrow> relay_frame \<Rightarrow> socket_v6 \<Rightarrow> u64 \<Rightarrow> time \<Rightarrow> u16 option \<Rightarrow> relay_server \<Rightarrow> relay_server \<times> (bytes \<times> socket_addr) list" where
  "on_register mac relay_key f src now inst bound s =
     (if fr_port f = 0 then (s, [])
      else if hm_get (sv_table s) (frame_session_key f) \<noteq> None then refresh_session mac relay_key f src now s
      else case open_session (frame_session_key f) now inst bound s of
        None \<Rightarrow> (server_prune now s, [])
      | Some s' \<Rightarrow> refresh_session mac relay_key f src now s')"

definition on_unregister :: "relay_frame \<Rightarrow> relay_server \<Rightarrow> relay_server" where
  "on_unregister f s =
     (let key = frame_session_key f in
      if hm_get (sv_table s) key \<noteq> None
      then s\<lparr>sv_table := hm_remove key (sv_table s), sv_senders := hm_remove key (sv_senders s)\<rparr> else s)"

text \<open>The frame of a control datagram that authenticates, is recent and is allowed by the policy.\<close>

definition accept_frame :: "hmac \<Rightarrow> (key32 \<Rightarrow> bool) \<Rightarrow> key32 \<Rightarrow> relay_policy \<Rightarrow> bytes \<Rightarrow> u64 \<Rightarrow> relay_frame option" where
  "accept_frame mac valid_point relay_key policy datagram now =
     (case relay_decode mac valid_point relay_key (take CONTROL_BUF datagram) of
        Inl _ \<Rightarrow> None
      | Inr f \<Rightarrow>
          if abs_diff (fr_seq f) now > SEQ_SKEW_TOLERANCE_SECS then None
          else if \<not> policy_allows policy (fr_self f) then None
          else Some f)"

definition serve_control :: "hmac \<Rightarrow> (key32 \<Rightarrow> bool) \<Rightarrow> key32 \<Rightarrow> relay_policy \<Rightarrow> relay_server \<Rightarrow> socket_addr \<Rightarrow> bytes \<Rightarrow> u64 \<Rightarrow> time \<Rightarrow> u16 option \<Rightarrow> relay_server \<times> (bytes \<times> socket_addr) list" where
  "serve_control mac valid_point relay_key policy s src datagram now inst bound =
     (case src of
        V4 _ _ \<Rightarrow> (s, [])
      | V6 src6 \<Rightarrow>
          (case accept_frame mac valid_point relay_key policy datagram now of
             None \<Rightarrow> (s, [])
           | Some f \<Rightarrow>
               (case fr_kind f of
                  Register \<Rightarrow> on_register mac relay_key f src6 now inst bound s
                | Unregister \<Rightarrow> (on_unregister f s, [])
                | RegisterAck \<Rightarrow> (s, []))))"

text \<open>The turns of the control loop and of the tasks it spawned, in any interleaving.\<close>

datatype relay_event =
    PruneTick u64
  | Control socket_addr bytes u64 time "u16 option"
  | TaskUpdate nat
  | TaskRecv nat socket_addr bytes time
  | TaskFails nat

definition sender_alive :: "relay_server \<Rightarrow> nat \<Rightarrow> bool" where
  "sender_alive s ch \<longleftrightarrow> ch \<in> snd ` set (sv_senders s)"

fun relay_step :: "hmac \<Rightarrow> (key32 \<Rightarrow> bool) \<Rightarrow> key32 \<Rightarrow> relay_policy \<Rightarrow> relay_server \<Rightarrow> relay_event \<Rightarrow> relay_server \<times> (bytes \<times> socket_addr) list" where
  "relay_step mac vp key pol s (PruneTick now) = (server_prune now s, [])"
| "relay_step mac vp key pol s (Control src bs now inst bound) = serve_control mac vp key pol s src bs now inst bound"
| "relay_step mac vp key pol s (TaskUpdate ch) =
     (case hm_get (sv_tasks s) ch of
        None \<Rightarrow> (s, [])
      | Some ft \<Rightarrow>
          (case task_update (sender_alive s ch) ft of
             None \<Rightarrow> (s\<lparr>sv_tasks := hm_remove ch (sv_tasks s)\<rparr>, [])
           | Some ft' \<Rightarrow> (s\<lparr>sv_tasks := hm_insert ch ft' (sv_tasks s)\<rparr>, [])))"
| "relay_step mac vp key pol s (TaskRecv ch src bs now) =
     (case hm_get (sv_tasks s) ch of
        None \<Rightarrow> (s, [])
      | Some ft \<Rightarrow>
          (case task_recv ft src bs now of
             (ft', out) \<Rightarrow>
               (s\<lparr>sv_tasks := hm_insert ch ft' (sv_tasks s)\<rparr>,
                case out of None \<Rightarrow> [] | Some (b, d) \<Rightarrow> [(b, V6 d)])))"
| "relay_step mac vp key pol s (TaskFails ch) = (s\<lparr>sv_tasks := hm_remove ch (sv_tasks s)\<rparr>, [])"

text \<open>The server after a sequence of events.\<close>

definition relay_run :: "hmac \<Rightarrow> (key32 \<Rightarrow> bool) \<Rightarrow> key32 \<Rightarrow> relay_policy \<Rightarrow> relay_server \<Rightarrow> relay_event list \<Rightarrow> relay_server" where
  "relay_run mac vp key pol s es = foldl (\<lambda>s e. fst (relay_step mac vp key pol s e)) s es"

section \<open>The invariant of the server\<close>

text \<open>
  The table is within its cap; a sender is kept exactly for the sessions of the table, each with a
  channel of its own; channel numbers in use are below the counter.
\<close>

definition relay_ok :: "relay_server \<Rightarrow> bool" where
  "relay_ok s \<longleftrightarrow>
     hm_ok (sv_table s) \<and> length (sv_table s) \<le> MAX_SESSIONS \<and>
     hm_ok (sv_senders s) \<and> fst ` set (sv_senders s) = fst ` set (sv_table s) \<and>
     inj_on snd (set (sv_senders s)) \<and> hm_ok (sv_tasks s) \<and>
     (\<forall>(k, ch)\<in>set (sv_senders s). ch < sv_next s) \<and> (\<forall>(ch, ft)\<in>set (sv_tasks s). ch < sv_next s)"

lemma table_prune_get:
  "hm_ok t \<Longrightarrow> hm_get (fst (table_prune t now)) k =
     (case hm_get t k of None \<Rightarrow> None | Some s \<Rightarrow> if session_stale now s then None else Some s)"
proof -
  assume ok: "hm_ok t"
  have "k \<in> set (snd (table_prune t now)) \<longleftrightarrow> (\<exists>s. hm_get t k = Some s \<and> session_stale now s)"
    by (cases k) (auto simp: table_prune_def Let_def hm_get_in_set [OF ok] image_iff)
  then show ?thesis by (auto simp: table_prune_def Let_def hm split: option.splits)
qed

lemma server_prune_fields:
  "sv_table (server_prune now s) = hm_remove_all (snd (table_prune (sv_table s) now)) (sv_table s)"
  "sv_senders (server_prune now s) = hm_remove_all (snd (table_prune (sv_table s) now)) (sv_senders s)"
  "sv_tasks (server_prune now s) = sv_tasks s" "sv_next (server_prune now s) = sv_next s"
  by (simp_all add: server_prune_def table_prune_def drop_senders_def Let_def)

lemma relay_ok_prune: "relay_ok s \<Longrightarrow> relay_ok (server_prune now s)"
  using hm_set_remove_all [of "sv_senders s" "snd (table_prune (sv_table s) now)"]
    hm_len_remove_all_le [of "sv_table s" "snd (table_prune (sv_table s) now)"]
  by (auto simp: relay_ok_def server_prune_fields hm_keys_remove_all intro: inj_on_subset)

lemma inj_on_fresh_channel:
  assumes "inj_on snd (set m)" and "\<forall>(k, ch)\<in>set m. ch < (n :: nat)"
  shows "inj_on snd (set (hm_insert k n m))"
proof (rule inj_onI)
  fix x y assume "x \<in> set (hm_insert k n m)" "y \<in> set (hm_insert k n m)" "snd x = snd y"
  moreover have "set (hm_insert k n m) \<subseteq> insert (k, n) (set m)" by (rule hm_set_insert)
  ultimately have "x = (k, n) \<or> x \<in> set m" "y = (k, n) \<or> y \<in> set m" and eq: "snd x = snd y" by auto
  then show "x = y" using assms inj_onD [OF assms(1) eq] by fastforce
qed

lemma relay_ok_open:
  assumes "relay_ok s" and "open_session key now inst bound s = Some s'"
  shows "relay_ok s'"
proof -
  let ?p = "server_prune now s"
  have ok: "relay_ok ?p" by (rule relay_ok_prune [OF assms(1)])
  from assms(2) obtain p where len: "length (sv_table ?p) < MAX_SESSIONS"
    and s': "s' = ?p\<lparr>sv_table := hm_insert key \<lparr>ss_port = p, ss_addrs = (None, None), ss_last_seen = now\<rparr> (sv_table ?p),
      sv_senders := hm_insert key (sv_next ?p) (sv_senders ?p),
      sv_tasks := hm_insert (sv_next ?p) (task_new inst) (sv_tasks ?p), sv_next := sv_next ?p + 1\<rparr>"
    by (auto simp: open_session_def table_insert_def Let_def split: if_splits option.splits)
  have "inj_on snd (set (hm_insert key (sv_next ?p) (sv_senders ?p)))"
    using ok by (intro inj_on_fresh_channel) (auto simp: relay_ok_def)
  moreover have "\<forall>(k, ch)\<in>set (hm_insert key (sv_next ?p) (sv_senders ?p)). ch < sv_next ?p + 1"
    by (rule hm_ball_insert) (use ok in \<open>auto simp: relay_ok_def\<close>)
  moreover have "\<forall>(ch, ft)\<in>set (hm_insert (sv_next ?p) (task_new inst) (sv_tasks ?p)). ch < sv_next ?p + 1"
    by (rule hm_ball_insert) (use ok in \<open>auto simp: relay_ok_def\<close>)
  ultimately show ?thesis
    using ok len by (simp add: s' relay_ok_def hm_len_insert hm_keys_insert)
qed

lemma touch_addr_keys:
  "hm_ok t \<Longrightarrow> hm_ok (fst (touch_addr t key i ep now))"
  "length (fst (touch_addr t key i ep now)) = length t"
  "fst ` set (fst (touch_addr t key i ep now)) = fst ` set t"
  by (simp_all add: touch_addr_def hm_len_insert hm_keys_replace split: option.splits)

lemma relay_ok_tasks:
  assumes "relay_ok s" and "ch < sv_next s"
  shows "relay_ok (s\<lparr>sv_tasks := hm_insert ch ft (sv_tasks s)\<rparr>)"
proof -
  have "\<forall>(ch, ft)\<in>set (hm_insert ch ft (sv_tasks s)). ch < sv_next s"
    by (rule hm_ball_insert) (use assms in \<open>auto simp: relay_ok_def\<close>)
  then show ?thesis using assms by (simp add: relay_ok_def)
qed

lemma relay_task_lt: "relay_ok s \<Longrightarrow> hm_get (sv_tasks s) ch = Some ft \<Longrightarrow> ch < sv_next s"
  by (auto simp: relay_ok_def dest!: map_of_SomeD)

lemma relay_ok_try_send: "relay_ok s \<Longrightarrow> relay_ok (s\<lparr>sv_tasks := try_send ch a (sv_tasks s)\<rparr>)"
  by (auto simp: try_send_def relay_ok_tasks relay_task_lt split: option.splits)

lemma relay_ok_touch:
  "relay_ok s \<Longrightarrow> relay_ok (s\<lparr>sv_table := fst (touch_addr (sv_table s) key i ep now)\<rparr>)"
  by (simp add: relay_ok_def touch_addr_keys)

lemma relay_ok_refresh: "relay_ok s \<Longrightarrow> relay_ok (fst (refresh_session mac rk f src now s))"
  using relay_ok_try_send [OF relay_ok_touch [of s]] relay_ok_touch [of s]
  by (auto simp: refresh_session_def Let_def split: option.splits)

lemma relay_ok_unregister: "relay_ok s \<Longrightarrow> relay_ok (on_unregister f s)"
proof -
  assume ok: "relay_ok s"
  let ?k = "frame_session_key f"
  have "fst ` set (hm_remove ?k (sv_senders s)) = fst ` set (hm_remove ?k (sv_table s))"
    using ok by (simp add: relay_ok_def hm_keys_remove)
  then show ?thesis
    using ok hm_set_remove [of ?k "sv_senders s"] hm_len_remove_le [of ?k "sv_table s"]
    by (auto simp: relay_ok_def on_unregister_def Let_def intro: inj_on_subset)
qed

lemma relay_ok_control: "relay_ok s \<Longrightarrow> relay_ok (fst (serve_control mac vp rk pol s src bs now inst bound))"
  by (auto simp: serve_control_def on_register_def relay_ok_refresh relay_ok_unregister relay_ok_prune relay_ok_open
      split: socket_addr.splits option.splits relay_kind.splits)

lemma relay_ok_remove_task: "relay_ok s \<Longrightarrow> relay_ok (s\<lparr>sv_tasks := hm_remove ch (sv_tasks s)\<rparr>)"
  using hm_set_remove [of ch "sv_tasks s"] by (auto simp: relay_ok_def)

lemma relay_ok_step: "relay_ok s \<Longrightarrow> relay_ok (fst (relay_step mac vp rk pol s e))"
  by (cases e) (auto simp: relay_ok_prune relay_ok_control relay_ok_remove_task relay_ok_tasks relay_task_lt
      split: option.splits prod.splits)

interpretation relay: machine server_new "\<lambda>s e. fst (relay_step mac valid_point relay_key policy s e)" relay_ok
  for mac valid_point relay_key policy
  by unfold_locales (simp_all add: relay_ok_step, simp add: relay_ok_def server_new_def)

section \<open>What a control datagram can change\<close>

lemma touch_addr_get:
  "hm_get (fst (touch_addr t key i ep now)) k =
     (if k = key then map_option (\<lambda>s. s\<lparr>ss_last_seen := now, ss_addrs := set_side i ep (ss_addrs s)\<rparr>) (hm_get t k)
      else hm_get t k)"
proof -
  have same: "side_addr i a = Some ep \<Longrightarrow> set_side i ep a = a" for a
    by (cases a) (auto simp: side_addr_def set_side_def split: if_splits)
  show ?thesis by (auto simp: touch_addr_def hm same split: option.splits)
qed

lemma refresh_table:
  "hm_get (sv_table (fst (refresh_session mac rk f src now s))) k =
     (if k = frame_session_key f
      then map_option (\<lambda>ss. ss\<lparr>ss_last_seen := now,
             ss_addrs := set_side (frame_side f) (sock (ip src) (fr_port f)) (ss_addrs ss)\<rparr>) (hm_get (sv_table s) k)
      else hm_get (sv_table s) k)"
proof -
  have "normalize (sock a p) = sock a p" for a p by (simp add: normalize_def sock_def)
  then show ?thesis by (simp add: refresh_session_def Let_def touch_addr_get split: option.splits)
qed

lemma open_session_get:
  assumes "relay_ok s" and "open_session key now inst bound s = Some s'"
  shows "\<exists>p. bound = Some p \<and> hm_get (sv_table s') = (hm_get (sv_table (server_prune now s)))
      (key \<mapsto> \<lparr>ss_port = p, ss_addrs = (None, None), ss_last_seen = now\<rparr>)"
    and "hm_get (sv_senders s') key = Some (sv_next s)" and "hm_get (sv_tasks s') (sv_next s) = Some (task_new inst)"
  using assms(2)
  by (auto simp: open_session_def table_insert_def Let_def update_conv' hm server_prune_fields
      split: if_splits option.splits)

lemma server_prune_get:
  "relay_ok s \<Longrightarrow> hm_get (sv_table (server_prune now s)) k =
     (case hm_get (sv_table s) k of None \<Rightarrow> None | Some ss \<Rightarrow> if session_stale now ss then None else Some ss)"
  using table_prune_get [of "sv_table s" now k] by (simp add: server_prune_fields table_prune_def Let_def relay_ok_def)

text \<open>A session appears, or one of its addresses changes, only by a register frame for it.\<close>

lemma register_changes:
  assumes "relay_ok s" and "hm_get (sv_table (fst (on_register mac rk f src now inst bound s))) k = Some ss'"
    and "\<And>ss. hm_get (sv_table s) k = Some ss \<Longrightarrow> ss_addrs ss \<noteq> ss_addrs ss'"
  shows "k = frame_session_key f \<and> fr_port f \<noteq> 0"
proof (rule ccontr)
  assume "\<not> (k = frame_session_key f \<and> fr_port f \<noteq> 0)"
  then consider "fr_port f = 0" | "k \<noteq> frame_session_key f" by blast
  then show False
  proof cases
    case 1
    with assms show False by (auto simp: on_register_def)
  next
    case 2
    have "hm_get (sv_table s'') k = hm_get (sv_table (server_prune now s)) k"
      if "open_session (frame_session_key f) now inst bound s = Some s''" for s''
      using open_session_get(1) [OF assms(1) that] 2 by auto
    with 2 assms server_prune_get [OF assms(1), of now k] show False
      by (auto simp: on_register_def refresh_table split: if_splits option.splits)
  qed
qed

lemma accept_frame_Some:
  assumes "accept_frame mac vp rk pol bs now = Some f"
  shows "\<exists>pad. take CONTROL_BUF bs = relay_encode mac rk f @ pad" and "frame_valid vp f"
    and "policy_allows pol (fr_self f)" and "abs_diff (fr_seq f) now \<le> SEQ_SKEW_TOLERANCE_SECS"
proof -
  from assms have dec: "relay_decode mac vp rk (take CONTROL_BUF bs) = Inr f"
    and "policy_allows pol (fr_self f)" "abs_diff (fr_seq f) now \<le> SEQ_SKEW_TOLERANCE_SECS"
    by (auto simp: accept_frame_def split: sum.splits if_splits)
  then show "policy_allows pol (fr_self f)" "abs_diff (fr_seq f) now \<le> SEQ_SKEW_TOLERANCE_SECS" by simp_all
  show "\<exists>pad. take CONTROL_BUF bs = relay_encode mac rk f @ pad" using relay_decode_canonical [OF dec] by blast
  show "frame_valid vp f" by (rule relay_decode_Inr(10) [OF dec])
qed

lemma prune_changes_nothing_new:
  "relay_ok s \<Longrightarrow> hm_get (sv_table (server_prune now s)) k = Some ss \<Longrightarrow> hm_get (sv_table s) k = Some ss"
  by (auto simp: server_prune_get split: option.splits if_splits)

lemma session_changes:
  assumes "relay_ok s" and "hm_get (sv_table (fst (relay_step mac vp rk pol s e))) k = Some ss'"
    and "\<And>ss. hm_get (sv_table s) k = Some ss \<Longrightarrow> ss_addrs ss \<noteq> ss_addrs ss'"
  shows "\<exists>src bs now inst bound f.
    e = Control (V6 src) bs now inst bound \<and> accept_frame mac vp rk pol bs now = Some f \<and>
    fr_kind f = Register \<and> frame_session_key f = k"
proof (cases e)
  case (PruneTick now)
  with assms prune_changes_nothing_new [OF assms(1)] show ?thesis by fastforce
next
  case (Control src bs now inst bound)
  show ?thesis
  proof (cases src)
    case (V4 a p)
    with assms Control show ?thesis by (auto simp: serve_control_def)
  next
    case (V6 src6)
    show ?thesis
    proof (cases "accept_frame mac vp rk pol bs now")
      case None
      with assms Control V6 show ?thesis by (auto simp: serve_control_def)
    next
      case (Some f)
      have "hm_get (sv_table (on_unregister f s)) k = Some ss' \<Longrightarrow> hm_get (sv_table s) k = Some ss'"
        by (auto simp: on_unregister_def Let_def hm split: if_splits)
      then show ?thesis using assms Control V6 Some register_changes [OF assms(1), of mac rk f src6 now inst bound k ss']
        by (cases "fr_kind f") (auto simp: serve_control_def)
    qed
  qed
qed (use assms in \<open>auto split: option.splits prod.splits\<close>)

section \<open>Two registered peers are connected\<close>

lemma refresh_sender:
  assumes "hm_get (sv_table s) (frame_session_key f) = Some ss" and "hm_get (sv_senders s) (frame_session_key f) = Some ch"
    and "hm_get (sv_tasks s) ch = Some ft" and "length (ft_queue ft) < CHANNEL_CAP"
  shows "hm_get (sv_tasks (fst (refresh_session mac rk f src now s))) ch =
      Some (ft\<lparr>ft_queue := ft_queue ft @ [set_side (frame_side f) (sock (ip src) (fr_port f)) (ss_addrs ss)]\<rparr>)"
    and "sv_senders (fst (refresh_session mac rk f src now s)) = sv_senders s"
proof -
  have "normalize (sock a p) = sock a p" for a p by (simp add: normalize_def sock_def)
  with assms show "hm_get (sv_tasks (fst (refresh_session mac rk f src now s))) ch =
      Some (ft\<lparr>ft_queue := ft_queue ft @ [set_side (frame_side f) (sock (ip src) (fr_port f)) (ss_addrs ss)]\<rparr>)"
    "sv_senders (fst (refresh_session mac rk f src now s)) = sv_senders s"
    by (simp_all add: refresh_session_def Let_def try_send_def table_addrs_def touch_addr_get hm)
qed

lemma frame_sides:
  assumes "fr_self g = fr_peer f" and "fr_peer g = fr_self f" and "fr_self f \<noteq> fr_peer f"
  shows "frame_session_key g = frame_session_key f" and "frame_side g \<noteq> frame_side f"
    and "frame_side f \<le> 1" and "frame_side g \<le> 1"
proof -
  show key: "frame_session_key g = frame_session_key f"
    using assms by (simp add: frame_session_key_def session_key_of_commute)
  have "fst (frame_session_key f) = fr_self f \<or> fst (frame_session_key f) = fr_peer f"
    by (simp add: frame_session_key_def session_key_of_def)
  then show "frame_side g \<noteq> frame_side f"
    by (rule disjE) (simp_all add: frame_side_def key assms assms(3) [symmetric])
  show "frame_side f \<le> 1" "frame_side g \<le> 1" by (simp_all add: frame_side_def)
qed

text \<open>What a session looks like to the control loop and to its task, on one channel.\<close>

definition session_view :: "relay_server \<Rightarrow> session_key \<Rightarrow> nat \<Rightarrow> session_addrs \<Rightarrow> session_addrs list \<Rightarrow> session_addrs \<Rightarrow> bool" where
  "session_view s key ch addrs queue task_addrs \<longleftrightarrow>
     map_option ss_addrs (hm_get (sv_table s) key) = Some addrs \<and> hm_get (sv_senders s) key = Some ch \<and>
     map_option (\<lambda>ft. (ft_queue ft, ft_addrs ft, pl_count (ft_limiter ft))) (hm_get (sv_tasks s) ch) =
       Some (queue, task_addrs, 0)"

lemma register_opens:
  assumes "relay_ok s" and "accept_frame mac vp rk pol bs now = Some f" and "fr_kind f = Register" and "fr_port f \<noteq> 0"
    and "hm_get (sv_table s) (frame_session_key f) = None" and "length (sv_table (server_prune now s)) < MAX_SESSIONS"
  shows "let a = set_side (frame_side f) (sock (ip src) (fr_port f)) (None, None) in
    session_view (fst (relay_step mac vp rk pol s (Control (V6 src) bs now inst (Some p)))) (frame_session_key f)
      (sv_next s) a [a] (None, None)"
proof -
  obtain s' where o: "open_session (frame_session_key f) now inst (Some p) s = Some s'"
    using assms(6) by (auto simp: open_session_def table_insert_def Let_def)
  note g = open_session_get [OF assms(1) o]
  have t: "hm_get (sv_table s') (frame_session_key f) = Some \<lparr>ss_port = p, ss_addrs = (None, None), ss_last_seen = now\<rparr>"
    using g(1) by auto
  have "length (ft_queue (task_new inst)) < CHANNEL_CAP" by (simp add: task_new_def CHANNEL_CAP_def)
  note r = refresh_sender [OF t g(2) g(3) this]
  show ?thesis using assms o t
    by (simp add: serve_control_def on_register_def session_view_def Let_def refresh_table r g task_new_def limiter_new_def)
qed

lemma register_refreshes:
  assumes "accept_frame mac vp rk pol bs now = Some f" and "fr_kind f = Register" and "fr_port f \<noteq> 0"
    and "session_view s (frame_session_key f) ch addrs queue ta" and "length queue < CHANNEL_CAP"
  shows "let a = set_side (frame_side f) (sock (ip src) (fr_port f)) addrs in
    session_view (fst (relay_step mac vp rk pol s (Control (V6 src) bs now inst bound))) (frame_session_key f) ch a (queue @ [a]) ta"
proof -
  from assms(4) obtain ss ft where t: "hm_get (sv_table s) (frame_session_key f) = Some ss" "ss_addrs ss = addrs"
    and c: "hm_get (sv_senders s) (frame_session_key f) = Some ch" and ft: "hm_get (sv_tasks s) ch = Some ft"
    "ft_queue ft = queue" "ft_addrs ft = ta" "pl_count (ft_limiter ft) = 0"
    by (auto simp: session_view_def)
  have "length (ft_queue ft) < CHANNEL_CAP" using ft assms(5) by simp
  note r = refresh_sender [OF t(1) c ft(1) this]
  show ?thesis using assms(1-3) t ft c
    by (simp add: serve_control_def on_register_def session_view_def Let_def refresh_table r)
qed

lemma task_takes_update:
  "session_view s key ch addrs (a # queue) ta \<Longrightarrow>
     session_view (fst (relay_step mac vp rk pol s (TaskUpdate ch))) key ch addrs queue a"
  by (auto simp: session_view_def task_update_def hm split: option.splits)

lemma task_forwards:
  assumes "session_view s key ch addrs queue (Some a, Some b)" and "\<not> is_relay_frame bs"
    and "length bs < FORWARD_BUF"
  shows "normalize x = a \<Longrightarrow> snd (relay_step mac vp rk pol s (TaskRecv ch (V6 x) bs now)) = [(bs, V6 b)]"
    and "normalize x = b \<Longrightarrow> a \<noteq> b \<Longrightarrow> snd (relay_step mac vp rk pol s (TaskRecv ch (V6 x) bs now)) = [(bs, V6 a)]"
  using assms
  by (auto simp: session_view_def task_recv_def forward_to_def limiter_allow_def limiter_new_def
      MAX_PACKETS_PER_SEC_def Let_def split: option.splits prod.splits)

lemma pair_forwards:
  assumes "session_view s key ch addrs queue ta" and "ta \<in> {(Some a, Some b), (Some b, Some a)}" and "a \<noteq> b"
    and "\<not> is_relay_frame bs" and "length bs < FORWARD_BUF" and "normalize a = a"
  shows "snd (relay_step mac vp rk pol s (TaskRecv ch (V6 a) bs now)) = [(bs, V6 b)]"
proof -
  consider "ta = (Some a, Some b)" | "ta = (Some b, Some a)" using assms(2) by blast
  then show ?thesis
  proof cases
    case 1
    show ?thesis by (rule task_forwards(1) [OF assms(1) [unfolded 1] assms(4,5,6)])
  next
    case 2
    show ?thesis by (rule task_forwards(2) [OF assms(1) [unfolded 2] assms(4,5,6) assms(3) [symmetric]])
  qed
qed

text \<open>
  The whole handshake: two register frames for the same pair, then the task takes both updates. The
  first side to register may be either side of the session key.
\<close>

definition meeting :: "relay_frame \<Rightarrow> relay_frame \<Rightarrow> bool" where
  "meeting f g \<longleftrightarrow> fr_kind f = Register \<and> fr_kind g = Register \<and> fr_port f \<noteq> 0 \<and> fr_port g \<noteq> 0 \<and>
     fr_self g = fr_peer f \<and> fr_peer g = fr_self f \<and> fr_self f \<noteq> fr_peer f"

lemma sides_meet:
  assumes "meeting f g"
  shows "set_side (frame_side g) y (set_side (frame_side f) x (None, None)) \<in> {(Some x, Some y), (Some y, Some x)}"
  using assms frame_sides [of g f] by (auto simp: meeting_def set_side_def)

lemma two_registers_connect:
  assumes "relay_ok s" and "meeting f g"
    and "accept_frame mac vp rk pol bf now1 = Some f" and "accept_frame mac vp rk pol bg now2 = Some g"
    and "hm_get (sv_table s) (frame_session_key f) = None" and "length (sv_table (server_prune now1 s)) < MAX_SESSIONS"
  shows "\<exists>addrs. session_view (relay_run mac vp rk pol s
      [Control (V6 src1) bf now1 inst1 (Some p), Control (V6 src2) bg now2 inst2 bound, TaskUpdate (sv_next s), TaskUpdate (sv_next s)])
      (frame_session_key f) (sv_next s) addrs [] addrs \<and>
    addrs \<in> {(Some (sock (ip src1) (fr_port f)), Some (sock (ip src2) (fr_port g))),
              (Some (sock (ip src2) (fr_port g)), Some (sock (ip src1) (fr_port f)))}"
proof -
  have kinds: "fr_kind f = Register" "fr_port f \<noteq> 0" "fr_kind g = Register" "fr_port g \<noteq> 0"
    using assms(2) by (simp_all add: meeting_def)
  have key: "frame_session_key g = frame_session_key f" using assms(2) frame_sides(1) [of g f] by (simp add: meeting_def)
  let ?s1 = "fst (relay_step mac vp rk pol s (Control (V6 src1) bf now1 inst1 (Some p)))"
  let ?s2 = "fst (relay_step mac vp rk pol ?s1 (Control (V6 src2) bg now2 inst2 bound))"
  let ?a1 = "set_side (frame_side f) (sock (ip src1) (fr_port f)) (None, None)"
  let ?a2 = "set_side (frame_side g) (sock (ip src2) (fr_port g)) ?a1"
  have "session_view ?s1 (frame_session_key f) (sv_next s) ?a1 [?a1] (None, None)"
    using register_opens [OF assms(1,3) kinds(1,2) assms(5,6), of src1 inst1 p] by (simp add: Let_def)
  then have "session_view ?s1 (frame_session_key g) (sv_next s) ?a1 [?a1] (None, None)" by (simp only: key)
  from register_refreshes [OF assms(4) kinds(3,4) this, of src2 inst2 bound]
  have "session_view ?s2 (frame_session_key f) (sv_next s) ?a2 ([?a1] @ [?a2]) (None, None)"
    by (simp add: Let_def CHANNEL_CAP_def key)
  then have "session_view ?s2 (frame_session_key f) (sv_next s) ?a2 [?a1, ?a2] (None, None)" by simp
  note u1 = task_takes_update [OF this, of mac vp rk pol]
  note u2 = task_takes_update [OF u1, of mac vp rk pol]
  show ?thesis unfolding relay_run_def foldl_Cons foldl_Nil using u2 sides_meet [OF assms(2)] by blast
qed

section \<open>The rate limit\<close>

fun run_limiter :: "packet_limiter \<Rightarrow> time list \<Rightarrow> packet_limiter \<times> nat" where
  "run_limiter l [] = (l, 0)"
| "run_limiter l (t # ts) =
     (let (l1, ok) = limiter_allow l t; (l2, n) = run_limiter l1 ts in (l2, n + (if ok then 1 else 0)))"

definition limiter_ok :: "packet_limiter \<Rightarrow> bool" where
  "limiter_ok l \<longleftrightarrow> pl_count l \<le> MAX_PACKETS_PER_SEC"

lemma unat_count_Suc: "(c :: u32) < 2000 \<Longrightarrow> unat (c + 1) = unat c + 1"
proof -
  assume "c < 2000"
  then have lt: "unat c < 2000" by (simp add: word_less_nat_alt)
  have "unat (c + 1) = (unat c + unat (1 :: u32)) mod 2 ^ 32" by (simp add: unat_word_ariths)
  with lt show ?thesis by simp
qed

text \<open>
  In a run of non-decreasing times that ends before \<open>k\<close> seconds after the window started, each
  further second lets at most the limit through, and the current window what is left of it.
\<close>

lemma run_limiter_bound:
  assumes "limiter_ok l" and "sorted (window_start l # ts)" and "\<forall>t\<in>set ts. t < window_start l + secs (int k + 1)"
  shows "snd (run_limiter l ts) + unat (pl_count l) \<le> 2000 * (k + 1)"
  using assms
proof (induction ts arbitrary: l k)
  case Nil
  then show ?case by (simp add: limiter_ok_def MAX_PACKETS_PER_SEC_def word_le_nat_alt)
next
  case (Cons t ts)
  have c: "unat (pl_count l) \<le> 2000" using Cons.prems(1) by (simp add: limiter_ok_def MAX_PACKETS_PER_SEC_def word_le_nat_alt)
  show ?case
  proof (cases "t - window_start l \<ge> secs 1")
    case new: True
    then obtain j where k: "k = Suc j" using Cons.prems(3) by (cases k) (auto simp: secs_def)
    let ?l = "\<lparr>window_start = t, pl_count = 1, pl_dropped = 0\<rparr>"
    have a: "limiter_allow l t = (?l, True)"
      using new Cons.prems(2) by (simp add: limiter_allow_def limiter_new_def instant_since_def MAX_PACKETS_PER_SEC_def)
    have "limiter_ok ?l" by (simp add: limiter_ok_def MAX_PACKETS_PER_SEC_def word_le_nat_alt)
    then have "snd (run_limiter ?l ts) + unat (pl_count ?l) \<le> 2000 * (j + 1)"
      by (rule Cons.IH) (use Cons.prems new k in \<open>auto simp: secs_def algebra_simps\<close>)
    then show ?thesis using c by (simp add: a k split_beta)
  next
    case False
    then have w: "\<not> instant_since t (window_start l) \<ge> secs 1" using Cons.prems(2) by (simp add: instant_since_def)
    show ?thesis
    proof (cases "pl_count l \<ge> 2000")
      case True
      then have a: "limiter_allow l t = (l\<lparr>pl_dropped := sat_add (pl_dropped l) 1\<rparr>, False)"
        using w by (simp add: limiter_allow_def MAX_PACKETS_PER_SEC_def)
      have "snd (run_limiter (l\<lparr>pl_dropped := sat_add (pl_dropped l) 1\<rparr>) ts) + unat (pl_count l) \<le> 2000 * (k + 1)"
        using Cons.IH [of "l\<lparr>pl_dropped := sat_add (pl_dropped l) 1\<rparr>" k] Cons.prems by (auto simp: limiter_ok_def)
      then show ?thesis by (simp add: a split_beta)
    next
      case lt: False
      then have a: "limiter_allow l t = (l\<lparr>pl_count := pl_count l + 1\<rparr>, True)"
        using w by (simp add: limiter_allow_def MAX_PACKETS_PER_SEC_def)
      have u: "unat (pl_count l + 1) = unat (pl_count l) + 1" using lt by (intro unat_count_Suc) simp
      have "limiter_ok (l\<lparr>pl_count := pl_count l + 1\<rparr>)"
        using lt u by (simp add: limiter_ok_def MAX_PACKETS_PER_SEC_def word_le_nat_alt)
      then have "snd (run_limiter (l\<lparr>pl_count := pl_count l + 1\<rparr>) ts) + unat (pl_count l + 1) \<le> 2000 * (k + 1)"
        using Cons.IH [of "l\<lparr>pl_count := pl_count l + 1\<rparr>" k] Cons.prems by auto
      then show ?thesis using u by (simp add: a split_beta)
    qed
  qed
qed

section \<open>Properties\<close>

text \<open>C28: In every interleaving of prunes, control datagrams and forwarding turns, the relay holds at most
  256 sessions, keeps a sender exactly for each session of its table, and no two sessions share a
  forwarding task.\<close>

theorem relay_invariant: "relay_ok (relay_run mac valid_point key policy server_new es)"
  unfolding relay_run_def by (rule relay.inv_reachable)

text \<open>C5: A relay session appears, or one of its data addresses changes, only through a control datagram
  that is the encoding under the relay key of a register frame for that session, sent within the clock
  tolerance by a key the policy allows.\<close>

theorem relay_sessions_authenticated:
  assumes "relay_ok s" and "hm_get (sv_table (fst (relay_step mac vp key pol s e))) k = Some ss'"
    and "\<And>ss. hm_get (sv_table s) k = Some ss \<Longrightarrow> ss_addrs ss \<noteq> ss_addrs ss'"
  shows "\<exists>src bs now inst bound f pad.
    e = Control (V6 src) bs now inst bound \<and> take CONTROL_BUF bs = relay_encode mac key f @ pad \<and>
    fr_kind f = Register \<and> frame_session_key f = k \<and> policy_allows pol (fr_self f) \<and>
    abs_diff (fr_seq f) now \<le> SEQ_SKEW_TOLERANCE_SECS"
  using session_changes [OF assms] accept_frame_Some by metis

theorem relay_sessions_authenticated_witness:
  "\<exists>src bs now inst bound f pad.
    Control (V6 (sock 5 6)) (relay_encode (\<lambda>_ _. 0) 0 \<lparr>fr_kind = Register, fr_port = 9, fr_seq = 0, fr_self = 1, fr_peer = 2\<rparr>) 0 0 (Some 7) =
      Control (V6 src) bs now inst bound \<and> take CONTROL_BUF bs = relay_encode (\<lambda>_ _. 0) 0 f @ pad \<and>
    fr_kind f = Register \<and> frame_session_key f = session_key_of 1 2 \<and> policy_allows AnyMember (fr_self f) \<and>
    abs_diff (fr_seq f) now \<le> SEQ_SKEW_TOLERANCE_SECS"
proof -
  let ?f = "\<lparr>fr_kind = Register, fr_port = 9, fr_seq = 0, fr_self = 1, fr_peer = 2\<rparr>"
  let ?e = "Control (V6 (sock 5 6)) (relay_encode (\<lambda>_ _. 0) 0 ?f) 0 0 (Some 7)"
  let ?s = "fst (relay_step (\<lambda>_ _. 0) (\<lambda>_. True) 0 AnyMember server_new ?e)"
  have ok: "relay_ok server_new" by (rule relay.inv_init)
  have acc: "accept_frame (\<lambda>_ _. 0) (\<lambda>_. True) 0 AnyMember (relay_encode (\<lambda>_ _. 0) 0 ?f) 0 = Some ?f"
    using relay_decode_encode [of "\<lambda>_. True" ?f "\<lambda>_ _. 0" 0 "[]"]
    by (simp add: accept_frame_def frame_valid_def CONTROL_BUF_def abs_diff_def policy_allows_def)
  have key: "frame_session_key ?f = session_key_of 1 2" by (simp add: frame_session_key_def)
  have "session_view ?s (session_key_of 1 2) 0
      (set_side (frame_side ?f) (sock 5 9) (None, None)) [set_side (frame_side ?f) (sock 5 9) (None, None)] (None, None)"
    using register_opens [OF ok acc, of "sock 5 6" 0 7]
    by (simp add: server_new_def server_prune_fields MAX_SESSIONS_def key table_prune_def Let_def sock_def)
  then obtain ss where "hm_get (sv_table ?s) (session_key_of 1 2) = Some ss" by (auto simp: session_view_def)
  from relay_sessions_authenticated [OF ok this] show ?thesis by (simp add: server_new_def)
qed

text \<open>Forwarding is transparent and stays inside the session: what the task sends is the datagram it
  received, unchanged and never a control frame, and it goes to the registered address of the other
  side of the one that matches the source.\<close>

theorem relay_forwards_within_session:
  assumes "task_recv ft src datagram now = (ft', Some (out, dst))"
  shows "out = datagram \<and> \<not> is_relay_frame datagram \<and> ft_addrs ft' = ft_addrs ft \<and>
    (\<exists>x. src = V6 x \<and> (ft_addrs ft = (Some (normalize x), Some dst) \<or> ft_addrs ft = (Some dst, Some (normalize x))))"
proof -
  from assms obtain x where x: "src = V6 x" and out: "out = take FORWARD_BUF datagram" and nf: "\<not> is_relay_frame out"
    and len: "length out \<noteq> FORWARD_BUF" and dst: "forward_to (ft_addrs ft) (normalize x) = Some dst"
    and keep: "ft_addrs ft' = ft_addrs ft"
    by (auto simp: task_recv_def Let_def split: socket_addr.splits if_splits option.splits prod.splits)
  have "out = datagram" using out len by (simp add: min_def split: if_splits)
  moreover have "ft_addrs ft = (Some (normalize x), Some dst) \<or> ft_addrs ft = (Some dst, Some (normalize x))"
    using dst by (cases "ft_addrs ft") (auto simp: forward_to_def split: if_splits)
  ultimately show ?thesis using x nf keep by auto
qed

theorem relay_forwards_within_session_witness:
  "[1, 2, 3] = ([1, 2, 3] :: bytes) \<and> \<not> is_relay_frame [1, 2, 3]"
  using relay_forwards_within_session [of "\<lparr>ft_addrs = (Some (sock 1 1), Some (sock 2 2)), ft_queue = [], ft_limiter = limiter_new 0\<rparr>"
      "V6 (sock 1 1)" "[1, 2, 3]" 5
      "\<lparr>ft_addrs = (Some (sock 1 1), Some (sock 2 2)), ft_queue = [],
         ft_limiter = \<lparr>window_start = 0, pl_count = 1, pl_dropped = 0\<rparr>\<rparr>" "[1, 2, 3]" "sock 2 2"]
  by (simp add: task_recv_def FORWARD_BUF_def is_relay_frame_def RELAY_MAGIC_def forward_to_def normalize_def sock_def
      limiter_allow_def limiter_new_def instant_since_def secs_def MAX_PACKETS_PER_SEC_def)

text \<open>C10: The relay connects two peers: once both sides of a new session have registered and the forwarding
  task has taken the two updates, a datagram from either registered address is sent on, unchanged, to
  the other one.\<close>

theorem relay_connects_two_peers:
  assumes "relay_ok s" and "meeting f g"
    and "accept_frame mac vp key pol bf now1 = Some f" and "accept_frame mac vp key pol bg now2 = Some g"
    and "hm_get (sv_table s) (frame_session_key f) = None" and "length (sv_table (server_prune now1 s)) < MAX_SESSIONS"
    and "sock (ip src1) (fr_port f) \<noteq> sock (ip src2) (fr_port g)"
    and "\<not> is_relay_frame packet" and "length packet < FORWARD_BUF"
  shows "let s4 = relay_run mac vp key pol s
      [Control (V6 src1) bf now1 inst1 (Some p), Control (V6 src2) bg now2 inst2 bound, TaskUpdate (sv_next s), TaskUpdate (sv_next s)];
      a = sock (ip src1) (fr_port f); b = sock (ip src2) (fr_port g) in
    snd (relay_step mac vp key pol s4 (TaskRecv (sv_next s) (V6 a) packet t)) = [(packet, V6 b)] \<and>
    snd (relay_step mac vp key pol s4 (TaskRecv (sv_next s) (V6 b) packet t)) = [(packet, V6 a)]"
proof -
  have n: "normalize (sock a p) = sock a p" for a p by (simp add: normalize_def sock_def)
  obtain addrs where v: "session_view (relay_run mac vp key pol s
      [Control (V6 src1) bf now1 inst1 (Some p), Control (V6 src2) bg now2 inst2 bound, TaskUpdate (sv_next s), TaskUpdate (sv_next s)])
      (frame_session_key f) (sv_next s) addrs [] addrs"
    and a: "addrs \<in> {(Some (sock (ip src1) (fr_port f)), Some (sock (ip src2) (fr_port g))),
              (Some (sock (ip src2) (fr_port g)), Some (sock (ip src1) (fr_port f)))}"
    using two_registers_connect [OF assms(1-6), of src1 inst1 p src2 inst2 bound] by blast
  have a': "addrs \<in> {(Some (sock (ip src2) (fr_port g)), Some (sock (ip src1) (fr_port f))),
      (Some (sock (ip src1) (fr_port f)), Some (sock (ip src2) (fr_port g)))}" using a by blast
  show ?thesis unfolding Let_def
    using pair_forwards [OF v a assms(7-9) n] pair_forwards [OF v a' assms(7) [symmetric] assms(8,9) n] by blast
qed

theorem relay_connects_two_peers_witness:
  "let f = \<lparr>fr_kind = Register, fr_port = 9, fr_seq = 0, fr_self = 1, fr_peer = 2\<rparr>;
       g = \<lparr>fr_kind = Register, fr_port = 8, fr_seq = 0, fr_self = 2, fr_peer = 1\<rparr>;
       s4 = relay_run (\<lambda>_ _. 0) (\<lambda>_. True) 0 AnyMember server_new
         [Control (V6 (sock 5 6)) (relay_encode (\<lambda>_ _. 0) 0 f) 0 0 (Some 7),
          Control (V6 (sock 4 6)) (relay_encode (\<lambda>_ _. 0) 0 g) 0 0 None, TaskUpdate 0, TaskUpdate 0]
   in snd (relay_step (\<lambda>_ _. 0) (\<lambda>_. True) 0 AnyMember s4 (TaskRecv 0 (V6 (sock 5 9)) [1] 3)) = [([1], V6 (sock 4 8))]"
proof -
  let ?f = "\<lparr>fr_kind = Register, fr_port = 9, fr_seq = 0, fr_self = 1, fr_peer = 2\<rparr>"
  let ?g = "\<lparr>fr_kind = Register, fr_port = 8, fr_seq = 0, fr_self = 2, fr_peer = 1\<rparr>"
  have ok: "relay_ok server_new" by (rule relay.inv_init)
  have acc: "accept_frame (\<lambda>_ _. 0) (\<lambda>_. True) 0 AnyMember (relay_encode (\<lambda>_ _. 0) 0 x) 0 = Some x" if "x \<in> {?f, ?g}" for x
    using that relay_decode_encode [of "\<lambda>_. True" x "\<lambda>_ _. 0" 0 "[]"]
    by (auto simp: accept_frame_def frame_valid_def CONTROL_BUF_def abs_diff_def policy_allows_def)
  have m: "meeting ?f ?g" by (simp add: meeting_def)
  show ?thesis
    using relay_connects_two_peers [OF ok m acc acc, of "sock 5 6" "sock 4 6" "[1]" 0 7 0 None 3]
    by (simp add: server_new_def server_prune_fields MAX_SESSIONS_def table_prune_def Let_def sock_def FORWARD_BUF_def
        is_relay_frame_def)
qed



end
