(* ===== verification/Relay_Client.thy ===== *)
theory Relay_Client
  imports Relay_Server
begin

text \<open>
  The relay client (\<open>crates/engine/src/relay_client.rs\<close>): registering a pair of peers with a relay
  and releasing the pair. One round of the register loop is given by the clocks it reads and by what
  the socket delivers before the retry interval ends.
\<close>

definition RETRY_INTERVAL :: int where "RETRY_INTERVAL = millis 700"
definition REGISTER_INTERVAL :: int where "REGISTER_INTERVAL = secs 30"
definition REGISTER_TIMEOUT :: int where "REGISTER_TIMEOUT = secs 5"
definition CLIENT_BUF :: nat where "CLIENT_BUF = 256"

record relay_session =
  rs_endpoint :: socket_v6
  rs_control :: socket_v6

record register_round =
  rr_instant :: time
  rr_unix :: u64
  rr_received :: "(bytes \<times> socket_addr) option"

definition register_frame :: "public_key \<Rightarrow> public_key \<Rightarrow> u16 \<Rightarrow> u64 \<Rightarrow> relay_frame" where
  "register_frame self_key peer p now =
     \<lparr>fr_kind = Register, fr_port = p, fr_seq = now, fr_self = self_key, fr_peer = peer\<rparr>"

text \<open>The acknowledgement must belong to this request: kind, both keys, a port.\<close>

definition accept_ack ::
  "hmac \<Rightarrow> (key32 \<Rightarrow> bool) \<Rightarrow> key32 \<Rightarrow> public_key \<Rightarrow> public_key \<Rightarrow> bytes \<times> socket_addr \<Rightarrow> relay_session option" where
  "accept_ack mac valid_point relay_key self_key peer recv =
     (case snd recv of
        V4 _ _ \<Rightarrow> None
      | V6 src6 \<Rightarrow>
          (case relay_decode mac valid_point relay_key (take CLIENT_BUF (fst recv)) of
             Inl _ \<Rightarrow> None
           | Inr ack \<Rightarrow>
               if fr_kind ack \<noteq> RegisterAck \<or> fr_self ack \<noteq> self_key \<or> fr_peer ack \<noteq> peer \<or> fr_port ack = 0 then None
               else Some \<lparr>rs_endpoint = sock (ip src6) (fr_port ack), rs_control = normalize src6\<rparr>))"

fun register_rounds ::
  "hmac \<Rightarrow> (key32 \<Rightarrow> bool) \<Rightarrow> key32 \<Rightarrow> socket_v6 list \<Rightarrow> public_key \<Rightarrow> public_key \<Rightarrow> u16 \<Rightarrow> time \<Rightarrow> register_round list \<Rightarrow>
     (bytes \<times> socket_v6) list \<times> relay_session option" where
  "register_rounds mac vp key control self_key peer p deadline [] = ([], None)"
| "register_rounds mac vp key control self_key peer p deadline (r # rs) =
     (if rr_instant r \<ge> deadline then ([], None)
      else let sent = map (Pair (relay_encode mac key (register_frame self_key peer p (rr_unix r)))) control in
        case Option.bind (rr_received r) (accept_ack mac vp key self_key peer) of
          Some session \<Rightarrow> (sent, Some session)
        | None \<Rightarrow>
            (case register_rounds mac vp key control self_key peer p deadline rs of
               (later, result) \<Rightarrow> (sent @ later, result)))"

text \<open>\<open>register_with_timeout\<close>; \<open>bound\<close> says whether the socket could be bound.\<close>

definition register_with_timeout ::
  "hmac \<Rightarrow> (key32 \<Rightarrow> bool) \<Rightarrow> key32 \<Rightarrow> socket_v6 list \<Rightarrow> public_key \<Rightarrow> public_key \<Rightarrow> u16 \<Rightarrow> int \<Rightarrow> bool \<Rightarrow> time \<Rightarrow>
     register_round list \<Rightarrow> (bytes \<times> socket_v6) list \<times> relay_session option" where
  "register_with_timeout mac vp key control self_key peer p timeout bound start rounds =
     (if control = [] \<or> p = 0 then ([], None)
      else if \<not> bound then ([], None)
      else register_rounds mac vp key control self_key peer p (start + timeout) rounds)"

definition register ::
  "hmac \<Rightarrow> (key32 \<Rightarrow> bool) \<Rightarrow> key32 \<Rightarrow> socket_v6 list \<Rightarrow> public_key \<Rightarrow> public_key \<Rightarrow> u16 \<Rightarrow> bool \<Rightarrow> time \<Rightarrow>
     register_round list \<Rightarrow> (bytes \<times> socket_v6) list \<times> relay_session option" where
  "register mac vp key control self_key peer p bound start rounds =
     register_with_timeout mac vp key control self_key peer p REGISTER_TIMEOUT bound start rounds"

definition unregister :: "hmac \<Rightarrow> key32 \<Rightarrow> socket_v6 \<Rightarrow> public_key \<Rightarrow> public_key \<Rightarrow> u16 \<Rightarrow> u64 \<Rightarrow> bool \<Rightarrow> (bytes \<times> socket_v6) list" where
  "unregister mac key control self_key peer p now bound =
     (if bound then [(relay_encode mac key \<lparr>fr_kind = Unregister, fr_port = p, fr_seq = now, fr_self = self_key, fr_peer = peer\<rparr>, control)]
      else [])"

section \<open>Facts\<close>

lemma accept_ack_Some:
  assumes "accept_ack mac vp key self_key peer (bs, src) = Some session"
  shows "\<exists>ack pad src6. take CLIENT_BUF bs = relay_encode mac key ack @ pad \<and> fr_kind ack = RegisterAck \<and> fr_self ack = self_key \<and>
    fr_peer ack = peer \<and> fr_port ack \<noteq> 0 \<and> src = V6 src6 \<and>
    session = \<lparr>rs_endpoint = sock (ip src6) (fr_port ack), rs_control = normalize src6\<rparr>"
proof -
  from assms obtain src6 ack where "src = V6 src6" and d: "relay_decode mac vp key (take CLIENT_BUF bs) = Inr ack"
    and "fr_kind ack = RegisterAck" "fr_self ack = self_key" "fr_peer ack = peer" "fr_port ack \<noteq> 0"
    "session = \<lparr>rs_endpoint = sock (ip src6) (fr_port ack), rs_control = normalize src6\<rparr>"
    by (auto simp: accept_ack_def split: socket_addr.splits sum.splits if_splits)
  then show ?thesis using relay_decode_canonical [OF d] by blast
qed

lemma register_rounds_session:
  "snd (register_rounds mac vp key control self_key peer p deadline rs) = Some session \<Longrightarrow>
     \<exists>r\<in>set rs. \<exists>recv. rr_received r = Some recv \<and> accept_ack mac vp key self_key peer recv = Some session"
proof (induction rs)
  case (Cons r rs)
  then show ?case
    by (cases "rr_received r") (auto simp: Let_def split: if_splits option.splits prod.splits)
qed simp

text \<open>A session is reported only for an authenticated acknowledgement of this pair.\<close>

lemma register_authentic:
  assumes "snd (register mac vp key control self_key peer p bound start rs) = Some session"
  shows "\<exists>r\<in>set rs. \<exists>bs src6 ack pad. rr_received r = Some (bs, V6 src6) \<and> take CLIENT_BUF bs = relay_encode mac key ack @ pad \<and>
    fr_kind ack = RegisterAck \<and> fr_self ack = self_key \<and> fr_peer ack = peer \<and>
    rs_endpoint session = sock (ip src6) (fr_port ack)"
proof -
  from assms have "snd (register_rounds mac vp key control self_key peer p (start + REGISTER_TIMEOUT) rs) = Some session"
    by (auto simp: register_def register_with_timeout_def split: if_splits)
  then obtain r bs src where r: "r \<in> set rs" "rr_received r = Some (bs, src)" "accept_ack mac vp key self_key peer (bs, src) = Some session"
    using register_rounds_session by (metis surj_pair)
  from accept_ack_Some [OF r(3)] obtain ack pad src6 where a: "take CLIENT_BUF bs = relay_encode mac key ack @ pad"
    "fr_kind ack = RegisterAck" "fr_self ack = self_key" "fr_peer ack = peer" "src = V6 src6" "rs_endpoint session = sock (ip src6) (fr_port ack)"
    by auto
  show ?thesis by (rule bexI [OF _ r(1)]) (use r(2) a in blast)
qed

lemma accept_own_ack:
  assumes "vp self_key" "vp peer" "p \<noteq> 0" "self_key \<noteq> peer"
  shows "accept_ack mac vp key self_key peer
      (relay_encode mac key \<lparr>fr_kind = RegisterAck, fr_port = p, fr_seq = now, fr_self = self_key, fr_peer = peer\<rparr>, V6 src) =
    Some \<lparr>rs_endpoint = sock (ip src) p, rs_control = normalize src\<rparr>"
  using assms relay_decode_encode [of vp "\<lparr>fr_kind = RegisterAck, fr_port = p, fr_seq = now, fr_self = self_key, fr_peer = peer\<rparr>" mac key "[]"]
  by (simp add: accept_ack_def CLIENT_BUF_def frame_valid_def)

text \<open>The server answers an accepted register frame with the port of the session.\<close>

lemma register_acknowledged:
  assumes "relay_ok s" and "accept_frame mac vp rk pol bs now = Some f" and "fr_kind f = Register" and "fr_port f \<noteq> 0"
    and "hm_get (sv_table s) (frame_session_key f) = None" and "length (sv_table (server_prune now s)) < MAX_SESSIONS"
  shows "snd (relay_step mac vp rk pol s (Control (V6 src) bs now inst (Some p))) =
    [(relay_encode mac rk \<lparr>fr_kind = RegisterAck, fr_port = p, fr_seq = now, fr_self = fr_self f, fr_peer = fr_peer f\<rparr>, V6 src)]"
proof -
  obtain s' where o: "open_session (frame_session_key f) now inst (Some p) s = Some s'"
    using assms(6) by (auto simp: open_session_def table_insert_def Let_def)
  have t: "hm_get (sv_table s') (frame_session_key f) = Some \<lparr>ss_port = p, ss_addrs = (None, None), ss_last_seen = now\<rparr>"
    using open_session_get(1) [OF assms(1) o] by auto
  show ?thesis using assms o t
    by (simp add: serve_control_def on_register_def refresh_session_def Let_def table_port_def touch_addr_get)
qed

section \<open>Properties\<close>

text \<open>Registering with a relay works. The frame the client sends makes a relay with room
  open a session and answer; the client that receives the answer in time obtains the relay's address with
  the session's port.\<close>

theorem relay_register_works:
  assumes "relay_ok s" and "length (sv_table (server_prune now' s)) < MAX_SESSIONS"
    and "hm_get (sv_table s) (session_key_of self_key peer) = None" and "policy_allows pol self_key"
    and "vp self_key" and "vp peer" and "wg_port \<noteq> 0" and "p \<noteq> 0"
    and "abs_diff now now' \<le> SEQ_SKEW_TOLERANCE_SECS" and "t < deadline" and "self_key \<noteq> peer"
  shows "\<exists>ack. snd (relay_step mac vp key pol s
      (Control (V6 src) (relay_encode mac key (register_frame self_key peer wg_port now)) now' inst (Some p))) = [(ack, V6 src)] \<and>
    snd (register_rounds mac vp key control self_key peer wg_port deadline
      (\<lparr>rr_instant = t, rr_unix = now, rr_received = Some (ack, V6 relay)\<rparr> # rounds)) =
    Some \<lparr>rs_endpoint = sock (ip relay) p, rs_control = normalize relay\<rparr>"
proof -
  let ?f = "register_frame self_key peer wg_port now"
  have acc: "accept_frame mac vp key pol (relay_encode mac key ?f) now' = Some ?f"
    using assms(4-6,9,11) relay_decode_encode [of vp ?f mac key "[]"]
    by (simp add: accept_frame_def frame_valid_def CONTROL_BUF_def register_frame_def)
  have f: "fr_kind ?f = Register" "fr_port ?f \<noteq> 0" "frame_session_key ?f = session_key_of self_key peer"
    "fr_self ?f = self_key" "fr_peer ?f = peer"
    using assms(7) by (simp_all add: register_frame_def frame_session_key_def)
  show ?thesis
    using register_acknowledged [OF assms(1) acc f(1,2), of src inst p] assms f accept_own_ack [OF assms(5,6,8,11)]
    by (simp add: Let_def)
qed

theorem relay_register_works_witness:
  "\<exists>ack. snd (relay_step (\<lambda>_ _. 0) (\<lambda>_. True) 0 AnyMember server_new
      (Control (V6 (sock 5 6)) (relay_encode (\<lambda>_ _. 0) 0 (register_frame 1 2 9 100)) 100 0 (Some 7))) = [(ack, V6 (sock 5 6))] \<and>
    snd (register_rounds (\<lambda>_ _. 0) (\<lambda>_. True) 0 [sock 3 4196] 1 2 9 50
      [\<lparr>rr_instant = 10, rr_unix = 100, rr_received = Some (ack, V6 (sock 3 4196))\<rparr>]) =
    Some \<lparr>rs_endpoint = sock 3 7, rs_control = sock 3 4196\<rparr>"
proof -
  have a: "relay_ok server_new" by (rule relay.inv_init)
  have b: "length (sv_table (server_prune 100 server_new)) < MAX_SESSIONS"
    by (simp add: server_new_def server_prune_fields MAX_SESSIONS_def table_prune_def Let_def)
  show ?thesis
    using relay_register_works [OF a b, of 1 2 AnyMember "\<lambda>_. True" 9 7 100 10 50 "\<lambda>_ _. 0" 0 "sock 5 6" 0 "[sock 3 4196]" "sock 3 4196" "[]"]
    by (simp add: server_new_def policy_allows_def abs_diff_def sock_def normalize_def)
qed

end
