(* ===== verification/Lan_Discovery.thy ===== *)
theory Lan_Discovery
  imports Lan_Beacon Candidates
begin

text \<open>
  LAN discovery (\<open>crates/engine/src/lan.rs\<close>): the soft-state table of nodes heard on the link, the
  handling of a received datagram, the periodic announcement, and the loop \<open>serve\<close> as a step
  function. Base64 (the text form of a key) and the enumeration of local addresses are parameters.
\<close>

definition LAN_ENTRY_TTL :: u64 where "LAN_ENTRY_TTL = 60"
definition LAN_MAX_TRACKED :: nat where "LAN_MAX_TRACKED = 64"
definition LAN_SEQ_SKEW :: u64 where "LAN_SEQ_SKEW = 300"
definition LAN_BUF :: nat where "LAN_BUF = 256"

record lan_entry =
  le_endpoints :: "socket_v6 list"
  le_seq :: u64
  le_last_seen :: u64

type_synonym lan_table = "(string \<times> lan_entry) list"

definition lan_new :: lan_table where "lan_new = []"

definition lan_prune :: "lan_table \<Rightarrow> u64 \<Rightarrow> lan_table" where
  "lan_prune t now = hm_retain (\<lambda>_ e. sat_sub now (le_last_seen e) \<le> LAN_ENTRY_TTL) t"

definition lan_record :: "lan_table \<Rightarrow> string \<Rightarrow> socket_v6 list \<Rightarrow> u64 \<Rightarrow> u64 \<Rightarrow> lan_table \<times> bool" where
  "lan_record t k eps sq now =
     (case hm_get t k of
        Some e \<Rightarrow>
          if sq < le_seq e then (t, False)
          else let e = e\<lparr>le_seq := sq, le_last_seen := now\<rparr> in
            if le_endpoints e = eps then (hm_insert k e t, False)
            else (hm_insert k (e\<lparr>le_endpoints := eps\<rparr>) t, True)
      | None \<Rightarrow>
          let t = (if length t \<ge> LAN_MAX_TRACKED then lan_prune t now else t) in
          if length t \<ge> LAN_MAX_TRACKED then (t, False)
          else (hm_insert k \<lparr>le_endpoints = eps, le_seq = sq, le_last_seen = now\<rparr> t, True))"

definition lan_endpoints_for :: "lan_table \<Rightarrow> string \<Rightarrow> socket_v6 list" where
  "lan_endpoints_for t k = (case hm_get t k of None \<Rightarrow> [] | Some e \<Rightarrow> le_endpoints e)"

text \<open>The secrets and names a node handles datagrams with.\<close>

record lan_env =
  lan_mac :: hmac
  lan_valid_point :: "key32 \<Rightarrow> bool"
  lan_b64 :: "public_key \<Rightarrow> string"

definition lan_handle_datagram :: "lan_env \<Rightarrow> bytes \<Rightarrow> string \<Rightarrow> key32 \<Rightarrow> lan_table \<Rightarrow> u64 \<Rightarrow> lan_table \<times> discovered_endpoints option" where
  "lan_handle_datagram env buf own_key_b64 lan_key t now =
     (case beacon_decode (lan_mac env) (lan_valid_point env) lan_key buf of
        Inl _ \<Rightarrow> (t, None)
      | Inr b \<Rightarrow>
          let k = lan_b64 env (node_public_key b) in
          if k = own_key_b64 then (t, None)
          else if abs_diff (seq b) now > LAN_SEQ_SKEW then (t, None)
          else let eps = beacon_endpoints b in
            if eps = [] then (t, None)
            else case lan_record t k eps (seq b) now of
              (t', changed) \<Rightarrow>
                (t', if changed then Some \<lparr>de_source = Lan, peer_key = k, endpoints = eps\<rparr> else None))"

record lan_config =
  lc_port :: u16
  lc_group :: ipv6
  lc_interfaces :: "u32 list"
  lc_own_public_key :: public_key
  lc_lan_key :: key32
  lc_listen_port :: u16

text \<open>
  \<open>announce\<close>, given the addresses the platform lists (\<open>None\<close> when that failed): the table is pruned,
  and one datagram goes to the group on every interface.
\<close>

definition lan_announce :: "lan_env \<Rightarrow> lan_config \<Rightarrow> ipv6 list option \<Rightarrow> lan_table \<Rightarrow> u64 \<Rightarrow> lan_table \<times> (bytes \<times> socket_v6) list" where
  "lan_announce env cfg addrs t now =
     (let t = lan_prune t now in
      case addrs of
        None \<Rightarrow> (t, [])
      | Some as \<Rightarrow>
          if as = [] then (t, [])
          else let b = \<lparr>node_public_key = lc_own_public_key cfg, listen_port = lc_listen_port cfg, seq = now,
                        addresses = take BEACON_MAX_ADDRS as\<rparr> in
            (case beacon_encode (lan_mac env) (lc_lan_key cfg) b of
               Inl _ \<Rightarrow> (t, [])
             | Inr bs \<Rightarrow>
                 (t, map (\<lambda>i. (bs, \<lparr>ip = lc_group cfg, port = lc_port cfg, flowinfo = 0, scope_id = i\<rparr>)) (lc_interfaces cfg))))"

text \<open>The start of \<open>serve\<close>: it needs an interface and one that joins the group.\<close>

definition lan_start :: "lan_config \<Rightarrow> (u32 \<Rightarrow> bool) \<Rightarrow> (string, lan_table) result" where
  "lan_start cfg joins =
     (if lc_interfaces cfg = [] then Inl ''no interface''
      else if filter joins (lc_interfaces cfg) = [] then Inl ''no group joined''
      else Inr lan_new)"

datatype lan_event =
    LanTick "ipv6 list option" u64
  | LanKick "ipv6 list option" u64
  | LanRecv bytes u64

fun lan_step :: "lan_env \<Rightarrow> lan_config \<Rightarrow> lan_table \<Rightarrow> lan_event \<Rightarrow> lan_table \<times> (bytes \<times> socket_v6) list \<times> discovered_endpoints option" where
  "lan_step env cfg t (LanTick addrs now) = (case lan_announce env cfg addrs t now of (t', out) \<Rightarrow> (t', out, None))"
| "lan_step env cfg t (LanKick addrs now) = (case lan_announce env cfg addrs t now of (t', out) \<Rightarrow> (t', out, None))"
| "lan_step env cfg t (LanRecv datagram now) =
     (case lan_handle_datagram env (take LAN_BUF datagram) (lan_b64 env (lc_own_public_key cfg)) (lc_lan_key cfg) t now of
        (t', u) \<Rightarrow> (t', [], u))"

section \<open>The table\<close>

definition lan_ok :: "lan_table \<Rightarrow> bool" where
  "lan_ok t \<longleftrightarrow> hm_ok t \<and> (\<forall>(k, e)\<in>set t. \<forall>ep\<in>set (le_endpoints e). is_usable_endpoint_addr (ip ep) \<and> port ep \<noteq> 0)"

definition usable_endpoints :: "socket_v6 list \<Rightarrow> bool" where
  "usable_endpoints eps \<longleftrightarrow> (\<forall>ep\<in>set eps. is_usable_endpoint_addr (ip ep) \<and> port ep \<noteq> 0)"

lemma lan_ok_alt: "lan_ok t \<longleftrightarrow> hm_ok t \<and> (\<forall>p\<in>set t. usable_endpoints (le_endpoints (snd p)))"
  by (auto simp: lan_ok_def usable_endpoints_def)

lemma usable_beacon_endpoints: "usable_endpoints (beacon_endpoints b)"
  by (auto simp: usable_endpoints_def set_beacon_endpoints sock_def)

lemma lan_ok_prune: "lan_ok t \<Longrightarrow> lan_ok (lan_prune t now)"
  by (auto simp: lan_ok_alt lan_prune_def dest: hm_set_retain [THEN subsetD])

lemma lan_ok_insert: "lan_ok t \<Longrightarrow> usable_endpoints (le_endpoints e) \<Longrightarrow> lan_ok (hm_insert k e t)"
  unfolding lan_ok_alt by (intro conjI hm_ball_insert) auto

lemma lan_ok_record: "lan_ok t \<Longrightarrow> usable_endpoints eps \<Longrightarrow> lan_ok (fst (lan_record t k eps sq now))"
  by (auto simp: lan_record_def Let_def lan_ok_insert lan_ok_prune split: option.splits)

lemma lan_len_prune: "length (lan_prune t now) \<le> length t"
  by (simp add: lan_prune_def hm_len_retain_le)

lemma lan_len_record: "length t \<le> LAN_MAX_TRACKED \<Longrightarrow> length (fst (lan_record t k eps sq now)) \<le> LAN_MAX_TRACKED"
  using lan_len_prune [of t now] by (auto simp: lan_record_def Let_def hm_len_insert split: option.splits)

lemma lan_handle_table:
  "fst (lan_handle_datagram env buf own lk t now) = t \<or>
     (\<exists>b. fst (lan_handle_datagram env buf own lk t now) =
        fst (lan_record t (lan_b64 env (node_public_key b)) (beacon_endpoints b) (seq b) now))"
proof (cases "beacon_decode (lan_mac env) (lan_valid_point env) lk buf")
  case (Inl x)
  then show ?thesis by (simp add: lan_handle_datagram_def)
next
  case (Inr b)
  then have "fst (lan_handle_datagram env buf own lk t now) = t \<or>
      fst (lan_handle_datagram env buf own lk t now) =
        fst (lan_record t (lan_b64 env (node_public_key b)) (beacon_endpoints b) (seq b) now)"
    by (simp add: lan_handle_datagram_def Let_def split_beta)
  then show ?thesis by blast
qed

lemma lan_ok_handle: "lan_ok t \<Longrightarrow> lan_ok (fst (lan_handle_datagram env buf own lk t now))"
  using lan_handle_table [of env buf own lk t now] lan_ok_record [OF _ usable_beacon_endpoints] by auto

lemma lan_len_handle:
  "length t \<le> LAN_MAX_TRACKED \<Longrightarrow> length (fst (lan_handle_datagram env buf own lk t now)) \<le> LAN_MAX_TRACKED"
  using lan_handle_table [of env buf own lk t now] lan_len_record [of t] by auto

lemma lan_announce_table: "fst (lan_announce env cfg addrs t now) = lan_prune t now"
  by (auto simp: lan_announce_def Let_def split: option.splits sum.splits)

lemma lan_step_table:
  "fst (lan_step env cfg t (LanTick addrs now)) = lan_prune t now"
  "fst (lan_step env cfg t (LanKick addrs now)) = lan_prune t now"
  "fst (lan_step env cfg t (LanRecv bs now)) =
     fst (lan_handle_datagram env (take LAN_BUF bs) (lan_b64 env (lc_own_public_key cfg)) (lc_lan_key cfg) t now)"
  using lan_announce_table [of env cfg addrs t now] by (simp_all split: prod.splits) auto

interpretation lan_table: bounded_table lan_new "\<lambda>t e. fst (lan_step env cfg t e)" lan_ok length LAN_MAX_TRACKED
  for env cfg
proof unfold_locales
  show "lan_ok lan_new" "length lan_new \<le> LAN_MAX_TRACKED" by (simp_all add: lan_new_def lan_ok_def)
  fix t e assume ok: "lan_ok t"
  then show "lan_ok (fst (lan_step env cfg t e))"
    by (cases e) (simp_all only: lan_step_table lan_ok_prune lan_ok_handle)
  show "length t \<le> LAN_MAX_TRACKED \<Longrightarrow> length (fst (lan_step env cfg t e)) \<le> LAN_MAX_TRACKED"
    using lan_len_prune [of t] le_trans by (cases e) (simp_all only: lan_step_table lan_len_handle, blast+)
qed

section \<open>Announcements reach the other nodes\<close>

text \<open>Whoever hears an announcement of a node it does not know yet learns its usable addresses.\<close>

lemma lan_announce_heard:
  assumes out: "(bs, dst) \<in> set (snd (lan_announce env cfg (Some as) t now))"
    and vp: "lan_valid_point env (lc_own_public_key cfg)" and own: "lan_b64 env (lc_own_public_key cfg) \<noteq> own'"
    and skew: "abs_diff now now' \<le> LAN_SEQ_SKEW"
    and eps: "eps = map (\<lambda>a. sock a (lc_listen_port cfg)) (filter is_usable_endpoint_addr (take BEACON_MAX_ADDRS as))"
    and ne: "eps \<noteq> []" "lc_listen_port cfg \<noteq> 0"
    and room: "hm_get t' (lan_b64 env (lc_own_public_key cfg)) = None" "length t' < LAN_MAX_TRACKED"
  shows "snd (lan_handle_datagram env (take LAN_BUF bs) own' (lc_lan_key cfg) t' now') =
    Some \<lparr>de_source = Lan, peer_key = lan_b64 env (lc_own_public_key cfg), endpoints = eps\<rparr>"
proof -
  let ?b = "\<lparr>node_public_key = lc_own_public_key cfg, listen_port = lc_listen_port cfg, seq = now, addresses = take BEACON_MAX_ADDRS as\<rparr>"
  from out have enc: "beacon_encode (lan_mac env) (lc_lan_key cfg) ?b = Inr bs"
    by (auto simp: lan_announce_def Let_def split: if_splits sum.splits)
  have "length bs \<le> LAN_BUF"
    using length_beacon_encode [OF enc] by (simp add: LAN_BUF_def BEACON_MAX_LEN_def beacon_sizes)
  moreover have "beacon_valid (lan_valid_point env) ?b" using vp by (simp add: beacon_valid_def)
  ultimately have dec: "beacon_decode (lan_mac env) (lan_valid_point env) (lc_lan_key cfg) (take LAN_BUF bs) = Inr ?b"
    using beacon_decode_encode [OF _ enc] by simp
  have be: "beacon_endpoints ?b = eps" using ne by (simp add: beacon_endpoints_def eps)
  have "\<not> LAN_SEQ_SKEW < abs_diff now now'" using skew by simp
  then show ?thesis using own ne room by (simp add: lan_handle_datagram_def dec be lan_record_def Let_def)
qed

section \<open>Replay\<close>

lemma lan_prune_get:
  "hm_ok t \<Longrightarrow> hm_get (lan_prune t now) k = Some e \<longleftrightarrow> hm_get t k = Some e \<and> sat_sub now (le_last_seen e) \<le> LAN_ENTRY_TTL"
  by (auto simp: lan_prune_def hm split: option.splits if_splits)

lemma lan_record_get:
  assumes "hm_ok t" and "hm_get t k = Some e" and "hm_get (fst (lan_record t k' eps sq now)) k = Some e'"
  shows "le_seq e \<le> le_seq e' \<and> (e' = e \<or> k' = k \<and> le_seq e' = sq \<and> le_endpoints e' = eps)"
proof (cases "k' = k")
  case True
  with assms show ?thesis by (auto simp: lan_record_def Let_def hm not_less split: if_splits)
next
  case False
  then show ?thesis
    using assms by (auto simp: lan_record_def Let_def hm lan_prune_get split: option.splits if_splits)
qed

lemma lan_handle_get:
  assumes "hm_ok t" and "hm_get t k = Some e" and "hm_get (fst (lan_handle_datagram env buf own lk t now)) k = Some e'"
  shows "le_seq e \<le> le_seq e'"
  using lan_handle_table [of env buf own lk t now] lan_record_get [OF assms(1,2)] assms by auto

lemma lan_step_get:
  assumes "lan_ok t" and "hm_get t k = Some e" and "hm_get (fst (lan_step env cfg t ev)) k = Some e'"
  shows "le_seq e \<le> le_seq e'"
proof -
  have ok: "hm_ok t" using assms(1) by (simp add: lan_ok_def)
  show ?thesis
  proof (cases ev)
    case (LanRecv bs now)
    then show ?thesis using lan_handle_get [OF ok assms(2)] assms(3) by (simp only: lan_step_table)
  qed (use assms(2,3) in \<open>simp_all only: lan_step_table lan_prune_get [OF ok]\<close>, simp_all)
qed

text \<open>A datagram older than what is recorded changes nothing and is not reported.\<close>

lemma lan_replay_ignored:
  assumes "beacon_decode (lan_mac env) (lan_valid_point env) lk buf = Inr b"
    and "hm_get t (lan_b64 env (node_public_key b)) = Some e" and "seq b < le_seq e"
  shows "lan_handle_datagram env buf own lk t now = (t, None)"
  using assms by (simp add: lan_handle_datagram_def Let_def lan_record_def)

text \<open>
  An entry that has expired is forgotten with its sequence number, so the datagram that made it is
  accepted once more: entries live 60 seconds, and a datagram is accepted for 300.
\<close>

lemma lan_replay_after_expiry:
  assumes "beacon_decode (lan_mac env) (lan_valid_point env) lk buf = Inr b" and "beacon_endpoints b \<noteq> []"
    and "lan_b64 env (node_public_key b) \<noteq> own" and "seq b = 1000"
  shows "snd (lan_handle_datagram env buf own lk
     (lan_prune (fst (lan_handle_datagram env buf own lk lan_new 1000)) 1100) 1100) \<noteq> None"
  using assms
  by (simp add: lan_handle_datagram_def Let_def lan_record_def lan_new_def LAN_MAX_TRACKED_def LAN_SEQ_SKEW_def
      abs_diff_def lan_prune_def hm_retain_def sat_sub_def LAN_ENTRY_TTL_def)

section \<open>Properties\<close>

text \<open>LAN discovery never tracks more than 64 nodes, and every endpoint it holds is a usable one: never
  a local, link-local, loopback, multicast, unspecified or IPv4-mapped address, never port 0.\<close>

theorem lan_table_bounded:
  "length (foldl (\<lambda>t e. fst (lan_step env cfg t e)) lan_new es) \<le> LAN_MAX_TRACKED \<and>
   lan_ok (foldl (\<lambda>t e. fst (lan_step env cfg t e)) lan_new es)"
  using lan_table.never_over_cap lan_table.always_ok by blast

text \<open>Nodes on one link find each other: every datagram a node announces is understood by a node with
  the same LAN key and a close clock, which reports exactly the usable ones among the announcer's first
  four addresses, with its WireGuard port, when it did not know the node and has room for it.\<close>

theorem lan_discovery_works:
  assumes "(bs, dst) \<in> set (snd (lan_announce env cfg (Some as) t now))"
    and "lan_valid_point env (lc_own_public_key cfg)" and "lan_b64 env (lc_own_public_key cfg) \<noteq> own'"
    and "abs_diff now now' \<le> LAN_SEQ_SKEW"
    and "eps = map (\<lambda>a. sock a (lc_listen_port cfg)) (filter is_usable_endpoint_addr (take BEACON_MAX_ADDRS as))"
    and "eps \<noteq> []" and "lc_listen_port cfg \<noteq> 0"
    and "hm_get t' (lan_b64 env (lc_own_public_key cfg)) = None" and "length t' < LAN_MAX_TRACKED"
  shows "snd (lan_handle_datagram env (take LAN_BUF bs) own' (lc_lan_key cfg) t' now') =
    Some \<lparr>de_source = Lan, peer_key = lan_b64 env (lc_own_public_key cfg), endpoints = eps\<rparr>"
  by (rule lan_announce_heard [OF assms])

theorem lan_discovery_works_witness:
  "\<exists>bs dst. snd (lan_handle_datagram \<lparr>lan_mac = (\<lambda>_ _. 0), lan_valid_point = (\<lambda>_. True), lan_b64 = (\<lambda>_. ''A'')\<rparr>
      (take LAN_BUF bs) ''B'' 3 [] 8) =
    Some \<lparr>de_source = Lan, peer_key = ''A'', endpoints = [sock (0x20010db8 * 2 ^ 96) 4193]\<rparr>"
proof -
  let ?env = "\<lparr>lan_mac = (\<lambda>_ _. 0), lan_valid_point = (\<lambda>_. True), lan_b64 = (\<lambda>_. ''A'')\<rparr>"
  let ?cfg = "\<lparr>lc_port = 4195, lc_group = 1, lc_interfaces = [2], lc_own_public_key = 7, lc_lan_key = 3, lc_listen_port = 4193\<rparr>"
  let ?as = "[0x20010db8 * 2 ^ 96] :: ipv6 list"
  have u: "is_usable_endpoint_addr (0x20010db8 * 2 ^ 96)" by code_simp
  obtain bs dst where "(bs, dst) \<in> set (snd (lan_announce ?env ?cfg (Some ?as) [] 5))"
    by (simp add: lan_announce_def Let_def beacon_encode_def BEACON_MAX_ADDRS_def)
  from lan_discovery_works [OF this, of "''B''" 8 "[sock (0x20010db8 * 2 ^ 96) 4193]" "[]"]
  have "snd (lan_handle_datagram ?env (take LAN_BUF bs) ''B'' 3 [] 8) =
    Some \<lparr>de_source = Lan, peer_key = ''A'', endpoints = [sock (0x20010db8 * 2 ^ 96) 4193]\<rparr>"
    by (simp add: u [simplified] BEACON_MAX_ADDRS_def abs_diff_def LAN_SEQ_SKEW_def LAN_MAX_TRACKED_def)
  then show ?thesis by blast
qed

text \<open>No announcement rolls a tracked node back: as long as a node stays in the table, its recorded
  sequence number never decreases, whatever is received.\<close>

theorem lan_no_rollback:
  assumes "lan_ok t" and "hm_get t k = Some e" and "hm_get (fst (lan_step env cfg t ev)) k = Some e'"
  shows "le_seq e \<le> le_seq e'"
  by (rule lan_step_get [OF assms])

theorem lan_no_rollback_witness:
  "le_seq \<lparr>le_endpoints = [], le_seq = 4, le_last_seen = 9\<rparr> \<le> le_seq \<lparr>le_endpoints = [], le_seq = 4, le_last_seen = 9\<rparr>"
  by (rule lan_no_rollback [of "[(''A'', \<lparr>le_endpoints = [], le_seq = 4, le_last_seen = 9\<rparr>)]" "''A''" _
        "\<lparr>lan_mac = (\<lambda>_ _. 0), lan_valid_point = (\<lambda>_. True), lan_b64 = (\<lambda>_. ''A'')\<rparr>" "\<lparr>lc_port = 4195, lc_group = 1, lc_interfaces = [2], lc_own_public_key = 7, lc_lan_key = 3, lc_listen_port = 4193\<rparr>"
        "LanTick None 10"])
    (simp_all add: lan_ok_def hm_ok_def lan_announce_def lan_prune_def hm_retain_def sat_sub_def LAN_ENTRY_TTL_def)

end
