(* ===== verification/Gossip_Node.thy ===== *)
theory Gossip_Node
  imports Gossip_Store Candidates
begin

text \<open>
  Gossip inside the tunnel (\<open>crates/engine/src/gossip.rs\<close>): what a received datagram changes and
  which decision it gives to the daemon, the node's own endpoint entry and its sequence number, the
  broadcast, and the loop \<open>serve\<close> as a step function.
\<close>

definition GOSSIP_BUF_LEN :: nat where "GOSSIP_BUF_LEN = 1500"

datatype gossip_event =
    Discovered discovered_endpoints
  | MemberAdmitted public_key string ipv6
  | Revoked public_key

record gossip_env =
  g_verify :: verify_fn
  g_valid_point :: "key32 \<Rightarrow> bool"
  g_b64 :: "public_key \<Rightarrow> string"
  g_sha :: sha256

definition admin_refuses :: "public_key list \<Rightarrow> entry \<Rightarrow> bool" where
  "admin_refuses admins e \<longleftrightarrow>
     (entry_kind e = KMember \<or> entry_kind e = KRevocation) \<and> admins \<noteq> [] \<and> entry_signer e \<notin> set admins"

definition on_endpoint :: "gossip_env \<Rightarrow> string \<Rightarrow> gossip_store \<Rightarrow> entry \<Rightarrow> gossip_store \<times> gossip_event option" where
  "on_endpoint env own_key_b64 s e =
     (let node = g_b64 env (entry_node e) in
      if node = own_key_b64 then (s, None)
      else let eps = endpoint_addrs e in
        if eps = [] then (s, None)
        else case store_merge (g_verify env) s e of
          (s', outcome) \<Rightarrow>
            (s', if outcome \<noteq> Applied then None
                 else Some (Discovered \<lparr>de_source = Gossip, peer_key = node, endpoints = eps\<rparr>)))"

definition on_member :: "gossip_env \<Rightarrow> network_prefix \<Rightarrow> gossip_store \<Rightarrow> entry \<Rightarrow> string \<Rightarrow> gossip_store \<times> gossip_event option" where
  "on_member env prefix s e name =
     (case store_merge (g_verify env) s e of
        (s', outcome) \<Rightarrow>
          (s', if outcome \<noteq> Applied then None
               else if is_revoked s' (entry_node e) then None
               else case derive_node_addr (g_sha env) prefix (entry_node e) of
                 Inl _ \<Rightarrow> None
               | Inr a \<Rightarrow> Some (MemberAdmitted (entry_node e) name (address a))))"

definition on_revocation :: "gossip_env \<Rightarrow> gossip_store \<Rightarrow> entry \<Rightarrow> gossip_store \<times> gossip_event option" where
  "on_revocation env s e =
     (case store_merge (g_verify env) s e of
        (s', outcome) \<Rightarrow> (s', if outcome \<noteq> Applied then None else Some (Revoked (entry_node e))))"

definition gossip_handle_datagram ::
  "gossip_env \<Rightarrow> bytes \<Rightarrow> ipv6 \<Rightarrow> network_prefix \<Rightarrow> string \<Rightarrow> public_key list \<Rightarrow> gossip_store \<Rightarrow> gossip_store \<times> gossip_event option" where
  "gossip_handle_datagram env buf src prefix own_key_b64 admins s =
     (if \<not> is_within_prefix src prefix then (s, None)
      else case entry_decode (g_verify env) (g_valid_point env) buf of
        Inl _ \<Rightarrow> (s, None)
      | Inr e \<Rightarrow>
          if admin_refuses admins e then (s, None)
          else case e of
            Endpoint _ _ _ _ _ \<Rightarrow> on_endpoint env own_key_b64 s e
          | Member _ name _ _ _ _ _ \<Rightarrow> on_member env prefix s e name
          | Revocation _ _ _ _ \<Rightarrow> on_revocation env s e)"

section \<open>Broadcasting\<close>

record 'sk gossip_config =
  gc_port :: u16
  gc_own_address :: ipv6
  gc_prefix :: network_prefix
  gc_own_identity :: 'sk
  gc_listen_port :: u16
  gc_admin_keys :: "public_key list"
  gc_targets :: "ipv6 list"

record broadcast_state =
  last_addrs :: "ipv6 list"
  entry_bytes :: "bytes option"
  bc_seq :: u64

definition broadcast_new :: "u64 \<Rightarrow> broadcast_state" where
  "broadcast_new now = \<lparr>last_addrs = [], entry_bytes = None, bc_seq = now\<rparr>"

definition own_entry :: "'sk signer_ops \<Rightarrow> 'sk gossip_config \<Rightarrow> broadcast_state \<Rightarrow> ipv6 list \<Rightarrow> u64 \<Rightarrow> broadcast_state \<times> bytes option" where
  "own_entry ops cfg bc addrs now =
     (let addrs = take GOSSIP_MAX_ADDRS addrs in
      if addrs = [] then (bc, None)
      else if addrs = last_addrs bc then (bc, entry_bytes bc)
      else let bc = bc\<lparr>bc_seq := max (bc_seq bc + 1) now\<rparr> in
        case sign_endpoint ops (gc_own_identity cfg) addrs (gc_listen_port cfg) (bc_seq bc) of
          Inl _ \<Rightarrow> (bc, None)
        | Inr e \<Rightarrow>
            (case entry_encode e of
               Inl _ \<Rightarrow> (bc, None)
             | Inr bs \<Rightarrow> (bc\<lparr>last_addrs := addrs, entry_bytes := Some bs\<rparr>, Some bs)))"

definition encodings :: "entry list \<Rightarrow> bytes list" where
  "encodings es = List.map_filter (\<lambda>e. case entry_encode e of Inl _ \<Rightarrow> None | Inr bs \<Rightarrow> Some bs) es"

definition broadcast :: "'sk signer_ops \<Rightarrow> 'sk gossip_config \<Rightarrow> gossip_store \<Rightarrow> ipv6 list \<Rightarrow> broadcast_state \<Rightarrow> ipv6 list option \<Rightarrow> u64 \<Rightarrow> broadcast_state \<times> (bytes \<times> socket_v6) list" where
  "broadcast ops cfg s targets bc listed now =
     (case listed of
        None \<Rightarrow> (bc, [])
      | Some addrs \<Rightarrow>
          (case own_entry ops cfg bc addrs now of
             (bc', own) \<Rightarrow>
               let packets = (case own of None \<Rightarrow> [] | Some b \<Rightarrow> [b]) @ encodings (store_entries s)
               in (bc', concat (map (\<lambda>t. map (\<lambda>p. (p, sock t (gc_port cfg))) packets) targets))))"

record gossip_node =
  gn_store :: gossip_store
  gn_targets :: "ipv6 list"
  gn_broadcast :: broadcast_state

definition gossip_start :: "'sk gossip_config \<Rightarrow> u64 \<Rightarrow> gossip_node" where
  "gossip_start cfg now = \<lparr>gn_store = store_new, gn_targets = gc_targets cfg, gn_broadcast = broadcast_new now\<rparr>"

datatype gossip_input =
    BroadcastTick "ipv6 list option" u64
  | GossipKick "ipv6 list option" u64
  | UpdateTargets "ipv6 list"
  | GossipRecv socket_addr bytes "ipv6 list option" u64

definition node_broadcast :: "'sk signer_ops \<Rightarrow> 'sk gossip_config \<Rightarrow> gossip_node \<Rightarrow> ipv6 list option \<Rightarrow> u64 \<Rightarrow> gossip_node \<times> (bytes \<times> socket_v6) list" where
  "node_broadcast ops cfg n listed now =
     (case broadcast ops cfg (gn_store n) (gn_targets n) (gn_broadcast n) listed now of
        (bc, out) \<Rightarrow> (n\<lparr>gn_broadcast := bc\<rparr>, out))"

fun gossip_step :: "gossip_env \<Rightarrow> 'sk signer_ops \<Rightarrow> 'sk gossip_config \<Rightarrow> gossip_node \<Rightarrow> gossip_input \<Rightarrow>
    gossip_node \<times> (bytes \<times> socket_v6) list \<times> gossip_event option" where
  "gossip_step env ops cfg n (BroadcastTick listed now) = (case node_broadcast ops cfg n listed now of (n', out) \<Rightarrow> (n', out, None))"
| "gossip_step env ops cfg n (GossipKick listed now) = (case node_broadcast ops cfg n listed now of (n', out) \<Rightarrow> (n', out, None))"
| "gossip_step env ops cfg n (UpdateTargets ts) = (n\<lparr>gn_targets := ts\<rparr>, [], None)"
| "gossip_step env ops cfg n (GossipRecv src datagram listed now) =
     (case src of
        V4 _ _ \<Rightarrow> (n, [], None)
      | V6 src6 \<Rightarrow>
          (case gossip_handle_datagram env (take GOSSIP_BUF_LEN datagram) (ip src6) (gc_prefix cfg)
                  (g_b64 env (sk_public ops (gc_own_identity cfg))) (gc_admin_keys cfg) (gn_store n) of
             (s, None) \<Rightarrow> (n\<lparr>gn_store := s\<rparr>, [], None)
           | (s, Some ev) \<Rightarrow>
               (case node_broadcast ops cfg (n\<lparr>gn_store := s\<rparr>) listed now of (n', out) \<Rightarrow> (n', out, Some ev))))"

section \<open>What a datagram can do\<close>

text \<open>The table after a datagram is the table, or the table after one merge of the decoded entry.\<close>

lemma gossip_handle_store:
  "fst (gossip_handle_datagram env buf src p own admins s) = s \<or>
     (\<exists>e. entry_decode (g_verify env) (g_valid_point env) buf = Inr e \<and>
        fst (gossip_handle_datagram env buf src p own admins s) = fst (store_merge (g_verify env) s e))"
proof (cases "entry_decode (g_verify env) (g_valid_point env) buf")
  case (Inl x)
  then show ?thesis by (simp add: gossip_handle_datagram_def)
next
  case (Inr e)
  then show ?thesis
    by (cases e) (auto simp: gossip_handle_datagram_def on_endpoint_def on_member_def on_revocation_def Let_def split: prod.splits)
qed

lemma gossip_handle_ok:
  "store_ok (g_verify env) s \<Longrightarrow> store_ok (g_verify env) (fst (gossip_handle_datagram env buf src p own admins s))"
  using gossip_handle_store [of env buf src p own admins s] store_ok_merge by metis

lemma gossip_handle_mono:
  assumes "hm_get s k = Some old"
  shows "\<exists>new. hm_get (fst (gossip_handle_datagram env buf src p own admins s)) k = Some new \<and> entry_seq old \<le> entry_seq new"
  using gossip_handle_store [of env buf src p own admins s] store_merge_mono [OF assms] assms by (metis order_refl)

lemma gossip_member_event:
  assumes "snd (gossip_handle_datagram env buf src p own admins s) = Some (MemberAdmitted n name a)"
  shows "\<exists>e. entry_decode (g_verify env) (g_valid_point env) buf = Inr e \<and> entry_kind e = KMember \<and> entry_node e = n \<and>
    (admins \<noteq> [] \<longrightarrow> entry_signer e \<in> set admins) \<and> entry_signer e \<noteq> n \<and> is_within_prefix src p \<and>
    \<not> is_revoked (fst (gossip_handle_datagram env buf src p own admins s)) n \<and>
    (\<exists>na. derive_node_addr (g_sha env) p n = Inr na \<and> a = address na)"
proof -
  from assms obtain e where e: "entry_decode (g_verify env) (g_valid_point env) buf = Inr e"
    and adm: "\<not> admin_refuses admins e" and src: "is_within_prefix src p"
    by (auto simp: gossip_handle_datagram_def split: if_splits sum.splits)
  note ok = entry_decode_Inr(13) [OF e]
  show ?thesis using assms e adm src ok
    by (cases e)
      (auto simp: gossip_handle_datagram_def on_endpoint_def on_member_def on_revocation_def Let_def admin_refuses_def
        signer_ok_def split: prod.splits if_splits sum.splits)
qed

lemma gossip_revoked_event:
  assumes "snd (gossip_handle_datagram env buf src p own admins s) = Some (Revoked n)"
  shows "\<exists>e. entry_decode (g_verify env) (g_valid_point env) buf = Inr e \<and> entry_kind e = KRevocation \<and> entry_node e = n \<and>
    (admins \<noteq> [] \<longrightarrow> entry_signer e \<in> set admins) \<and> entry_signer e \<noteq> n \<and> is_within_prefix src p \<and>
    is_revoked (fst (gossip_handle_datagram env buf src p own admins s)) n"
proof -
  from assms obtain e where e: "entry_decode (g_verify env) (g_valid_point env) buf = Inr e"
    and adm: "\<not> admin_refuses admins e" and src: "is_within_prefix src p"
    by (auto simp: gossip_handle_datagram_def split: if_splits sum.splits)
  note ok = entry_decode_Inr(13) [OF e]
  have applied: "is_revoked s' (entry_node e)"
    if "store_merge (g_verify env) s e = (s', Applied)" "entry_kind e = KRevocation" for s'
    using that by (auto simp: store_merge_def is_revoked_def entry_key_def hm split: if_splits option.splits)
  show ?thesis using assms e adm src ok applied
    by (cases e)
      (auto simp: gossip_handle_datagram_def on_endpoint_def on_member_def on_revocation_def Let_def admin_refuses_def
        signer_ok_def split: prod.splits if_splits sum.splits)
qed

section \<open>Runs\<close>

fun gossip_run :: "gossip_env \<Rightarrow> 'sk signer_ops \<Rightarrow> 'sk gossip_config \<Rightarrow> gossip_node \<Rightarrow> gossip_input list \<Rightarrow> gossip_node \<times> gossip_event list" where
  "gossip_run env ops cfg n [] = (n, [])"
| "gossip_run env ops cfg n (i # is) =
     (case gossip_step env ops cfg n i of
        (n', _, ev) \<Rightarrow> (case gossip_run env ops cfg n' is of (n'', evs) \<Rightarrow> (n'', (case ev of None \<Rightarrow> [] | Some e \<Rightarrow> [e]) @ evs)))"

lemma node_broadcast_store: "gn_store (fst (node_broadcast ops cfg n listed now)) = gn_store n"
  by (simp add: node_broadcast_def split: prod.splits)

lemma gossip_step_store:
  "gn_store (fst (gossip_step env ops cfg n i)) = gn_store n \<and> snd (snd (gossip_step env ops cfg n i)) = None \<or>
   (\<exists>buf src. gn_store (fst (gossip_step env ops cfg n i)) =
        fst (gossip_handle_datagram env buf src (gc_prefix cfg) (g_b64 env (sk_public ops (gc_own_identity cfg))) (gc_admin_keys cfg) (gn_store n)) \<and>
      snd (snd (gossip_step env ops cfg n i)) =
        snd (gossip_handle_datagram env buf src (gc_prefix cfg) (g_b64 env (sk_public ops (gc_own_identity cfg))) (gc_admin_keys cfg) (gn_store n)))"
proof (cases i)
  case (GossipRecv src datagram listed now)
  show ?thesis
  proof (cases src)
    case (V4 a q)
    then show ?thesis by (simp add: GossipRecv)
  next
    case (V6 src6)
    let ?h = "gossip_handle_datagram env (take GOSSIP_BUF_LEN datagram) (ip src6) (gc_prefix cfg)
      (g_b64 env (sk_public ops (gc_own_identity cfg))) (gc_admin_keys cfg) (gn_store n)"
    obtain s ev where h: "?h = (s, ev)" by (cases ?h) auto
    have "gn_store (fst (gossip_step env ops cfg n i)) = s \<and> snd (snd (gossip_step env ops cfg n i)) = ev"
      using node_broadcast_store [of ops cfg "n\<lparr>gn_store := s\<rparr>" listed now]
      by (cases ev) (auto simp: GossipRecv V6 h split: prod.splits)
    then have "gn_store (fst (gossip_step env ops cfg n i)) = fst ?h \<and> snd (snd (gossip_step env ops cfg n i)) = snd ?h"
      by (simp add: h)
    then show ?thesis by blast
  qed
qed (simp_all add: split_beta node_broadcast_store)

lemma is_revoked_step:
  assumes "is_revoked (gn_store n) k"
  shows "is_revoked (gn_store (fst (gossip_step env ops cfg n i))) k"
    and "snd (snd (gossip_step env ops cfg n i)) \<noteq> Some (MemberAdmitted k name a)"
proof -
  obtain old where old: "hm_get (gn_store n) (k, KRevocation) = Some old" using assms by (auto simp: is_revoked_def)
  have keep: "is_revoked (fst (gossip_handle_datagram env buf src p own admins (gn_store n))) k" for buf src p own admins
    using gossip_handle_mono [OF old, of env buf src p own admins] by (auto simp: is_revoked_def)
  then show "is_revoked (gn_store (fst (gossip_step env ops cfg n i))) k"
    using gossip_step_store [of env ops cfg n i] assms by metis
  show "snd (snd (gossip_step env ops cfg n i)) \<noteq> Some (MemberAdmitted k name a)"
    using gossip_step_store [of env ops cfg n i] gossip_member_event keep by (metis option.distinct(1))
qed

lemma revoked_never_admitted:
  "is_revoked (gn_store n) k \<Longrightarrow> MemberAdmitted k name a \<notin> set (snd (gossip_run env ops cfg n is))"
proof (induction "is" arbitrary: n)
  case Nil
  then show ?case by simp
next
  case (Cons i "is")
  obtain n' out ev where st: "gossip_step env ops cfg n i = (n', out, ev)" by (cases "gossip_step env ops cfg n i") auto
  have "is_revoked (gn_store n') k" "ev \<noteq> Some (MemberAdmitted k name a)"
    using is_revoked_step [OF Cons.prems, of env ops cfg i] by (simp_all add: st)
  with Cons.IH [of n'] show ?case by (auto simp: st split: option.splits prod.splits)
qed

lemma revocation_final:
  "snd (gossip_run env ops cfg n is) = pre @ Revoked k # post \<Longrightarrow> MemberAdmitted k name a \<notin> set post"
proof (induction "is" arbitrary: n pre)
  case Nil
  then show ?case by simp
next
  case (Cons i "is")
  obtain n' out ev where st: "gossip_step env ops cfg n i = (n', out, ev)" by (cases "gossip_step env ops cfg n i") auto
  let ?rest = "snd (gossip_run env ops cfg n' is)"
  have run: "snd (gossip_run env ops cfg n (i # is)) = (case ev of None \<Rightarrow> [] | Some e \<Rightarrow> [e]) @ ?rest"
    by (simp add: st split: prod.splits)
  show ?case
  proof (cases "ev = Some (Revoked k) \<and> pre = []")
    case True
    then have "is_revoked (gn_store n') k"
      using gossip_step_store [of env ops cfg n i] gossip_revoked_event by (metis fst_conv option.distinct(1) snd_conv st)
    then show ?thesis using True Cons.prems run revoked_never_admitted by fastforce
  next
    case False
    have eq: "(case ev of None \<Rightarrow> [] | Some e \<Rightarrow> [e]) @ ?rest = pre @ Revoked k # post"
      by (simp only: run [symmetric] Cons.prems)
    have "\<exists>pre'. ?rest = pre' @ Revoked k # post"
    proof (cases ev)
      case None
      with eq show ?thesis by auto
    next
      case (Some e)
      with eq False obtain q qs where "pre = q # qs" by (cases pre) auto
      with Some eq show ?thesis by auto
    qed
    then show ?thesis using Cons.IH by blast
  qed
qed

section \<open>The node's own entry\<close>

lemma own_entry_stable:
  assumes "own_entry ops cfg bc addrs now = (bc', Some bs)"
  shows "own_entry ops cfg bc' addrs now' = (bc', Some bs)"
  using assms by (auto simp: own_entry_def Let_def split: if_splits sum.splits)

text \<open>The cached bytes are the encoding of an entry with the current sequence number.\<close>

definition broadcast_ok :: "'sk signer_ops \<Rightarrow> 'sk gossip_config \<Rightarrow> broadcast_state \<Rightarrow> bool" where
  "broadcast_ok ops cfg bc \<longleftrightarrow>
     (case entry_bytes bc of
        None \<Rightarrow> last_addrs bc = []
      | Some bs \<Rightarrow>
          (case sign_endpoint ops (gc_own_identity cfg) (last_addrs bc) (gc_listen_port cfg) (bc_seq bc) of
             Inl _ \<Rightarrow> False | Inr e \<Rightarrow> entry_encode e = Inr bs))"

lemma sign_endpoint_fields:
  assumes "sign_endpoint ops sk es p s = Inr e"
  shows "entry_seq e = s" "entry_node e = sk_public ops sk" "entry_kind e = KEndpoint"
    "endpoint_addrs e = (if p = 0 then [] else map (\<lambda>a. sock a p) (filter is_usable_endpoint_addr es))"
    "\<exists>bs. entry_encode e = Inr bs"
  using assms
  by (auto simp: sign_endpoint_def sign_entry_def and_then_Inr signed_region_def entry_encode_def split: if_splits)

lemma sign_endpoint_total: "\<exists>e bs. sign_endpoint ops sk (take GOSSIP_MAX_ADDRS es) p s = Inr e \<and> entry_encode e = Inr bs"
  using sign_endpoint_Inr [of "take GOSSIP_MAX_ADDRS es" ops sk p s] sign_endpoint_fields(5) by fastforce

lemma own_entry_cases:
  assumes "own_entry ops cfg bc addrs now = (bc', r)"
  shows "take GOSSIP_MAX_ADDRS addrs = [] \<and> bc' = bc \<and> r = None \<or>
    take GOSSIP_MAX_ADDRS addrs = last_addrs bc \<and> bc' = bc \<and> r = entry_bytes bc \<or>
    take GOSSIP_MAX_ADDRS addrs \<noteq> last_addrs bc \<and>
    (\<exists>e bs. r = Some bs \<and> entry_encode e = Inr bs \<and>
       sign_endpoint ops (gc_own_identity cfg) (take GOSSIP_MAX_ADDRS addrs) (gc_listen_port cfg) (max (bc_seq bc + 1) now) = Inr e \<and>
       bc' = \<lparr>last_addrs = take GOSSIP_MAX_ADDRS addrs, entry_bytes = Some bs, bc_seq = max (bc_seq bc + 1) now\<rparr>)"
proof -
  obtain e bs where "sign_endpoint ops (gc_own_identity cfg) (take GOSSIP_MAX_ADDRS addrs) (gc_listen_port cfg) (max (bc_seq bc + 1) now) = Inr e"
    and "entry_encode e = Inr bs"
    using sign_endpoint_total [of ops "gc_own_identity cfg" addrs "gc_listen_port cfg" "max (bc_seq bc + 1) now"] by blast
  with assms show ?thesis by (cases bc) (auto simp: own_entry_def Let_def split: if_splits)
qed

lemma broadcast_ok_own_entry:
  "broadcast_ok ops cfg bc \<Longrightarrow> own_entry ops cfg bc addrs now = (bc', r) \<Longrightarrow> broadcast_ok ops cfg bc'"
  using own_entry_cases [of ops cfg bc addrs now bc' r] by (auto simp: broadcast_ok_def)

text \<open>Only a change of address moves the sequence number, and then upwards.\<close>

lemma own_entry_seq:
  assumes "own_entry ops cfg bc addrs now = (bc', r)" and "bc_seq bc \<noteq> - 1"
  shows "bc_seq bc \<le> bc_seq bc' \<and> (bc_seq bc' = bc_seq bc \<longleftrightarrow> last_addrs bc' = last_addrs bc)"
proof -
  have "bc_seq bc < bc_seq bc + 1" using assms(2) by (rule word_less_Suc)
  then have "bc_seq bc < max (bc_seq bc + 1) now" by (simp add: less_max_iff_disj)
  then show ?thesis using own_entry_cases [OF assms(1)] by (auto simp: less_imp_le)
qed

section \<open>Delivering a datagram\<close>

lemma merge_twice: "store_merge verify (fst (store_merge verify s e)) e = (fst (store_merge verify s e), r) \<Longrightarrow> r \<noteq> Applied"
proof -
  assume a: "store_merge verify (fst (store_merge verify s e)) e = (fst (store_merge verify s e), r)"
  show "r \<noteq> Applied"
  proof (cases "snd (store_merge verify s e) = Applied")
    case True
    from a store_merge_idem [OF this] show ?thesis by simp
  next
    case False
    then have "fst (store_merge verify s e) = s" by (auto simp: store_merge_def split: if_splits option.splits)
    with a False show ?thesis by simp
  qed
qed

lemma merge_again: "snd (store_merge verify (fst (store_merge verify s e)) e) \<noteq> Applied"
  "fst (store_merge verify (fst (store_merge verify s e)) e) = fst (store_merge verify s e)"
proof -
  show keep: "fst (store_merge verify (fst (store_merge verify s e)) e) = fst (store_merge verify s e)"
  proof (cases "snd (store_merge verify s e) = Applied")
    case True
    from store_merge_idem [OF this] show ?thesis by simp
  next
    case False
    then have "fst (store_merge verify s e) = s" by (auto simp: store_merge_def split: if_splits option.splits)
    then show ?thesis by simp
  qed
  show "snd (store_merge verify (fst (store_merge verify s e)) e) \<noteq> Applied"
    by (rule merge_twice [of verify s e]) (simp add: prod_eq_iff keep)
qed

lemma gossip_handle_again:
  "gossip_handle_datagram env buf src p own admins (fst (gossip_handle_datagram env buf src p own admins s)) =
     (fst (gossip_handle_datagram env buf src p own admins s), None)"
proof (cases "entry_decode (g_verify env) (g_valid_point env) buf")
  case (Inl x)
  then show ?thesis by (simp add: gossip_handle_datagram_def)
next
  case (Inr e)
  then show ?thesis using merge_again [of "g_verify env" s e]
    by (cases e) (simp_all add: gossip_handle_datagram_def on_endpoint_def on_member_def on_revocation_def Let_def split_beta)
qed

lemma gossip_discovered_event:
  assumes "snd (gossip_handle_datagram env buf src p own admins s) = Some (Discovered d)"
  shows "\<exists>e. entry_decode (g_verify env) (g_valid_point env) buf = Inr e \<and> entry_kind e = KEndpoint \<and>
    entry_signer e = entry_node e \<and> peer_key d = g_b64 env (entry_node e) \<and> peer_key d \<noteq> own \<and>
    endpoints d = endpoint_addrs e \<and> endpoints d \<noteq> [] \<and> de_source d = Gossip"
proof -
  from assms obtain e where e: "entry_decode (g_verify env) (g_valid_point env) buf = Inr e"
    by (auto simp: gossip_handle_datagram_def split: if_splits sum.splits)
  show ?thesis using assms e
    by (cases e)
      (auto simp: gossip_handle_datagram_def on_endpoint_def on_member_def on_revocation_def Let_def
        split: prod.splits if_splits sum.splits)
qed

lemma gossip_fresh_endpoint:
  assumes "entry_decode (g_verify env) (g_valid_point env) buf = Inr e" and "entry_kind e = KEndpoint"
    and "is_within_prefix src p" and "g_b64 env (entry_node e) \<noteq> own" and "endpoint_addrs e \<noteq> []"
    and "\<And>old. endpoint_of s (entry_node e) = Some old \<Longrightarrow> entry_seq old < entry_seq e"
    and "length s < MAX_STORE_ENTRIES"
  shows "snd (gossip_handle_datagram env buf src p own admins s) =
    Some (Discovered \<lparr>de_source = Gossip, peer_key = g_b64 env (entry_node e), endpoints = endpoint_addrs e\<rparr>)"
proof -
  have v: "entry_is_valid (g_verify env) e" using entry_decode_ok [OF assms(1)] by (simp add: entry_ok_def)
  have "lww_compare e old = Greater" if "hm_get s (entry_key e) = Some old" for old
  proof -
    have "entry_seq old < entry_seq e" using assms(6) that assms(2) by (simp add: endpoint_of_def entry_key_def)
    then have g: "cmp (entry_seq e) (entry_seq old) = Greater" by simp
    show ?thesis unfolding lww_compare_def g by simp
  qed
  then have m: "snd (store_merge (g_verify env) s e) = Applied"
    using v assms(7) by (simp add: store_merge_def split: option.splits)
  show ?thesis using assms m
    by (cases e) (simp_all add: gossip_handle_datagram_def on_endpoint_def admin_refuses_def Let_def split_beta)
qed

section \<open>Properties\<close>

text \<open>C11: Revocation is final: after a node has been reported revoked, it is never reported admitted again,
  whatever is received, in whatever order.\<close>

theorem gossip_revocation_final:
  assumes "snd (gossip_run env ops cfg n is) = pre @ Revoked k # post"
  shows "MemberAdmitted k name a \<notin> set post"
  by (rule revocation_final [OF assms])

theorem gossip_revocation_final_witness:
  "MemberAdmitted 1 ''x'' 5 \<notin> set [Revoked 3]"
proof -
  let ?env = "\<lparr>g_verify = (\<lambda>_ _ _. True), g_valid_point = (\<lambda>_. True), g_b64 = (\<lambda>_. []), g_sha = (\<lambda>_. 0)\<rparr>"
  let ?ops = "\<lparr>sk_public = (\<lambda>_ :: unit. 9), sk_sign = (\<lambda>_ _. 0)\<rparr>"
  let ?cfg = "\<lparr>gc_port = 1, gc_own_address = 1, gc_prefix = NetworkPrefix (take 6 (octets 0)), gc_own_identity = (),
    gc_listen_port = 1, gc_admin_keys = [], gc_targets = []\<rparr>"
  have ok: "entry_ok (\<lambda>_ _ _. True) (\<lambda>_. True) (Revocation k 5 0 2)" if "k \<noteq> 2" for k
    using that by (simp add: entry_ok_def entry_is_valid_def signer_ok_def entry_verify_def signed_region_def)
  obtain b1 where b1: "entry_encode (Revocation 1 5 0 2) = Inr b1"
    "entry_decode (\<lambda>_ _ _. True) (\<lambda>_. True) b1 = Inr (Revocation 1 5 0 2)"
    using gossip_wire.roundtrip [OF ok [of 1]] by auto
  obtain b3 where b3: "entry_encode (Revocation 3 5 0 2) = Inr b3"
    "entry_decode (\<lambda>_ _ _. True) (\<lambda>_. True) b3 = Inr (Revocation 3 5 0 2)"
    using gossip_wire.roundtrip [OF ok [of 3]] by auto
  have len: "length b1 \<le> GOSSIP_BUF_LEN" "length b3 \<le> GOSSIP_BUF_LEN"
    using b1(1) b3(1) by (auto simp: entry_encode_def signed_region_def GOSSIP_BUF_LEN_def)
  have v: "entry_is_valid (\<lambda>_ _ _. True) (Revocation k 5 0 2)" if "k \<noteq> 2" for k
    using ok [OF that] by (simp add: entry_ok_def)
  have "snd (gossip_run ?env ?ops ?cfg (gossip_start ?cfg 0)
      [GossipRecv (V6 (sock 0 1)) b1 None 0, GossipRecv (V6 (sock 0 1)) b3 None 0]) = [] @ Revoked 1 # [Revoked 3]"
    using len b1(2) b3(2)
    by (simp add: gossip_handle_datagram_def is_within_prefix_def sock_def admin_refuses_def on_revocation_def v
        store_merge_def gossip_start_def store_new_def entry_key_def MAX_STORE_ENTRIES_def node_broadcast_def broadcast_def)
  from gossip_revocation_final [OF this] show ?thesis .
qed



text \<open>Gossip does not excite itself: while a node's addresses do not change it keeps broadcasting the
  same bytes, and a node that has handled a datagram once answers its repetition with neither a change of
  its table nor an event, hence without rebroadcasting.\<close>

theorem gossip_no_self_excitation:
  assumes "own_entry ops cfg bc addrs now = (bc', Some bs)"
  shows "own_entry ops cfg bc' addrs now' = (bc', Some bs) \<and>
    gossip_handle_datagram env bs src p own admins (fst (gossip_handle_datagram env bs src p own admins s)) =
      (fst (gossip_handle_datagram env bs src p own admins s), None)"
  using own_entry_stable [OF assms] gossip_handle_again by blast

theorem gossip_no_self_excitation_witness:
  "\<exists>bc bs. own_entry \<lparr>sk_public = (\<lambda>_ :: unit. 9), sk_sign = (\<lambda>_ _. 0)\<rparr>
     \<lparr>gc_port = 1, gc_own_address = 1, gc_prefix = NetworkPrefix [], gc_own_identity = (), gc_listen_port = 1,
      gc_admin_keys = [], gc_targets = []\<rparr> bc [7] 99 = (bc, Some bs)"
proof -
  let ?ops = "\<lparr>sk_public = (\<lambda>_ :: unit. 9), sk_sign = (\<lambda>_ _. 0)\<rparr>"
  let ?cfg = "\<lparr>gc_port = 1, gc_own_address = 1, gc_prefix = NetworkPrefix [], gc_own_identity = (), gc_listen_port = 1,
      gc_admin_keys = [], gc_targets = []\<rparr>"
  obtain bc bs where "own_entry ?ops ?cfg (broadcast_new 3) [7] 5 = (bc, Some bs)"
    using own_entry_cases [of ?ops ?cfg "broadcast_new 3" "[7]" 5] by (cases "own_entry ?ops ?cfg (broadcast_new 3) [7] 5")
      (auto simp: broadcast_new_def GOSSIP_MAX_ADDRS_def)
  from gossip_no_self_excitation [OF this] show ?thesis by blast
qed

text \<open>A change of address gets through: after its addresses changed, a node's next entry beats every
  entry of it that others can hold (none with a larger sequence number than the node has used), and the
  receiver reports its usable new addresses.\<close>

theorem gossip_address_change_propagates:
  assumes "signatures_verify (g_verify env) (g_valid_point env) ops"
    and "own_entry ops cfg bc addrs now = (bc', Some bs)" and "take GOSSIP_MAX_ADDRS addrs \<noteq> last_addrs bc"
    and "take GOSSIP_MAX_ADDRS addrs \<noteq> []" and "bc_seq bc \<noteq> - 1"
    and "\<And>old. endpoint_of s (sk_public ops (gc_own_identity cfg)) = Some old \<Longrightarrow> entry_seq old \<le> bc_seq bc"
    and "length s < MAX_STORE_ENTRIES" and "is_within_prefix src p"
    and "g_b64 env (sk_public ops (gc_own_identity cfg)) \<noteq> own" and "gc_listen_port cfg \<noteq> 0"
    and "filter is_usable_endpoint_addr (take GOSSIP_MAX_ADDRS addrs) \<noteq> []"
  shows "snd (gossip_handle_datagram env bs src p own admins s) =
    Some (Discovered \<lparr>de_source = Gossip, peer_key = g_b64 env (sk_public ops (gc_own_identity cfg)),
      endpoints = map (\<lambda>a. sock a (gc_listen_port cfg)) (filter is_usable_endpoint_addr (take GOSSIP_MAX_ADDRS addrs))\<rparr>)"
proof -
  obtain e where enc: "entry_encode e = Inr bs" and
    sg: "sign_endpoint ops (gc_own_identity cfg) (take GOSSIP_MAX_ADDRS addrs) (gc_listen_port cfg) (max (bc_seq bc + 1) now) = Inr e"
    using own_entry_cases [OF assms(2)] assms(3,4) by auto
  note f = sign_endpoint_fields [OF sg]
  have dec: "entry_decode (g_verify env) (g_valid_point env) bs = Inr e"
    by (rule entry_decode_encode [OF sign_endpoint_ok [OF sg assms(1)] enc])
  have "bc_seq bc < max (bc_seq bc + 1) now" using word_less_Suc [OF assms(5)] by (simp add: less_max_iff_disj)
  then have "\<And>old. endpoint_of s (entry_node e) = Some old \<Longrightarrow> entry_seq old < entry_seq e"
    using assms(6) f(1,2) by (metis le_less_trans)
  from gossip_fresh_endpoint [OF dec f(3) assms(8) _ _ this assms(7)] show ?thesis using f assms(9-11) by simp
qed

theorem gossip_address_change_propagates_witness:
  "\<exists>bs. snd (gossip_handle_datagram \<lparr>g_verify = (\<lambda>_ _ _. True), g_valid_point = (\<lambda>_. True), g_b64 = (\<lambda>_. ''A''), g_sha = (\<lambda>_. 0)\<rparr>
      bs 0 (NetworkPrefix (take 6 (octets 0))) ''B'' [] []) =
    Some (Discovered \<lparr>de_source = Gossip, peer_key = ''A'', endpoints = [sock (0x20010db8 * 2 ^ 96) 4193]\<rparr>)"
proof -
  let ?env = "\<lparr>g_verify = (\<lambda>_ _ _. True), g_valid_point = (\<lambda>_. True), g_b64 = (\<lambda>_. ''A''), g_sha = (\<lambda>_. 0)\<rparr>"
  let ?ops = "\<lparr>sk_public = (\<lambda>_ :: unit. 9), sk_sign = (\<lambda>_ _. 0)\<rparr>"
  let ?cfg = "\<lparr>gc_port = 1, gc_own_address = 1, gc_prefix = NetworkPrefix [], gc_own_identity = (), gc_listen_port = 4193,
      gc_admin_keys = [], gc_targets = []\<rparr>"
  let ?a = "0x20010db8 * 2 ^ 96 :: ipv6"
  have u: "is_usable_endpoint_addr ?a" by code_simp
  obtain bc bs where "own_entry ?ops ?cfg (broadcast_new 3) [?a] 5 = (bc, Some bs)"
    using own_entry_cases [of ?ops ?cfg "broadcast_new 3" "[?a]" 5] by (cases "own_entry ?ops ?cfg (broadcast_new 3) [?a] 5")
      (auto simp: broadcast_new_def GOSSIP_MAX_ADDRS_def)
  from gossip_address_change_propagates [OF _ this, of ?env "[]" 0 "NetworkPrefix (take 6 (octets 0))" "''B''" "[]"]
  have "snd (gossip_handle_datagram ?env bs 0 (NetworkPrefix (take 6 (octets 0))) ''B'' [] []) =
    Some (Discovered \<lparr>de_source = Gossip, peer_key = ''A'', endpoints = [sock ?a 4193]\<rparr>)"
    by (simp add: u [simplified] signatures_verify_def broadcast_new_def GOSSIP_MAX_ADDRS_def MAX_STORE_ENTRIES_def
        is_within_prefix_def endpoint_of_def)
  then show ?thesis by blast
qed

end
