(* ===== verification/Std_Text.thy ===== *)
theory Std_Text
  imports Net_Addr
begin

text \<open>
  The text forms of the standard library the code reads and writes: decimal and hexadecimal numbers,
  IPv4 and IPv6 addresses, socket addresses, trimming and white space (\<open>core::net::parser\<close>, the
  \<open>Display\<close> instances of \<open>core::net\<close>, \<open>u8::from_str\<close>, \<open>str::trim\<close>). A reader takes the rest of
  the text and returns the value and what is left; a failed reader leaves the text as it was. Strings
  are their UTF-8 bytes.
\<close>

section \<open>Numbers\<close>

definition digit_value :: "int \<Rightarrow> char \<Rightarrow> int option" where
  "digit_value radix c =
     (let n = of_char c :: int;
          d = (if 48 \<le> n \<and> n \<le> 57 then n - 48 else if 97 \<le> n \<and> n \<le> 102 then n - 87
               else if 65 \<le> n \<and> n \<le> 70 then n - 55 else radix)
      in if d < radix then Some d else None)"

fun read_digits :: "int \<Rightarrow> string \<Rightarrow> int list \<times> string" where
  "read_digits radix [] = ([], [])"
| "read_digits radix (c # s) =
     (case digit_value radix c of
        None \<Rightarrow> ([], c # s)
      | Some d \<Rightarrow> (case read_digits radix s of (ds, r) \<Rightarrow> (d # ds, r)))"

definition digits_value :: "int \<Rightarrow> int list \<Rightarrow> int" where
  "digits_value radix ds = foldl (\<lambda>n d. n * radix + d) 0 ds"

definition read_number :: "int \<Rightarrow> nat option \<Rightarrow> bool \<Rightarrow> int \<Rightarrow> string \<Rightarrow> (int \<times> string) option" where
  "read_number radix max_digits zero_prefix bound s =
     (case read_digits radix s of
        (ds, r) \<Rightarrow>
          if ds = [] then None
          else if (case max_digits of None \<Rightarrow> False | Some m \<Rightarrow> length ds > m) then None
          else if \<not> zero_prefix \<and> hd ds = 0 \<and> length ds > 1 then None
          else if digits_value radix ds \<ge> bound then None
          else Some (digits_value radix ds, r))"

definition hex_digit :: "int \<Rightarrow> char" where
  "hex_digit n = (if n < 10 then char_of (48 + n) else char_of (87 + n))"

text \<open>\<open>{}\<close> and \<open>{:x}\<close> of an unsigned number.\<close>

function digits_of :: "int \<Rightarrow> int \<Rightarrow> int list" where
  "digits_of radix n = (if n < radix \<or> radix < 2 then [n] else digits_of radix (n div radix) @ [n mod radix])"
  by auto
termination by (relation "measure (nat \<circ> snd)") (auto simp: int_div_less_self)

declare digits_of.simps [simp del]

definition show_number :: "int \<Rightarrow> int \<Rightarrow> string" where
  "show_number radix n = map hex_digit (digits_of radix n)"

text \<open>\<open>u8::from_str\<close>: an optional plus sign, then digits only.\<close>

definition parse_u8 :: "string \<Rightarrow> u8 option" where
  "parse_u8 s =
     (let t = (case s of c # d # r \<Rightarrow> if c = CHR ''+'' then d # r else s | _ \<Rightarrow> s)
      in case read_digits 10 t of
           (ds, r) \<Rightarrow> if ds = [] \<or> r \<noteq> [] \<or> digits_value 10 ds > 255 then None else Some (of_int (digits_value 10 ds)))"

section \<open>Addresses\<close>

definition read_given_char :: "char \<Rightarrow> string \<Rightarrow> string option" where
  "read_given_char c s = (case s of [] \<Rightarrow> None | d # r \<Rightarrow> if d = c then Some r else None)"

definition read_separator :: "char \<Rightarrow> nat \<Rightarrow> (string \<Rightarrow> ('a \<times> string) option) \<Rightarrow> string \<Rightarrow> ('a \<times> string) option" where
  "read_separator sep i inner s =
     (if i > 0 then (case read_given_char sep s of None \<Rightarrow> None | Some r \<Rightarrow> inner r) else inner s)"

definition read_octet :: "nat \<Rightarrow> string \<Rightarrow> (int \<times> string) option" where
  "read_octet i = read_separator (CHR ''.'') i (read_number 10 (Some 3) False 256)"

definition read_ipv4 :: "string \<Rightarrow> (int list \<times> string) option" where
  "read_ipv4 s =
     (case read_octet 0 s of None \<Rightarrow> None | Some (a, s) \<Rightarrow>
     (case read_octet 1 s of None \<Rightarrow> None | Some (b, s) \<Rightarrow>
     (case read_octet 2 s of None \<Rightarrow> None | Some (c, s) \<Rightarrow>
     (case read_octet 3 s of None \<Rightarrow> None | Some (d, s) \<Rightarrow> Some ([a, b, c, d], s)))))"

definition read_group :: "nat \<Rightarrow> string \<Rightarrow> (int \<times> string) option" where
  "read_group i = read_separator (CHR '':'') i (read_number 16 (Some 4) True 65536)"

text \<open>\<open>read_groups\<close> with \<open>n\<close> groups left: the groups, whether the last two were an IPv4 address, the rest.\<close>

fun read_groups :: "nat \<Rightarrow> nat \<Rightarrow> string \<Rightarrow> int list \<times> bool \<times> string" where
  "read_groups i 0 s = ([], False, s)"
| "read_groups i (Suc n) s =
     (case (if n > 0 then read_separator (CHR '':'') i read_ipv4 s else None) of
        Some (os, r) \<Rightarrow> ([os ! 0 * 256 + os ! 1, os ! 2 * 256 + os ! 3], True, r)
      | None \<Rightarrow>
          (case read_group i s of
             None \<Rightarrow> ([], False, s)
           | Some (g, r) \<Rightarrow> (case read_groups (Suc i) n r of (gs, v4, r) \<Rightarrow> (g # gs, v4, r))))"

definition ipv6_of_groups :: "int list \<Rightarrow> ipv6" where
  "ipv6_of_groups gs = ipv6_of_octets (concat (map (\<lambda>g. u16_be (of_int g)) gs))"

definition read_ipv6 :: "string \<Rightarrow> (ipv6 \<times> string) option" where
  "read_ipv6 s =
     (case read_groups 0 8 s of
        (head, v4, r) \<Rightarrow>
          if length head = 8 then Some (ipv6_of_groups head, r)
          else if v4 then None
          else case read_given_char (CHR '':'') r of None \<Rightarrow> None | Some r \<Rightarrow>
            (case read_given_char (CHR '':'') r of None \<Rightarrow> None | Some r \<Rightarrow>
               (case read_groups 0 (8 - (length head + 1)) r of
                  (tail, _, r) \<Rightarrow> Some (ipv6_of_groups (head @ replicate (8 - length head - length tail) 0 @ tail), r))))"

definition read_port :: "string \<Rightarrow> (u16 \<times> string) option" where
  "read_port s =
     (case read_given_char (CHR '':'') s of
        None \<Rightarrow> None
      | Some r \<Rightarrow> map_option (\<lambda>(n, r). (of_int n, r)) (read_number 10 None True 65536 r))"

definition read_scope_id :: "string \<Rightarrow> u32 \<times> string" where
  "read_scope_id s =
     (case Option.bind (read_given_char (CHR ''%'') s) (read_number 10 None True 4294967296) of
        None \<Rightarrow> (0, s)
      | Some (n, r) \<Rightarrow> (of_int n, r))"

definition read_socket_v4 :: "string \<Rightarrow> (socket_addr \<times> string) option" where
  "read_socket_v4 s =
     (case read_ipv4 s of
        None \<Rightarrow> None
      | Some (os, r) \<Rightarrow> map_option (\<lambda>(p, r). (V4 (from_be_bytes (map of_int os)) p, r)) (read_port r))"

definition read_socket_v6 :: "string \<Rightarrow> (socket_addr \<times> string) option" where
  "read_socket_v6 s =
     (case read_given_char (CHR ''['') s of None \<Rightarrow> None | Some r \<Rightarrow>
     (case read_ipv6 r of None \<Rightarrow> None | Some (a, r) \<Rightarrow>
     (case read_scope_id r of (sc, r) \<Rightarrow>
     (case read_given_char (CHR '']'') r of None \<Rightarrow> None | Some r \<Rightarrow>
        map_option (\<lambda>(p, r). (V6 \<lparr>ip = a, port = p, flowinfo = 0, scope_id = sc\<rparr>, r)) (read_port r)))))"

definition parse_all :: "(string \<Rightarrow> ('a \<times> string) option) \<Rightarrow> string \<Rightarrow> 'a option" where
  "parse_all reader s = (case reader s of Some (a, []) \<Rightarrow> Some a | _ \<Rightarrow> None)"

definition parse_ipv4 :: "string \<Rightarrow> int list option" where
  "parse_ipv4 s = (if length s > 15 then None else parse_all read_ipv4 s)"

definition parse_ipv6 :: "string \<Rightarrow> ipv6 option" where
  "parse_ipv6 = parse_all read_ipv6"

definition parse_sock :: "string \<Rightarrow> socket_addr option" where
  "parse_sock = parse_all (\<lambda>s. case read_socket_v4 s of Some r \<Rightarrow> Some r | None \<Rightarrow> read_socket_v6 s)"

section \<open>Printing\<close>

definition segments :: "ipv6 \<Rightarrow> int list" where
  "segments a = map (\<lambda>i. uint (ucast (drop_bit (16 * (7 - i)) a) :: u16)) [0..<8]"

text \<open>The first longest run of zero groups, as (start, length).\<close>

fun zero_span :: "nat \<Rightarrow> nat \<times> nat \<Rightarrow> nat \<times> nat \<Rightarrow> int list \<Rightarrow> nat \<times> nat" where
  "zero_span i longest current [] = longest"
| "zero_span i longest current (g # gs) =
     (if g = 0 then
        let current = (if snd current = 0 then (i, 1) else (fst current, snd current + 1))
        in zero_span (i + 1) (if snd current > snd longest then current else longest) current gs
      else zero_span (i + 1) longest (0, 0) gs)"

fun fmt_subslice :: "int list \<Rightarrow> string" where
  "fmt_subslice [] = []"
| "fmt_subslice [g] = show_number 16 g"
| "fmt_subslice (g # gs) = show_number 16 g @ CHR '':'' # fmt_subslice gs"

definition show_ipv4 :: "u32 \<Rightarrow> string" where
  "show_ipv4 a =
     (let os = map uint (to_be_bytes 4 a) in
      show_number 10 (os ! 0) @ CHR ''.'' # show_number 10 (os ! 1) @ CHR ''.'' # show_number 10 (os ! 2) @ CHR ''.'' # show_number 10 (os ! 3))"

definition show_ipv6 :: "ipv6 \<Rightarrow> string" where
  "show_ipv6 a =
     (if is_ipv4_mapped a then ''::ffff:'' @ show_ipv4 (ucast a)
      else case zero_span 0 (0, 0) (0, 0) (segments a) of
        (start, len) \<Rightarrow>
          if len > 1 then fmt_subslice (take start (segments a)) @ ''::'' @ fmt_subslice (drop (start + len) (segments a))
          else fmt_subslice (segments a))"

definition show_sock_v6 :: "socket_v6 \<Rightarrow> string" where
  "show_sock_v6 e =
     CHR ''['' # show_ipv6 (ip e) @ (if scope_id e = 0 then [] else CHR ''%'' # show_number 10 (uint (scope_id e))) @
     '']:'' @ show_number 10 (uint (port e))"

definition show_sock :: "socket_addr \<Rightarrow> string" where
  "show_sock s = (case s of V4 a p \<Rightarrow> show_ipv4 a @ CHR '':'' # show_number 10 (uint p) | V6 e \<Rightarrow> show_sock_v6 e)"

section \<open>White space\<close>

text \<open>The length of the white-space character a text starts with, 0 if it starts with none.\<close>

definition ws_len :: "string \<Rightarrow> nat" where
  "ws_len s =
     (case map (of_char :: char \<Rightarrow> nat) (take 3 s) of
        [] \<Rightarrow> 0
      | a # t \<Rightarrow>
          if 9 \<le> a \<and> a \<le> 13 \<or> a = 32 then 1
          else (case t of
             [] \<Rightarrow> 0
           | b # u \<Rightarrow>
               if a = 0xC2 \<and> (b = 0x85 \<or> b = 0xA0) then 2
               else (case u of
                  [] \<Rightarrow> 0
                | c # _ \<Rightarrow>
                    if a = 0xE1 \<and> b = 0x9A \<and> c = 0x80 \<or> a = 0xE2 \<and> b = 0x80 \<and> (0x80 \<le> c \<and> c \<le> 0x8A \<or> c = 0xA8 \<or> c = 0xA9 \<or> c = 0xAF) \<or>
                       a = 0xE2 \<and> b = 0x81 \<and> c = 0x9F \<or> a = 0xE3 \<and> b = 0x80 \<and> c = 0x80 then 3
                    else 0)))"

fun has_whitespace :: "string \<Rightarrow> bool" where
  "has_whitespace [] = False"
| "has_whitespace (c # s) = (ws_len (c # s) > 0 \<or> has_whitespace s)"

function trim_start :: "string \<Rightarrow> string" where
  "trim_start s = (if s = [] \<or> ws_len s = 0 then s else trim_start (drop (ws_len s) s))"
  by auto
termination by (relation "measure length") auto

text \<open>White space at the end: the last one, two or three bytes are such a character.\<close>

definition ws_end :: "string \<Rightarrow> nat" where
  "ws_end s =
     (if s = [] then 0
      else if ws_len (drop (length s - 1) s) = 1 then 1
      else if length s \<ge> 2 \<and> ws_len (drop (length s - 2) s) = 2 then 2
      else if length s \<ge> 3 \<and> ws_len (drop (length s - 3) s) = 3 then 3 else 0)"

function trim_end :: "string \<Rightarrow> string" where
  "trim_end s = (if s = [] \<or> ws_end s = 0 then s else trim_end (take (length s - ws_end s) s))"
  by auto
termination by (relation "measure length") auto

declare trim_start.simps [simp del] trim_end.simps [simp del]

definition str_trim :: "string \<Rightarrow> string" where
  "str_trim s = trim_end (trim_start s)"

section \<open>Numbers read back\<close>

lemma digit_value_hex: "0 \<le> d \<Longrightarrow> d < radix \<Longrightarrow> radix \<le> 16 \<Longrightarrow> digit_value radix (hex_digit d) = Some d"
  by (auto simp: digit_value_def hex_digit_def of_char_of)

lemma digit_value_range: "digit_value radix c = Some d \<Longrightarrow> 0 \<le> d \<and> d < radix"
  by (auto simp: digit_value_def Let_def split: if_splits)

lemma read_digits_rest: "set (snd (read_digits radix s)) \<subseteq> set s"
  by (induction s) (auto split: option.splits prod.splits)

lemma read_digits_show:
  assumes "\<forall>d\<in>set ds. 0 \<le> d \<and> d < radix" and "radix \<le> 16" and "s = [] \<or> digit_value radix (hd s) = None"
  shows "read_digits radix (map hex_digit ds @ s) = (ds, s)"
  using assms
proof (induction ds)
  case Nil
  then show ?case by (cases s) auto
next
  case (Cons d ds)
  then show ?case by (simp add: digit_value_hex)
qed

lemma digits_of_range: "0 \<le> n \<Longrightarrow> 2 \<le> radix \<Longrightarrow> d \<in> set (digits_of radix n) \<Longrightarrow> 0 \<le> d \<and> d < radix"
proof (induction radix n rule: digits_of.induct)
  case (1 radix n)
  then show ?case by (subst (asm) (2) digits_of.simps) (auto simp: pos_imp_zdiv_nonneg_iff split: if_splits)
qed

lemma digits_value_of: "0 \<le> n \<Longrightarrow> 2 \<le> radix \<Longrightarrow> digits_value radix (digits_of radix n) = n"
proof (induction radix n rule: digits_of.induct)
  case (1 radix n)
  then show ?case by (subst digits_of.simps) (auto simp: digits_value_def pos_imp_zdiv_nonneg_iff)
qed

lemma digits_of_ne [simp]: "digits_of radix n \<noteq> []"
  by (subst digits_of.simps) auto

lemma length_digits_of:
  assumes "0 \<le> n" and "2 \<le> radix" and "n < radix ^ k" and "0 < k"
  shows "length (digits_of radix n) \<le> k"
  using assms
proof (induction radix n arbitrary: k rule: digits_of.induct)
  case (1 radix n)
  show ?case
  proof (cases "n < radix")
    case True
    then show ?thesis using 1 by (subst digits_of.simps) auto
  next
    case False
    then have "k \<noteq> 1" using 1 by auto
    then obtain j where k: "k = Suc j" "0 < j" using 1 by (cases k) auto
    have "n div radix < radix ^ j"
    proof (rule ccontr)
      assume "\<not> ?thesis"
      then have "radix ^ j * radix \<le> (n div radix) * radix" using 1 by (intro mult_right_mono) auto
      also have "\<dots> \<le> n" using 1 by (simp add: minus_mod_eq_div_mult [symmetric])
      finally show False using 1 k by (simp add: mult.commute)
    qed
    then have "length (digits_of radix (n div radix)) \<le> j" using 1 False k by (simp add: pos_imp_zdiv_nonneg_iff)
    then show ?thesis using False 1 k by (subst digits_of.simps) auto
  qed
qed

lemma read_number_show:
  assumes "0 \<le> n" and "n < bound" and "2 \<le> radix" and "radix \<le> 16" and "s = [] \<or> digit_value radix (hd s) = None"
    and "\<forall>m. k = Some m \<longrightarrow> 0 < m \<and> n < radix ^ m"
  shows "read_number radix k True bound (show_number radix n @ s) = Some (n, s)"
proof -
  have "read_digits radix (show_number radix n @ s) = (digits_of radix n, s)"
    unfolding show_number_def by (rule read_digits_show) (use assms digits_of_range in auto)
  moreover have "\<not> length (digits_of radix n) > m" if "k = Some m" for m
    using assms(6) that length_digits_of [OF assms(1,3)] by (simp add: leD)
  ultimately show ?thesis using assms by (auto simp: read_number_def digits_value_of split: option.splits)
qed

lemma show_number_chars: "0 \<le> n \<Longrightarrow> 2 \<le> radix \<Longrightarrow> c \<in> set (show_number radix n) \<Longrightarrow> \<exists>d. 0 \<le> d \<and> d < radix \<and> c = hex_digit d"
  using digits_of_range by (fastforce simp: show_number_def)

lemma hex_digit_not:
  "0 \<le> d \<Longrightarrow> d < 16 \<Longrightarrow> c \<in> {CHR ''.'', CHR '':'', CHR ''/'', CHR ''%'', CHR '']'', CHR ''['', CHR ''+''} \<Longrightarrow> hex_digit d \<noteq> c"
  using digit_value_hex [of d 16] by (auto simp: digit_value_def)

lemma parse_u8_show: "parse_u8 (show_number 10 (uint (w :: u8))) = Some w"
proof -
  let ?s = "show_number 10 (uint w)"
  have "hd ?s \<noteq> CHR ''+''"
  proof -
    have "?s \<noteq> []" by (simp add: show_number_def)
    then obtain d where "0 \<le> d" "d < 10" "hd ?s = hex_digit d" using show_number_chars [of "uint w" 10 "hd ?s"] by auto
    then show ?thesis using hex_digit_not [of d "CHR ''+''"] by simp
  qed
  then have t: "(case ?s of c # d # r \<Rightarrow> if c = CHR ''+'' then d # r else ?s | _ \<Rightarrow> ?s) = ?s"
    by (auto split: list.splits)
  have "uint w < 256" using uint_lt2p [of w] by simp
  moreover have "read_digits 10 ?s = (digits_of 10 (uint w), [])"
    using read_digits_show [of "digits_of 10 (uint w)" 10 "[]"] digits_of_range [of "uint w" 10] by (simp add: show_number_def)
  ultimately show ?thesis unfolding parse_u8_def Let_def t by (simp add: digits_value_of)
qed

section \<open>Addresses read back\<close>

lemma read_number_rest: "read_number radix k z b s = Some (n, r) \<Longrightarrow> set r \<subseteq> set s"
  using read_digits_rest [of radix s] by (auto simp: read_number_def split: prod.splits if_splits)

text \<open>Text without a dot holds no IPv4 address.\<close>

lemma read_ipv4_no_dot:
  assumes "CHR ''.'' \<notin> set s"
  shows "read_ipv4 s = None"
proof (cases "read_octet 0 s")
  case (Some x)
  then obtain a r where x: "x = (a, r)" and "read_number 10 (Some 3) False 256 s = Some (a, r)"
    by (cases x) (auto simp: read_octet_def read_separator_def)
  then have "CHR ''.'' \<notin> set r" using read_number_rest assms by blast
  then have "read_octet 1 r = None" by (cases r) (auto simp: read_octet_def read_separator_def read_given_char_def)
  then show ?thesis by (simp add: read_ipv4_def Some x)
qed (simp add: read_ipv4_def)

fun group_text :: "nat \<Rightarrow> int list \<Rightarrow> string" where
  "group_text i [] = []"
| "group_text i (g # gs) = (if i = 0 then [] else '':'') @ show_number 16 g @ group_text (Suc i) gs"

lemma fmt_subslice_text: "fmt_subslice gs = group_text 0 gs"
proof -
  have "group_text (Suc i) gs = group_text (Suc j) gs" for i j and gs
    by (induction gs arbitrary: i j) auto
  then have "group_text (Suc i) (g # gs) = CHR '':'' # group_text 0 (g # gs)" for i g gs
    by simp
  then show ?thesis by (induction gs rule: fmt_subslice.induct) simp_all
qed

definition group_ok :: "int \<Rightarrow> bool" where
  "group_ok g \<longleftrightarrow> 0 \<le> g \<and> g < 65536"

definition ends_number :: "string \<Rightarrow> bool" where
  "ends_number s \<longleftrightarrow> s = [] \<or> digit_value 16 (hd s) = None"

lemma ends_number_colon [simp]: "ends_number (CHR '':'' # s)"
  by (simp add: ends_number_def digit_value_def)

lemma ends_number_Nil [simp]: "ends_number []"
  by (simp add: ends_number_def)

lemma ends_group_text: "ends_number s \<Longrightarrow> ends_number (group_text (Suc i) gs @ s)"
  by (cases gs) auto

lemma group_text_no: "c \<in> {CHR ''.'', CHR ''/''} \<Longrightarrow> \<forall>g\<in>set gs. group_ok g \<Longrightarrow> c \<notin> set (group_text i gs)"
proof (induction gs arbitrary: i)
  case (Cons g gs)
  have "c \<notin> set (show_number 16 g)"
    using show_number_chars [of g 16 c] hex_digit_not [of _ c] Cons.prems by (fastforce simp: group_ok_def)
  then show ?case using Cons by auto
qed simp

lemma read_group_text:
  assumes "group_ok g" and "ends_number s"
  shows "read_group i ((if i = 0 then [] else '':'') @ show_number 16 g @ s) = Some (g, s)"
  using read_number_show [of g 65536 16 s "Some 4"] assms
  by (auto simp: read_group_def read_separator_def read_given_char_def group_ok_def ends_number_def)

lemma read_groups_text:
  assumes "\<forall>g\<in>set gs. group_ok g" and "CHR ''.'' \<notin> set s" and "ends_number s" and "length gs \<le> n"
    and "length gs = n \<or> read_group (i + length gs) s = None"
  shows "read_groups i n (group_text i gs @ s) = (gs, False, s)"
  using assms
proof (induction gs arbitrary: i n)
  case Nil
  have "read_separator (CHR '':'') i read_ipv4 s = None"
    using Nil.prems(2) read_ipv4_no_dot
    by (cases s) (auto simp: read_separator_def read_given_char_def)
  then show ?case using Nil.prems(5) by (cases n) auto
next
  case (Cons g gs)
  then obtain m where n: "n = Suc m" by (cases n) auto
  let ?r = "group_text (Suc i) gs @ s"
  have "CHR ''.'' \<notin> set (group_text i (g # gs) @ s)"
    using Cons.prems(1,2) group_text_no [of "CHR ''.''" "g # gs" i] by (simp del: group_text.simps)
  then have "read_separator (CHR '':'') i read_ipv4 (group_text i (g # gs) @ s) = None"
    using read_ipv4_no_dot
    by (cases "group_text i (g # gs) @ s") (auto simp: read_separator_def read_given_char_def simp del: group_text.simps)
  moreover have "read_group i (group_text i (g # gs) @ s) = Some (g, ?r)"
    using read_group_text [of g ?r i] Cons.prems(1,3) ends_group_text by simp
  moreover have "read_groups (Suc i) m ?r = (gs, False, s)"
    using Cons.IH [of m "Suc i"] Cons.prems n by simp
  ultimately show ?case unfolding n by (cases m) (simp_all del: group_text.simps(2))
qed

definition span_ok :: "int list \<Rightarrow> nat \<times> nat \<Rightarrow> bool" where
  "span_ok xs sp \<longleftrightarrow> fst sp + snd sp \<le> length xs \<and> (\<forall>j. j < snd sp \<longrightarrow> xs ! (fst sp + j) = 0)"

lemma span_ok_append: "span_ok xs sp \<Longrightarrow> span_ok (xs @ ys) sp"
  by (auto simp: span_ok_def nth_append)

lemma zero_span_ok:
  assumes "span_ok xs longest" and "span_ok xs current" and "snd current = 0 \<or> fst current + snd current = length xs"
  shows "span_ok (xs @ gs) (zero_span (length xs) longest current gs)"
  using assms
proof (induction gs arbitrary: xs longest current)
  case (Cons g gs)
  show ?case
  proof (cases "g = 0")
    case True
    define cur where "cur = (if snd current = 0 then (length xs, 1) else (fst current, snd current + 1))"
    have c: "span_ok (xs @ [g]) cur" "fst cur + snd cur = length (xs @ [g])"
      using Cons.prems(2,3) True by (auto simp: cur_def span_ok_def nth_append less_Suc_eq)
    have l: "span_ok (xs @ [g]) (if snd cur > snd longest then cur else longest)"
      using c(1) span_ok_append [OF Cons.prems(1)] by simp
    have "zero_span (length xs) longest current (g # gs) = zero_span (length (xs @ [g])) (if snd cur > snd longest then cur else longest) cur gs"
      using True by (simp add: cur_def Let_def)
    with Cons.IH [OF l c(1)] c(2) show ?thesis by simp
  next
    case False
    have "span_ok (xs @ [g]) (0, 0)" by (simp add: span_ok_def)
    from Cons.IH [OF span_ok_append [OF Cons.prems(1)] this] False show ?thesis by simp
  qed
qed (simp)

lemma span_split: "span_ok xs (st, l) \<Longrightarrow> xs = take st xs @ replicate l 0 @ drop (st + l) xs"
proof -
  assume sp: "span_ok xs (st, l)"
  have "take l (drop st xs) = replicate l 0" using sp by (intro nth_equalityI) (auto simp: span_ok_def)
  moreover have "xs = take st xs @ take l (drop st xs) @ drop (st + l) xs"
    by (metis add.commute append_take_drop_id drop_drop)
  ultimately show ?thesis by simp
qed

lemma segments_ok: "length (segments a) = 8" "g \<in> set (segments a) \<Longrightarrow> group_ok g"
  by (auto simp: segments_def group_ok_def) (use uint_lt2p [where 'a = 16] in simp)

lemma u16_be_segment: "u16_be (of_int (uint (ucast (x :: ipv6) :: u16))) = [ucast (drop_bit 8 x), ucast x]"
proof -
  have "ucast (drop_bit 8 (ucast x :: u16)) = (ucast (drop_bit 8 x) :: byte)"
    by (rule bit_word_eqI) (auto simp: bit_ucast_iff bit_drop_bit_eq)
  moreover have "ucast (ucast x :: u16) = (ucast x :: byte)"
    by (rule bit_word_eqI) (auto simp: bit_ucast_iff)
  ultimately show ?thesis by (simp add: eval_nat_numeral)
qed

lemma of_segments: "ipv6_of_groups (segments a) = a"
proof -
  have "[0..<8] = [0, 1, 2, 3, 4, 5, 6, 7 :: nat]" by (simp add: upt_rec)
  then have "concat (map (\<lambda>g. u16_be (of_int g)) (segments a)) =
      [ucast (drop_bit 120 a), ucast (drop_bit 112 a), ucast (drop_bit 104 a), ucast (drop_bit 96 a), ucast (drop_bit 88 a), ucast (drop_bit 80 a),
       ucast (drop_bit 72 a), ucast (drop_bit 64 a), ucast (drop_bit 56 a), ucast (drop_bit 48 a), ucast (drop_bit 40 a), ucast (drop_bit 32 a),
       ucast (drop_bit 24 a), ucast (drop_bit 16 a), ucast (drop_bit 8 a), ucast a]"
    by (simp add: segments_def u16_be_segment del: to_be_bytes.simps of_int_uint)
  moreover have "octets16 a = \<dots>" by (simp add: numeral_nat)
  ultimately have "concat (map (\<lambda>g. u16_be (of_int g)) (segments a)) = octets16 a" by simp
  then show ?thesis unfolding ipv6_of_groups_def ipv6_of_octets_def by (simp only: from_to_be)
qed

text \<open>
  The printed form of an address that is not IPv4-mapped is read back, and what follows it is left when it
  cannot continue an address.
\<close>

lemma read_ipv6_show:
  assumes "\<not> is_ipv4_mapped a" and "s = [] \<or> hd s \<in> {CHR '']'', CHR ''%''}" and "CHR ''.'' \<notin> set s"
  shows "read_ipv6 (show_ipv6 a @ s) = Some (a, s)"
proof -
  let ?gs = "segments a"
  obtain st l where z: "zero_span 0 (0, 0) (0, 0) ?gs = (st, l)" by fastforce
  have ok: "\<forall>g\<in>set ?gs. group_ok g" and len: "length ?gs = 8" using segments_ok by blast+
  have e: "ends_number s" using assms(2) by (cases s) (auto simp: ends_number_def digit_value_def)
  have stop: "read_group i s = None" if "0 < i" for i
    using assms(2) that by (cases s) (auto simp: read_group_def read_separator_def read_given_char_def)
  have stop0: "read_group 0 s = None"
    using assms(2) by (cases s) (auto simp: read_group_def read_separator_def read_number_def digit_value_def)
  show ?thesis
  proof (cases "l > 1")
    case False
    have "read_groups 0 8 (group_text 0 ?gs @ s) = (?gs, False, s)"
      by (rule read_groups_text) (use ok assms(3) e len in auto)
    then show ?thesis using False z assms(1)
      by (simp add: show_ipv6_def fmt_subslice_text read_ipv6_def len of_segments)
  next
    case True
    have "span_ok ?gs (st, l)" using zero_span_ok [of "[]" "(0, 0)" "(0, 0)" ?gs] z by (simp add: span_ok_def)
    then have sl: "st + l \<le> 8" and split: "?gs = take st ?gs @ replicate l 0 @ drop (st + l) ?gs"
      using len span_split by (auto simp: span_ok_def)
    let ?pre = "take st ?gs" and ?post = "drop (st + l) ?gs"
    have ok': "\<forall>g\<in>set ?pre. group_ok g" "\<forall>g\<in>set ?post. group_ok g" using ok by (auto dest: in_set_takeD in_set_dropD)
    have lens: "length ?pre = st" "length ?post = 8 - (st + l)" using len sl by auto
    let ?t = "group_text 0 ?post @ s"
    have dot: "CHR ''.'' \<notin> set ?t" using group_text_no [of "CHR ''.''" ?post 0] ok'(2) assms(3) by simp
    have cc: "read_group i (CHR '':'' # CHR '':'' # ?t) = None" for i
      by (simp add: read_group_def read_separator_def read_given_char_def read_number_def digit_value_def)
    have head: "read_groups 0 8 (group_text 0 ?pre @ CHR '':'' # CHR '':'' # ?t) = (?pre, False, CHR '':'' # CHR '':'' # ?t)"
      by (rule read_groups_text) (use ok' dot cc lens sl True in auto)
    have tail: "read_groups 0 (8 - (length ?pre + 1)) ?t = (?post, False, s)"
    proof (rule read_groups_text [OF ok'(2) assms(3) e])
      show "length ?post \<le> 8 - (length ?pre + 1)" using lens sl True by simp
      show "length ?post = 8 - (length ?pre + 1) \<or> read_group (0 + length ?post) s = None"
        using stop stop0 by (cases "length ?post") auto
    qed
    have "8 - length ?pre - length ?post = l" using lens sl by simp
    then show ?thesis using head tail True z assms(1) split lens sl of_segments [of a]
      by (simp add: show_ipv6_def fmt_subslice_text read_ipv6_def read_given_char_def)
  qed
qed

lemma parse_ipv6_show: "\<not> is_ipv4_mapped a \<Longrightarrow> parse_ipv6 (show_ipv6 a) = Some a"
  using read_ipv6_show [of a "[]"] by (simp add: parse_ipv6_def parse_all_def)

lemma show_ipv6_chars: "c \<in> {CHR ''.'', CHR ''/''} \<Longrightarrow> \<not> is_ipv4_mapped a \<Longrightarrow> c \<notin> set (show_ipv6 a)"
proof -
  assume c: "c \<in> {CHR ''.'', CHR ''/''}" and a: "\<not> is_ipv4_mapped a"
  have "c \<notin> set (group_text 0 (take n (segments a)))" "c \<notin> set (group_text 0 (drop n (segments a)))" "c \<notin> set (group_text 0 (segments a))" for n
    using group_text_no [OF c] segments_ok(2) by (meson in_set_takeD in_set_dropD)+
  moreover have "c \<noteq> CHR '':''" using c by auto
  ultimately show ?thesis using a by (simp add: show_ipv6_def fmt_subslice_text split: prod.split)
qed

lemma parse_ipv4_no_dot: "CHR ''.'' \<notin> set s \<Longrightarrow> parse_ipv4 s = None"
  by (simp add: parse_ipv4_def parse_all_def read_ipv4_no_dot)

lemma decimal_no_dot [simp]: "CHR ''.'' \<notin> set (show_number 10 (uint w))"
  using show_number_chars [of "uint w" 10 "CHR ''.''"] hex_digit_not [of _ "CHR ''.''"] by fastforce

text \<open>A socket address without a flow label, and not IPv4-mapped, is read back with its scope.\<close>

lemma parse_sock_show:
  assumes "\<not> is_ipv4_mapped (ip e)" and "flowinfo e = 0"
  shows "parse_sock (show_sock_v6 e) = Some (V6 e)"
proof -
  let ?port = "show_number 10 (uint (port e))"
  let ?r = "(if scope_id e = 0 then [] else CHR ''%'' # show_number 10 (uint (scope_id e))) @ '']:'' @ ?port"
  have ip: "read_ipv6 (show_ipv6 (ip e) @ ?r) = Some (ip e, ?r)"
    by (rule read_ipv6_show) (use assms in auto)
  have "uint (port e) < 65536" "uint (scope_id e) < 4294967296" using uint_lt2p [of "port e"] uint_lt2p [of "scope_id e"] by simp_all
  then have p: "read_number 10 None True 65536 ?port = Some (uint (port e), [])"
    and sc: "read_number 10 None True 4294967296 (show_number 10 (uint (scope_id e)) @ '']:'' @ ?port) = Some (uint (scope_id e), '']:'' @ ?port)"
    using read_number_show [of "uint (port e)" 65536 10 "[]" None]
      read_number_show [of "uint (scope_id e)" 4294967296 10 "'']:'' @ ?port" None] by (simp_all add: digit_value_def)
  have scope: "read_scope_id ?r = (scope_id e, '']:'' @ ?port)"
    using sc by (auto simp: read_scope_id_def read_given_char_def)
  have v4: "read_socket_v4 (CHR ''['' # s) = None" for s
    by (simp add: read_socket_v4_def read_ipv4_def read_octet_def read_separator_def read_number_def digit_value_def)
  have "read_socket_v6 (show_sock_v6 e) = Some (V6 e, [])"
    using ip scope p assms(2) by (simp add: read_socket_v6_def show_sock_v6_def read_given_char_def read_port_def)
  moreover have "read_socket_v4 (show_sock_v6 e) = None" using v4 by (simp add: show_sock_v6_def)
  ultimately show ?thesis by (simp add: parse_sock_def parse_all_def)
qed

end
