(* ===== verification/Route_Text.thy ===== *)
theory Route_Text
  imports Site_Route Std_Text Contracts
begin

text \<open>
  Site routes as text (\<open>crates/core/src/route.rs\<close>, the \<open>FromStr\<close> and \<open>Display\<close> instances): what
  the configuration, the state file and the status output hold.
\<close>

fun split_once :: "char \<Rightarrow> string \<Rightarrow> (string \<times> string) option" where
  "split_once c [] = None"
| "split_once c (x # xs) = (if x = c then Some ([], xs) else map_option (\<lambda>(a, b). (x # a, b)) (split_once c xs))"

definition route_from_str :: "string \<Rightarrow> (route_error, ipv6_route) result" where
  "route_from_str s =
     (case split_once (CHR ''/'') s of
        None \<Rightarrow> Inl (RouteInvalid s)
      | Some (addr_str, len_str) \<Rightarrow>
          if CHR ''.'' \<in> set addr_str \<or> parse_ipv4 addr_str \<noteq> None then Inl (RouteIpv4 s)
          else case parse_ipv6 addr_str of
            None \<Rightarrow> Inl (RouteInvalid s)
          | Some a \<Rightarrow>
              (case parse_u8 len_str of
                 None \<Rightarrow> Inl (RouteInvalid s)
               | Some len \<Rightarrow> route_new a len))"

definition show_route :: "ipv6_route \<Rightarrow> string" where
  "show_route r = show_ipv6 (prefix r) @ CHR ''/'' # show_number 10 (uint (prefix_len r))"

lemma split_once_append: "c \<notin> set s \<Longrightarrow> split_once c (s @ c # t) = Some (s, t)"
  by (induction s) auto

lemma route_new_id: "route_ok r \<Longrightarrow> route_new (prefix r) (prefix_len r) = Inr r"
  by (auto simp: route_new_def route_ok_def)

lemma route_reads_back: "route_ok r \<Longrightarrow> \<not> is_ipv4_mapped (prefix r) \<Longrightarrow> route_from_str (show_route r) = Inr r"
  using show_ipv6_chars [of "CHR ''/''" "prefix r"] show_ipv6_chars [of "CHR ''.''" "prefix r"]
  by (simp add: route_from_str_def show_route_def split_once_append parse_ipv4_no_dot parse_ipv6_show parse_u8_show route_new_id)

lemma route_from_str_ok: "route_from_str s = Inr r \<Longrightarrow> route_ok r"
  by (auto simp: route_from_str_def intro: route_new_ok split: option.splits prod.splits if_splits)

interpretation route_text: reversible "\<lambda>r. Inr (show_route r) :: (unit, string) result" route_from_str "\<lambda>r. route_ok r \<and> \<not> is_ipv4_mapped (prefix r)"
  by unfold_locales (auto intro: route_reads_back)

text \<open>A site route survives its text form: what is printed for a well-formed route whose prefix is not
  IPv4-mapped parses to the same route, two routes never print the same, and whatever text parses gives a
  well-formed route.\<close>

theorem route_text_roundtrip:
  "(route_ok r \<and> \<not> is_ipv4_mapped (prefix r) \<longrightarrow> route_from_str (show_route r) = Inr r) \<and>
   (route_ok r \<and> \<not> is_ipv4_mapped (prefix r) \<and> route_ok q \<and> \<not> is_ipv4_mapped (prefix q) \<and> show_route r = show_route q \<longrightarrow> r = q) \<and>
   (route_from_str s = Inr r \<longrightarrow> route_ok r)"
  using route_text.written_inject [of r q "show_route r"] route_reads_back route_from_str_ok by simp

theorem route_text_roundtrip_witness:
  "route_from_str (show_route \<lparr>prefix = push_bit 96 0x20010db8, prefix_len = 32\<rparr>) = Inr \<lparr>prefix = push_bit 96 0x20010db8, prefix_len = 32\<rparr>"
proof -
  have "route_ok \<lparr>prefix = push_bit 96 0x20010db8, prefix_len = 32\<rparr>" "\<not> is_ipv4_mapped (push_bit 96 0x20010db8)"
    by code_simp+
  then show ?thesis using route_text_roundtrip [of "\<lparr>prefix = push_bit 96 0x20010db8, prefix_len = 32\<rparr>"] by simp
qed

text \<open>An IPv4-mapped route is well formed but its text is refused: it is printed with dots.\<close>

lemma mapped_route_lost:
  "route_ok \<lparr>prefix = push_bit 32 0xffff, prefix_len = 96\<rparr>"
  "show_route \<lparr>prefix = push_bit 32 0xffff, prefix_len = 96\<rparr> = ''::ffff:0.0.0.0/96''"
  "route_from_str ''::ffff:0.0.0.0/96'' = Inl (RouteIpv4 ''::ffff:0.0.0.0/96'')"
  by code_simp+

end
