(* ===== verification/Node_Config.thy ===== *)
theory Node_Config
  imports Route_Text
begin

text \<open>
  The node configuration (\<open>crates/core/src/config.rs\<close>): from the deserialised file to the checked
  configuration. Deserialising TOML and base64 are third-party code: the model starts from the
  deserialised file, and base64 decoding is the operation of \<open>text_ops\<close>, about which nothing is assumed.
\<close>

record text_ops =
  b64_decode :: "string \<Rightarrow> bytes option"

section \<open>Keys as text\<close>

definition bytes_to_key :: "bytes \<Rightarrow> key32 option" where
  "bytes_to_key bs = (if length bs = 32 then Some (from_be_bytes bs) else None)"

definition network_key_from_base64 :: "text_ops \<Rightarrow> string \<Rightarrow> (identity_error, network_key) result" where
  "network_key_from_base64 ops s =
     (case Option.bind (b64_decode ops (str_trim s)) bytes_to_key of None \<Rightarrow> Inl InvalidEncoding | Some k \<Rightarrow> Inr k)"

definition pk_from_base64 :: "text_ops \<Rightarrow> (key32 \<Rightarrow> bool) \<Rightarrow> string \<Rightarrow> (identity_error, public_key) result" where
  "pk_from_base64 ops valid_point s =
     (case Option.bind (b64_decode ops (str_trim s)) bytes_to_key of
        None \<Rightarrow> Inl InvalidEncoding
      | Some k \<Rightarrow> pk_from_bytes valid_point k)"

section \<open>The file\<close>

datatype ddns_provider = Webhook | Cloudflare

record raw_node =
  rn_key_file :: string
  rn_listen_port :: "u16 option"
  rn_mtu :: "u32 option"
  rn_interface :: "string option"
  rn_probe_port :: "u16 option"
  rn_state_dir :: "string option"
  rn_keepalive :: "u16 option"
  rn_lan_discovery :: "bool option"
  rn_lan_port :: "u16 option"
  rn_relay :: "bool option"
  rn_relay_port :: "u16 option"
  rn_relay_allow :: "string list"
  rn_gossip_port :: "u16 option"
  rn_gossip :: "bool option"
  rn_admin_keys :: "string list"
  rn_dht :: "bool option"
  rn_http_addr :: "ipv6 option"
  rn_http_port :: "u16 option"
  rn_web_dir :: "string option"
  rn_ddns :: "bool option"
  rn_ddns_fqdn :: "string option"
  rn_ddns_provider :: "ddns_provider option"
  rn_ddns_webhook_url :: "string option"
  rn_ddns_secret :: "string option"
  rn_ddns_zone :: "string option"
  rn_ddns_resolver :: "socket_addr option"

record raw_peer =
  rp_name :: string
  rp_public_key :: string
  rp_endpoints :: "string list"
  rp_relay :: "bool option"
  rp_relay_port :: "u16 option"
  rp_routes :: "string list"
  rp_ddns :: "string option"
  rp_keepalive :: "u16 option"

record raw_config =
  rc_network_name :: string
  rc_network_key :: string
  rc_node :: raw_node
  rc_peers :: "raw_peer list"

section \<open>The checked configuration\<close>

record node_settings =
  ns_key_file :: string
  ns_listen_port :: u16
  ns_mtu :: u32
  ns_interface :: string
  ns_probe_port :: u16
  ns_state_dir :: string
  ns_keepalive :: u16
  ns_lan_discovery :: bool
  ns_lan_port :: u16
  ns_relay :: bool
  ns_relay_port :: u16
  ns_relay_allow :: "public_key list"
  ns_gossip_port :: u16
  ns_gossip :: bool
  ns_admin_keys :: "public_key list"
  ns_dht :: bool
  ns_http_addr :: "ipv6 option"
  ns_http_port :: "u16 option"
  ns_web_dir :: "string option"
  ns_ddns :: bool
  ns_ddns_fqdn :: "string option"
  ns_ddns_provider :: ddns_provider
  ns_ddns_webhook_url :: "string option"
  ns_ddns_secret :: "string option"
  ns_ddns_zone :: "string option"
  ns_ddns_resolver :: "socket_addr option"

record config_peer =
  cp_name :: string
  cp_public_key :: public_key
  cp_endpoints :: "socket_v6 list"
  cp_addr :: node_addr
  cp_relay :: bool
  cp_relay_port :: u16
  cp_routes :: "ipv6_route list"
  cp_ddns :: "string option"
  cp_keepalive :: "u16 option"

record config =
  cf_network_name :: string
  cf_network_key :: network_key
  cf_prefix :: network_prefix
  cf_node :: node_settings
  cf_peers :: "config_peer list"

definition relay_control_endpoints :: "config_peer \<Rightarrow> socket_v6 list" where
  "relay_control_endpoints p =
     (if \<not> cp_relay p then [] else map (\<lambda>e. sock (ip e) (cp_relay_port p)) (cp_endpoints p))"

datatype config_error =
    ConfigIo string | ConfigParse | BadKey string identity_error | Ipv4Endpoint string string
  | BadEndpoint string string | DuplicatePeer string string | ConfigAddr addr_error | BadNetworkKey
  | RelayWithoutEndpoint string | HttpAddrPortMismatch | DdnsMissingFqdn | DdnsMissingWebhookUrl
  | DdnsMissingCloudflare | BadDdnsFqdn string | ConfigIdentity string identity_error
  | BadRoute string string route_error | DuplicateRoute string string | RouteConflict string string
  | RouteOverlap string string string string

section \<open>Loading\<close>

text \<open>\<open>Option<&str>::is_none_or(str::is_empty)\<close>.\<close>

definition missing :: "string option \<Rightarrow> bool" where
  "missing s \<longleftrightarrow> (case s of None \<Rightarrow> True | Some t \<Rightarrow> t = [])"

definition unwrap_or :: "'a option \<Rightarrow> 'a \<Rightarrow> 'a" where
  "unwrap_or x d = (case x of None \<Rightarrow> d | Some y \<Rightarrow> y)"

definition check_node :: "raw_node \<Rightarrow> (config_error, unit) result" where
  "check_node n =
     (let ddns = unwrap_or (rn_ddns n) False; provider = unwrap_or (rn_ddns_provider n) Webhook in
      if (rn_http_addr n \<noteq> None) \<noteq> (rn_http_port n \<noteq> None) then Inl HttpAddrPortMismatch
      else if ddns \<and> missing (rn_ddns_fqdn n) then Inl DdnsMissingFqdn
      else if ddns \<and> provider = Webhook \<and> missing (rn_ddns_webhook_url n) then Inl DdnsMissingWebhookUrl
      else if ddns \<and> provider = Cloudflare \<and> (rn_ddns_secret n = None \<or> missing (rn_ddns_zone n)) then Inl DdnsMissingCloudflare
      else Inr ())"

definition load_endpoint :: "string \<Rightarrow> string \<Rightarrow> (config_error, socket_v6) result" where
  "load_endpoint name e =
     (case parse_sock e of
        Some (V6 a) \<Rightarrow> Inr a
      | Some (V4 _ _) \<Rightarrow> Inl (Ipv4Endpoint name e)
      | None \<Rightarrow> Inl (BadEndpoint name e))"

fun load_routes :: "string \<Rightarrow> ipv6_route list \<Rightarrow> string list \<Rightarrow> (config_error, ipv6_route list) result" where
  "load_routes name acc [] = Inr acc"
| "load_routes name acc (r # rs) =
     (case route_from_str r of
        Inl e \<Rightarrow> Inl (BadRoute name r e)
      | Inr route \<Rightarrow>
          if route \<in> set acc then Inl (DuplicateRoute name r) else load_routes name (acc @ [route]) rs)"

definition load_ddns :: "string \<Rightarrow> string option \<Rightarrow> (config_error, string option) result" where
  "load_ddns name d =
     (case map_option str_trim d of
        None \<Rightarrow> Inr None
      | Some fqdn \<Rightarrow>
          if fqdn = [] then Inr None
          else if has_whitespace fqdn \<or> CHR ''.'' \<notin> set fqdn \<or> hd fqdn = CHR ''.'' \<or> last fqdn = CHR ''.''
          then Inl (BadDdnsFqdn name)
          else Inr (Some fqdn))"

definition load_peer :: "text_ops \<Rightarrow> (key32 \<Rightarrow> bool) \<Rightarrow> sha256 \<Rightarrow> network_prefix \<Rightarrow> raw_peer \<Rightarrow> (config_error, config_peer) result" where
  "load_peer ops valid_point sha pfx rp =
     and_then (map_err (BadKey (rp_name rp)) (pk_from_base64 ops valid_point (rp_public_key rp))) (\<lambda>pk.
     and_then (try_map (load_endpoint (rp_name rp)) (rp_endpoints rp)) (\<lambda>eps.
     and_then (load_routes (rp_name rp) [] (rp_routes rp)) (\<lambda>routes.
     and_then (load_ddns (rp_name rp) (rp_ddns rp)) (\<lambda>ddns.
     and_then (map_err ConfigAddr (derive_node_addr sha pfx pk)) (\<lambda>addr.
     let relay = unwrap_or (rp_relay rp) False in
     if relay \<and> eps = [] then Inl (RelayWithoutEndpoint (rp_name rp))
     else Inr \<lparr>cp_name = rp_name rp, cp_public_key = pk, cp_endpoints = eps, cp_addr = addr, cp_relay = relay,
               cp_relay_port = unwrap_or (rp_relay_port rp) DEFAULT_RELAY_PORT, cp_routes = routes, cp_ddns = ddns,
               cp_keepalive = rp_keepalive rp\<rparr>)))))"

definition check_duplicates :: "config_peer list \<Rightarrow> (config_error, unit) result" where
  "check_duplicates ps =
     try_all (\<lambda>(p, q). if cp_public_key p = cp_public_key q then Some (DuplicatePeer (cp_name p) (cp_name q)) else None) (pairs ps)"

definition load_key :: "text_ops \<Rightarrow> (key32 \<Rightarrow> bool) \<Rightarrow> string \<Rightarrow> string \<Rightarrow> (config_error, public_key) result" where
  "load_key ops valid_point what k = map_err (BadKey (what @ ''['' @ k @ '']'')) (pk_from_base64 ops valid_point k)"

definition load_keys :: "text_ops \<Rightarrow> (key32 \<Rightarrow> bool) \<Rightarrow> string \<Rightarrow> string list \<Rightarrow> (config_error, public_key list) result" where
  "load_keys ops valid_point what keys = try_map (load_key ops valid_point what) keys"

definition load_own :: "sha256 \<Rightarrow> network_prefix \<Rightarrow> public_key option \<Rightarrow> (config_error, node_addr option) result" where
  "load_own sha pfx own =
     (case own of
        None \<Rightarrow> Inr None
      | Some pk \<Rightarrow> and_then (map_err ConfigAddr (derive_node_addr sha pfx pk)) (\<lambda>a. Inr (Some a)))"

definition named_addrs :: "config_peer list \<Rightarrow> node_addr option \<Rightarrow> (string \<times> node_addr) list" where
  "named_addrs ps own = map (\<lambda>p. (cp_name p, cp_addr p)) ps @ (case own of None \<Rightarrow> [] | Some o' \<Rightarrow> [(''<self>'', o')])"

text \<open>
  The reserved routes are built with \<open>Ipv6Route::new(..).expect(..)\<close>; \<open>None\<close> stands for the panic.
\<close>

definition reserved_routes :: "network_prefix \<Rightarrow> node_addr option \<Rightarrow> ipv6_route list option" where
  "reserved_routes pfx own =
     (case route_new (prefix_network pfx) PREFIX_LEN of
        Inl _ \<Rightarrow> None
      | Inr overlay \<Rightarrow>
          (case own of
             None \<Rightarrow> Some [overlay]
           | Some o' \<Rightarrow> (case route_new (site o') 64 of Inl _ \<Rightarrow> None | Inr s \<Rightarrow> Some [overlay, s])))"

definition check_conflicts :: "ipv6_route list \<Rightarrow> config_peer list \<Rightarrow> (config_error, unit) result" where
  "check_conflicts reserved ps =
     try_all (\<lambda>(p, r). if list_ex (overlaps r) reserved then Some (RouteConflict (cp_name p) (show_route r)) else None)
       (concat (map (\<lambda>p. map (Pair p) (cp_routes p)) ps))"

definition check_overlaps :: "config_peer list \<Rightarrow> (config_error, unit) result" where
  "check_overlaps ps =
     try_all (\<lambda>((p, q), (ra, rb)).
         if overlaps ra rb then Some (RouteOverlap (cp_name p) (cp_name q) (show_route ra) (show_route rb)) else None)
       (concat (map (\<lambda>(p, q). map (Pair (p, q)) (List.product (cp_routes p) (cp_routes q))) (pairs ps)))"

definition node_settings_of :: "raw_node \<Rightarrow> public_key list \<Rightarrow> public_key list \<Rightarrow> node_settings" where
  "node_settings_of n relay_allow admin_keys =
     \<lparr>ns_key_file = rn_key_file n,
      ns_listen_port = unwrap_or (rn_listen_port n) DEFAULT_PORT,
      ns_mtu = unwrap_or (rn_mtu n) DEFAULT_MTU,
      ns_interface = unwrap_or (rn_interface n) DEFAULT_INTERFACE,
      ns_probe_port = unwrap_or (rn_probe_port n) DEFAULT_PROBE_PORT,
      ns_state_dir = unwrap_or (rn_state_dir n) DEFAULT_STATE_DIR,
      ns_keepalive = unwrap_or (rn_keepalive n) DEFAULT_KEEPALIVE_SECS,
      ns_lan_discovery = unwrap_or (rn_lan_discovery n) True,
      ns_lan_port = unwrap_or (rn_lan_port n) DEFAULT_LAN_PORT,
      ns_relay = unwrap_or (rn_relay n) False,
      ns_relay_port = unwrap_or (rn_relay_port n) DEFAULT_RELAY_PORT,
      ns_relay_allow = relay_allow,
      ns_gossip_port = unwrap_or (rn_gossip_port n) DEFAULT_GOSSIP_PORT,
      ns_gossip = unwrap_or (rn_gossip n) True,
      ns_admin_keys = admin_keys,
      ns_dht = unwrap_or (rn_dht n) True,
      ns_http_addr = rn_http_addr n,
      ns_http_port = rn_http_port n,
      ns_web_dir = rn_web_dir n,
      ns_ddns = unwrap_or (rn_ddns n) False,
      ns_ddns_fqdn = rn_ddns_fqdn n,
      ns_ddns_provider = unwrap_or (rn_ddns_provider n) Webhook,
      ns_ddns_webhook_url = rn_ddns_webhook_url n,
      ns_ddns_secret = rn_ddns_secret n,
      ns_ddns_zone = rn_ddns_zone n,
      ns_ddns_resolver = rn_ddns_resolver n\<rparr>"

text \<open>The peers, the key lists and the own address, with the checks up to the subnet collisions.\<close>

definition load_checked ::
  "text_ops \<Rightarrow> (key32 \<Rightarrow> bool) \<Rightarrow> sha256 \<Rightarrow> network_prefix \<Rightarrow> raw_config \<Rightarrow> public_key option \<Rightarrow>
     (config_error, config_peer list \<times> public_key list \<times> public_key list \<times> node_addr option) result" where
  "load_checked ops valid_point sha pfx raw own_pubkey =
     and_then (try_map (load_peer ops valid_point sha pfx) (rc_peers raw)) (\<lambda>ps.
     and_then (check_duplicates ps) (\<lambda>_.
     and_then (load_keys ops valid_point ''relay_allow'' (rn_relay_allow (rc_node raw))) (\<lambda>allow.
     and_then (load_keys ops valid_point ''admin_keys'' (rn_admin_keys (rc_node raw))) (\<lambda>admins.
     and_then (load_own sha pfx own_pubkey) (\<lambda>own.
     and_then (map_err ConfigAddr (check_subnet_collisions (named_addrs ps own))) (\<lambda>_.
     Inr (ps, allow, admins, own)))))))"

text \<open>\<open>Config::load\<close> after reading the file; \<open>None\<close> only where the code would panic.\<close>

definition config_load ::
  "text_ops \<Rightarrow> (key32 \<Rightarrow> bool) \<Rightarrow> sha256 \<Rightarrow> hkdf \<Rightarrow> raw_config \<Rightarrow> public_key option \<Rightarrow> (config_error, config) result option" where
  "config_load ops valid_point sha kdf raw own_pubkey =
     (case and_then (check_node (rc_node raw)) (\<lambda>_.
           map_err (\<lambda>_. BadNetworkKey) (network_key_from_base64 ops (rc_network_key raw))) of
        Inl e \<Rightarrow> Some (Inl e)
      | Inr key \<Rightarrow>
          (case load_checked ops valid_point sha (prefix_derive kdf key) raw own_pubkey of
             Inl e \<Rightarrow> Some (Inl e)
           | Inr (ps, allow, admins, own) \<Rightarrow>
               (case reserved_routes (prefix_derive kdf key) own of
                  None \<Rightarrow> None
                | Some reserved \<Rightarrow> Some (
                    and_then (check_conflicts reserved ps) (\<lambda>_.
                    and_then (check_overlaps ps) (\<lambda>_.
                    Inr \<lparr>cf_network_name = rc_network_name raw, cf_network_key = key,
                         cf_prefix = prefix_derive kdf key,
                         cf_node = node_settings_of (rc_node raw) allow admins, cf_peers = ps\<rparr>))))))"

section \<open>The device the configuration asks for\<close>

text \<open>
  \<open>crates/engine/src/spec.rs\<close>. The WireGuard keys come from the ed25519 keys by a third-party
  conversion, the parameter \<open>wg_public\<close>.
\<close>

record peer_spec =
  ps_wg_public :: key32
  ps_endpoint :: "socket_v6 option"
  ps_allowed_ips :: "(ipv6 \<times> u8) list"
  ps_persistent_keepalive :: "u16 option"

record device_spec =
  ds_interface :: string
  ds_listen_port :: u16
  ds_wg_secret :: key32
  ds_peers :: "peer_spec list"

definition keepalive_opt :: "u16 \<Rightarrow> u16 option" where
  "keepalive_opt n = (if n = 0 then None else Some n)"

definition keepalive_secs :: "config \<Rightarrow> u16 option" where
  "keepalive_secs cfg = keepalive_opt (ns_keepalive (cf_node cfg))"

definition peer_keepalive_secs :: "config_peer \<Rightarrow> u16 \<Rightarrow> u16 option" where
  "peer_keepalive_secs p node_keepalive = keepalive_opt (unwrap_or (cp_keepalive p) node_keepalive)"

definition first :: "'a list \<Rightarrow> 'a option" where
  "first xs = (case xs of [] \<Rightarrow> None | x # _ \<Rightarrow> Some x)"

definition peer_spec_of :: "(public_key \<Rightarrow> key32) \<Rightarrow> u16 \<Rightarrow> config_peer \<Rightarrow> peer_spec" where
  "peer_spec_of wg_public node_keepalive p =
     \<lparr>ps_wg_public = wg_public (cp_public_key p), ps_endpoint = first (cp_endpoints p),
      ps_allowed_ips = allowed_ips_for (site (cp_addr p)) (cp_routes p),
      ps_persistent_keepalive = peer_keepalive_secs p node_keepalive\<rparr>"

definition build_device_spec :: "(public_key \<Rightarrow> key32) \<Rightarrow> config \<Rightarrow> key32 \<Rightarrow> device_spec" where
  "build_device_spec wg_public cfg wg_secret =
     \<lparr>ds_interface = ns_interface (cf_node cfg), ds_listen_port = ns_listen_port (cf_node cfg), ds_wg_secret = wg_secret,
      ds_peers = map (peer_spec_of wg_public (ns_keepalive (cf_node cfg))) (cf_peers cfg)\<rparr>"

section \<open>What a loaded configuration satisfies\<close>

definition peer_ok :: "sha256 \<Rightarrow> network_prefix \<Rightarrow> config_peer \<Rightarrow> bool" where
  "peer_ok sha pfx p \<longleftrightarrow>
     derive_node_addr sha pfx (cp_public_key p) = Inr (cp_addr p) \<and>
     distinct (cp_routes p) \<and> (\<forall>r\<in>set (cp_routes p). route_ok r) \<and>
     (cp_relay p \<longrightarrow> cp_endpoints p \<noteq> [])"

definition overlay_route :: "network_prefix \<Rightarrow> ipv6_route" where
  "overlay_route pfx = \<lparr>prefix = prefix_network pfx, prefix_len = PREFIX_LEN\<rparr>"

definition site_route :: "node_addr \<Rightarrow> ipv6_route" where
  "site_route a = \<lparr>prefix = site a, prefix_len = 64\<rparr>"

lemma load_routes_ok:
  "load_routes name acc rs = Inr out \<Longrightarrow> distinct acc \<Longrightarrow> \<forall>r\<in>set acc. route_ok r \<Longrightarrow>
     distinct out \<and> (\<forall>r\<in>set out. route_ok r)"
proof (induction name acc rs rule: load_routes.induct)
  case (1 name acc)
  then show ?case by simp
next
  case (2 name acc r rs)
  then obtain route where route: "route_from_str r = Inr route" by (cases "route_from_str r") auto
  then have "route_ok route" by (rule route_from_str_ok)
  with 2 route show ?case by (auto split: if_splits)
qed

lemma load_peer_ok: "load_peer ops vp sha pfx rp = Inr p \<Longrightarrow> peer_ok sha pfx p"
  using load_routes_ok [where acc = "[]"]
  by (fastforce simp: load_peer_def peer_ok_def and_then_Inr Let_def split: if_splits)

lemma load_peers_ok: "try_map (load_peer ops vp sha pfx) rps = Inr ps \<Longrightarrow> p \<in> set ps \<Longrightarrow> peer_ok sha pfx p"
  by (fastforce simp: try_map_Inr list_all2_conv_all_nth in_set_conv_nth intro: load_peer_ok)

lemma reserved_routes_ok:
  assumes "prefix_ok pfx" and "load_own sha pfx own_pk = Inr own"
  shows "reserved_routes pfx own = Some (overlay_route pfx # (case own of None \<Rightarrow> [] | Some a \<Rightarrow> [site_route a]))"
  using assms site_route_ok [of sha pfx] overlay_route_ok [OF assms(1)]
  by (auto simp: load_own_def and_then_Inr reserved_routes_def overlay_route_def site_route_def split: option.splits)

lemma check_overlaps_Inr:
  assumes "check_overlaps ps = Inr u" "i < j" "j < length ps" "ra \<in> set (cp_routes (ps ! i))" "rb \<in> set (cp_routes (ps ! j))"
  shows "\<not> overlaps ra rb"
proof -
  have "((ps ! i, ps ! j), ra, rb) \<in>
      set (concat (map (\<lambda>(p, q). map (Pair (p, q)) (List.product (cp_routes p) (cp_routes q))) (pairs ps)))"
    using pairs_nth [OF assms(2,3)] assms(4,5) by force
  then show ?thesis
    using assms(1) [unfolded check_overlaps_def try_all_Inr] by (drule_tac bspec) (auto split: if_splits)
qed

lemma check_conflicts_Inr:
  "check_conflicts res ps = Inr u \<longleftrightarrow> (\<forall>p\<in>set ps. \<forall>r\<in>set (cp_routes p). \<forall>s\<in>set res. \<not> overlaps r s)"
  by (auto simp: check_conflicts_def try_all_Inr list_ex_iff)

lemma check_duplicates_Inr: "check_duplicates ps = Inr u \<longleftrightarrow> distinct (map cp_public_key ps)"
  by (auto simp: check_duplicates_def try_all_Inr pairs_distinct [symmetric] split: prod.splits if_splits)

definition settings_ok :: "node_settings \<Rightarrow> bool" where
  "settings_ok s \<longleftrightarrow>
     (ns_http_addr s = None \<longleftrightarrow> ns_http_port s = None) \<and>
     (ns_ddns s \<longrightarrow> \<not> missing (ns_ddns_fqdn s) \<and>
        (case ns_ddns_provider s of
           Webhook \<Rightarrow> \<not> missing (ns_ddns_webhook_url s)
         | Cloudflare \<Rightarrow> ns_ddns_secret s \<noteq> None \<and> \<not> missing (ns_ddns_zone s)))"

definition config_ok :: "sha256 \<Rightarrow> node_addr option \<Rightarrow> config \<Rightarrow> bool" where
  "config_ok sha own c \<longleftrightarrow>
     prefix_ok (cf_prefix c) \<and>
     (\<forall>p\<in>set (cf_peers c). peer_ok sha (cf_prefix c) p) \<and>
     distinct (map cp_public_key (cf_peers c)) \<and>
     distinct (map subnet_id (map cp_addr (cf_peers c) @ (case own of None \<Rightarrow> [] | Some a \<Rightarrow> [a]))) \<and>
     (\<forall>p\<in>set (cf_peers c). \<forall>r\<in>set (cp_routes p).
        \<not> overlaps r (overlay_route (cf_prefix c)) \<and> (\<forall>a. own = Some a \<longrightarrow> \<not> overlaps r (site_route a))) \<and>
     (\<forall>i j. i < j \<longrightarrow> j < length (cf_peers c) \<longrightarrow>
        (\<forall>ra\<in>set (cp_routes (cf_peers c ! i)). \<forall>rb\<in>set (cp_routes (cf_peers c ! j)). \<not> overlaps ra rb)) \<and>
     settings_ok (cf_node c)"

lemma check_node_Inr:
  "check_node n = Inr u \<Longrightarrow> settings_ok (node_settings_of n allow admins)"
  by (auto simp: check_node_def settings_ok_def node_settings_of_def Let_def split: if_splits ddns_provider.splits)

lemma named_addrs_distinct:
  "map (subnet_id \<circ> snd) (named_addrs ps own) = map subnet_id (map cp_addr ps @ (case own of None \<Rightarrow> [] | Some a \<Rightarrow> [a]))"
  by (auto simp: named_addrs_def split: option.splits)

lemma config_load_ok:
  assumes "hkdf_fills kdf" and "config_load ops vp sha kdf raw own_pk = Some (Inr c)"
  shows "\<exists>own. load_own sha (cf_prefix c) own_pk = Inr own \<and> config_ok sha own c \<and> cf_prefix c = prefix_derive kdf (cf_network_key c)"
proof -
  from assms(2) obtain key ps allow admins own res where
    n: "check_node (rc_node raw) = Inr ()" and
    ps: "try_map (load_peer ops vp sha (prefix_derive kdf key)) (rc_peers raw) = Inr ps" and
    dup: "check_duplicates ps = Inr ()" and
    own: "load_own sha (prefix_derive kdf key) own_pk = Inr own" and
    sub: "check_subnet_collisions (named_addrs ps own) = Inr ()" and
    res: "reserved_routes (prefix_derive kdf key) own = Some res" and
    conf: "check_conflicts res ps = Inr ()" and
    over: "check_overlaps ps = Inr ()" and
    c: "c = \<lparr>cf_network_name = rc_network_name raw, cf_network_key = key, cf_prefix = prefix_derive kdf key,
             cf_node = node_settings_of (rc_node raw) allow admins, cf_peers = ps\<rparr>"
    by (auto simp: config_load_def load_checked_def Let_def and_then_Inr split: sum.splits option.splits)
  have p: "prefix_ok (prefix_derive kdf key)" by (rule prefix_derive_ok [OF assms(1)])
  have "config_ok sha own c"
    unfolding config_ok_def
  proof (intro conjI)
    show "distinct (map subnet_id (map cp_addr (cf_peers c) @ (case own of None \<Rightarrow> [] | Some a \<Rightarrow> [a])))"
      using sub unfolding check_subnet_collisions_iff named_addrs_distinct by (simp add: c)
    show "\<forall>p\<in>set (cf_peers c). \<forall>r\<in>set (cp_routes p).
        \<not> overlaps r (overlay_route (cf_prefix c)) \<and> (\<forall>a. own = Some a \<longrightarrow> \<not> overlaps r (site_route a))"
      using conf res reserved_routes_ok [OF p own] by (auto simp: c check_conflicts_Inr)
  qed (use p load_peers_ok [OF ps] dup check_overlaps_Inr [OF over] check_node_Inr [OF n, of allow admins]
       in \<open>auto simp: c check_duplicates_Inr Let_def\<close>)
  with own show ?thesis by (auto simp: c)
qed

text \<open>Loading never reaches the \<open>expect\<close> of the reserved routes.\<close>

lemma config_load_total:
  assumes "hkdf_fills kdf"
  shows "config_load ops vp sha kdf raw own_pk \<noteq> None"
  using reserved_routes_ok [OF prefix_derive_ok [OF assms]]
  by (auto simp: config_load_def load_checked_def Let_def and_then_Inr split: sum.splits option.splits)

section \<open>Cryptokey routing\<close>

text \<open>Whether WireGuard sends an address to a peer with these AllowedIPs.\<close>

definition allows :: "(ipv6 \<times> u8) list \<Rightarrow> ipv6 \<Rightarrow> bool" where
  "allows ips a \<longleftrightarrow> (\<exists>(p, len)\<in>set ips. contains \<lparr>prefix = p, prefix_len = len\<rparr> a)"

lemma allows_allowed_ips_for:
  "allows (allowed_ips_for (site n) rs) a \<longleftrightarrow> contains (site_route n) a \<or> (\<exists>r\<in>set rs. contains r a)"
  by (auto simp: allows_def allowed_ips_for_def set_push_allowed site_route_def contains_def)

lemma contains_site_route:
  assumes "derive_node_addr sha pfx k = Inr n" and "prefix_ok pfx"
  shows "contains (site_route n) a \<longleftrightarrow> take 8 (octets a) = prefix_bytes pfx @ u16_be (subnet_id n)"
  using contains_octets [OF site_route_ok [OF assms], of 8 a] derive_node_addr_Inr(1) [OF assms] assms(2)
  by (simp add: site_route_def prefix_ok_def)

lemma contains_overlay_route:
  "prefix_ok pfx \<Longrightarrow> contains (overlay_route pfx) a \<longleftrightarrow> take 6 (octets a) = prefix_bytes pfx"
  using contains_octets [OF overlay_route_ok, of pfx 6 a] octets_prefix_network [of pfx]
  by (simp add: overlay_route_def prefix_ok_def PREFIX_LEN_def)

lemma site_in_overlay:
  assumes "derive_node_addr sha pfx k = Inr n" "prefix_ok pfx" "contains (site_route n) a"
  shows "contains (overlay_route pfx) a"
proof -
  have "take 6 (take 8 (octets a)) = take 6 (prefix_bytes pfx @ u16_be (subnet_id n))"
    using contains_site_route [OF assms(1,2)] assms(3) by simp
  then show ?thesis using assms(2) by (simp add: contains_overlay_route prefix_ok_def)
qed

lemma sites_disjoint:
  assumes "derive_node_addr sha pfx k = Inr n" "derive_node_addr sha pfx l = Inr m" "prefix_ok pfx"
    "contains (site_route n) a" "contains (site_route m) a"
  shows "subnet_id n = subnet_id m"
proof -
  have "u16_be (subnet_id n) = u16_be (subnet_id m)"
    using assms by (simp add: contains_site_route)
  then show ?thesis using from_to_be(1) by metis
qed

lemma overlay_route_route_ok: "prefix_ok pfx \<Longrightarrow> route_ok (overlay_route pfx)"
  using route_new_ok [OF overlay_route_ok] by (simp add: overlay_route_def)

text \<open>A node of the overlay and a checked peer never claim the same address by a site and a route.\<close>

lemma route_avoids_sites:
  assumes "config_ok sha own c" "p \<in> set (cf_peers c)" "r \<in> set (cp_routes p)" "contains r a"
    "derive_node_addr sha (cf_prefix c) k = Inr n"
  shows "\<not> contains (site_route n) a"
proof
  assume n: "contains (site_route n) a"
  have p: "prefix_ok (cf_prefix c)" and r: "route_ok r" "\<not> overlaps r (overlay_route (cf_prefix c))"
    using assms(1-3) by (auto simp: config_ok_def peer_ok_def)
  have "contains (overlay_route (cf_prefix c)) a" by (rule site_in_overlay [OF assms(5) p n])
  then have "overlaps r (overlay_route (cf_prefix c))"
    using assms(4) overlaps_iff_common [OF r(1) overlay_route_route_ok [OF p]] by blast
  with r show False by simp
qed

lemma peer_routes_disjoint:
  assumes "config_ok sha own c" "i < j" "j < length (cf_peers c)"
    "r \<in> set (cp_routes (cf_peers c ! i))" "s \<in> set (cp_routes (cf_peers c ! j))" "contains r a"
  shows "\<not> contains s a"
proof
  assume "contains s a"
  moreover have "route_ok r" "route_ok s" using assms nth_mem [of _ "cf_peers c"] by (auto simp: config_ok_def peer_ok_def)
  ultimately have "overlaps r s" using overlaps_iff_common assms(6) by blast
  with assms show False by (auto simp: config_ok_def)
qed

lemma peer_addr_distinct:
  assumes "config_ok sha own c" "i < j" "j < length (cf_peers c)"
  shows "subnet_id (cp_addr (cf_peers c ! i)) \<noteq> subnet_id (cp_addr (cf_peers c ! j))"
proof -
  have "distinct (map subnet_id (map cp_addr (cf_peers c)))" using assms(1) by (auto simp: config_ok_def)
  then show ?thesis using assms(2,3) by (auto simp: distinct_conv_nth)
qed

lemma allowed_ips_disjoint:
  assumes c: "config_ok sha own c" and ij: "i < j" "j < length (cf_peers c)"
    and i: "allows (allowed_ips_for (site (cp_addr (cf_peers c ! i))) (cp_routes (cf_peers c ! i))) a"
  shows "\<not> allows (allowed_ips_for (site (cp_addr (cf_peers c ! j))) (cp_routes (cf_peers c ! j))) a"
proof -
  let ?p = "cf_peers c ! i" and ?q = "cf_peers c ! j"
  have mem: "?p \<in> set (cf_peers c)" "?q \<in> set (cf_peers c)" using ij by auto
  then have d: "derive_node_addr sha (cf_prefix c) (cp_public_key ?p) = Inr (cp_addr ?p)"
    "derive_node_addr sha (cf_prefix c) (cp_public_key ?q) = Inr (cp_addr ?q)"
    using c by (auto simp: config_ok_def peer_ok_def)
  have pfx: "prefix_ok (cf_prefix c)" using c by (simp add: config_ok_def)
  show ?thesis
    using i peer_addr_distinct [OF c ij] sites_disjoint [OF d pfx] peer_routes_disjoint [OF c ij]
      route_avoids_sites [OF c mem(1) _ _ d(2)] route_avoids_sites [OF c mem(2) _ _ d(1)]
    unfolding allows_allowed_ips_for by blast
qed

lemma own_site_avoided:
  assumes c: "config_ok sha own c" and own: "load_own sha (cf_prefix c) (Some pk) = Inr own" "derive_node_addr sha (cf_prefix c) pk = Inr n"
    and i: "i < length (cf_peers c)" "allows (allowed_ips_for (site (cp_addr (cf_peers c ! i))) (cp_routes (cf_peers c ! i))) a"
  shows "\<not> contains (site_route n) a"
proof -
  let ?p = "cf_peers c ! i"
  have mem: "?p \<in> set (cf_peers c)" using i by auto
  then have d: "derive_node_addr sha (cf_prefix c) (cp_public_key ?p) = Inr (cp_addr ?p)"
    using c by (auto simp: config_ok_def peer_ok_def)
  have pfx: "prefix_ok (cf_prefix c)" using c by (simp add: config_ok_def)
  have "own = Some n" using own by (auto simp: load_own_def)
  then have "subnet_id n \<notin> subnet_id ` set (map cp_addr (cf_peers c))" using c by (simp add: config_ok_def image_image)
  then have "subnet_id (cp_addr ?p) \<noteq> subnet_id n" using imageI [OF mem, of "\<lambda>p. subnet_id (cp_addr p)"] by (auto simp: image_image)
  then show ?thesis
    using i(2) sites_disjoint [OF d own(2) pfx] route_avoids_sites [OF c mem _ _ own(2)]
    unfolding allows_allowed_ips_for by blast
qed

section \<open>A configuration that loads\<close>

text \<open>Two peers, one of them announcing a route, read with simple instances of the parameters.\<close>

definition ex_ops :: text_ops where
  "ex_ops = \<lparr>b64_decode = (\<lambda>s. Some (replicate 32 (hd (ascii s))))\<rparr>"

definition ex_node :: raw_node where
  "ex_node = \<lparr>rn_key_file = ''node.key'', rn_listen_port = None, rn_mtu = None, rn_interface = None, rn_probe_port = None,
     rn_state_dir = None, rn_keepalive = None, rn_lan_discovery = None, rn_lan_port = None, rn_relay = None,
     rn_relay_port = None, rn_relay_allow = [], rn_gossip_port = None, rn_gossip = None, rn_admin_keys = [''A''],
     rn_dht = None, rn_http_addr = None, rn_http_port = None, rn_web_dir = None, rn_ddns = None, rn_ddns_fqdn = None,
     rn_ddns_provider = None, rn_ddns_webhook_url = None, rn_ddns_secret = None, rn_ddns_zone = None,
     rn_ddns_resolver = None\<rparr>"

definition ex_peer :: "string \<Rightarrow> string list \<Rightarrow> raw_peer" where
  "ex_peer k routes = \<lparr>rp_name = k, rp_public_key = k, rp_endpoints = [''[::7]:4193''], rp_relay = Some True, rp_relay_port = None,
     rp_routes = routes, rp_ddns = None, rp_keepalive = None\<rparr>"

definition ex_raw :: raw_config where
  "ex_raw = \<lparr>rc_network_name = ''net'', rc_network_key = ''K'', rc_node = ex_node,
     rc_peers = [ex_peer ''A'' [''2001::/16''], ex_peer ''B'' []]\<rparr>"

definition ex_sha :: sha256 where
  "ex_sha bs = from_be_bytes (replicate 32 (last bs))"

definition ex_prefix :: network_prefix where
  "ex_prefix = NetworkPrefix [0xfd, 1, 1, 1, 1, 1]"

definition ex_addr :: "u8 \<Rightarrow> node_addr" where
  "ex_addr b = \<lparr>subnet_id = from_be_bytes [b, b], site = from_be_bytes ([0xfd, 1, 1, 1, 1, 1, b, b] @ replicate 8 0),
     address = from_be_bytes ([0xfd, 1, 1, 1, 1, 1] @ replicate 10 b)\<rparr>"

definition ex_config_peer :: "u8 \<Rightarrow> string \<Rightarrow> ipv6_route list \<Rightarrow> config_peer" where
  "ex_config_peer b k routes = \<lparr>cp_name = k, cp_public_key = from_be_bytes (replicate 32 b), cp_endpoints = [sock 7 4193],
     cp_addr = ex_addr b, cp_relay = True, cp_relay_port = 4196, cp_routes = routes, cp_ddns = None, cp_keepalive = None\<rparr>"

definition ex_route :: ipv6_route where
  "ex_route = \<lparr>prefix = push_bit 112 0x2001, prefix_len = 16\<rparr>"

definition ex_peers :: "config_peer list" where
  "ex_peers = [ex_config_peer 65 ''A'' [ex_route], ex_config_peer 66 ''B'' []]"

definition ex_load :: "(config_error, config) result option" where
  "ex_load = config_load ex_ops (\<lambda>_. True) ex_sha (\<lambda>_ _ _ n. replicate n 1) ex_raw (Some (from_be_bytes (replicate 32 9)))"

definition ex_config :: config where
  "ex_config = \<lparr>cf_network_name = ''net'', cf_network_key = from_be_bytes (replicate 32 75), cf_prefix = ex_prefix,
     cf_node = node_settings_of ex_node [] [from_be_bytes (replicate 32 65)], cf_peers = ex_peers\<rparr>"

lemma ex_load_routes: "load_routes ''A'' [] [''2001::/16''] = Inr [ex_route]"
  by code_simp

lemma ex_keys:
  "pk_from_base64 ex_ops (\<lambda>_. True) ''A'' = Inr (from_be_bytes (replicate 32 65))"
  "pk_from_base64 ex_ops (\<lambda>_. True) ''B'' = Inr (from_be_bytes (replicate 32 66))"
  "network_key_from_base64 ex_ops ''K'' = Inr (from_be_bytes (replicate 32 75))"
  by code_simp+

lemma ex_addrs:
  assumes "b \<noteq> 0"
  shows "derive_node_addr ex_sha ex_prefix (from_be_bytes (replicate 32 b)) = Inr (ex_addr b)"
proof -
  have sha: "octets32 (ex_sha (xs @ octets32 (from_be_bytes (replicate 32 b)))) = replicate 32 b" for xs
    by (simp add: ex_sha_def to_from_be)
  have r: "replicate 10 b = [b, b] @ replicate 8 b" "replicate 2 b = [b, b]" by (simp_all add: eval_nat_numeral)
  have u: "u16_be (from_be_bytes [b, b]) = [b, b]" by (rule to_from_be) simp
  show ?thesis
    unfolding derive_node_addr_def sha Let_def using assms
    by (simp add: r u ex_addr_def ex_prefix_def ipv6_of_octets_def del: to_be_bytes.simps)
qed

lemma ex_load_peer:
  "load_peer ex_ops (\<lambda>_. True) ex_sha ex_prefix (ex_peer ''A'' [''2001::/16'']) = Inr (ex_config_peer 65 ''A'' [ex_route])"
  "load_peer ex_ops (\<lambda>_. True) ex_sha ex_prefix (ex_peer ''B'' []) = Inr (ex_config_peer 66 ''B'' [])"
proof -
  have "parse_sock ''[::7]:4193'' = Some (V6 (sock 7 4193))" by code_simp
  then have e: "load_endpoint k ''[::7]:4193'' = Inr (sock 7 4193)" for k by (simp add: load_endpoint_def)
  show "load_peer ex_ops (\<lambda>_. True) ex_sha ex_prefix (ex_peer ''A'' [''2001::/16'']) = Inr (ex_config_peer 65 ''A'' [ex_route])"
    "load_peer ex_ops (\<lambda>_. True) ex_sha ex_prefix (ex_peer ''B'' []) = Inr (ex_config_peer 66 ''B'' [])"
    by (simp_all add: load_peer_def ex_peer_def ex_keys ex_addrs ex_load_routes ex_config_peer_def e
        load_ddns_def unwrap_or_def DEFAULT_RELAY_PORT_def del: load_routes.simps(2))
qed

lemma ex_load_peers: "try_map (load_peer ex_ops (\<lambda>_. True) ex_sha ex_prefix) (rc_peers ex_raw) = Inr ex_peers"
  by (simp add: ex_raw_def ex_load_peer ex_peers_def)

lemma ex_names: "check_subnet_collisions (named_addrs ex_peers (Some (ex_addr 9))) = Inr ()"
  by code_simp

lemma ex_conflicts: "check_conflicts [overlay_route ex_prefix, site_route (ex_addr 9)] ex_peers = Inr ()"
  by code_simp

lemma ex_overlaps: "check_overlaps ex_peers = Inr ()"
  by code_simp

lemma ex_duplicates: "check_duplicates ex_peers = Inr ()"
  by code_simp

lemma ex_check_node: "check_node ex_node = Inr ()"
  by code_simp

lemmas ex_checks = ex_names ex_conflicts ex_overlaps ex_duplicates ex_check_node

lemma ex_load_checked:
  "load_checked ex_ops (\<lambda>_. True) ex_sha ex_prefix ex_raw (Some (from_be_bytes (replicate 32 9))) =
     Inr (ex_peers, [], [from_be_bytes (replicate 32 65)], Some (ex_addr 9))"
  by (simp add: load_checked_def ex_load_peers ex_checks load_keys_def load_key_def load_own_def ex_addrs ex_keys)
     (simp add: ex_raw_def ex_node_def ex_keys load_key_def)

lemma ex_load_Inr: "ex_load = Some (Inr ex_config)"
proof -
  have p: "prefix_derive (\<lambda>_ _ _ n. replicate n 1) k = ex_prefix" for k
    by (simp add: prefix_derive_def ex_prefix_def eval_nat_numeral)
  have raw: "rc_node ex_raw = ex_node" "rc_network_key ex_raw = ''K''" "rc_network_name ex_raw = ''net''"
    by (simp_all add: ex_raw_def)
  have r: "reserved_routes ex_prefix (Some (ex_addr 9)) = Some [overlay_route ex_prefix, site_route (ex_addr 9)]"
    using reserved_routes_ok [of ex_prefix ex_sha "Some (from_be_bytes (replicate 32 9))" "Some (ex_addr 9)"]
    by (simp add: load_own_def ex_addrs) (simp add: prefix_ok_def ex_prefix_def)
  show ?thesis
    unfolding ex_load_def config_load_def raw ex_check_node ex_keys
    by (simp add: p r ex_load_checked ex_checks ex_config_def)
qed

lemma ex_allowed: "allows (ps_allowed_ips (ds_peers (build_device_spec (\<lambda>k. k) ex_config 0) ! 0)) (push_bit 112 0x2001)"
proof -
  have "contains ex_route (push_bit 112 0x2001)" by code_simp
  then show ?thesis
    by (simp add: build_device_spec_def ex_config_def ex_peers_def peer_spec_of_def allows_allowed_ips_for ex_config_peer_def)
qed

section \<open>Properties\<close>

text \<open>C8: Loading a configuration never panics, and a configuration that loads is checked: the peers have
  distinct keys and distinct subnet ids (the node's own included), every address is the one derived from the
  key, every route is normalised, no route meets the overlay, the own site or another peer's route, relays
  have an endpoint, and the HTTP and DDNS settings are complete.\<close>

theorem config_load_checked:
  assumes "hkdf_fills kdf"
  shows "config_load ops vp sha kdf raw own_pk \<noteq> None \<and>
    (config_load ops vp sha kdf raw own_pk = Some (Inr c) \<longrightarrow>
       (\<exists>own. load_own sha (cf_prefix c) own_pk = Inr own \<and> config_ok sha own c))"
  using config_load_total [OF assms] config_load_ok [OF assms] by blast

theorem config_load_checked_witness: "ex_load = Some (Inr ex_config) \<and> (\<exists>own. config_ok ex_sha own ex_config)"
proof -
  have k: "hkdf_fills (\<lambda>_ _ _ n. replicate n 1)" by (simp add: hkdf_fills_def)
  from config_load_checked [OF k, of ex_ops "\<lambda>_. True" ex_sha ex_raw "Some (from_be_bytes (replicate 32 9))" ex_config]
  show ?thesis using ex_load_Inr unfolding ex_load_def by blast
qed

text \<open>C15: The WireGuard device built from a loaded configuration routes unambiguously: no address is in the
  AllowedIPs of two peers, and none of the node's own site is in those of a peer.\<close>

theorem device_routing_unambiguous:
  assumes "hkdf_fills kdf" and "config_load ops vp sha kdf raw own_pk = Some (Inr c)"
    and "i < length (ds_peers (build_device_spec wg c sec))" and "j < length (ds_peers (build_device_spec wg c sec))" and "i \<noteq> j"
    and "allows (ps_allowed_ips (ds_peers (build_device_spec wg c sec) ! i)) a"
  shows "\<not> allows (ps_allowed_ips (ds_peers (build_device_spec wg c sec) ! j)) a \<and>
    (\<forall>pk n. own_pk = Some pk \<longrightarrow> derive_node_addr sha (cf_prefix c) pk = Inr n \<longrightarrow> \<not> contains (site_route n) a)"
proof -
  from config_load_ok [OF assms(1,2)] obtain own where
    own: "load_own sha (cf_prefix c) own_pk = Inr own" and c: "config_ok sha own c" by blast
  have ij: "i < length (cf_peers c)" "j < length (cf_peers c)" using assms(3,4) by (simp_all add: build_device_spec_def)
  let ?al = "\<lambda>k. allows (allowed_ips_for (site (cp_addr (cf_peers c ! k))) (cp_routes (cf_peers c ! k))) a"
  have spec: "allows (ps_allowed_ips (ds_peers (build_device_spec wg c sec) ! k)) a = ?al k" if "k < length (cf_peers c)" for k
    using that by (simp add: build_device_spec_def peer_spec_of_def)
  have i: "?al i" using assms(6) spec [OF ij(1)] by simp
  have "\<not> contains (site_route n) a" if "own_pk = Some pk" "derive_node_addr sha (cf_prefix c) pk = Inr n" for pk n
    by (rule own_site_avoided [OF c _ that(2) ij(1) i]) (use own that in simp)
  moreover have "\<not> ?al j"
    using i allowed_ips_disjoint [OF c _ ij(2)] allowed_ips_disjoint [OF c _ ij(1)] assms(5)
    by (metis linorder_neqE_nat)
  ultimately show ?thesis using spec [OF ij(2)] by blast
qed

theorem device_routing_unambiguous_witness:
  "\<not> allows (ps_allowed_ips (ds_peers (build_device_spec (\<lambda>k. k) ex_config 0) ! 1)) (push_bit 112 0x2001)"
proof -
  have k: "hkdf_fills (\<lambda>_ _ _ n. replicate n 1)" by (simp add: hkdf_fills_def)
  have l: "length (ds_peers (build_device_spec (\<lambda>k. k) ex_config 0)) = 2"
    by (simp add: build_device_spec_def ex_config_def ex_peers_def)
  from device_routing_unambiguous [OF k ex_load_Inr [unfolded ex_load_def], where i = 0 and j = 1, OF _ _ _ ex_allowed]
  show ?thesis using l by simp
qed

end
