(* ===== verification/Route_Manager.thy ===== *)
theory Route_Manager
  imports Site_Route Contracts
begin

text \<open>
  The site-to-site routes the daemon installs for its peers
  (\<open>crates/engine/src/route_manager.rs\<close>). The kernel route table is behind the trait
  \<open>RouteBackend\<close>: here a parameter that answers each command, given the commands that succeeded
  before it. Each operation returns the commands that took effect, so that what the kernel holds
  afterwards is a function of them.
\<close>

datatype route_cmd = AddRoute ipv6_route | RemoveRoute ipv6_route

type_synonym 'e route_backend = "route_cmd list \<Rightarrow> route_cmd \<Rightarrow> 'e option"

record sync_outcome =
  added :: "ipv6_route list"
  removed :: "ipv6_route list"

type_synonym route_manager = "(string \<times> ipv6_route list) list"

definition routes_of :: "route_manager \<Rightarrow> string \<Rightarrow> ipv6_route list" where
  "routes_of m key = (case hm_get m key of None \<Rightarrow> [] | Some rs \<Rightarrow> rs)"

definition installed_count :: "route_manager \<Rightarrow> nat" where
  "installed_count m = sum_list (map (length \<circ> snd) m)"

text \<open>The two loops of \<open>sync\<close>: the old routes, then the wanted ones.\<close>

fun sync_remove ::
  "'e route_backend \<Rightarrow> ipv6_route list \<Rightarrow> route_cmd list \<Rightarrow> ipv6_route list \<Rightarrow> ipv6_route list \<Rightarrow>
     route_cmd list \<times> ('e, ipv6_route list) result" where
  "sync_remove backend desired cmds keep [] = (cmds, Inr keep)"
| "sync_remove backend desired cmds keep (r # rs) =
     (if r \<in> set desired then sync_remove backend desired cmds (keep @ [r]) rs
      else case backend cmds (RemoveRoute r) of
             Some e \<Rightarrow> (cmds, Inl e)
           | None \<Rightarrow> sync_remove backend desired (cmds @ [RemoveRoute r]) keep rs)"

fun sync_add ::
  "'e route_backend \<Rightarrow> route_cmd list \<Rightarrow> ipv6_route list \<Rightarrow> ipv6_route list \<Rightarrow>
     route_cmd list \<times> ('e, ipv6_route list) result" where
  "sync_add backend cmds keep [] = (cmds, Inr keep)"
| "sync_add backend cmds keep (r # rs) =
     (if r \<in> set keep then sync_add backend cmds keep rs
      else case backend cmds (AddRoute r) of
             Some e \<Rightarrow> (cmds, Inl e)
           | None \<Rightarrow> sync_add backend (cmds @ [AddRoute r]) (keep @ [r]) rs)"

definition outcome_of :: "route_cmd list \<Rightarrow> sync_outcome" where
  "outcome_of cmds =
     \<lparr>added = List.map_filter (\<lambda>c. case c of AddRoute r \<Rightarrow> Some r | _ \<Rightarrow> None) cmds,
      removed = List.map_filter (\<lambda>c. case c of RemoveRoute r \<Rightarrow> Some r | _ \<Rightarrow> None) cmds\<rparr>"

text \<open>\<open>entry(..).or_default()\<close> inserts an empty list for an unknown peer, also when \<open>sync\<close> fails.\<close>

definition sync ::
  "'e route_backend \<Rightarrow> route_manager \<Rightarrow> string \<Rightarrow> ipv6_route list \<Rightarrow>
     route_cmd list \<times> route_manager \<times> ('e, sync_outcome) result" where
  "sync backend m key desired =
     (let current = routes_of m key; m' = hm_insert key current m in
      case sync_remove backend desired [] [] current of
        (cmds, Inl e) \<Rightarrow> (cmds, m', Inl e)
      | (cmds, Inr keep) \<Rightarrow>
          (case sync_add backend cmds keep desired of
             (cmds, Inl e) \<Rightarrow> (cmds, m', Inl e)
           | (cmds, Inr keep) \<Rightarrow> (cmds, hm_insert key keep m', Inr (outcome_of cmds))))"

fun remove_routes :: "'e route_backend \<Rightarrow> route_cmd list \<Rightarrow> ipv6_route list \<Rightarrow> route_cmd list \<times> ('e, unit) result" where
  "remove_routes backend cmds [] = (cmds, Inr ())"
| "remove_routes backend cmds (r # rs) =
     (case backend cmds (RemoveRoute r) of
        Some e \<Rightarrow> (cmds, Inl e)
      | None \<Rightarrow> remove_routes backend (cmds @ [RemoveRoute r]) rs)"

definition remove_peer :: "'e route_backend \<Rightarrow> route_manager \<Rightarrow> string \<Rightarrow> route_cmd list \<times> route_manager \<times> ('e, unit) result" where
  "remove_peer backend m key =
     (case hm_get m key of
        None \<Rightarrow> ([], m, Inr ())
      | Some routes \<Rightarrow> (case remove_routes backend [] routes of (cmds, r) \<Rightarrow> (cmds, hm_remove key m, r)))"

text \<open>\<open>drain\<close> empties the table even when a command fails half-way.\<close>

definition remove_all :: "'e route_backend \<Rightarrow> route_manager \<Rightarrow> route_cmd list \<times> route_manager \<times> ('e, unit) result" where
  "remove_all backend m = (case remove_routes backend [] (concat (map snd m)) of (cmds, r) \<Rightarrow> (cmds, [], r))"

section \<open>What the kernel holds\<close>

fun kernel_exec :: "ipv6_route set \<Rightarrow> route_cmd list \<Rightarrow> ipv6_route set" where
  "kernel_exec K [] = K"
| "kernel_exec K (AddRoute r # cs) = kernel_exec (insert r K) cs"
| "kernel_exec K (RemoveRoute r # cs) = kernel_exec (K - {r}) cs"

lemma kernel_exec_append [simp]: "kernel_exec K (cs @ ds) = kernel_exec (kernel_exec K cs) ds"
  by (induction K cs rule: kernel_exec.induct) auto

definition tracked :: "route_manager \<Rightarrow> ipv6_route set" where
  "tracked m = (\<Union>rs\<in>snd ` set m. set rs)"

lemma routes_of_insert [simp]: "routes_of (hm_insert k rs m) k' = (if k' = k then rs else routes_of m k')"
  by (auto simp: routes_of_def hm)

lemma tracked_iff: "hm_ok m \<Longrightarrow> r \<in> tracked m \<longleftrightarrow> (\<exists>k. r \<in> set (routes_of m k))"
proof -
  assume "hm_ok m"
  then have "r \<in> tracked m \<longleftrightarrow> (\<exists>k rs. hm_get m k = Some rs \<and> r \<in> set rs)" by (force simp: tracked_def hm_get_in_set)
  moreover have "r \<in> set (routes_of m k) \<longleftrightarrow> (\<exists>rs. hm_get m k = Some rs \<and> r \<in> set rs)" for k
    by (cases "hm_get m k") (auto simp: routes_of_def)
  ultimately show ?thesis by simp
qed

lemma sync_remove_spec:
  "sync_remove backend desired cmds keep cur = (cmds', Inr keep') \<Longrightarrow>
     keep' = keep @ filter (\<lambda>r. r \<in> set desired) cur \<and>
     cmds' = cmds @ map RemoveRoute (filter (\<lambda>r. r \<notin> set desired) cur)"
  by (induction backend desired cmds keep cur rule: sync_remove.induct) (auto split: if_splits option.splits)

lemma sync_add_spec:
  "sync_add backend cmds keep desired = (cmds', Inr keep') \<Longrightarrow>
     keep' = dedup_onto keep desired \<and> (\<exists>new. cmds' = cmds @ map AddRoute new \<and> keep' = keep @ new)"
  by (induction backend cmds keep desired rule: sync_add.induct) (fastforce split: if_splits option.splits)+

lemma kernel_exec_adds: "kernel_exec K (map AddRoute rs) = K \<union> set rs"
  by (induction rs arbitrary: K) auto

lemma kernel_exec_removes: "kernel_exec K (map RemoveRoute rs) = K - set rs"
  by (induction rs arbitrary: K) auto

lemma sync_Inr:
  assumes "sync backend m key desired = (cmds, m', Inr out)"
  shows "routes_of m' key = dedup_onto (filter (\<lambda>r. r \<in> set desired) (routes_of m key)) desired"
    and "m' = hm_insert key (routes_of m' key) (hm_insert key (routes_of m key) m)"
    and "\<exists>new. cmds = map RemoveRoute (filter (\<lambda>r. r \<notin> set desired) (routes_of m key)) @ map AddRoute new \<and>
          routes_of m' key = filter (\<lambda>r. r \<in> set desired) (routes_of m key) @ new"
proof -
  from assms obtain cmds1 keep1 keep2 where
    1: "sync_remove backend desired [] [] (routes_of m key) = (cmds1, Inr keep1)" and
    2: "sync_add backend cmds1 keep1 desired = (cmds, Inr keep2)" and
    m': "m' = hm_insert key keep2 (hm_insert key (routes_of m key) m)"
    by (auto simp: sync_def Let_def split: prod.splits sum.splits)
  show "routes_of m' key = dedup_onto (filter (\<lambda>r. r \<in> set desired) (routes_of m key)) desired"
    "m' = hm_insert key (routes_of m' key) (hm_insert key (routes_of m key) m)"
    "\<exists>new. cmds = map RemoveRoute (filter (\<lambda>r. r \<notin> set desired) (routes_of m key)) @ map AddRoute new \<and>
       routes_of m' key = filter (\<lambda>r. r \<in> set desired) (routes_of m key) @ new"
    using sync_remove_spec [OF 1] sync_add_spec [OF 2] m' by auto
qed

lemma sync_keeps_others:
  "sync backend m key desired = (cmds, m', r) \<Longrightarrow> k \<noteq> key \<Longrightarrow> routes_of m' k = routes_of m k"
  by (auto simp: sync_def Let_def split: prod.splits sum.splits)

lemma sync_hm_ok: "sync backend m key desired = (cmds, m', r) \<Longrightarrow> hm_ok m \<Longrightarrow> hm_ok m'"
  by (auto simp: sync_def Let_def split: prod.splits sum.splits)

text \<open>A failed \<open>sync\<close> tracks exactly what was tracked before, whatever commands took effect.\<close>

lemma sync_Inl: "sync backend m key desired = (cmds, m', Inl e) \<Longrightarrow> routes_of m' k = routes_of m k"
  by (auto simp: sync_def Let_def split: prod.splits sum.splits)

text \<open>A backend that never refuses makes \<open>sync\<close> succeed.\<close>

lemma sync_remove_total:
  "(\<And>cs c. backend cs c = None) \<Longrightarrow> \<exists>cmds' keep'. sync_remove backend desired cmds keep cur = (cmds', Inr keep')"
  by (induction backend desired cmds keep cur rule: sync_remove.induct) auto

lemma sync_add_total:
  "(\<And>cs c. backend cs c = None) \<Longrightarrow> \<exists>cmds' keep'. sync_add backend cmds keep desired = (cmds', Inr keep')"
  by (induction backend cmds keep desired rule: sync_add.induct) auto

lemma sync_total:
  assumes "\<And>cs c. backend cs c = None"
  shows "\<exists>cmds m' out. sync backend m key desired = (cmds, m', Inr out)"
proof -
  obtain c1 k1 where 1: "sync_remove backend desired [] [] (routes_of m key) = (c1, Inr k1)"
    using sync_remove_total [of backend] assms by blast
  moreover obtain c2 k2 where "sync_add backend c1 k1 desired = (c2, Inr k2)" using sync_add_total [of backend] assms by blast
  ultimately show ?thesis by (simp add: sync_def Let_def)
qed

lemma remove_routes_Inr: "remove_routes backend cmds rs = (cmds', Inr ()) \<Longrightarrow> cmds' = cmds @ map RemoveRoute rs"
  by (induction backend cmds rs rule: remove_routes.induct) (auto split: option.splits)

section \<open>The manager driven by the daemon\<close>

text \<open>
  Each tick syncs a peer to its routes or to none. The state is the kernel's table and the manager;
  the backend accepts every command.
\<close>

definition accepting :: "unit route_backend" where
  "accepting = (\<lambda>_ _. None)"

fun route_step :: "(string \<Rightarrow> ipv6_route list) \<Rightarrow> ipv6_route set \<times> route_manager \<Rightarrow> string \<times> bool \<Rightarrow> ipv6_route set \<times> route_manager" where
  "route_step cfg (K, m) (key, connected) =
     (case sync accepting m key (if connected then cfg key else []) of (cmds, m', _) \<Rightarrow> (kernel_exec K cmds, m'))"

definition disjoint_routes :: "(string \<Rightarrow> ipv6_route list) \<Rightarrow> bool" where
  "disjoint_routes cfg \<longleftrightarrow> (\<forall>k l. k \<noteq> l \<longrightarrow> set (cfg k) \<inter> set (cfg l) = {})"

definition route_inv :: "(string \<Rightarrow> ipv6_route list) \<Rightarrow> ipv6_route set \<times> route_manager \<Rightarrow> bool" where
  "route_inv cfg s \<longleftrightarrow> hm_ok (snd s) \<and>
     (disjoint_routes cfg \<longrightarrow> fst s = tracked (snd s) \<and> (\<forall>k. set (routes_of (snd s) k) \<subseteq> set (cfg k)))"

lemma sync_kernel:
  assumes "sync backend m key desired = (cmds, m', Inr out)" and "set (routes_of m key) \<subseteq> K"
  shows "kernel_exec K cmds = (K - set (routes_of m key)) \<union> set desired" and "set (routes_of m' key) = set desired"
proof -
  obtain new where new: "cmds = map RemoveRoute (filter (\<lambda>r. r \<notin> set desired) (routes_of m key)) @ map AddRoute new"
    "routes_of m' key = filter (\<lambda>r. r \<in> set desired) (routes_of m key) @ new" using sync_Inr(3) [OF assms(1)] by blast
  show d: "set (routes_of m' key) = set desired" using sync_Inr(1) [OF assms(1)] by auto
  with new(2) have n: "set new \<union> {r \<in> set (routes_of m key). r \<in> set desired} = set desired" by auto
  have "kernel_exec K cmds = K - {r \<in> set (routes_of m key). r \<notin> set desired} \<union> set new"
    using new(1) by (simp add: kernel_exec_adds kernel_exec_removes)
  then show "kernel_exec K cmds = (K - set (routes_of m key)) \<union> set desired"
    using n assms(2) by blast
qed

lemma sync_again:
  assumes "sync backend m key desired = (cmds, m', Inr out)"
  shows "\<exists>m''. sync backend' m' key desired = ([], m'', Inr \<lparr>added = [], removed = []\<rparr>) \<and> (\<forall>k. routes_of m'' k = routes_of m' k)"
proof -
  have all: "set (routes_of m' key) = set desired" using sync_Inr(1) [OF assms] by auto
  have 1: "sync_remove backend' desired [] ks rs = ([], Inr (ks @ rs))" if "set rs \<subseteq> set desired" for ks rs
    using that by (induction rs arbitrary: ks) auto
  have 2: "sync_add backend' [] ks rs = ([], Inr ks)" if "set rs \<subseteq> set ks" for ks rs
    using that by (induction rs) auto
  show ?thesis using 1 [of "routes_of m' key" "[]"] 2 [of desired "routes_of m' key"] all
    by (simp add: sync_def Let_def outcome_of_def map_filter_simps)
qed

lemma route_step_inv:
  assumes "route_inv cfg s"
  shows "route_inv cfg (route_step cfg s e)"
proof -
  obtain K m key connected where s: "s = (K, m)" and e: "e = (key, connected)" by (cases s, cases e) auto
  let ?d = "if connected then cfg key else []"
  obtain cmds m' out where sy: "sync accepting m key ?d = (cmds, m', Inr out)"
    using sync_total [of accepting] by (metis accepting_def)
  have ok: "hm_ok m" "hm_ok m'" using assms sync_hm_ok [OF sy] by (simp_all add: s route_inv_def)
  have "kernel_exec K cmds = tracked m' \<and> (\<forall>k. set (routes_of m' k) \<subseteq> set (cfg k))" if dis: "disjoint_routes cfg"
  proof -
    have K: "K = tracked m" and sub: "set (routes_of m k) \<subseteq> set (cfg k)" for k
      using assms dis by (simp_all add: s route_inv_def)
    have "set (routes_of m key) \<subseteq> K" using K tracked_iff [OF ok(1)] by auto
    note ker = sync_kernel [OF sy this]
    have r: "set (routes_of m' k) = (if k = key then set ?d else set (routes_of m k))" for k
      using ker(2) sync_keeps_others [OF sy] by simp
    have sub': "set (routes_of m' k) \<subseteq> set (cfg k)" for k using r sub by auto
    have other: "x \<notin> set (routes_of m key)" if "x \<in> set (routes_of m k)" "k \<noteq> key" for x k
      using that sub [of k] sub [of key] dis unfolding disjoint_routes_def by blast
    have "x \<in> tracked m' \<longleftrightarrow> x \<in> set ?d \<or> (\<exists>k. k \<noteq> key \<and> x \<in> set (routes_of m k))" for x
      unfolding tracked_iff [OF ok(2)] using r by auto
    moreover have "x \<in> tracked m - set (routes_of m key) \<longleftrightarrow> (\<exists>k. k \<noteq> key \<and> x \<in> set (routes_of m k))" for x
      unfolding Diff_iff tracked_iff [OF ok(1)] using other by metis
    ultimately have "tracked m' = (tracked m - set (routes_of m key)) \<union> set ?d" by blast
    with ker(1) sub' K show ?thesis by simp
  qed
  then show ?thesis using ok sy by (simp add: s e route_inv_def)
qed

interpretation routes: machine "({}, [])" "route_step cfg" "route_inv cfg" for cfg
  by unfold_locales (simp add: route_inv_def tracked_def routes_of_def, rule route_step_inv)

section \<open>Properties\<close>


definition ex_rt :: ipv6_route where
  "ex_rt = \<lparr>prefix = push_bit 112 0x2001, prefix_len = 16\<rparr>"


text \<open>
  A sync that fails after its first command: the route it installed is not tracked, so the sync of the
  following disconnect does not remove it.
\<close>

lemma sync_failure_forgets:
  assumes "r \<noteq> s"
  shows "sync (\<lambda>cmds _. if cmds = [] then None else Some ()) [] key [r, s] = ([AddRoute r], [(key, [])], Inl ())"
    and "kernel_exec {} [AddRoute r] = {r}"
    and "fst (sync accepting [(key, [])] key []) = []"
  using assms by (simp_all add: sync_def routes_of_def accepting_def outcome_of_def)

text \<open>While the kernel accepts the commands, and the peers' routes are disjoint as a loaded
  configuration guarantees, the kernel's table always equals the set of tracked routes, and each peer has
  only routes it announces: nothing leaks when peers connect and disconnect in any order.\<close>

theorem route_table_exact:
  assumes "disjoint_routes cfg" and "(K, m) = foldl (route_step cfg) ({}, []) es"
  shows "K = tracked m \<and> (\<forall>k. set (routes_of m k) \<subseteq> set (cfg k))"
  using routes.inv_reachable [of cfg es] assms by (metis fst_conv route_inv_def snd_conv)

theorem route_table_exact_witness:
  "(\<lambda>(K, m). K = tracked m \<and> (\<forall>k. set (routes_of m k) \<subseteq> set (if k = ''p'' then [ex_rt] else [])))
     (foldl (route_step (\<lambda>k. if k = ''p'' then [ex_rt] else [])) ({}, []) [(''p'', True), (''q'', True), (''p'', False)])"
proof -
  obtain K m where s: "(K, m) = foldl (route_step (\<lambda>k. if k = ''p'' then [ex_rt] else [])) ({}, []) [(''p'', True), (''q'', True), (''p'', False)]"
    by (metis surj_pair)
  have d: "disjoint_routes (\<lambda>k. if k = ''p'' then [ex_rt] else [])" by (auto simp: disjoint_routes_def)
  from route_table_exact [OF d s] show ?thesis unfolding s [symmetric] by simp
qed

end
