(* ===== verification/Member_Table.thy ===== *)
theory Member_Table
  imports Candidates
begin

text \<open>
  The persisted table of members admitted by gossip (\<open>crates/engine/src/members.rs\<close>): soft state,
  so whatever cannot be read counts as an empty table.
\<close>

definition MEMBERS_VERSION :: u32 where "MEMBERS_VERSION = 1"

record member_record =
  m_name :: string
  m_public_key :: string
  m_address :: ipv6

record members_file =
  mf_version :: u32
  members :: "member_record list"

definition members_new :: members_file where
  "members_new = \<lparr>mf_version = MEMBERS_VERSION, members = []\<rparr>"

text \<open>\<open>MembersFile::load\<close>, given what reading and parsing the file gave.\<close>

definition members_load :: "(io_error, members_file) result \<Rightarrow> members_file" where
  "members_load r = (case r of Inr m \<Rightarrow> if mf_version m = MEMBERS_VERSION then m else members_new | Inl _ \<Rightarrow> members_new)"

definition members_get :: "members_file \<Rightarrow> string \<Rightarrow> member_record option" where
  "members_get mf k = find (\<lambda>m. m_public_key m = k) (members mf)"

fun replace_first :: "('a \<Rightarrow> bool) \<Rightarrow> 'a \<Rightarrow> 'a list \<Rightarrow> 'a list option" where
  "replace_first P y [] = None"
| "replace_first P y (x # xs) = (if P x then Some (y # xs) else map_option (Cons x) (replace_first P y xs))"

definition members_upsert :: "members_file \<Rightarrow> member_record \<Rightarrow> members_file \<times> bool" where
  "members_upsert mf r =
     (case replace_first (\<lambda>m. m_public_key m = m_public_key r) r (members mf) of
        Some ms \<Rightarrow> (mf\<lparr>members := ms\<rparr>, False)
      | None \<Rightarrow> (mf\<lparr>members := members mf @ [r]\<rparr>, True))"

definition members_remove :: "members_file \<Rightarrow> string \<Rightarrow> members_file \<times> bool" where
  "members_remove mf k =
     (let ms = filter (\<lambda>m. m_public_key m \<noteq> k) (members mf)
      in (mf\<lparr>members := ms\<rparr>, length ms \<noteq> length (members mf)))"

section \<open>The table as a map\<close>

definition members_ok :: "members_file \<Rightarrow> bool" where
  "members_ok mf \<longleftrightarrow> mf_version mf = MEMBERS_VERSION \<and> distinct (map m_public_key (members mf))"

lemma replace_first_None: "replace_first P y xs = None \<longleftrightarrow> (\<forall>x\<in>set xs. \<not> P x)"
  by (induction xs) auto

lemma replace_first_map:
  "replace_first (\<lambda>m. f m = f y) y xs = Some ys \<Longrightarrow> map f ys = map f xs"
  by (induction xs arbitrary: ys) (auto split: if_splits)

lemma find_replace_first:
  "replace_first (\<lambda>m. f m = f y) y xs = Some ys \<Longrightarrow>
     find (\<lambda>m. f m = k) ys = (if k = f y then Some y else find (\<lambda>m. f m = k) xs)"
  by (induction xs arbitrary: ys) (auto split: if_splits)

lemma find_append: "find P (xs @ ys) = (case find P xs of None \<Rightarrow> find P ys | Some x \<Rightarrow> Some x)"
  by (induction xs) auto

lemma find_None: "find P xs = None \<longleftrightarrow> (\<forall>x\<in>set xs. \<not> P x)"
  by (induction xs) auto

lemma members_get_upsert:
  "members_get (fst (members_upsert mf r)) k = (if k = m_public_key r then Some r else members_get mf k)"
proof (cases "replace_first (\<lambda>m. m_public_key m = m_public_key r) r (members mf)")
  case None
  then have "find (\<lambda>m. m_public_key m = m_public_key r) (members mf) = None"
    by (simp add: replace_first_None find_None)
  with None show ?thesis by (auto simp: members_upsert_def members_get_def find_append split: option.splits)
next
  case (Some ms)
  then show ?thesis by (simp add: members_upsert_def members_get_def find_replace_first [OF Some])
qed

lemma members_get_remove:
  "members_get (fst (members_remove mf k)) k' = (if k' = k then None else members_get mf k')"
proof -
  have "find (\<lambda>m. m_public_key m = k') (filter (\<lambda>m. m_public_key m \<noteq> k) ms) =
      (if k' = k then None else find (\<lambda>m. m_public_key m = k') ms)" for ms
    by (induction ms) auto
  from this [of "members mf"] show ?thesis by (simp add: members_get_def members_remove_def Let_def)
qed

lemma members_upsert_new: "snd (members_upsert mf r) \<longleftrightarrow> members_get mf (m_public_key r) = None"
proof -
  have "members_get mf (m_public_key r) = None \<longleftrightarrow>
      replace_first (\<lambda>m. m_public_key m = m_public_key r) r (members mf) = None"
    unfolding members_get_def find_None replace_first_None ..
  then show ?thesis by (auto simp: members_upsert_def split: option.splits)
qed

lemma members_remove_found: "snd (members_remove mf k) \<longleftrightarrow> members_get mf k \<noteq> None"
proof -
  have "length (filter P ms) = length ms \<longleftrightarrow> (\<forall>m\<in>set ms. P m)" for P and ms :: "member_record list"
    by (metis filter_True length_filter_less less_irrefl)
  then show ?thesis unfolding members_get_def members_remove_def Let_def find_None by simp
qed

datatype member_event = Upsert member_record | Remove string

fun member_step :: "members_file \<Rightarrow> member_event \<Rightarrow> members_file" where
  "member_step mf (Upsert r) = fst (members_upsert mf r)"
| "member_step mf (Remove k) = fst (members_remove mf k)"

lemma members_ok_upsert: "members_ok mf \<Longrightarrow> members_ok (fst (members_upsert mf r))"
  by (auto simp: members_ok_def members_upsert_def replace_first_None image_iff split: option.splits
      dest: replace_first_map [where f = m_public_key])

lemma members_ok_remove: "members_ok mf \<Longrightarrow> members_ok (fst (members_remove mf k))"
  by (auto simp: members_ok_def members_remove_def Let_def distinct_map_filter)

lemma members_ok_step: "members_ok mf \<Longrightarrow> members_ok (member_step mf e)"
  by (cases e) (simp_all add: members_ok_upsert members_ok_remove)

interpretation member_table: machine members_new member_step members_ok
  by unfold_locales (simp add: members_ok_def members_new_def, rule members_ok_step)

section \<open>Properties\<close>

text \<open>The member table behaves as a map from public keys to records under every operation, reports
  whether a member was new or present, and after any sequence of admissions and removals holds each key
  once.\<close>

theorem members_map:
  "members_get (fst (members_upsert mf r)) k = (if k = m_public_key r then Some r else members_get mf k) \<and>
   (snd (members_upsert mf r) \<longleftrightarrow> members_get mf (m_public_key r) = None) \<and>
   members_get (fst (members_remove mf k')) k = (if k = k' then None else members_get mf k) \<and>
   (snd (members_remove mf k') \<longleftrightarrow> members_get mf k' \<noteq> None) \<and>
   distinct (map m_public_key (members (foldl member_step members_new es)))"
  using member_table.inv_reachable [of es]
  by (simp add: members_ok_def members_get_upsert members_upsert_new members_get_remove members_remove_found)

end
