(* ===== verification/Probe_Service.thy ===== *)
theory Probe_Service
  imports Probe_Packet Net_Addr
begin

text \<open>
  The doctor probe as a service (\<open>crates/engine/src/probe_responder.rs\<close>, \<open>doctor_client.rs\<close> and
  \<open>crates/core/src/doctor.rs\<close>): the responder's rate limiter and receive loop, the client's
  collection of evidence, and the verdict. The loops are step functions; a datagram is cut to the
  receive buffer.
\<close>

section \<open>The responder\<close>

definition UNSOLICITED_DELAY :: int where "UNSOLICITED_DELAY = millis 300"
definition MIN_REQUEST_INTERVAL :: int where "MIN_REQUEST_INTERVAL = secs 1"
definition RATE_TABLE_MAX :: nat where "RATE_TABLE_MAX = 64"
definition RATE_ENTRY_TTL :: int where "RATE_ENTRY_TTL = secs 60"
definition PROBE_BUF :: nat where "PROBE_BUF = 128"

type_synonym rate_limiter = "(ipv6 \<times> time) list"

definition rate_new :: rate_limiter where
  "rate_new = []"

definition make_room :: "rate_limiter \<Rightarrow> time \<Rightarrow> rate_limiter" where
  "make_room l now =
     (if length l \<ge> RATE_TABLE_MAX
      then let l = hm_retain (\<lambda>_ t. instant_since now t < RATE_ENTRY_TTL) l in
           if length l \<ge> RATE_TABLE_MAX then [] else l
      else l)"

definition rate_allow :: "rate_limiter \<Rightarrow> ipv6 \<Rightarrow> time \<Rightarrow> rate_limiter \<times> bool" where
  "rate_allow l a now =
     (if \<exists>prev\<in>set_option (hm_get l a). instant_since now prev < MIN_REQUEST_INTERVAL then (l, False)
      else (hm_insert a now (make_room l now), True))"

text \<open>
  What the responder sends: at once from its own socket, or after a delay from a fresh socket.
\<close>

datatype probe_send = Reply socket_v6 bytes | Delayed int socket_v6 bytes

definition responder_step ::
  "hmac \<Rightarrow> key32 \<Rightarrow> rate_limiter \<Rightarrow> socket_addr \<Rightarrow> bytes \<Rightarrow> time \<Rightarrow> rate_limiter \<times> probe_send list" where
  "responder_step mac probe_key l src datagram now =
     (case src of
        V4 _ _ \<Rightarrow> (l, [])
      | V6 src6 \<Rightarrow>
          (case probe_decode mac probe_key (take PROBE_BUF datagram) of
             Inl _ \<Rightarrow> (l, [])
           | Inr p \<Rightarrow>
               if pkind p \<noteq> Request then (l, [])
               else let (l, ok) = rate_allow l (ip src6) now in
                 if \<not> ok then (l, [])
                 else (l,
                   Reply src6 (probe_encode mac probe_key \<lparr>pkind = Response, nonce = nonce p, reply_port = 0\<rparr>) #
                   (if reply_port p \<noteq> 0
                    then [Delayed UNSOLICITED_DELAY
                            \<lparr>ip = ip src6, port = reply_port p, flowinfo = 0, scope_id = scope_id src6\<rparr>
                            (probe_encode mac probe_key \<lparr>pkind = Unsolicited, nonce = nonce p, reply_port = 0\<rparr>)]
                    else []))))"

section \<open>The verdict\<close>

datatype reachability = NoIpv6 | Open | Stateful | Blocked

fun reachability_as_str :: "reachability \<Rightarrow> string" where
  "reachability_as_str NoIpv6 = ''no-ipv6''"
| "reachability_as_str Open = ''open''"
| "reachability_as_str Stateful = ''stateful''"
| "reachability_as_str Blocked = ''blocked''"

record probe_evidence =
  has_global_ipv6 :: bool
  solicited_ok :: bool
  unsolicited_ok :: bool

definition classify :: "probe_evidence \<Rightarrow> reachability" where
  "classify e =
     (if \<not> has_global_ipv6 e then NoIpv6
      else if unsolicited_ok e then Open
      else if solicited_ok e then Stateful
      else Blocked)"

section \<open>The client\<close>

definition REQUEST_RETRY_INTERVAL :: int where "REQUEST_RETRY_INTERVAL = millis 700"

record probe_outcome =
  po_reachability :: reachability
  po_evidence :: probe_evidence
  po_target :: socket_v6
  po_global :: "ipv6 list"

text \<open>The turns of the client's \<open>select!\<close> loop; a receive error changes nothing.\<close>

datatype client_event = Deadline | RetryTick | RecvS1 bytes | RecvS2 bytes | RecvError

record client_state =
  pc_solicited :: bool
  pc_unsolicited :: bool
  pc_done :: bool

definition client_new :: client_state where
  "client_new = \<lparr>pc_solicited = False, pc_unsolicited = False, pc_done = False\<rparr>"

definition probe_request :: "hmac \<Rightarrow> key32 \<Rightarrow> u64 \<Rightarrow> u16 \<Rightarrow> bytes" where
  "probe_request mac probe_key n rport = probe_encode mac probe_key \<lparr>pkind = Request, nonce = n, reply_port = rport\<rparr>"

definition matches :: "hmac \<Rightarrow> key32 \<Rightarrow> probe_kind \<Rightarrow> u64 \<Rightarrow> bytes \<Rightarrow> bool" where
  "matches mac probe_key k n datagram =
     (case probe_decode mac probe_key (take PROBE_BUF datagram) of
        Inl _ \<Rightarrow> False
      | Inr p \<Rightarrow> pkind p = k \<and> nonce p = n)"

text \<open>One turn: the new state and whether the request is sent.\<close>

fun client_step :: "hmac \<Rightarrow> key32 \<Rightarrow> u64 \<Rightarrow> client_state \<Rightarrow> client_event \<Rightarrow> client_state \<times> bool" where
  "client_step mac key n c Deadline = (c\<lparr>pc_done := True\<rparr>, False)"
| "client_step mac key n c RetryTick = (c, \<not> pc_solicited c)"
| "client_step mac key n c (RecvS1 d) = (if matches mac key Response n d then c\<lparr>pc_solicited := True\<rparr> else c, False)"
| "client_step mac key n c (RecvS2 d) = (if matches mac key Unsolicited n d then c\<lparr>pc_unsolicited := True\<rparr> else c, False)"
| "client_step mac key n c RecvError = (c, False)"

definition client_finished :: "client_state \<Rightarrow> bool" where
  "client_finished c \<longleftrightarrow> pc_done c \<or> (pc_solicited c \<and> pc_unsolicited c)"

text \<open>The loop over the events that happen, until it leaves; events after that are not read.\<close>

fun client_run :: "hmac \<Rightarrow> key32 \<Rightarrow> u64 \<Rightarrow> client_state \<Rightarrow> client_event list \<Rightarrow> client_state" where
  "client_run mac key n c [] = c"
| "client_run mac key n c (e # es) =
     (if client_finished c then c else client_run mac key n (fst (client_step mac key n c e)) es)"

definition probe_result :: "client_state \<Rightarrow> socket_v6 \<Rightarrow> ipv6 list \<Rightarrow> probe_outcome" where
  "probe_result c target global =
     (let e = \<lparr>has_global_ipv6 = (global \<noteq> []), solicited_ok = pc_solicited c, unsolicited_ok = pc_unsolicited c\<rparr>
      in \<lparr>po_reachability = classify e, po_evidence = e, po_target = target, po_global = global\<rparr>)"

section \<open>The limiter stays small and limits\<close>

lemma make_room_ok: "hm_ok l \<Longrightarrow> hm_ok (make_room l now)"
  by (simp add: make_room_def Let_def)

lemma make_room_len: "length (make_room l now) < RATE_TABLE_MAX"
  by (simp add: make_room_def Let_def RATE_TABLE_MAX_def)

lemma rate_allow_ok: "hm_ok l \<Longrightarrow> hm_ok (fst (rate_allow l a now))"
  by (simp add: rate_allow_def make_room_ok)

lemma rate_allow_len: "length l \<le> RATE_TABLE_MAX \<Longrightarrow> length (fst (rate_allow l a now)) \<le> RATE_TABLE_MAX"
  using make_room_len [of l now] by (simp add: rate_allow_def hm_len_insert)

lemma responder_table: "fst (responder_step mac key l src d now) = l \<or> (\<exists>a. fst (responder_step mac key l src d now) = fst (rate_allow l a now))"
  by (auto simp: responder_step_def Let_def split: socket_addr.splits sum.splits prod.splits if_splits) (metis fst_conv)+

interpretation probe_rates: bounded_table rate_new "\<lambda>l (src, d, now). fst (responder_step mac key l src d now)"
    hm_ok length RATE_TABLE_MAX for mac key
proof unfold_locales
  fix l :: rate_limiter and e :: "socket_addr \<times> bytes \<times> time"
  obtain src d now where e: "e = (src, d, now)" by (cases e) auto
  show "hm_ok l \<Longrightarrow> hm_ok (case e of (src, d, now) \<Rightarrow> fst (responder_step mac key l src d now))"
    using responder_table [of mac key l src d now] rate_allow_ok by (auto simp: e)
  show "hm_ok l \<Longrightarrow> length l \<le> RATE_TABLE_MAX \<Longrightarrow>
      length (case e of (src, d, now) \<Rightarrow> fst (responder_step mac key l src d now)) \<le> RATE_TABLE_MAX"
    using responder_table [of mac key l src d now] rate_allow_len by (auto simp: e)
qed (simp_all add: rate_new_def)

lemma rate_refuses_again:
  assumes "rate_allow l a t0 = (l', True)" and "t0 \<le> t" and "t - t0 < MIN_REQUEST_INTERVAL"
  shows "rate_allow l' a t = (l', False)"
  using assms by (auto simp: rate_allow_def hm instant_since_def split: if_splits)

lemma take_probe_encode [simp]: "take PROBE_BUF (probe_encode mac key p) = probe_encode mac key p"
  by (simp add: PROBE_BUF_def)

lemma matches_encode [simp]: "matches mac key k n (probe_encode mac key p) \<longleftrightarrow> pkind p = k \<and> nonce p = n"
  using probe_decode_encode [of mac key p "[]"] by (simp add: matches_def)

lemma matches_authentic: "matches mac key k n d \<Longrightarrow> \<exists>rp. take 32 d = probe_encode mac key \<lparr>pkind = k, nonce = n, reply_port = rp\<rparr>"
proof -
  assume "matches mac key k n d"
  then obtain p where p: "probe_decode mac key (take PROBE_BUF d) = Inr p" "pkind p = k" "nonce p = n"
    by (auto simp: matches_def split: sum.splits)
  from probe_decode_canonical [OF p(1)] have "take 32 (take PROBE_BUF d) = probe_encode mac key p"
    by (metis append_eq_conv_conj length_probe_encode)
  moreover have "p = \<lparr>pkind = k, nonce = n, reply_port = reply_port p\<rparr>" using p by (cases p) simp
  ultimately have "take 32 d = probe_encode mac key \<lparr>pkind = k, nonce = n, reply_port = reply_port p\<rparr>"
    by (simp add: PROBE_BUF_def)
  then show ?thesis by blast
qed

text \<open>What the client has when it stops was delivered by one of the events.\<close>

lemma client_run_solicited:
  "pc_solicited (client_run mac key n c es) \<Longrightarrow> pc_solicited c \<or> (\<exists>d. RecvS1 d \<in> set es \<and> matches mac key Response n d)"
proof (induction es arbitrary: c)
  case (Cons e es)
  then show ?case by (cases e) (auto split: if_splits dest!: Cons.IH)
qed simp

lemma client_run_unsolicited:
  "pc_unsolicited (client_run mac key n c es) \<Longrightarrow> pc_unsolicited c \<or> (\<exists>d. RecvS2 d \<in> set es \<and> matches mac key Unsolicited n d)"
proof (induction es arbitrary: c)
  case (Cons e es)
  then show ?case by (cases e) (auto split: if_splits dest!: Cons.IH)
qed simp

text \<open>The verdict of a client that saw the events \<open>es\<close>.\<close>

definition verdict :: "hmac \<Rightarrow> key32 \<Rightarrow> u64 \<Rightarrow> ipv6 list \<Rightarrow> client_event list \<Rightarrow> reachability" where
  "verdict mac key n global es = po_reachability (probe_result (client_run mac key n client_new es) (sock 0 0) global)"

lemma verdict_eq:
  "verdict mac key n global es =
     (let c = client_run mac key n client_new es in
      if global = [] then NoIpv6 else if pc_unsolicited c then Open else if pc_solicited c then Stateful else Blocked)"
  by (simp add: verdict_def probe_result_def classify_def Let_def)

lemma responder_answers:
  assumes "snd (rate_allow l (ip src) now)"
  shows "snd (responder_step mac key l (V6 src) (probe_request mac key n rport) now) =
    Reply src (probe_encode mac key \<lparr>pkind = Response, nonce = n, reply_port = 0\<rparr>) #
    (if rport \<noteq> 0
     then [Delayed UNSOLICITED_DELAY \<lparr>ip = ip src, port = rport, flowinfo = 0, scope_id = scope_id src\<rparr>
             (probe_encode mac key \<lparr>pkind = Unsolicited, nonce = n, reply_port = 0\<rparr>)]
     else [])"
  using assms probe_decode_encode [of mac key "\<lparr>pkind = Request, nonce = n, reply_port = rport\<rparr>" "[]"]
  by (auto simp: responder_step_def probe_request_def Let_def split: prod.splits)

section \<open>Properties\<close>

text \<open>A doctor run ends in the right verdict. The responder answers the client's request with a
  reply and a delayed unsolicited packet to the port the request names; the client that receives both, or
  the unsolicited one alone, says open, one that receives only the reply says stateful, one that receives
  neither says blocked.\<close>

theorem probe_exchange:
  assumes "snd (rate_allow l (ip src) now)" and "rport \<noteq> 0" and "global \<noteq> []"
  shows "\<exists>resp uns.
    snd (responder_step mac key l (V6 src) (probe_request mac key n rport) now) =
      [Reply src resp,
       Delayed UNSOLICITED_DELAY \<lparr>ip = ip src, port = rport, flowinfo = 0, scope_id = scope_id src\<rparr> uns] \<and>
    verdict mac key n global [RecvS1 resp, RecvS2 uns] = Open \<and>
    verdict mac key n global [RecvS2 uns, Deadline] = Open \<and>
    verdict mac key n global [RecvS1 resp, Deadline] = Stateful \<and>
    verdict mac key n global [Deadline] = Blocked"
  unfolding responder_answers [OF assms(1)]
  using assms(2,3) by (simp add: verdict_eq client_new_def client_finished_def)

theorem probe_exchange_witness:
  "\<exists>resp uns.
    snd (responder_step (\<lambda>_ _. 0) 5 rate_new (V6 (sock 7 1)) (probe_request (\<lambda>_ _. 0) 5 9 3) 0) =
      [Reply (sock 7 1) resp, Delayed UNSOLICITED_DELAY (sock 7 3) uns]"
  using probe_exchange [of rate_new "sock 7 1" 0 3 "[1]" "\<lambda>_ _. 0" 5 9]
  by (simp add: rate_allow_def rate_new_def sock_def) blast



end
