(* ===== verification/Engine_State.thy ===== *)
theory Engine_State
  imports Punch_Fsm Node_Config
begin

text \<open>
  The state file and the status report (\<open>crates/engine/src/state.rs\<close>, \<open>status.rs\<close> and
  \<open>crates/proto/src/lib.rs\<close>): what the daemon publishes every tick and the rows that
  \<open>hextet status\<close> and the HTTP service build from it and from the kernel. Encoding keys in base64
  and converting them to WireGuard's form are third-party code, the operations of \<open>show_ops\<close>.
\<close>

record show_ops =
  to_base64 :: "public_key \<Rightarrow> string"
  wg_public_bytes :: "public_key \<Rightarrow> key32"

section \<open>The state file\<close>

definition STATE_VERSION :: u32 where "STATE_VERSION = 7"

record peer_state =
  st_name :: string
  st_public_key :: string
  st_address :: ipv6
  st_punch_state :: string
  st_endpoint :: "socket_v6 option"
  st_endpoint_source :: string
  st_lan_endpoints :: nat
  st_gossip_endpoints :: nat
  st_ddns_endpoints :: nat
  st_relay_via :: "string option"
  st_routes :: "ipv6_route list"
  st_last_handshake_secs :: "u64 option"
  st_rx_bytes :: u64
  st_tx_bytes :: u64
  st_candidates :: nat
  st_candidate_index :: nat
  st_rounds :: u32

record engine_state =
  es_version :: u32
  es_updated_unix :: u64
  es_interface :: string
  es_node_address :: ipv6
  es_node_public_key :: string
  es_peers :: "peer_state list"

text \<open>\<open>Duration::as_secs\<close>, and \<open>unix_secs\<close>, which is zero before the epoch.\<close>

definition as_secs :: "int \<Rightarrow> u64" where
  "as_secs d = word_of_int (d div 1000000000)"

definition unix_secs :: "time \<Rightarrow> u64" where
  "unix_secs t = as_secs (case duration_since t 0 of Some d \<Rightarrow> d | None \<Rightarrow> 0)"

definition endpoint_source :: "socket_v6 option \<Rightarrow> candidate_sources \<Rightarrow> string" where
  "endpoint_source e s =
     (case map_option normalize e of
        None \<Rightarrow> ''none''
      | Some ep \<Rightarrow>
          if map_option normalize (cs_relay s) = Some ep then ''relay''
          else if list_ex (\<lambda>c. normalize c = ep) (cs_configured s) then ''config''
          else case find (\<lambda>d. normalize (snd d) = ep) (cs_discovered s) of
            Some d \<Rightarrow> source_as_str (fst d)
          | None \<Rightarrow>
              if list_ex (\<lambda>c. normalize (endpoint c) = ep) (cs_cached s) then ''cache'' else ''roamed'')"

section \<open>The status report\<close>

definition DAEMON_FRESH_SECS :: u64 where "DAEMON_FRESH_SECS = 10"

definition handshake_state :: "time option \<Rightarrow> time \<Rightarrow> string" where
  "handshake_state h now =
     (case h of
        None \<Rightarrow> ''no-handshake''
      | Some t \<Rightarrow>
          (case duration_since now t of
             Some d \<Rightarrow> if d < secs 180 then ''connected'' else ''stale''
           | None \<Rightarrow> ''stale''))"

definition daemon_freshness :: "u64 \<Rightarrow> u64 \<Rightarrow> bool \<times> u64" where
  "daemon_freshness updated_unix now_unix =
     (let secs_ago = sat_sub now_unix updated_unix in (secs_ago \<le> DAEMON_FRESH_SECS, secs_ago))"

record peer_status =
  wgs_public :: key32
  wgs_endpoint :: "socket_addr option"
  wgs_last_handshake :: "time option"
  wgs_rx_bytes :: u64
  wgs_tx_bytes :: u64

record daemon_info =
  di_running :: bool
  di_updated_secs_ago :: u64
  di_state_file :: string

record status_row =
  sr_peer :: string
  sr_address :: string
  sr_endpoint :: "string option"
  sr_last_handshake_secs :: "u64 option"
  sr_rx_bytes :: u64
  sr_tx_bytes :: u64
  sr_state :: string
  sr_endpoint_source :: "string option"
  sr_punch_state :: "string option"
  sr_candidates :: "nat option"
  sr_candidate_index :: "nat option"
  sr_lan_endpoints :: "nat option"
  sr_gossip_endpoints :: "nat option"
  sr_ddns_endpoints :: "nat option"
  sr_relay_via :: "string option"
  sr_routes :: "string list"

record status_report =
  rep_daemon :: "daemon_info option"
  rep_peers :: "status_row list"

text \<open>The state file as read, or nothing when it is unreadable or of another version.\<close>

definition usable_state :: "(io_error, engine_state) result \<Rightarrow> engine_state option" where
  "usable_state r = (case r of Inl _ \<Rightarrow> None | Inr s \<Rightarrow> if es_version s = STATE_VERSION then Some s else None)"

definition daemon_of :: "string \<Rightarrow> time \<Rightarrow> engine_state \<Rightarrow> daemon_info" where
  "daemon_of path now s =
     (let (running, ago) = daemon_freshness (es_updated_unix s) (unix_secs now)
      in \<lparr>di_running = running, di_updated_secs_ago = ago, di_state_file = path\<rparr>)"

definition handshake_age :: "time option \<Rightarrow> time \<Rightarrow> u64 option" where
  "handshake_age h now = map_option as_secs (Option.bind h (duration_since now))"

definition kernel_row :: "show_ops \<Rightarrow> config \<Rightarrow> engine_state option \<Rightarrow> time \<Rightarrow> peer_status \<Rightarrow> status_row" where
  "kernel_row ops cfg engine now s =
     (let p = find (\<lambda>p. wg_public_bytes ops (cp_public_key p) = wgs_public s) (cf_peers cfg);
          key = map_option (\<lambda>p. to_base64 ops (cp_public_key p)) p;
          ep = Option.bind engine (\<lambda>st. Option.bind key (\<lambda>k. find (\<lambda>q. st_public_key q = k) (es_peers st)))
      in \<lparr>sr_peer = (case p of None \<Rightarrow> ''<unknown>'' | Some q \<Rightarrow> cp_name q),
          sr_address = (case p of None \<Rightarrow> [] | Some q \<Rightarrow> show_ipv6 (address (cp_addr q))),
          sr_endpoint = map_option show_sock (wgs_endpoint s),
          sr_last_handshake_secs = handshake_age (wgs_last_handshake s) now,
          sr_rx_bytes = wgs_rx_bytes s, sr_tx_bytes = wgs_tx_bytes s,
          sr_state = handshake_state (wgs_last_handshake s) now,
          sr_endpoint_source = map_option st_endpoint_source ep,
          sr_punch_state = map_option st_punch_state ep,
          sr_candidates = map_option st_candidates ep,
          sr_candidate_index = map_option st_candidate_index ep,
          sr_lan_endpoints = map_option st_lan_endpoints ep,
          sr_gossip_endpoints = map_option st_gossip_endpoints ep,
          sr_ddns_endpoints = map_option st_ddns_endpoints ep,
          sr_relay_via = Option.bind ep st_relay_via,
          sr_routes = (case ep of None \<Rightarrow> [] | Some q \<Rightarrow> map (show_route) (st_routes q))\<rparr>)"

text \<open>\<open>build_report\<close>: the rows come from the kernel; an unreadable device is its error.\<close>

definition build_report ::
  "show_ops \<Rightarrow> config \<Rightarrow> string \<Rightarrow> ('e, peer_status list) result \<Rightarrow> (io_error, engine_state) result \<Rightarrow> time \<Rightarrow>
     ('e, status_report) result" where
  "build_report ops cfg path statuses file now =
     and_then statuses (\<lambda>ss.
       let engine = usable_state file in
       Inr \<lparr>rep_daemon = map_option (daemon_of path now) engine, rep_peers = map (kernel_row ops cfg engine now) ss\<rparr>)"

definition state_row :: "show_ops \<Rightarrow> config \<Rightarrow> peer_state \<Rightarrow> status_row" where
  "state_row ops cfg ps =
     (let p = find (\<lambda>p. to_base64 ops (cp_public_key p) = st_public_key ps) (cf_peers cfg)
      in \<lparr>sr_peer = (case p of None \<Rightarrow> st_name ps | Some q \<Rightarrow> cp_name q),
          sr_address = (case p of None \<Rightarrow> show_ipv6 (st_address ps) | Some q \<Rightarrow> show_ipv6 (address (cp_addr q))),
          sr_endpoint = map_option (\<lambda>e. show_sock (V6 e)) (st_endpoint ps),
          sr_last_handshake_secs = st_last_handshake_secs ps,
          sr_rx_bytes = st_rx_bytes ps, sr_tx_bytes = st_tx_bytes ps,
          sr_state = (case st_last_handshake_secs ps of
                        Some n \<Rightarrow> if n < 180 then ''connected'' else ''stale''
                      | None \<Rightarrow> ''no-handshake''),
          sr_endpoint_source = Some (st_endpoint_source ps),
          sr_punch_state = Some (st_punch_state ps),
          sr_candidates = Some (st_candidates ps),
          sr_candidate_index = Some (st_candidate_index ps),
          sr_lan_endpoints = Some (st_lan_endpoints ps),
          sr_gossip_endpoints = Some (st_gossip_endpoints ps),
          sr_ddns_endpoints = Some (st_ddns_endpoints ps),
          sr_relay_via = st_relay_via ps,
          sr_routes = map (show_route) (st_routes ps)\<rparr>)"

definition build_report_from_state ::
  "show_ops \<Rightarrow> config \<Rightarrow> string \<Rightarrow> (io_error, engine_state) result \<Rightarrow> time \<Rightarrow> status_report" where
  "build_report_from_state ops cfg path file now =
     (let engine = usable_state file in
      \<lparr>rep_daemon = map_option (daemon_of path now) engine,
       rep_peers = (case engine of None \<Rightarrow> [] | Some s \<Rightarrow> map (state_row ops cfg) (es_peers s))\<rparr>)"

section \<open>Facts\<close>

lemma unix_secs_early: "t < 0 \<Longrightarrow> unix_secs t = 0"
  by (simp add: unix_secs_def as_secs_def duration_since_def)

lemma unat_as_secs: "0 \<le> d \<Longrightarrow> d < secs (2 ^ 64) \<Longrightarrow> unat (as_secs d) = nat (d div 1000000000)"
proof -
  assume d: "0 \<le> d" "d < secs (2 ^ 64)"
  have "d div 1000000000 < 2 ^ 64" using d(2) unfolding secs_def by linarith
  then have "take_bit 64 (d div 1000000000) = d div 1000000000" using d(1) by (simp add: take_bit_int_eq_self_iff)
  then show ?thesis by (simp add: as_secs_def unsigned_of_int)
qed

text \<open>
  The report calls a handshake from the future stale, the state machine treats it as fresh.
\<close>

lemma future_handshake:
  "now < t \<Longrightarrow> handshake_state (Some t) now = ''stale'' \<and> handshake_is_fresh (Some t) now"
  by (simp add: handshake_state_def handshake_is_fresh_def duration_since_def)

lemma handshake_state_fresh:
  "t \<le> now \<Longrightarrow> handshake_state (Some t) now = ''connected'' \<longleftrightarrow> handshake_is_fresh (Some t) now"
  by (simp add: handshake_state_def handshake_is_fresh_def duration_since_def HANDSHAKE_FRESH_def)

lemma daemon_running_iff:
  "fst (daemon_freshness u n) \<longleftrightarrow> unat n \<le> unat u + 10"
proof -
  have "fst (daemon_freshness u n) \<longleftrightarrow> unat (sat_sub n u) \<le> 10"
    by (simp add: daemon_freshness_def Let_def DAEMON_FRESH_SECS_def word_le_nat_alt)
  then show ?thesis by (auto simp: unat_sat_sub)
qed

lemma endpoint_source_relay:
  "endpoint_source (Some e) s = ''relay'' \<longleftrightarrow> map_option normalize (cs_relay s) = Some (normalize e)"
proof -
  have "source_as_str x \<noteq> ''relay''" for x by (cases x) simp_all
  then show ?thesis by (auto simp: endpoint_source_def split: option.splits)
qed
end
