(* ===== verification/Daemon.thy ===== *)
theory Daemon
  imports Engine_State Route_Manager Member_Table Relay_Client Gossip_Node
begin

text \<open>
  The daemon (\<open>crates/engine/src/daemon.rs\<close>): the peers' run-time state, and the handlers its
  main loop calls for a tick, an address change, a discovered endpoint, a membership event and the
  result of a relay registration. A handler returns the new state and the effects it asks for, in
  order: calls of the WireGuard backend, packets, files, spawned tasks and messages to the rendezvous
  tasks. Their failures are only logged by the code. The clocks a handler reads are its arguments.
\<close>

definition RELAY_AFTER_ROUNDS :: u32 where "RELAY_AFTER_ROUNDS = 2"
definition RELAY_RETRY_COOLDOWN :: int where "RELAY_RETRY_COOLDOWN = secs 60"
definition UPGRADE_MAX_RETRIES :: u32 where "UPGRADE_MAX_RETRIES = 8"
definition NUDGE_PORT :: u16 where "NUDGE_PORT = 9"

record relay_link =
  rl_via_name :: string
  rl_control :: "socket_v6 list"
  rl_peer_public :: public_key
  rl_session :: "relay_session option"
  rl_pending :: bool
  rl_upgrade_pending :: bool
  rl_upgrade_retries :: u32
  rl_last_register :: "time option"
  rl_retry_after :: "time option"

record relay_registered =
  rd_peer_key :: string
  rd_session :: "relay_session option"

record peer_runtime =
  pr_name :: string
  pr_key_b64 :: string
  pr_wg_public :: key32
  pr_overlay :: ipv6
  pr_configured :: "socket_v6 list"
  pr_routes :: "ipv6_route list"
  pr_ddns :: "string option"
  pr_discovered :: "(source \<times> socket_v6) list"
  pr_relay :: "relay_link option"
  pr_on_demand :: bool
  pr_keepalive :: "u16 option"
  pr_fsm :: peer_fsm

text \<open>The paths of the context are left out: an effect names the file it writes.\<close>

record daemon_ctx =
  cx_interface :: string
  cx_node_address :: ipv6
  cx_node_public_key :: string
  cx_own_public :: public_key
  cx_listen_port :: u16
  cx_keepalive :: u16

datatype effect =
    WgSetEndpoint key32 socket_v6
  | WgRemovePeer key32
  | WgAddPeer peer_spec
  | SendNudge socket_v6
  | SaveCache endpoint_cache
  | SaveMembers members_file
  | WriteState engine_state
  | SpawnRegister "socket_v6 list" public_key public_key u16
  | SpawnUnregister socket_v6 public_key public_key u16
  | RouteCmds "route_cmd list"
  | GossipTargets "ipv6 list"
  | DhtPeers "string list"
  | DdnsPeers "(string \<times> string option) list"
  | KickGossip | KickLan | KickDht | KickDdns

section \<open>Actions of the state machine\<close>

definition kernel_endpoint_of :: "socket_addr option \<Rightarrow> socket_v6 option" where
  "kernel_endpoint_of e = (case e of Some (V6 v6) \<Rightarrow> Some (normalize v6) | _ \<Rightarrow> None)"

definition session_of :: "peer_runtime \<Rightarrow> relay_session option" where
  "session_of p = Option.bind (pr_relay p) rl_session"

fun apply_action :: "time \<Rightarrow> peer_runtime \<Rightarrow> endpoint_cache \<Rightarrow> action \<Rightarrow> endpoint_cache \<times> effect list" where
  "apply_action now p cache (SetEndpoint ep) = (cache, [WgSetEndpoint (pr_wg_public p) ep])"
| "apply_action now p cache (Rehandshake ep) =
     (cache,
      [WgRemovePeer (pr_wg_public p),
       WgAddPeer \<lparr>ps_wg_public = pr_wg_public p, ps_endpoint = Some ep,
                  ps_allowed_ips = allowed_ips_for (site_of (pr_overlay p)) (pr_routes p),
                  ps_persistent_keepalive = pr_keepalive p\<rparr>])"
| "apply_action now p cache Nudge = (cache, if pr_on_demand p then [] else [SendNudge (sock (pr_overlay p) NUDGE_PORT)])"
| "apply_action now p cache (MarkGood ep) =
     (if map_option rs_endpoint (session_of p) = Some ep then (cache, [])
      else let cache' = record_good cache (pr_key_b64 p) ep (unix_secs now) in (cache', [SaveCache cache']))"

fun apply_actions :: "time \<Rightarrow> peer_runtime \<Rightarrow> endpoint_cache \<Rightarrow> action list \<Rightarrow> endpoint_cache \<times> effect list" where
  "apply_actions now p cache [] = (cache, [])"
| "apply_actions now p cache (a # as) =
     (let (cache, fx) = apply_action now p cache a; (cache, gx) = apply_actions now p cache as in (cache, fx @ gx))"

section \<open>Candidates\<close>

definition sources_for :: "peer_runtime \<Rightarrow> endpoint_cache \<Rightarrow> candidate_sources" where
  "sources_for p cache =
     (let entry = cache_entry cache (pr_key_b64 p) in
      \<lparr>cs_last_good = Option.bind entry last_good, cs_discovered = pr_discovered p, cs_configured = pr_configured p,
       cs_cached = (case entry of None \<Rightarrow> [] | Some e \<Rightarrow> seen e), cs_relay = map_option rs_endpoint (session_of p)\<rparr>)"

definition candidates_for :: "peer_runtime \<Rightarrow> endpoint_cache \<Rightarrow> socket_v6 list" where
  "candidates_for p cache =
     (case pr_relay p of
        Some link \<Rightarrow>
          (case rl_session link of
             Some session \<Rightarrow>
               if \<not> rl_upgrade_pending link then [rs_endpoint session] else build_candidates (sources_for p cache)
           | None \<Rightarrow> build_candidates (sources_for p cache))
      | None \<Rightarrow> build_candidates (sources_for p cache))"

text \<open>\<open>peer.fsm.set_candidates(candidates_for(..))\<close>.\<close>

definition refresh_candidates :: "peer_runtime \<Rightarrow> endpoint_cache \<Rightarrow> time \<Rightarrow> peer_runtime \<times> action list" where
  "refresh_candidates p cache now =
     (let (f, as) = set_candidates (pr_fsm p) (candidates_for p cache) now in (p\<lparr>pr_fsm := f\<rparr>, as))"

definition relayed_via_endpoint :: "peer_runtime \<Rightarrow> socket_v6 option" where
  "relayed_via_endpoint p =
     (case session_of p of
        None \<Rightarrow> None
      | Some session \<Rightarrow>
          (case state (pr_fsm p) of
             Connected ep \<Rightarrow> if ep = rs_endpoint session then Some ep else None
           | Probing _ _ \<Rightarrow> None))"

section \<open>The relay escape hatch\<close>

definition spawn_register :: "daemon_ctx \<Rightarrow> relay_link \<Rightarrow> effect" where
  "spawn_register ctx link = SpawnRegister (rl_control link) (cx_own_public ctx) (rl_peer_public link) (cx_listen_port ctx)"

definition spawn_unregister :: "daemon_ctx \<Rightarrow> relay_link \<Rightarrow> relay_session \<Rightarrow> effect" where
  "spawn_unregister ctx link session =
     SpawnUnregister (rs_control session) (cx_own_public ctx) (rl_peer_public link) (cx_listen_port ctx)"

definition register_due :: "relay_link \<Rightarrow> time \<Rightarrow> bool" where
  "register_due link inst =
     (case rl_last_register link of None \<Rightarrow> True | Some t \<Rightarrow> instant_since inst t \<ge> REGISTER_INTERVAL)"

definition cooling :: "relay_link \<Rightarrow> time \<Rightarrow> bool" where
  "cooling link inst = (case rl_retry_after link of None \<Rightarrow> False | Some t \<Rightarrow> inst < t)"

definition set_link :: "peer_runtime \<Rightarrow> relay_link \<Rightarrow> peer_runtime" where
  "set_link p link = p\<lparr>pr_relay := Some link\<rparr>"

text \<open>The direct path is back: the session is released.\<close>

definition drive_direct :: "daemon_ctx \<Rightarrow> peer_runtime \<Rightarrow> relay_link \<Rightarrow> relay_session \<Rightarrow> endpoint_cache \<Rightarrow> time \<Rightarrow> peer_runtime \<times> action list \<times> effect list" where
  "drive_direct ctx p link session cache now =
     (let link' = link\<lparr>rl_session := None, rl_upgrade_pending := False, rl_upgrade_retries := 0,
                       rl_last_register := None, rl_retry_after := None\<rparr>
      in (fst (refresh_candidates (set_link p link') cache now), [], [spawn_unregister ctx link session]))"

text \<open>Settled on the relay: retry the upgrade or give it up, and renew the session when it is due.\<close>

definition drive_relayed :: "daemon_ctx \<Rightarrow> peer_runtime \<Rightarrow> relay_link \<Rightarrow> relay_session \<Rightarrow> endpoint_cache \<Rightarrow> time \<Rightarrow> time \<Rightarrow> peer_runtime \<times> action list \<times> effect list" where
  "drive_relayed ctx p link session cache inst now =
     (let retry = rl_upgrade_pending link \<and> rl_upgrade_retries link < UPGRADE_MAX_RETRIES;
          give_up = rl_upgrade_pending link \<and> \<not> retry;
          link1 = (if retry then link\<lparr>rl_upgrade_retries := rl_upgrade_retries link + 1\<rparr>
                   else if give_up then link\<lparr>rl_upgrade_pending := False, rl_upgrade_retries := 0\<rparr> else link);
          renew = register_due link1 inst \<and> \<not> rl_pending link1 \<and> \<not> cooling link1 inst;
          p1 = set_link p (if renew then link1\<lparr>rl_pending := True\<rparr> else link1);
          fx = (if renew then [spawn_register ctx link1] else [])
      in if retry then
           let p2 = fst (refresh_candidates p1 cache now);
               (f, as) = retry_from_flush (pr_fsm p2) (Some (rs_endpoint session)) now
           in (p2\<lparr>pr_fsm := f\<rparr>, as, fx)
         else if give_up then (fst (refresh_candidates p1 cache now), [], fx)
         else (p1, [], fx))"

definition drive_probing :: "daemon_ctx \<Rightarrow> peer_runtime \<Rightarrow> relay_link \<Rightarrow> u32 \<Rightarrow> time \<Rightarrow> peer_runtime \<times> action list \<times> effect list" where
  "drive_probing ctx p link r inst =
     (let register = (set_link p (link\<lparr>rl_pending := True\<rparr>), [], [spawn_register ctx link]) in
      if rl_upgrade_pending link then (p, [], [])
      else if rl_pending link then (p, [], [])
      else if cooling link inst then (p, [], [])
      else if rl_session link \<noteq> None then (if \<not> register_due link inst then (p, [], []) else register)
      else if r < RELAY_AFTER_ROUNDS then (p, [], [])
      else register)"

definition drive_relay :: "daemon_ctx \<Rightarrow> peer_runtime \<Rightarrow> endpoint_cache \<Rightarrow> time \<Rightarrow> time \<Rightarrow> peer_runtime \<times> action list \<times> effect list" where
  "drive_relay ctx p cache inst now =
     (case pr_relay p of
        None \<Rightarrow> (p, [], [])
      | Some link \<Rightarrow>
          if rl_control link = [] then (p, [], [])
          else case state (pr_fsm p) of
            Connected ep \<Rightarrow>
              (case rl_session link of
                 None \<Rightarrow> (p, [], [])
               | Some session \<Rightarrow>
                   if ep \<noteq> rs_endpoint session then drive_direct ctx p link session cache now
                   else drive_relayed ctx p link session cache inst now)
          | Probing _ r \<Rightarrow> drive_probing ctx p link r inst)"

text \<open>
  \<open>on_relay_registered\<close> for the peer it belongs to; the first component of the result is the peer.
\<close>

definition relay_ready :: "peer_runtime \<Rightarrow> relay_link \<Rightarrow> relay_session \<Rightarrow> endpoint_cache \<Rightarrow> time \<Rightarrow> peer_runtime \<times> endpoint_cache \<times> effect list" where
  "relay_ready p link session cache now =
     (let previous = rl_session link;
          (p1, as1) = refresh_candidates (set_link p (link\<lparr>rl_session := Some session\<rparr>)) cache now;
          (cache1, fx1) = apply_actions now p1 cache as1
      in case (previous, state (pr_fsm p1)) of
           (Some prev, Connected ep) \<Rightarrow>
             if ep = rs_endpoint prev then
               let (f, as2) = retry_from (pr_fsm p1) (Some (rs_endpoint prev)) now;
                   p2 = p1\<lparr>pr_fsm := f\<rparr>;
                   (cache2, fx2) = apply_actions now p2 cache1 as2
               in (p2, cache2, fx1 @ fx2)
             else (p1, cache1, fx1)
         | _ \<Rightarrow> (p1, cache1, fx1))"

definition relay_registered_peer :: "peer_runtime \<Rightarrow> relay_session option \<Rightarrow> endpoint_cache \<Rightarrow> time \<Rightarrow> time \<Rightarrow> peer_runtime \<times> endpoint_cache \<times> effect list" where
  "relay_registered_peer p result cache inst now =
     (case pr_relay p of
        None \<Rightarrow> (p, cache, [])
      | Some link0 \<Rightarrow>
          let link = link0\<lparr>rl_pending := False\<rparr> in
          case result of
            None \<Rightarrow> (set_link p (link\<lparr>rl_retry_after := Some (inst + RELAY_RETRY_COOLDOWN)\<rparr>), cache, [])
          | Some session \<Rightarrow>
              let link1 = link\<lparr>rl_last_register := Some inst, rl_retry_after := None\<rparr> in
              if rl_session link1 = Some session then (set_link p link1, cache, [])
              else relay_ready p link1 session cache now)"

section \<open>Discovered endpoints\<close>

definition still_reported_by_authoritative_source :: "(source \<times> socket_v6) list \<Rightarrow> socket_v6 \<Rightarrow> bool" where
  "still_reported_by_authoritative_source ds ep = list_ex (\<lambda>(s, e). s \<noteq> Gossip \<and> normalize e = ep) ds"

definition reported_by_reliable_source :: "(source \<times> socket_v6) list \<Rightarrow> socket_v6 \<Rightarrow> bool" where
  "reported_by_reliable_source ds ep =
     (if list_ex (\<lambda>(s, _). s \<noteq> Gossip) ds then still_reported_by_authoritative_source ds ep
      else list_ex (\<lambda>(_, e). normalize e = ep) ds)"

text \<open>The new set of a source replaces its old one; the list stays in the order of the sources.\<close>

definition replace_discovered :: "(source \<times> socket_v6) list \<Rightarrow> source \<Rightarrow> socket_v6 list \<Rightarrow> (source \<times> socket_v6) list" where
  "replace_discovered ds s eps = sort_key (\<lambda>d. priority (fst d)) (filter (\<lambda>(s', _). s' \<noteq> s) ds @ map (Pair s) eps)"

definition is_configured :: "peer_runtime \<Rightarrow> socket_v6 \<Rightarrow> bool" where
  "is_configured p ep = list_ex (\<lambda>c. normalize c = ep) (pr_configured p)"

text \<open>New evidence while on the relay: open the direct candidates and leave the relay's endpoint.\<close>

definition upgrade_from_relay :: "peer_runtime \<Rightarrow> relay_link \<Rightarrow> socket_v6 \<Rightarrow> endpoint_cache \<Rightarrow> time \<Rightarrow> peer_runtime \<times> endpoint_cache \<times> effect list" where
  "upgrade_from_relay p link relay_ep cache now =
     (let (p1, as1) = refresh_candidates (set_link p (link\<lparr>rl_upgrade_pending := True, rl_upgrade_retries := 0\<rparr>)) cache now;
          (f, as2) = retry_from_flush (pr_fsm p1) (Some relay_ep) now;
          p2 = p1\<lparr>pr_fsm := f\<rparr>;
          (cache, fx) = apply_actions now p2 cache (as1 @ as2)
      in (p2, cache, fx))"

text \<open>Evicting the connected endpoint when no reliable source reports it any more; the cache is then saved.\<close>

definition prune_endpoint :: "peer_runtime \<Rightarrow> socket_v6 \<Rightarrow> endpoint_cache \<Rightarrow> endpoint_cache \<times> effect list" where
  "prune_endpoint p ep cache =
     (if \<not> is_configured p ep \<and> \<not> reported_by_reliable_source (pr_discovered p) ep
      then let cache = evict cache (pr_key_b64 p) ep in (cache, [SaveCache cache])
      else (cache, []))"

definition leave_endpoint :: "peer_runtime \<Rightarrow> socket_v6 \<Rightarrow> endpoint_cache \<Rightarrow> time \<Rightarrow> peer_runtime \<times> endpoint_cache \<times> effect list" where
  "leave_endpoint p ep cache now =
     (let (p1, as1) = refresh_candidates p cache now;
          (f, as2) = retry_from (pr_fsm p1) (Some ep) now;
          p2 = p1\<lparr>pr_fsm := f\<rparr>;
          (cache, fx) = apply_actions now p2 cache (as1 @ as2)
      in (p2, cache, fx))"

definition adopt_discovered :: "peer_runtime \<Rightarrow> endpoint_cache \<Rightarrow> time \<Rightarrow> peer_runtime \<times> endpoint_cache \<times> effect list" where
  "adopt_discovered p cache now =
     (let (p1, as) = refresh_candidates p cache now; (cache, fx) = apply_actions now p1 cache as in (p1, cache, fx))"

definition discovered_peer :: "peer_runtime \<Rightarrow> source \<Rightarrow> socket_v6 list \<Rightarrow> endpoint_cache \<Rightarrow> time \<Rightarrow> peer_runtime \<times> endpoint_cache \<times> effect list" where
  "discovered_peer p0 src eps cache now =
     (let p = p0\<lparr>pr_discovered := replace_discovered (pr_discovered p0) src eps\<rparr> in
      case (relayed_via_endpoint p, pr_relay p) of
        (Some relay_ep, Some link) \<Rightarrow> upgrade_from_relay p link relay_ep cache now
      | _ \<Rightarrow>
          (case state (pr_fsm p) of
             Connected ep \<Rightarrow>
               let (cache, fx) = prune_endpoint p ep cache in
               if \<not> is_configured p ep \<and> \<not> still_reported_by_authoritative_source (pr_discovered p) ep
               then let (p, cache, gx) = leave_endpoint p ep cache now in (p, cache, fx @ gx)
               else let (p, cache, gx) = adopt_discovered p cache now in (p, cache, fx @ gx)
           | Probing _ _ \<Rightarrow> adopt_discovered p cache now))"

section \<open>Routes and the state of a peer\<close>

definition sync_peer_routes :: "'e route_backend \<Rightarrow> route_manager \<Rightarrow> peer_runtime \<Rightarrow> route_cmd list \<times> route_manager" where
  "sync_peer_routes rb rm p =
     (let desired = (case state (pr_fsm p) of Connected _ \<Rightarrow> pr_routes p | Probing _ _ \<Rightarrow> []);
          (cmds, rm, _) = sync rb rm (pr_key_b64 p) desired
      in (cmds, rm))"

definition peer_state_of :: "peer_runtime \<Rightarrow> endpoint_cache \<Rightarrow> route_manager \<Rightarrow> peer_status option \<Rightarrow> time \<Rightarrow> peer_state" where
  "peer_state_of p cache rm observed now =
     (let (ps, index, r) =
            (case state (pr_fsm p) of
               Connected ep \<Rightarrow>
                 (if map_option rs_endpoint (session_of p) = Some ep then ''relayed'' else ''connected'', 0, 0)
             | Probing i r \<Rightarrow> (''probing'', i, r));
          ep = current_candidate (pr_fsm p)
      in \<lparr>st_name = pr_name p, st_public_key = pr_key_b64 p, st_address = pr_overlay p, st_punch_state = ps,
          st_endpoint = ep, st_endpoint_source = endpoint_source ep (sources_for p cache),
          st_lan_endpoints = length (filter (\<lambda>(s, _). s = Lan) (pr_discovered p)),
          st_gossip_endpoints = length (filter (\<lambda>(s, _). s = Gossip) (pr_discovered p)),
          st_ddns_endpoints = length (filter (\<lambda>(s, _). s = Ddns) (pr_discovered p)),
          st_relay_via = (if ps = ''relayed'' then map_option rl_via_name (pr_relay p) else None),
          st_routes = routes_of rm (pr_key_b64 p),
          st_last_handshake_secs = handshake_age (Option.bind observed wgs_last_handshake) now,
          st_rx_bytes = (case observed of None \<Rightarrow> 0 | Some s \<Rightarrow> wgs_rx_bytes s),
          st_tx_bytes = (case observed of None \<Rightarrow> 0 | Some s \<Rightarrow> wgs_tx_bytes s),
          st_candidates = length (candidates (pr_fsm p)), st_candidate_index = index, st_rounds = r\<rparr>)"

section \<open>The tick\<close>

record daemon =
  dm_cache :: endpoint_cache
  dm_members :: members_file
  dm_peers :: "peer_runtime list"
  dm_routes :: route_manager

definition observe :: "peer_status option \<Rightarrow> observation" where
  "observe s =
     \<lparr>last_handshake = Option.bind s wgs_last_handshake,
      kernel_endpoint = Option.bind s (\<lambda>s. kernel_endpoint_of (wgs_endpoint s))\<rparr>"

text \<open>One peer's share of the tick: its state machine, the relay, the routes, its entry of the state file.\<close>

definition tick_peer ::
  "daemon_ctx \<Rightarrow> 'e route_backend \<Rightarrow> time \<Rightarrow> time \<Rightarrow> peer_status option \<Rightarrow> endpoint_cache \<times> route_manager \<Rightarrow> peer_runtime \<Rightarrow>
     peer_runtime \<times> (endpoint_cache \<times> route_manager) \<times> effect list \<times> peer_state \<times> bool" where
  "tick_peer ctx rb now inst observed cr p0 =
     (let (f, as) = tick (pr_fsm p0) now (observe observed);
          p1 = p0\<lparr>pr_fsm := f\<rparr>;
          connected = list_ex (\<lambda>a. case a of MarkGood _ \<Rightarrow> True | _ \<Rightarrow> False) as;
          (cache1, fx1) = apply_actions now p1 (fst cr) as;
          (p2, as2, fx2) = drive_relay ctx p1 cache1 inst now;
          (cache2, fx3) = apply_actions now p2 cache1 as2;
          (cmds, rm) = sync_peer_routes rb (snd cr) p2
      in (p2, (cache2, rm), fx1 @ fx2 @ fx3 @ [RouteCmds cmds], peer_state_of p2 cache2 rm observed now, connected))"

fun tick_peers ::
  "daemon_ctx \<Rightarrow> 'e route_backend \<Rightarrow> time \<Rightarrow> time \<Rightarrow> (key32 \<Rightarrow> peer_status option) \<Rightarrow> endpoint_cache \<times> route_manager \<Rightarrow>
     peer_runtime list \<Rightarrow> peer_runtime list \<times> (endpoint_cache \<times> route_manager) \<times> effect list \<times> peer_state list \<times> bool" where
  "tick_peers ctx rb now inst by_key cr [] = ([], cr, [], [], False)"
| "tick_peers ctx rb now inst by_key cr (p # ps) =
     (let (p', cr, fx, st, c) = tick_peer ctx rb now inst (by_key (pr_wg_public p)) cr p;
          (ps', cr, gx, sts, d) = tick_peers ctx rb now inst by_key cr ps
      in (p' # ps', cr, fx @ gx, st # sts, c \<or> d))"

text \<open>The kernel's peers by key: of two with the same key the later one counts.\<close>

definition status_map :: "peer_status list \<Rightarrow> key32 \<Rightarrow> peer_status option" where
  "status_map ss = map_of (rev (map (\<lambda>s. (wgs_public s, s)) ss))"

definition tick_once ::
  "daemon_ctx \<Rightarrow> 'e route_backend \<Rightarrow> ('x, peer_status list) result \<Rightarrow> time \<Rightarrow> time \<Rightarrow> daemon \<Rightarrow> daemon \<times> effect list \<times> bool" where
  "tick_once ctx rb statuses now inst d =
     (case statuses of
        Inl _ \<Rightarrow> (d, [], False)
      | Inr ss \<Rightarrow>
          (case tick_peers ctx rb now inst (status_map ss) (dm_cache d, dm_routes d) (dm_peers d) of
             (ps, (cache, rm), fx, sts, connected) \<Rightarrow>
               (d\<lparr>dm_cache := cache, dm_peers := ps, dm_routes := rm\<rparr>,
                fx @ [WriteState \<lparr>es_version = STATE_VERSION, es_updated_unix = unix_secs now,
                        es_interface = cx_interface ctx, es_node_address = cx_node_address ctx,
                        es_node_public_key = cx_node_public_key ctx, es_peers = sts\<rparr>],
                connected)))"

section \<open>The handlers of the main loop\<close>

text \<open>The first peer with a key (keys are unique in the table), and its replacement.\<close>

definition find_peer :: "peer_runtime list \<Rightarrow> string \<Rightarrow> nat option" where
  "find_peer ps key = position (\<lambda>p. pr_key_b64 p = key) ps"

definition on_relay_registered :: "relay_registered \<Rightarrow> time \<Rightarrow> time \<Rightarrow> daemon \<Rightarrow> daemon \<times> effect list" where
  "on_relay_registered msg inst now d =
     (case find_peer (dm_peers d) (rd_peer_key msg) of
        None \<Rightarrow> (d, [])
      | Some i \<Rightarrow>
          (case relay_registered_peer (dm_peers d ! i) (rd_session msg) (dm_cache d) inst now of
             (p, cache, fx) \<Rightarrow> (d\<lparr>dm_peers := (dm_peers d)[i := p], dm_cache := cache\<rparr>, fx)))"

definition on_discovered :: "discovered_endpoints \<Rightarrow> time \<Rightarrow> daemon \<Rightarrow> daemon \<times> effect list" where
  "on_discovered upd now d =
     (case find_peer (dm_peers d) (peer_key upd) of
        None \<Rightarrow> (d, [])
      | Some i \<Rightarrow>
          (case discovered_peer (dm_peers d ! i) (de_source upd) (endpoints upd) (dm_cache d) now of
             (p, cache, fx) \<Rightarrow> (d\<lparr>dm_peers := (dm_peers d)[i := p], dm_cache := cache\<rparr>, fx)))"

definition rendezvous_updates :: "peer_runtime list \<Rightarrow> effect list" where
  "rendezvous_updates ps =
     [GossipTargets (map pr_overlay ps), DhtPeers (map pr_key_b64 ps), DdnsPeers (map (\<lambda>p. (pr_key_b64 p, pr_ddns p)) ps)]"

definition empty_sources :: candidate_sources where
  "empty_sources = \<lparr>cs_last_good = None, cs_discovered = [], cs_configured = [], cs_cached = [], cs_relay = None\<rparr>"

text \<open>A run-time peer that is not in the configuration.\<close>

definition member_peer :: "string \<Rightarrow> string \<Rightarrow> key32 \<Rightarrow> ipv6 \<Rightarrow> u16 \<Rightarrow> socket_v6 list \<Rightarrow> time \<Rightarrow> peer_runtime" where
  "member_peer name key wg a ka cs now =
     \<lparr>pr_name = name, pr_key_b64 = key, pr_wg_public = wg, pr_overlay = a, pr_configured = [], pr_routes = [],
      pr_ddns = None, pr_discovered = [], pr_relay = None, pr_on_demand = (keepalive_opt ka = None),
      pr_keepalive = keepalive_opt ka, pr_fsm = fsm_new cs now\<rparr>"

definition on_member_admitted :: "daemon_ctx \<Rightarrow> show_ops \<Rightarrow> public_key \<Rightarrow> string \<Rightarrow> ipv6 \<Rightarrow> time \<Rightarrow> daemon \<Rightarrow> daemon \<times> effect list" where
  "on_member_admitted ctx ops node name a now d =
     (let key = to_base64 ops node; wg = wg_public_bytes ops node in
      if find_peer (dm_peers d) key \<noteq> None then (d, [])
      else let ps = dm_peers d @ [member_peer name key wg a (cx_keepalive ctx) (build_candidates empty_sources) now];
               mf = fst (members_upsert (dm_members d) \<lparr>m_name = name, m_public_key = key, m_address = a\<rparr>)
           in (d\<lparr>dm_peers := ps, dm_members := mf\<rparr>,
               WgAddPeer \<lparr>ps_wg_public = wg, ps_endpoint = None, ps_allowed_ips = [(site_of a, 64)],
                          ps_persistent_keepalive = keepalive_opt (cx_keepalive ctx)\<rparr> #
               SaveMembers mf # rendezvous_updates ps))"

definition vec_remove :: "nat \<Rightarrow> 'a list \<Rightarrow> 'a list" where
  "vec_remove i xs = take i xs @ drop (i + 1) xs"

definition on_revoked :: "show_ops \<Rightarrow> public_key \<Rightarrow> daemon \<Rightarrow> daemon \<times> effect list" where
  "on_revoked ops node d =
     (let key = to_base64 ops node;
          ps = (case find_peer (dm_peers d) key of None \<Rightarrow> dm_peers d | Some i \<Rightarrow> vec_remove i (dm_peers d));
          (mf, found) = members_remove (dm_members d) key
      in (d\<lparr>dm_peers := ps, dm_members := mf\<rparr>,
          WgRemovePeer (wg_public_bytes ops node) # (if found then [SaveMembers mf] else []) @ rendezvous_updates ps))"

fun kick_peers :: "time \<Rightarrow> endpoint_cache \<Rightarrow> peer_runtime list \<Rightarrow> peer_runtime list \<times> endpoint_cache \<times> effect list" where
  "kick_peers now cache [] = ([], cache, [])"
| "kick_peers now cache (p # ps) =
     (let (f, as) = kick (pr_fsm p) now;
          p = p\<lparr>pr_fsm := f\<rparr>;
          (cache, fx) = apply_actions now p cache as;
          (ps, cache, gx) = kick_peers now cache ps
      in (p # ps, cache, fx @ gx))"

text \<open>The events of the main loop's \<open>select!\<close>; a tick carries what the kernel reported.\<close>

datatype 'x daemon_event =
    TickEvent "('x, peer_status list) result" time time
  | AddrChanged time
  | Rendezvous discovered_endpoints time
  | GossipNews gossip_event time
  | RelayDone relay_registered time time

fun daemon_step :: "daemon_ctx \<Rightarrow> show_ops \<Rightarrow> 'e route_backend \<Rightarrow> daemon \<Rightarrow> 'x daemon_event \<Rightarrow> daemon \<times> effect list" where
  "daemon_step ctx ops rb d (TickEvent statuses now inst) =
     (let (d, fx, connected) = tick_once ctx rb statuses now inst d in (d, fx @ (if connected then [KickGossip] else [])))"
| "daemon_step ctx ops rb d (AddrChanged now) =
     (let (ps, cache, fx) = kick_peers now (dm_cache d) (dm_peers d)
      in (d\<lparr>dm_peers := ps, dm_cache := cache\<rparr>, fx @ [KickLan, KickGossip, KickDht, KickDdns]))"
| "daemon_step ctx ops rb d (Rendezvous upd now) = on_discovered upd now d"
| "daemon_step ctx ops rb d (GossipNews (Discovered upd) now) = on_discovered upd now d"
| "daemon_step ctx ops rb d (GossipNews (MemberAdmitted node name a) now) = on_member_admitted ctx ops node name a now d"
| "daemon_step ctx ops rb d (GossipNews (Revoked node) now) = on_revoked ops node d"
| "daemon_step ctx ops rb d (RelayDone msg inst now) = on_relay_registered msg inst now d"

section \<open>Start-up\<close>

definition relay_link_for :: "config_peer list \<Rightarrow> config_peer \<Rightarrow> relay_link option" where
  "relay_link_for relays p =
     map_option (\<lambda>r. \<lparr>rl_via_name = cp_name r, rl_control = relay_control_endpoints r, rl_peer_public = cp_public_key p,
                      rl_session = None, rl_pending = False, rl_upgrade_pending = False, rl_upgrade_retries = 0,
                      rl_last_register = None, rl_retry_after = None\<rparr>)
       (find (\<lambda>r. cp_public_key r \<noteq> cp_public_key p) relays)"

definition cached_sources :: "endpoint_cache \<Rightarrow> string \<Rightarrow> socket_v6 list \<Rightarrow> candidate_sources" where
  "cached_sources cache key configured =
     (let entry = cache_entry cache key in
      \<lparr>cs_last_good = Option.bind entry last_good, cs_discovered = [], cs_configured = configured,
       cs_cached = (case entry of None \<Rightarrow> [] | Some e \<Rightarrow> seen e), cs_relay = None\<rparr>)"

definition config_runtime :: "show_ops \<Rightarrow> config \<Rightarrow> endpoint_cache \<Rightarrow> time \<Rightarrow> config_peer \<Rightarrow> peer_runtime" where
  "config_runtime ops cfg cache start p =
     (let key = to_base64 ops (cp_public_key p); ka = peer_keepalive_secs p (ns_keepalive (cf_node cfg)) in
      \<lparr>pr_name = cp_name p, pr_key_b64 = key, pr_wg_public = wg_public_bytes ops (cp_public_key p),
       pr_overlay = address (cp_addr p), pr_configured = cp_endpoints p, pr_routes = cp_routes p, pr_ddns = cp_ddns p,
       pr_discovered = [], pr_relay = relay_link_for (filter cp_relay (cf_peers cfg)) p, pr_on_demand = (ka = None),
       pr_keepalive = ka, pr_fsm = fsm_new (build_candidates (cached_sources cache key (cp_endpoints p))) start\<rparr>)"

text \<open>
  A persisted member becomes a run-time peer unless it is configured or its key does not parse; it is not
  added to the WireGuard device.
\<close>

definition member_runtime :: "text_ops \<Rightarrow> (key32 \<Rightarrow> bool) \<Rightarrow> show_ops \<Rightarrow> config \<Rightarrow> endpoint_cache \<Rightarrow> time \<Rightarrow> string list \<Rightarrow> member_record \<Rightarrow> peer_runtime option" where
  "member_runtime tops valid_point ops cfg cache start known m =
     (if m_public_key m \<in> set known then None
      else case pk_from_base64 tops valid_point (m_public_key m) of
        Inl _ \<Rightarrow> None
      | Inr node \<Rightarrow>
          Some (member_peer (m_name m) (m_public_key m) (wg_public_bytes ops node) (m_address m) (ns_keepalive (cf_node cfg))
                  (build_candidates (cached_sources cache (m_public_key m) [])) start))"

definition startup_peers :: "text_ops \<Rightarrow> (key32 \<Rightarrow> bool) \<Rightarrow> show_ops \<Rightarrow> config \<Rightarrow> endpoint_cache \<Rightarrow> members_file \<Rightarrow> time \<Rightarrow> peer_runtime list" where
  "startup_peers tops valid_point ops cfg cache mf start =
     (let ps = map (config_runtime ops cfg cache start) (cf_peers cfg)
      in ps @ List.map_filter (member_runtime tops valid_point ops cfg cache start (map pr_key_b64 ps)) (members mf))"

definition daemon_start :: "text_ops \<Rightarrow> (key32 \<Rightarrow> bool) \<Rightarrow> show_ops \<Rightarrow> config \<Rightarrow> (io_error, endpoint_cache) result \<Rightarrow> (io_error, members_file) result \<Rightarrow> time \<Rightarrow> time \<Rightarrow> daemon \<times> effect list" where
  "daemon_start tops valid_point ops cfg cache_file members_file start now =
     (let cache = cache_load cache_file;
          mf = members_load members_file;
          (ps, cache, fx) = kick_peers now cache (startup_peers tops valid_point ops cfg cache mf start)
      in (\<lparr>dm_cache = cache, dm_members = mf, dm_peers = ps, dm_routes = []\<rparr>, fx))"

end
