(* ===== verification/Daemon_Safety.thy ===== *)
theory Daemon_Safety
  imports Daemon
begin

text \<open>
  What the daemon keeps through every event (its invariant and the identity of its peers), and the
  properties of its handlers: when the relay is engaged and released, what reaches the endpoint cache,
  which routes are installed, what a revocation removes, and when a dead address is left.
\<close>

section \<open>Peers keep their identity\<close>

definition identity :: "peer_runtime \<Rightarrow> (string \<times> string \<times> key32 \<times> ipv6) \<times> (socket_v6 list \<times> ipv6_route list \<times> string option) \<times> bool \<times> u16 option" where
  "identity p = ((pr_name p, pr_key_b64 p, pr_wg_public p, pr_overlay p), (pr_configured p, pr_routes p, pr_ddns p), pr_on_demand p, pr_keepalive p)"

lemma identity_simps [simp]:
  "identity (p\<lparr>pr_fsm := f\<rparr>) = identity p" "identity (p\<lparr>pr_relay := l\<rparr>) = identity p"
  "identity (p\<lparr>pr_discovered := ds\<rparr>) = identity p" "identity (set_link p link) = identity p"
  by (simp_all add: identity_def set_link_def)

lemma identity_key: "identity p = identity q \<Longrightarrow> pr_key_b64 p = pr_key_b64 q"
  by (simp add: identity_def)

definition link_ok :: "relay_link \<Rightarrow> bool" where
  "link_ok link \<longleftrightarrow> rl_upgrade_retries link \<le> UPGRADE_MAX_RETRIES \<and> (rl_upgrade_pending link \<longrightarrow> rl_session link \<noteq> None)"

definition runtime_ok :: "peer_runtime \<Rightarrow> bool" where
  "runtime_ok p \<longleftrightarrow> fsm_ok (pr_fsm p) \<and> (\<forall>link. pr_relay p = Some link \<longrightarrow> link_ok link)"

definition daemon_ok :: "daemon \<Rightarrow> bool" where
  "daemon_ok d \<longleftrightarrow>
     cache_ok (dm_cache d) \<and> members_ok (dm_members d) \<and> hm_ok (dm_routes d) \<and>
     distinct (map pr_key_b64 (dm_peers d)) \<and> (\<forall>p\<in>set (dm_peers d). runtime_ok p)"

text \<open>A step of one peer that keeps what must be kept.\<close>

definition keeps :: "peer_runtime \<Rightarrow> peer_runtime \<Rightarrow> bool" where
  "keeps p p' \<longleftrightarrow> identity p' = identity p \<and> (runtime_ok p \<longrightarrow> runtime_ok p')"

lemma keeps_refl [simp]: "keeps p p"
  by (simp add: keeps_def)

lemma keeps_trans: "keeps p q \<Longrightarrow> keeps q r \<Longrightarrow> keeps p r"
  by (simp add: keeps_def)

lemma keeps_fsm: "(fsm_ok (pr_fsm p) \<Longrightarrow> fsm_ok f) \<Longrightarrow> keeps p (p\<lparr>pr_fsm := f\<rparr>)"
  by (simp add: keeps_def runtime_ok_def)

lemma keeps_link:
  "pr_relay p = Some link \<Longrightarrow> (link_ok link \<Longrightarrow> link_ok link') \<Longrightarrow> keeps p (set_link p link')"
  by (simp add: keeps_def runtime_ok_def set_link_def identity_def)

lemma keeps_discovered: "keeps p (p\<lparr>pr_discovered := ds\<rparr>)"
  by (simp add: keeps_def runtime_ok_def)

lemma refresh_keeps: "keeps p (fst (refresh_candidates p cache now))"
  using fsm_ok_set_candidates [of "pr_fsm p" "candidates_for p cache" now]
  by (auto simp: refresh_candidates_def Let_def keeps_fsm split: prod.splits)

lemma refresh_fields [simp]:
  "pr_relay (fst (refresh_candidates p cache now)) = pr_relay p"
  "pr_discovered (fst (refresh_candidates p cache now)) = pr_discovered p"
  "pr_fsm (fst (refresh_candidates p cache now)) = fst (set_candidates (pr_fsm p) (candidates_for p cache) now)"
  "snd (refresh_candidates p cache now) = snd (set_candidates (pr_fsm p) (candidates_for p cache) now)"
  by (simp_all add: refresh_candidates_def Let_def split: prod.splits)

lemma retry_keeps: "keeps p (p\<lparr>pr_fsm := fst (retry_from_impl (pr_fsm p) avoid now flush)\<rparr>)"
  by (rule keeps_fsm) (rule fsm_ok_retry)

lemma less_eight_Suc: "(r :: u32) < UPGRADE_MAX_RETRIES \<Longrightarrow> r + 1 \<le> UPGRADE_MAX_RETRIES"
  by (metis inc_le)

lemma drive_relayed_keeps:
  assumes "pr_relay p = Some link" and "rl_session link = Some session"
  shows "keeps p (fst (drive_relayed ctx p link session cache inst now))"
proof -
  define retry where "retry = (rl_upgrade_pending link \<and> rl_upgrade_retries link < UPGRADE_MAX_RETRIES)"
  define link1 where "link1 = (if retry then link\<lparr>rl_upgrade_retries := rl_upgrade_retries link + 1\<rparr>
      else if rl_upgrade_pending link then link\<lparr>rl_upgrade_pending := False, rl_upgrade_retries := 0\<rparr> else link)"
  define p1 where "p1 = set_link p (if register_due link1 inst \<and> \<not> rl_pending link1 \<and> \<not> cooling link1 inst then link1\<lparr>rl_pending := True\<rparr> else link1)"
  have k1: "keeps p p1" unfolding p1_def link1_def retry_def
    by (rule keeps_link [OF assms(1)]) (auto simp: link_ok_def assms(2) less_eight_Suc)
  let ?p2 = "fst (refresh_candidates p1 cache now)"
  have k2: "keeps p ?p2" by (rule keeps_trans [OF k1 refresh_keeps])
  have "fst (drive_relayed ctx p link session cache inst now) =
      (if retry then ?p2\<lparr>pr_fsm := fst (retry_from_flush (pr_fsm ?p2) (Some (rs_endpoint session)) now)\<rparr>
       else if rl_upgrade_pending link then ?p2 else p1)"
    by (simp add: drive_relayed_def Let_def p1_def link1_def retry_def split: prod.splits)
  then show ?thesis using k1 k2 keeps_trans [OF k2 retry_keeps] by (simp add: retry_from_flush_def)
qed

lemma drive_relay_keeps: "keeps p (fst (drive_relay ctx p cache inst now))"
proof (cases "pr_relay p")
  case (Some link)
  have a: "keeps p (fst (drive_direct ctx p link session cache now))" for session
    by (auto simp: drive_direct_def Let_def link_ok_def UPGRADE_MAX_RETRIES_def intro!: keeps_trans [OF keeps_link [OF Some] refresh_keeps])
  have b: "keeps p (fst (drive_probing ctx p link r inst))" for r
    using keeps_link [OF Some, of "link\<lparr>rl_pending := True\<rparr>"] by (simp add: drive_probing_def Let_def link_ok_def)
  show ?thesis
    using a b drive_relayed_keeps [OF Some] by (auto simp: drive_relay_def Some split: punch_state.splits option.splits)
qed (simp add: drive_relay_def)

section \<open>Actions and the cache\<close>

lemma apply_actions_append:
  "apply_actions now p cache (as @ bs) =
     (let (cache, fx) = apply_actions now p cache as; (cache, gx) = apply_actions now p cache bs in (cache, fx @ gx))"
  by (induction as arbitrary: cache) (auto simp: Let_def split: prod.splits)

lemma apply_action_cache: "fst (apply_action now p cache a) = cache \<or> (\<exists>ep. a = MarkGood ep \<and> map_option rs_endpoint (session_of p) \<noteq> Some ep \<and>
    fst (apply_action now p cache a) = record_good cache (pr_key_b64 p) ep (unix_secs now))"
  by (cases a) (auto simp: Let_def)

lemma cache_ok_apply: "cache_ok cache \<Longrightarrow> cache_ok (fst (apply_actions now p cache as))"
proof (induction as arbitrary: cache)
  case (Cons a as)
  then have "cache_ok (fst (apply_action now p cache a))"
    using apply_action_cache [of now p cache a] cache_ok_record_good by metis
  then show ?case using Cons.IH by (simp add: Let_def split: prod.splits) (metis fst_conv)
qed simp

section \<open>Every handler keeps the invariant\<close>

text \<open>What a handler of one peer must give: the peer kept, and a well-formed cache.\<close>

definition step_keeps :: "peer_runtime \<Rightarrow> endpoint_cache \<Rightarrow> peer_runtime \<times> endpoint_cache \<times> effect list \<Rightarrow> bool" where
  "step_keeps p cache r \<longleftrightarrow> keeps p (fst r) \<and> (cache_ok cache \<longrightarrow> cache_ok (fst (snd r)))"

lemma step_keeps_effects [simp]: "step_keeps p cache (fst r, fst (snd r), fx) \<longleftrightarrow> step_keeps p cache r"
  by (simp add: step_keeps_def)

lemma adopt_keeps: "step_keeps p cache (adopt_discovered p cache now)"
  using refresh_keeps by (simp add: step_keeps_def adopt_discovered_def Let_def case_prod_unfold cache_ok_apply)

lemma leave_keeps: "step_keeps p cache (leave_endpoint p ep cache now)"
proof -
  have "keeps p (fst (leave_endpoint p ep cache now))"
    using keeps_trans [OF refresh_keeps retry_keeps] by (simp add: leave_endpoint_def retry_from_def Let_def case_prod_unfold)
  then show ?thesis by (simp add: step_keeps_def leave_endpoint_def Let_def case_prod_unfold cache_ok_apply)
qed

lemma prune_cache_ok: "cache_ok cache \<Longrightarrow> cache_ok (fst (prune_endpoint p ep cache))"
  by (simp add: prune_endpoint_def Let_def cache_ok_evict)

lemma upgrade_keeps:
  assumes "pr_relay p = Some link" and "rl_session link = Some session"
  shows "step_keeps p cache (upgrade_from_relay p link relay_ep cache now)"
proof -
  have "keeps p (set_link p (link\<lparr>rl_upgrade_pending := True, rl_upgrade_retries := 0\<rparr>))"
    using assms by (auto intro!: keeps_link simp: link_ok_def)
  from keeps_trans [OF keeps_trans [OF this refresh_keeps] retry_keeps]
  show ?thesis by (simp add: step_keeps_def upgrade_from_relay_def retry_from_flush_def Let_def case_prod_unfold cache_ok_apply)
qed

lemma relayed_via_Some:
  "relayed_via_endpoint p = Some ep \<longleftrightarrow>
     (\<exists>link session. pr_relay p = Some link \<and> rl_session link = Some session \<and> ep = rs_endpoint session \<and> state (pr_fsm p) = Connected ep)"
  by (auto simp: relayed_via_endpoint_def session_of_def bind_eq_Some_conv split: option.splits punch_state.splits)

lemma discovered_keeps: "step_keeps p cache (discovered_peer p src eps cache now)"
proof -
  define q where "q = p\<lparr>pr_discovered := replace_discovered (pr_discovered p) src eps\<rparr>"
  have k: "keeps p q" by (simp add: q_def keeps_discovered)
  have up: "step_keeps q cache (upgrade_from_relay q link ep cache now)"
    if "relayed_via_endpoint q = Some ep" "pr_relay q = Some link" for ep link
    using that by (auto simp: relayed_via_Some intro: upgrade_keeps)
  have pr: "step_keeps q c r \<Longrightarrow> (cache_ok cache \<Longrightarrow> cache_ok c) \<Longrightarrow> step_keeps q cache r" for c r
    by (simp add: step_keeps_def)
  have "step_keeps q cache (discovered_peer p src eps cache now)"
    unfolding discovered_peer_def q_def [symmetric] Let_def
    by (auto simp: case_prod_unfold split: option.splits punch_state.splits
        intro: up adopt_keeps pr [OF adopt_keeps] pr [OF leave_keeps] prune_cache_ok)
  then show ?thesis using keeps_trans [OF k] by (simp add: step_keeps_def)
qed

lemma relay_ready_keeps:
  assumes "pr_relay p = Some link0" and "link_ok link0 \<Longrightarrow> link_ok (link\<lparr>rl_session := Some session\<rparr>)"
  shows "step_keeps p cache (relay_ready p link session cache now)"
proof -
  let ?p1 = "fst (refresh_candidates (set_link p (link\<lparr>rl_session := Some session\<rparr>)) cache now)"
  have k: "keeps p ?p1" using assms by (intro keeps_trans [OF keeps_link refresh_keeps])
  show ?thesis using k keeps_trans [OF k retry_keeps]
    by (auto simp: step_keeps_def relay_ready_def retry_from_def Let_def case_prod_unfold cache_ok_apply
        split: option.splits punch_state.splits)
qed

lemma relay_registered_keeps: "step_keeps p cache (relay_registered_peer p result cache inst now)"
proof (cases "pr_relay p")
  case (Some link)
  have "keeps p (set_link p (link\<lparr>rl_pending := False, rl_retry_after := x\<rparr>))"
    "keeps p (set_link p (link\<lparr>rl_pending := False, rl_last_register := y, rl_retry_after := x\<rparr>))" for x y
    by (auto intro!: keeps_link [OF Some] simp: link_ok_def)
  then show ?thesis using relay_ready_keeps [OF Some]
    by (auto simp: relay_registered_peer_def Some Let_def step_keeps_def link_ok_def split: option.splits)
qed (simp add: relay_registered_peer_def step_keeps_def)

lemma sync_routes_hm_ok: "hm_ok rm \<Longrightarrow> hm_ok (snd (sync_peer_routes rb rm p))"
  by (auto simp: sync_peer_routes_def Let_def dest: sync_hm_ok split: prod.splits)

lemma tick_fsm_keeps: "keeps p (p\<lparr>pr_fsm := fst (tick (pr_fsm p) now obs)\<rparr>)"
  by (rule keeps_fsm) (rule fsm_ok_tick)

lemma kick_fsm_keeps: "keeps p (p\<lparr>pr_fsm := fst (kick (pr_fsm p) now)\<rparr>)"
  by (rule keeps_fsm) (rule fsm_ok_kick)

lemma tick_peer_keeps:
  "keeps p (fst (tick_peer ctx rb now inst observed cr p))"
  "cache_ok (fst cr) \<Longrightarrow> cache_ok (fst (fst (snd (tick_peer ctx rb now inst observed cr p))))"
  "hm_ok (snd cr) \<Longrightarrow> hm_ok (snd (fst (snd (tick_peer ctx rb now inst observed cr p))))"
  using keeps_trans [OF tick_fsm_keeps drive_relay_keeps]
  by (simp_all add: tick_peer_def Let_def case_prod_unfold cache_ok_apply sync_routes_hm_ok)

lemma tick_peers_keeps:
  "list_all2 keeps ps (fst (tick_peers ctx rb now inst by_key cr ps)) \<and>
   (cache_ok (fst cr) \<longrightarrow> cache_ok (fst (fst (snd (tick_peers ctx rb now inst by_key cr ps))))) \<and>
   (hm_ok (snd cr) \<longrightarrow> hm_ok (snd (fst (snd (tick_peers ctx rb now inst by_key cr ps)))))"
proof (induction ps arbitrary: cr)
  case (Cons p ps)
  let ?t = "tick_peer ctx rb now inst (by_key (pr_wg_public p)) cr p"
  show ?case using Cons.IH [of "fst (snd ?t)"] tick_peer_keeps [where p = p and cr = cr and rb = rb]
    by (simp add: Let_def case_prod_unfold)
qed simp

lemma kick_peers_keeps:
  "list_all2 keeps ps (fst (kick_peers now cache ps)) \<and>
   (cache_ok cache \<longrightarrow> cache_ok (fst (snd (kick_peers now cache ps))))"
proof (induction ps arbitrary: cache)
  case (Cons p ps)
  show ?case using Cons.IH kick_fsm_keeps by (simp add: Let_def case_prod_unfold cache_ok_apply)
qed simp

lemma all_keep:
  assumes "list_all2 keeps ps qs"
  shows "map identity qs = map identity ps" and "map pr_key_b64 qs = map pr_key_b64 ps"
    and "\<forall>p\<in>set ps. runtime_ok p \<Longrightarrow> \<forall>q\<in>set qs. runtime_ok q"
  using assms by (induction rule: list_all2_induct) (auto simp: keeps_def dest: identity_key)

lemma daemon_ok_peers:
  assumes "daemon_ok d" and "list_all2 keeps (dm_peers d) ps" and "cache_ok cache" and "hm_ok rm"
  shows "daemon_ok (d\<lparr>dm_peers := ps, dm_cache := cache, dm_routes := rm\<rparr>)"
  using assms(1,3,4) all_keep(2,3) [OF assms(2)] by (simp add: daemon_ok_def)

lemma daemon_ok_one:
  assumes "daemon_ok d" and "find_peer (dm_peers d) key = Some i" and "step_keeps (dm_peers d ! i) (dm_cache d) (p, cache, fx)"
  shows "daemon_ok (d\<lparr>dm_peers := (dm_peers d)[i := p], dm_cache := cache\<rparr>)"
proof -
  have "i < length (dm_peers d)" using assms(2) by (auto simp: find_peer_def dest: position_less)
  then have "list_all2 keeps (dm_peers d) ((dm_peers d)[i := p])"
    using assms(3) by (auto simp: list_all2_conv_all_nth nth_list_update step_keeps_def)
  from daemon_ok_peers [OF assms(1) this, of cache "dm_routes d"] assms(1,3) show ?thesis
    by (simp add: daemon_ok_def step_keeps_def)
qed

lemma find_peer_None: "find_peer ps key = None \<longleftrightarrow> key \<notin> pr_key_b64 ` set ps"
  by (auto simp: find_peer_def position_None)

lemma set_vec_remove: "set (vec_remove i xs) \<subseteq> set xs"
  by (auto simp: vec_remove_def dest: in_set_takeD in_set_dropD)

lemma map_vec_remove: "map f (vec_remove i xs) = vec_remove i (map f xs)"
  by (simp add: vec_remove_def take_map drop_map)

lemma distinct_vec_remove: "distinct xs \<Longrightarrow> distinct (vec_remove i xs)"
  using distinct_take [of xs i] set_take_disj_set_drop_if_distinct [of xs i "i + 1"] by (simp add: vec_remove_def)

lemma member_peer_ok: "runtime_ok (member_peer name key wg a ka cs now)"
  by (simp add: runtime_ok_def member_peer_def fsm_ok_new)

lemma daemon_ok_step: "daemon_ok d \<Longrightarrow> daemon_ok (fst (daemon_step ctx ops rb d e))"
proof (induction ctx ops rb d e rule: daemon_step.induct)
  case (1 ctx ops rb d statuses now inst)
  show ?case
  proof (cases statuses)
    case (Inr ss)
    let ?t = "tick_peers ctx rb now inst (status_map ss) (dm_cache d, dm_routes d) (dm_peers d)"
    have k: "list_all2 keeps (dm_peers d) (fst ?t)" "cache_ok (fst (fst (snd ?t)))" "hm_ok (snd (fst (snd ?t)))"
      using 1 tick_peers_keeps [of "dm_peers d" ctx rb now inst "status_map ss" "(dm_cache d, dm_routes d)"]
      by (auto simp: daemon_ok_def)
    show ?thesis using daemon_ok_peers [OF 1 k] by (simp add: Inr tick_once_def case_prod_unfold daemon_ok_def)
  qed (simp add: tick_once_def 1)
next
  case (2 ctx ops rb d now)
  have k: "list_all2 keeps (dm_peers d) (fst (kick_peers now (dm_cache d) (dm_peers d)))"
    "cache_ok (fst (snd (kick_peers now (dm_cache d) (dm_peers d))))"
    using 2 kick_peers_keeps [of "dm_peers d" now "dm_cache d"] by (auto simp: daemon_ok_def)
  show ?case using 2 daemon_ok_peers [OF 2 k, of "dm_routes d"] by (simp add: Let_def case_prod_unfold daemon_ok_def)
next
  case (3 ctx ops rb d upd now)
  then show ?case using daemon_ok_one [OF 3, of "peer_key upd"] discovered_keeps
    by (auto simp: on_discovered_def split: option.splits prod.splits) metis
next
  case (4 ctx ops rb d upd now)
  then show ?case using daemon_ok_one [OF 4, of "peer_key upd"] discovered_keeps
    by (auto simp: on_discovered_def split: option.splits prod.splits) metis
next
  case (5 ctx ops rb d node name a now)
  then show ?case
    by (auto simp: on_member_admitted_def Let_def daemon_ok_def find_peer_None members_ok_upsert member_peer_ok)
       (simp_all add: member_peer_def)
next
  case (6 ctx ops rb d node now)
  then show ?case
    using set_vec_remove [of _ "dm_peers d"] members_ok_remove [of "dm_members d"]
    by (fastforce simp: on_revoked_def Let_def case_prod_unfold daemon_ok_def map_vec_remove distinct_vec_remove
        split: option.splits)
next
  case (7 ctx ops rb d msg inst now)
  then show ?case using daemon_ok_one [OF 7, of "rd_peer_key msg"] relay_registered_keeps
    by (auto simp: on_relay_registered_def split: option.splits prod.splits) metis
qed

definition daemon_idle :: daemon where
  "daemon_idle = \<lparr>dm_cache = cache_new, dm_members = members_new, dm_peers = [], dm_routes = []\<rparr>"

interpretation daemon: machine daemon_idle "\<lambda>d e. fst (daemon_step ctx ops rb d e)" daemon_ok for ctx ops rb
  by unfold_locales (simp add: daemon_idle_def daemon_ok_def cache.inv_init member_table.inv_init, rule daemon_ok_step)

section \<open>Start-up\<close>

lemma config_runtime_fields [simp]:
  "pr_key_b64 (config_runtime ops cfg cache start p) = to_base64 ops (cp_public_key p)"
  "pr_routes (config_runtime ops cfg cache start p) = cp_routes p"
  "pr_overlay (config_runtime ops cfg cache start p) = address (cp_addr p)"
  by (simp_all add: config_runtime_def Let_def)

lemma config_runtime_ok: "runtime_ok (config_runtime ops cfg cache start p)"
  by (auto simp: runtime_ok_def config_runtime_def Let_def fsm_ok_new relay_link_for_def link_ok_def UPGRADE_MAX_RETRIES_def)

lemma member_runtime_Some:
  "member_runtime tops vp ops cfg cache start known m = Some p \<Longrightarrow>
     pr_key_b64 p = m_public_key m \<and> m_public_key m \<notin> set known \<and> runtime_ok p \<and> pr_routes p = [] \<and> pr_relay p = None"
  by (auto simp: member_runtime_def member_peer_ok split: if_splits sum.splits) (simp_all add: member_peer_def)

lemma in_map_filter: "y \<in> set (List.map_filter h xs) \<longleftrightarrow> (\<exists>x\<in>set xs. h x = Some y)"
  by (induction xs) (auto simp: map_filter_simps split: option.split)

lemma distinct_map_filter_keys:
  "distinct (map g xs) \<Longrightarrow> (\<And>x y. h x = Some y \<Longrightarrow> f y = g x) \<Longrightarrow> distinct (map f (List.map_filter h xs))"
  by (induction xs) (auto simp: map_filter_simps in_map_filter image_iff split: option.split, metis)

lemma startup_keys_distinct:
  assumes "distinct (map cp_public_key (cf_peers cfg))" and "inj (to_base64 ops)" and "members_ok mf"
  shows "distinct (map pr_key_b64 (startup_peers tops vp ops cfg cache mf start))"
proof -
  let ?ps = "map (config_runtime ops cfg cache start) (cf_peers cfg)"
  let ?h = "member_runtime tops vp ops cfg cache start (map pr_key_b64 ?ps)"
  have "map pr_key_b64 ?ps = map (to_base64 ops) (map cp_public_key (cf_peers cfg))" by simp
  then have 1: "distinct (map pr_key_b64 ?ps)" using assms(1,2) by (metis distinct_map inj_on_subset subset_UNIV)
  have 2: "distinct (map pr_key_b64 (List.map_filter ?h (members mf)))"
    using assms(3) by (intro distinct_map_filter_keys [of m_public_key]) (auto simp: members_ok_def dest: member_runtime_Some)
  have "pr_key_b64 q \<notin> set (map pr_key_b64 ?ps)" if "q \<in> set (List.map_filter ?h (members mf))" for q
    using that member_runtime_Some by (fastforce simp: in_map_filter)
  then have "set (map pr_key_b64 ?ps) \<inter> set (map pr_key_b64 (List.map_filter ?h (members mf))) = {}"
    unfolding set_map [of pr_key_b64 "List.map_filter ?h (members mf)"] by blast
  then show ?thesis using 1 2 unfolding startup_peers_def Let_def map_append distinct_append by blast
qed

lemma startup_runtime_ok: "p \<in> set (startup_peers tops vp ops cfg cache mf start) \<Longrightarrow> runtime_ok p"
  by (auto simp: startup_peers_def Let_def in_map_filter config_runtime_ok dest: member_runtime_Some)

lemma daemon_start_ok:
  assumes "distinct (map cp_public_key (cf_peers cfg))" and "inj (to_base64 ops)"
    and "cache_ok (cache_load cf)" and "members_ok (members_load mf)"
  shows "daemon_ok (fst (daemon_start tops vp ops cfg cf mf start now))"
proof -
  let ?ps = "startup_peers tops vp ops cfg (cache_load cf) (members_load mf) start"
  let ?d = "\<lparr>dm_cache = cache_load cf, dm_members = members_load mf, dm_peers = ?ps, dm_routes = []\<rparr>"
  have "daemon_ok ?d"
    using assms startup_keys_distinct [OF assms(1,2,4)] by (auto simp: daemon_ok_def intro: startup_runtime_ok)
  from daemon_ok_peers [OF this, of "fst (kick_peers now (cache_load cf) ?ps)" "fst (snd (kick_peers now (cache_load cf) ?ps))" "[]"]
  show ?thesis using assms(3) kick_peers_keeps [of ?ps now "cache_load cf"]
    by (simp add: daemon_start_def Let_def case_prod_unfold daemon_ok_def)
qed

section \<open>What reaches the endpoint cache\<close>

definition cached_endpoints :: "endpoint_cache \<Rightarrow> string \<Rightarrow> socket_v6 set" where
  "cached_endpoints c k = (case cache_entry c k of None \<Rightarrow> {} | Some e \<Rightarrow> set_option (last_good e) \<union> endpoint ` set (seen e))"

lemma cached_record_good:
  "cached_endpoints (record_good c k ep now) k' \<subseteq> (if k' = k then insert (normalize ep) (cached_endpoints c k') else cached_endpoints c k')"
proof -
  have "endpoint c = ep' \<or> endpoint c \<in> endpoint ` set cs" if "c \<in> set (take n (newest_first (touch ep' t cs)))" for c n t ep' cs
    using endpoints_touch [of ep' t cs] in_set_takeD [OF that] by auto
  from this [of _ CACHE_SEEN_MAX "normalize ep" now] show ?thesis
    by (cases "hm_get (peers c) k")
       (auto simp: cached_endpoints_def cache_entry_def record_good_def Let_def hm peer_cache_default_def
        simp del: touch.simps, (fastforce simp: image_iff simp del: touch.simps)+)
qed

lemma cached_evict:
  "cached_endpoints (evict c k ep) k' = (if k' = k then cached_endpoints c k' - {normalize ep} else cached_endpoints c k')"
  by (auto simp: cached_endpoints_def cache_entry_def evict_def Let_def hm split: option.splits)

lemma apply_unmarked: "\<forall>ep. MarkGood ep \<notin> set as \<Longrightarrow> fst (apply_actions now p cache as) = cache"
proof (induction as)
  case (Cons a as)
  then have "fst (apply_action now p cache a) = cache" using apply_action_cache [of now p cache a] by auto
  then show ?case using Cons by (simp add: Let_def case_prod_unfold)
qed simp

lemma unmarked [simp]:
  "MarkGood ep \<notin> set (snd (set_candidates f cs now))" "MarkGood ep \<notin> set (snd (retry_from_impl f avoid now flush))"
  "MarkGood ep \<notin> set (snd (kick f now))"
  by (auto simp: set_candidates_def adopt_candidates_def Let_def retry_from_impl_def kick_def split: punch_state.splits option.splits)

lemma drive_relay_unmarked: "MarkGood ep \<notin> set (fst (snd (drive_relay ctx p cache inst now)))"
  by (simp add: drive_relay_def drive_direct_def drive_relayed_def drive_probing_def retry_from_flush_def Let_def case_prod_unfold
      split: option.split punch_state.split)

lemma tick_marked:
  assumes "MarkGood ep \<in> set (snd (tick f now obs))"
  shows "snd (tick f now obs) = [MarkGood ep] \<and> state (fst (tick f now obs)) = Connected ep \<and> handshake_is_fresh (last_handshake obs) now"
  using assms by (auto simp: tick_def rotate_fsm_def Let_def split: punch_state.splits option.splits if_splits list.splits)

lemma set_candidates_Connected: "state f = Connected ep \<Longrightarrow> state (fst (set_candidates f cs now)) = Connected ep"
  by (simp add: set_candidates_def adopt_Connected)

lemma drive_relay_direct:
  assumes "state (pr_fsm p) = Connected ep" and "map_option rs_endpoint (session_of p) \<noteq> Some ep"
  shows "state (pr_fsm (fst (drive_relay ctx p cache inst now))) = Connected ep"
  using assms by (auto simp: drive_relay_def drive_direct_def Let_def session_of_def set_link_def set_candidates_Connected split: option.splits)

lemma tick_peer_caches:
  assumes "runtime_ok p" and new: "x \<in> cached_endpoints (fst (fst (snd (tick_peer ctx rb now inst observed cr p)))) k"
  shows "x \<in> cached_endpoints (fst cr) k \<or> k = pr_key_b64 p \<and> handshake_is_fresh (last_handshake (observe observed)) now \<and>
    state (pr_fsm (fst (tick_peer ctx rb now inst observed cr p))) = Connected x \<and> map_option rs_endpoint (session_of p) \<noteq> Some x"
proof -
  let ?t = "tick (pr_fsm p) now (observe observed)"
  let ?p1 = "p\<lparr>pr_fsm := fst ?t\<rparr>"
  have s: "session_of ?p1 = session_of p" by (simp add: session_of_def)
  have c: "fst (fst (snd (tick_peer ctx rb now inst observed cr p))) = fst (apply_actions now ?p1 (fst cr) (snd ?t))"
    by (simp add: tick_peer_def Let_def case_prod_unfold apply_unmarked drive_relay_unmarked)
  show ?thesis
  proof (cases "\<exists>ep. MarkGood ep \<in> set (snd ?t)")
    case False
    then show ?thesis using new by (simp add: c apply_unmarked)
  next
    case True
    then obtain ep where t: "snd ?t = [MarkGood ep]" "state (fst ?t) = Connected ep" "handshake_is_fresh (last_handshake (observe observed)) now"
      using tick_marked by blast
    have "fsm_ok (fst ?t)" using assms(1) by (simp add: runtime_ok_def fsm_ok_tick)
    then have n: "normalize ep = ep" by (simp add: fsm_ok_def t(2))
    show ?thesis
    proof (cases "map_option rs_endpoint (session_of p) = Some ep")
      case True
      then show ?thesis using new unfolding c by (simp add: t(1) s)
    next
      case False
      have "fst (apply_actions now ?p1 (fst cr) (snd ?t)) = record_good (fst cr) (pr_key_b64 p) ep (unix_secs now)"
        using False by (auto simp: t(1) s Let_def)
      with new c have "x \<in> cached_endpoints (fst cr) k \<or> k = pr_key_b64 p \<and> x = ep"
        using cached_record_good [of "fst cr" "pr_key_b64 p" ep "unix_secs now" k] n by (auto split: if_splits)
      moreover have "state (pr_fsm (fst (tick_peer ctx rb now inst observed cr p))) = Connected ep"
        using drive_relay_direct [of ?p1 ep ctx] t(2) False s by (simp add: tick_peer_def Let_def case_prod_unfold)
      ultimately show ?thesis using False t(3) by blast
    qed
  qed
qed

lemma tick_peers_caches:
  assumes "\<forall>p\<in>set ps. runtime_ok p" and "x \<in> cached_endpoints (fst (fst (snd (tick_peers ctx rb now inst by_key cr ps)))) k"
  shows "x \<in> cached_endpoints (fst cr) k \<or> (\<exists>(p, p')\<in>set (zip ps (fst (tick_peers ctx rb now inst by_key cr ps))). k = pr_key_b64 p \<and>
    handshake_is_fresh (last_handshake (observe (by_key (pr_wg_public p)))) now \<and>
    state (pr_fsm p') = Connected x \<and> map_option rs_endpoint (session_of p) \<noteq> Some x)"
  using assms
proof (induction ps arbitrary: cr)
  case (Cons p ps)
  let ?t = "tick_peer ctx rb now inst (by_key (pr_wg_public p)) cr p"
  have "x \<in> cached_endpoints (fst (fst (snd (tick_peers ctx rb now inst by_key (fst (snd ?t)) ps)))) k"
    using Cons.prems(2) by (simp add: Let_def case_prod_unfold)
  from Cons.IH [OF _ this] show ?case
    using Cons.prems(1) tick_peer_caches [of p x ctx rb now inst "by_key (pr_wg_public p)" cr k]
    by (auto simp: Let_def case_prod_unfold)
qed simp

end
