(* ===== verification/Daemon_Behaviour.thy ===== *)
theory Daemon_Behaviour
  imports Daemon_Safety
begin

text \<open>
  The behaviour of the daemon's handlers, as properties: what it keeps through every sequence of events,
  what reaches the endpoint cache, when the relay is engaged, tried again and released, which routes are
  installed, what a revocation removes, and when a dead address is left.
\<close>

section \<open>The invariant\<close>

definition ex_show :: show_ops where
  "ex_show = \<lparr>to_base64 = (\<lambda>k. replicate (unat k) CHR ''a''), wg_public_bytes = (\<lambda>k. k)\<rparr>"

lemma ex_show_inj: "inj (to_base64 ex_show)"
proof (rule injI)
  fix k l :: public_key
  assume "to_base64 ex_show k = to_base64 ex_show l"
  then have "length (to_base64 ex_show k) = length (to_base64 ex_show l)" by simp
  then have "unat k = unat l" by (simp add: ex_show_def)
  then show "k = l" by (rule unsigned_word_eqI)
qed

definition ex_ctx :: daemon_ctx where
  "ex_ctx = \<lparr>cx_interface = ''hextet0'', cx_node_address = 9, cx_node_public_key = ''n'', cx_own_public = 9,
     cx_listen_port = 4193, cx_keepalive = 25\<rparr>"

text \<open>C1: A daemon started from a loaded configuration, with well-formed soft state, keeps its invariant
  through every sequence of events: one run-time peer per key, every state machine well formed and pointing
  into its candidates, at most eight upgrade attempts per relay session and none without a session, a
  well-formed endpoint cache and one record per admitted member.\<close>

theorem daemon_invariant:
  assumes "config_ok sha own cfg" and "inj (to_base64 ops)"
    and "cache_ok (cache_load cf)" and "members_ok (members_load mf)"
  shows "daemon_ok (foldl (\<lambda>d e. fst (daemon_step ctx ops rb d e)) (fst (daemon_start tops vp ops cfg cf mf start now)) es)"
  using assms by (intro daemon.inv_run daemon_start_ok) (simp_all add: config_ok_def)

theorem daemon_invariant_witness:
  "daemon_ok (foldl (\<lambda>d e. fst (daemon_step ex_ctx ex_show accepting d e))
     (fst (daemon_start ex_ops (\<lambda>_. True) ex_show ex_config (Inl NotFound) (Inl NotFound) 0 0))
     [TickEvent (Inr [] :: (unit, peer_status list) result) 5 5, AddrChanged 6, GossipNews (Revoked 3) 7])"
proof -
  have k: "hkdf_fills (\<lambda>_ _ _ n. replicate n 1)" by (simp add: hkdf_fills_def)
  from config_load_ok [OF k ex_load_Inr [unfolded ex_load_def]] obtain own where c: "config_ok ex_sha own ex_config" by blast
  have "cache_ok (cache_load (Inl NotFound))" "members_ok (members_load (Inl NotFound))"
    using cache.inv_init member_table.inv_init by (simp_all add: cache_load_def members_load_def)
  from daemon_invariant [OF c ex_show_inj this] show ?thesis .
qed

section \<open>The endpoint cache\<close>

lemma tick_zip_keeps: "(p, p') \<in> set (zip ps (fst (tick_peers ctx rb now inst by_key cr ps))) \<Longrightarrow> keeps p p'"
  using tick_peers_keeps [of ps ctx rb now inst by_key cr] by (auto simp: list_all2_iff)

lemma discovered_cache:
  "cached_endpoints (fst (snd (discovered_peer p src eps cache now))) k \<subseteq> cached_endpoints cache k"
proof -
  have "fst (snd (adopt_discovered q c now)) = c" "fst (snd (leave_endpoint q ep c now)) = c"
    "fst (snd (upgrade_from_relay q link ep c now)) = c" for q c ep link
    by (simp_all add: adopt_discovered_def leave_endpoint_def upgrade_from_relay_def retry_from_def retry_from_flush_def
        Let_def case_prod_unfold apply_unmarked)
  moreover have "cached_endpoints (fst (prune_endpoint q ep cache)) k \<subseteq> cached_endpoints cache k" for q ep
    by (auto simp: prune_endpoint_def Let_def cached_evict split: if_splits)
  ultimately show ?thesis
    by (auto simp: discovered_peer_def Let_def case_prod_unfold split: option.split punch_state.split)
qed

lemma registered_cache: "fst (snd (relay_registered_peer p result cache inst now)) = cache"
  by (simp add: relay_registered_peer_def relay_ready_def retry_from_def Let_def case_prod_unfold apply_unmarked
      split: option.split punch_state.split)

lemma kick_cache: "fst (snd (kick_peers now cache ps)) = cache"
  by (induction ps) (simp_all add: Let_def case_prod_unfold apply_unmarked)

lemma handlers_cache:
  "cached_endpoints (dm_cache (fst (on_discovered upd now d))) k \<subseteq> cached_endpoints (dm_cache d) k"
  "dm_cache (fst (on_relay_registered msg inst now d)) = dm_cache d"
  "dm_cache (fst (on_member_admitted ctx ops node name a now d)) = dm_cache d"
  "dm_cache (fst (on_revoked ops node d)) = dm_cache d"
  using discovered_cache
  by (simp_all add: on_discovered_def on_relay_registered_def on_member_admitted_def on_revoked_def Let_def
      case_prod_unfold registered_cache split: option.splits)

lemma cache_only_ticks:
  assumes "\<forall>ss now inst. e \<noteq> TickEvent (Inr ss) now inst"
  shows "cached_endpoints (dm_cache (fst (daemon_step ctx ops rb d e))) k \<subseteq> cached_endpoints (dm_cache d) k"
proof (cases e)
  case (TickEvent statuses now inst)
  then show ?thesis using assms by (cases statuses) (simp_all add: tick_once_def)
next
  case (GossipNews g now)
  then show ?thesis by (cases g) (simp_all add: handlers_cache)
qed (simp_all add: handlers_cache Let_def case_prod_unfold kick_cache)

text \<open>C26: Only a proven direct endpoint enters the cache. Whatever event adds an endpoint for a peer is a
  tick in which the kernel reported a fresh handshake for it, after which the peer's machine is connected
  to that endpoint, and it is not the endpoint of the peer's relay session.\<close>

theorem cache_learns_proven:
  assumes "daemon_ok d" and "daemon_step ctx ops rb d e = (d', fx)"
    and "x \<in> cached_endpoints (dm_cache d') k" and "x \<notin> cached_endpoints (dm_cache d) k"
  shows "\<exists>ss now inst p p'. e = TickEvent (Inr ss) now inst \<and> p \<in> set (dm_peers d) \<and> p' \<in> set (dm_peers d') \<and>
    identity p' = identity p \<and> pr_key_b64 p = k \<and> state (pr_fsm p') = Connected x \<and>
    handshake_is_fresh (last_handshake (observe (status_map ss (pr_wg_public p)))) now \<and>
    map_option rs_endpoint (session_of p) \<noteq> Some x"
proof -
  have "False" if "\<forall>ss now inst. e \<noteq> TickEvent (Inr ss) now inst"
    using cache_only_ticks [OF that, of ctx ops rb d k] assms(2-4) by auto
  then obtain ss now inst where e: "e = TickEvent (Inr ss) now inst" by blast
  let ?t = "tick_peers ctx rb now inst (status_map ss) (dm_cache d, dm_routes d) (dm_peers d)"
  have d': "dm_cache d' = fst (fst (snd ?t))" "dm_peers d' = fst ?t"
    using assms(2) by (auto simp: e tick_once_def Let_def case_prod_unfold)
  have "\<forall>p\<in>set (dm_peers d). runtime_ok p" using assms(1) by (simp add: daemon_ok_def)
  from tick_peers_caches [OF this assms(3) [unfolded d'(1)]] assms(4) obtain p p' where
    z: "(p, p') \<in> set (zip (dm_peers d) (fst ?t))" and
    p: "k = pr_key_b64 p" "handshake_is_fresh (last_handshake (observe (status_map ss (pr_wg_public p)))) now"
      "state (pr_fsm p') = Connected x" "map_option rs_endpoint (session_of p) \<noteq> Some x"
    by auto
  have "identity p' = identity p"
    using tick_zip_keeps [OF z] by (simp add: keeps_def)
  with z p e d'(2) show ?thesis by (metis in_set_zipE)
qed

definition ex_runtime :: peer_runtime where
  "ex_runtime = member_peer ''a'' ''k'' 5 7 25 [sock 7 1] 0"

definition ex_status :: peer_status where
  "ex_status = \<lparr>wgs_public = 5, wgs_endpoint = Some (V6 (sock 7 1)), wgs_last_handshake = Some 10, wgs_rx_bytes = 0, wgs_tx_bytes = 0\<rparr>"

lemma ex_runtime_ok: "daemon_ok (daemon_idle\<lparr>dm_peers := [ex_runtime]\<rparr>)"
  using daemon.inv_init by (simp add: daemon_ok_def daemon_idle_def ex_runtime_def member_peer_ok)

theorem cache_learns_proven_witness:
  "\<exists>p'. p' \<in> set (dm_peers (fst (daemon_step ex_ctx ex_show accepting (daemon_idle\<lparr>dm_peers := [ex_runtime]\<rparr>)
      (TickEvent (Inr [ex_status] :: (unit, peer_status list) result) 10 10)))) \<and> state (pr_fsm p') = Connected (sock 7 1)"
proof -
  let ?d = "daemon_idle\<lparr>dm_peers := [ex_runtime]\<rparr>"
  let ?e = "TickEvent (Inr [ex_status] :: (unit, peer_status list) result) 10 10"
  obtain d' fx where s: "daemon_step ex_ctx ex_show accepting ?d ?e = (d', fx)" by fastforce
  have "cache_entry (dm_cache (fst (daemon_step ex_ctx ex_show accepting ?d ?e))) ''k'' =
      Some \<lparr>last_good = Some (sock 7 1), seen = [\<lparr>endpoint = sock 7 1, last_seen_unix = 0\<rparr>]\<rparr>"
    by code_simp
  then have "sock 7 1 \<in> cached_endpoints (dm_cache d') ''k''" unfolding s by (simp add: cached_endpoints_def)
  moreover have "sock 7 1 \<notin> cached_endpoints (dm_cache ?d) ''k''"
    by (simp add: cached_endpoints_def cache_entry_def daemon_idle_def cache_new_def)
  ultimately show ?thesis using cache_learns_proven [OF ex_runtime_ok s, of "sock 7 1" "''k''"] unfolding s by auto
qed

section \<open>The relay\<close>

text \<open>When a registration is started for a peer, and what is then recorded.\<close>

definition spawn_reason :: "daemon_ctx \<Rightarrow> time \<Rightarrow> peer_runtime \<Rightarrow> peer_runtime \<Rightarrow> effect \<Rightarrow> bool" where
  "spawn_reason ctx inst p p' fx \<longleftrightarrow>
     (\<exists>link link'. pr_relay p = Some link \<and> pr_relay p' = Some link' \<and> fx = spawn_register ctx link \<and> rl_control link \<noteq> [] \<and>
        \<not> rl_pending link \<and> rl_pending link' \<and> \<not> cooling link inst \<and>
        (rl_session link \<noteq> None \<and> register_due link inst \<or>
         rl_session link = None \<and> (\<exists>i r. state (pr_fsm p') = Probing i r \<and> RELAY_AFTER_ROUNDS \<le> r)))"

fun registers :: "effect \<Rightarrow> bool" where
  "registers (SpawnRegister _ _ _ _) = True"
| "registers _ = False"

lemma actions_never_register: "\<forall>fx\<in>set (snd (apply_actions now p cache as)). \<not> registers fx"
proof (induction as arbitrary: cache)
  case (Cons a as)
  have "\<forall>fx\<in>set (snd (apply_action now p cache a)). \<not> registers fx" by (cases a) (auto simp: Let_def)
  then show ?case using Cons by (auto simp: Let_def case_prod_unfold)
qed simp

lemma drive_relayed_spawns:
  assumes "pr_relay p = Some link" and "rl_session link = Some session" and "rl_control link \<noteq> []"
    and "fx \<in> set (snd (snd (drive_relayed ctx p link session cache inst now)))"
  shows "spawn_reason ctx inst p (fst (drive_relayed ctx p link session cache inst now)) fx"
  using assms by (auto simp: drive_relayed_def Let_def case_prod_unfold set_link_def spawn_reason_def spawn_register_def
      register_due_def cooling_def split: if_splits)

lemma drive_relay_spawns:
  assumes "fx \<in> set (snd (snd (drive_relay ctx p cache inst now)))" and "registers fx"
  shows "spawn_reason ctx inst p (fst (drive_relay ctx p cache inst now)) fx"
proof -
  have "fx \<notin> set (snd (snd (drive_direct ctx p link session cache now)))" for link session
    using assms(2) by (auto simp: drive_direct_def Let_def spawn_unregister_def)
  moreover have "spawn_reason ctx inst p (fst (drive_probing ctx p link r inst)) fx"
    if "fx \<in> set (snd (snd (drive_probing ctx p link r inst)))" "pr_relay p = Some link" "rl_control link \<noteq> []"
      "state (pr_fsm p) = Probing i r" for link i r
    using that by (auto simp: drive_probing_def Let_def spawn_reason_def spawn_register_def set_link_def split: if_splits)
  ultimately show ?thesis using assms drive_relayed_spawns
    by (auto simp: drive_relay_def split: option.splits punch_state.splits if_splits)
qed

lemma tick_peer_spawns:
  assumes "fx \<in> set (fst (snd (snd (tick_peer ctx rb now inst observed cr p))))" and "registers fx"
  shows "spawn_reason ctx inst p (fst (tick_peer ctx rb now inst observed cr p)) fx"
proof -
  let ?p1 = "p\<lparr>pr_fsm := fst (tick (pr_fsm p) now (observe observed))\<rparr>"
  let ?c = "fst (apply_actions now ?p1 (fst cr) (snd (tick (pr_fsm p) now (observe observed))))"
  have "fx \<in> set (snd (snd (drive_relay ctx ?p1 ?c inst now)))"
    using assms actions_never_register by (auto simp: tick_peer_def Let_def case_prod_unfold)
  from drive_relay_spawns [OF this assms(2)]
  show ?thesis by (simp add: spawn_reason_def tick_peer_def Let_def case_prod_unfold)
qed

lemma tick_peers_spawns:
  assumes "fx \<in> set (fst (snd (snd (tick_peers ctx rb now inst by_key cr ps))))" and "registers fx"
  shows "\<exists>(p, p')\<in>set (zip ps (fst (tick_peers ctx rb now inst by_key cr ps))). spawn_reason ctx inst p p' fx"
  using assms
proof (induction ps arbitrary: cr)
  case (Cons p ps)
  let ?t = "tick_peer ctx rb now inst (by_key (pr_wg_public p)) cr p"
  show ?case using Cons.IH [of "fst (snd ?t)"] Cons.prems tick_peer_spawns [where p = p and cr = cr]
    by (auto simp: Let_def case_prod_unfold)
qed simp

lemma handlers_never_register:
  "fx \<in> set (snd (on_discovered upd now d)) \<Longrightarrow> \<not> registers fx"
  "fx \<in> set (snd (on_relay_registered msg inst now d)) \<Longrightarrow> \<not> registers fx"
  "fx \<in> set (snd (on_member_admitted ctx ops node name a now d)) \<Longrightarrow> \<not> registers fx"
  "fx \<in> set (snd (on_revoked ops node d)) \<Longrightarrow> \<not> registers fx"
  "fx \<in> set (snd (snd (kick_peers now cache ps))) \<Longrightarrow> \<not> registers fx"
proof -
  show "\<not> registers fx" if "fx \<in> set (snd (on_discovered upd now d))"
    using that actions_never_register
    by (auto simp: on_discovered_def discovered_peer_def upgrade_from_relay_def leave_endpoint_def adopt_discovered_def
        prune_endpoint_def Let_def case_prod_unfold split: option.splits punch_state.splits if_splits)
  show "\<not> registers fx" if "fx \<in> set (snd (on_relay_registered msg inst now d))"
    using that actions_never_register
    by (auto simp: on_relay_registered_def relay_registered_peer_def relay_ready_def Let_def case_prod_unfold
        split: option.splits punch_state.splits if_splits)
  show "\<not> registers fx" if "fx \<in> set (snd (on_member_admitted ctx ops node name a now d))"
    using that by (auto simp: on_member_admitted_def rendezvous_updates_def Let_def split: if_splits)
  show "\<not> registers fx" if "fx \<in> set (snd (on_revoked ops node d))"
    using that by (auto simp: on_revoked_def rendezvous_updates_def Let_def case_prod_unfold split: if_splits)
  show "\<not> registers fx" if "fx \<in> set (snd (snd (kick_peers now cache ps)))"
    using that actions_never_register by (induction ps arbitrary: cache) (auto simp: Let_def case_prod_unfold)
qed

lemma only_ticks_register:
  assumes "fx \<in> set (snd (daemon_step ctx ops rb d e))" and "registers fx"
  shows "\<exists>ss now inst. e = TickEvent (Inr ss) now inst"
proof (cases e)
  case (TickEvent statuses now inst)
  then show ?thesis using assms by (cases statuses) (auto simp: tick_once_def)
next
  case (GossipNews g now)
  then show ?thesis using assms by (cases g) (auto dest: handlers_never_register)
qed (use assms in \<open>auto simp: Let_def case_prod_unfold dest: handlers_never_register\<close>)

text \<open>C14: The relay is the last resort. The daemon starts a registration only in a tick, for a peer with
  a relay, and only when none is under way and no cool-down runs: either the peer is still searching after
  two full rounds through its candidates, or its session is due for renewal. The registration is then
  recorded as under way.\<close>

theorem relay_last_resort:
  assumes "SpawnRegister cs self_key peer lp \<in> set (snd (daemon_step ctx ops rb d e))"
  shows "\<exists>ss now inst p p' link link'. e = TickEvent (Inr ss) now inst \<and> p \<in> set (dm_peers d) \<and>
    p' \<in> set (dm_peers (fst (daemon_step ctx ops rb d e))) \<and> identity p' = identity p \<and> pr_relay p = Some link \<and>
    pr_relay p' = Some link' \<and> cs = rl_control link \<and> cs \<noteq> [] \<and> peer = rl_peer_public link \<and>
    \<not> rl_pending link \<and> rl_pending link' \<and> \<not> cooling link inst \<and>
    (rl_session link \<noteq> None \<and> register_due link inst \<or>
     rl_session link = None \<and> (\<exists>i r. state (pr_fsm p') = Probing i r \<and> RELAY_AFTER_ROUNDS \<le> r))"
proof -
  from only_ticks_register [OF assms] obtain ss now inst where e: "e = TickEvent (Inr ss) now inst" by auto
  let ?t = "tick_peers ctx rb now inst (status_map ss) (dm_cache d, dm_routes d) (dm_peers d)"
  have "SpawnRegister cs self_key peer lp \<in> set (fst (snd (snd ?t)))"
    using assms by (auto simp: e tick_once_def Let_def case_prod_unfold split: if_splits)
  from tick_peers_spawns [OF this] obtain p p' where z: "(p, p') \<in> set (zip (dm_peers d) (fst ?t))"
    and r: "spawn_reason ctx inst p p' (SpawnRegister cs self_key peer lp)" by auto
  have "dm_peers (fst (daemon_step ctx ops rb d e)) = fst ?t" by (simp add: e tick_once_def Let_def case_prod_unfold)
  moreover have "p \<in> set (dm_peers d)" "p' \<in> set (fst ?t)" using z by (auto dest: in_set_zipE set_zip_leftD set_zip_rightD)
  moreover have "identity p' = identity p" using tick_zip_keeps [OF z] by (simp add: keeps_def)
  moreover obtain link link' where "pr_relay p = Some link" "pr_relay p' = Some link'" "cs = rl_control link" "cs \<noteq> []"
      "peer = rl_peer_public link" "\<not> rl_pending link" "rl_pending link'" "\<not> cooling link inst"
      "rl_session link \<noteq> None \<and> register_due link inst \<or>
       rl_session link = None \<and> (\<exists>i r. state (pr_fsm p') = Probing i r \<and> RELAY_AFTER_ROUNDS \<le> r)"
    using r unfolding spawn_reason_def spawn_register_def effect.inject by metis
  ultimately show ?thesis using e by metis
qed

definition ex_link :: relay_link where
  "ex_link = \<lparr>rl_via_name = ''r'', rl_control = [sock 3 4196], rl_peer_public = 5, rl_session = None, rl_pending = False,
     rl_upgrade_pending = False, rl_upgrade_retries = 0, rl_last_register = None, rl_retry_after = None\<rparr>"

definition ex_lost :: peer_runtime where
  "ex_lost = ex_runtime\<lparr>pr_relay := Some ex_link, pr_fsm := (fsm_new [sock 7 1] 0)\<lparr>state := Probing 0 2\<rparr>\<rparr>"

theorem relay_last_resort_witness:
  "\<exists>p'. p' \<in> set (dm_peers (fst (daemon_step ex_ctx ex_show accepting (daemon_idle\<lparr>dm_peers := [ex_lost]\<rparr>)
      (TickEvent (Inr [] :: (unit, peer_status list) result) 10 10)))) \<and> (\<exists>link'. pr_relay p' = Some link' \<and> rl_pending link')"
proof -
  have "list_ex (\<lambda>fx. fx = SpawnRegister [sock 3 4196] 9 5 4193) (snd (daemon_step ex_ctx ex_show accepting
      (daemon_idle\<lparr>dm_peers := [ex_lost]\<rparr>) (TickEvent (Inr [] :: (unit, peer_status list) result) 10 10)))"
    by code_simp
  then have "SpawnRegister [sock 3 4196] 9 5 4193 \<in> set (snd (daemon_step ex_ctx ex_show accepting
      (daemon_idle\<lparr>dm_peers := [ex_lost]\<rparr>) (TickEvent (Inr [] :: (unit, peer_status list) result) 10 10)))"
    unfolding list_ex_iff by blast
  from relay_last_resort [OF this] show ?thesis by blast
qed

text \<open>A probing machine that is given a single endpoint points at it.\<close>

lemma set_candidates_single:
  assumes "state f = Probing i r" and "fsm_ok f" and "normalize ep = ep"
  shows "candidates (fst (set_candidates f [ep] now)) = [ep]" and "\<exists>r'. state (fst (set_candidates f [ep] now)) = Probing 0 r'"
    and "current_candidate f \<noteq> Some ep \<Longrightarrow> snd (set_candidates f [ep] now) = [SetEndpoint ep, Nudge]"
proof -
  have i: "next_index old prev [ep] = 0" for old prev using next_index_less [of "[ep]" old prev] by simp
  show "candidates (fst (set_candidates f [ep] now)) = [ep]"
    using assms by (simp add: set_candidates_def adopt_candidates_def Let_def split: punch_state.splits)
  show "\<exists>r'. state (fst (set_candidates f [ep] now)) = Probing 0 r'"
    using assms i by (auto simp: set_candidates_def adopt_candidates_def Let_def fsm_ok_def)
  show "snd (set_candidates f [ep] now) = [SetEndpoint ep, Nudge]" if "current_candidate f \<noteq> Some ep"
    using assms i that by (auto simp: set_candidates_def adopt_candidates_def Let_def fsm_ok_def current_candidate_def get_def)
qed

lemma tick_single:
  assumes "candidates f = [ep]" and "state f = Probing 0 r" and "handshake_is_fresh (last_handshake obs) now"
    and "kernel_endpoint obs \<in> {None, Some ep}" and "normalize ep = ep"
  shows "state (fst (tick f now obs)) = Connected ep"
  using assms by (auto simp: tick_def Let_def attributable_def get_def)



lemma build_candidates_normal: "c \<in> set (build_candidates s) \<Longrightarrow> normalize c = c"
  by (auto simp: build_candidates_reference dest!: set_reference)

text \<open>A retry leaves a connected endpoint for the first candidate that is not to be avoided.\<close>

lemma retry_leaves:
  assumes "state f = Connected e" and "x \<in> set (candidates f)" and "Some x \<noteq> map_option normalize avoid"
  shows "\<exists>i t. Some t \<noteq> map_option normalize avoid \<and> snd (retry_from_impl f avoid now flush) = [if flush then Rehandshake t else SetEndpoint t, Nudge] \<and>
    state (fst (retry_from_impl f avoid now flush)) = Probing i 0 \<and> current_candidate (fst (retry_from_impl f avoid now flush)) = Some t"
proof (cases "position (\<lambda>c. Some c \<noteq> map_option normalize avoid) (candidates f)")
  case None
  then show ?thesis using assms(2,3) by (auto simp: position_None)
next
  case (Some i)
  from position_Some [OF this] show ?thesis
    by (simp add: retry_from_impl_def assms(1) Some Let_def current_candidate_def get_def)
qed


definition ex_relayed :: peer_runtime where
  "ex_relayed = ex_runtime\<lparr>pr_relay := Some (ex_link\<lparr>rl_session := Some \<lparr>rs_endpoint = sock 3 7, rs_control = sock 3 4196\<rparr>,
      rl_upgrade_pending := True, rl_upgrade_retries := 8\<rparr>),
     pr_fsm := (fsm_new [sock 3 7] 0)\<lparr>state := Connected (sock 3 7)\<rparr>\<rparr>"


section \<open>Routes\<close>

definition accepts_all :: "'e route_backend \<Rightarrow> bool" where
  "accepts_all rb \<longleftrightarrow> (\<forall>cs c. rb cs c = None)"

definition wanted_routes :: "peer_runtime \<Rightarrow> ipv6_route set" where
  "wanted_routes p = (case state (pr_fsm p) of Connected _ \<Rightarrow> set (pr_routes p) | Probing _ _ \<Rightarrow> {})"

lemma keeps_key: "keeps p q \<Longrightarrow> pr_key_b64 q = pr_key_b64 p"
  by (simp add: keeps_def identity_def)

lemma sync_peer_others: "k \<noteq> pr_key_b64 p \<Longrightarrow> routes_of (snd (sync_peer_routes rb rm p)) k = routes_of rm k"
  by (auto simp: sync_peer_routes_def sync_def Let_def split: prod.splits sum.splits)

lemma sync_peer_own:
  assumes "accepts_all rb"
  shows "set (routes_of (snd (sync_peer_routes rb rm p)) (pr_key_b64 p)) = wanted_routes p"
proof -
  define ds where "ds = (case state (pr_fsm p) of Connected _ \<Rightarrow> pr_routes p | Probing _ _ \<Rightarrow> [])"
  obtain cmds m' out where s: "sync rb rm (pr_key_b64 p) ds = (cmds, m', Inr out)"
    using sync_total [of rb rm "pr_key_b64 p" ds] assms unfolding accepts_all_def by blast
  have "set (routes_of m' (pr_key_b64 p)) = set ds" using sync_Inr(1) [OF s] by auto
  then show ?thesis using s
    by (simp add: sync_peer_routes_def ds_def [symmetric]) (simp add: wanted_routes_def ds_def split: punch_state.splits)
qed

lemma tick_peer_routes:
  "k \<noteq> pr_key_b64 p \<Longrightarrow> routes_of (snd (fst (snd (tick_peer ctx rb now inst observed cr p)))) k = routes_of (snd cr) k"
  "accepts_all rb \<Longrightarrow> set (routes_of (snd (fst (snd (tick_peer ctx rb now inst observed cr p)))) (pr_key_b64 p)) =
     wanted_routes (fst (tick_peer ctx rb now inst observed cr p))"
proof -
  let ?p1 = "p\<lparr>pr_fsm := fst (tick (pr_fsm p) now (observe observed))\<rparr>"
  let ?c = "fst (apply_actions now ?p1 (fst cr) (snd (tick (pr_fsm p) now (observe observed))))"
  let ?p2 = "fst (drive_relay ctx ?p1 ?c inst now)"
  have t: "fst (tick_peer ctx rb now inst observed cr p) = ?p2"
    "snd (fst (snd (tick_peer ctx rb now inst observed cr p))) = snd (sync_peer_routes rb (snd cr) ?p2)"
    by (simp_all add: tick_peer_def Let_def case_prod_unfold)
  have k: "pr_key_b64 ?p2 = pr_key_b64 p"
    by (rule keeps_key [OF keeps_trans [OF tick_fsm_keeps drive_relay_keeps]])
  show "routes_of (snd (fst (snd (tick_peer ctx rb now inst observed cr p)))) k = routes_of (snd cr) k" if "k \<noteq> pr_key_b64 p"
    using that k by (simp add: t sync_peer_others)
  show "set (routes_of (snd (fst (snd (tick_peer ctx rb now inst observed cr p)))) (pr_key_b64 p)) =
      wanted_routes (fst (tick_peer ctx rb now inst observed cr p))" if "accepts_all rb"
    using sync_peer_own [OF that, of "snd cr" ?p2] k by (simp add: t)
qed

lemma tick_peers_other_routes:
  "k \<notin> pr_key_b64 ` set ps \<Longrightarrow> routes_of (snd (fst (snd (tick_peers ctx rb now inst by_key cr ps)))) k = routes_of (snd cr) k"
proof (induction ps arbitrary: cr)
  case (Cons p ps)
  let ?t = "tick_peer ctx rb now inst (by_key (pr_wg_public p)) cr p"
  show ?case using Cons.IH [of "fst (snd ?t)"] Cons.prems tick_peer_routes(1) [where p = p and cr = cr and k = k and rb = rb]
    by (simp add: Let_def case_prod_unfold)
qed simp

lemma tick_peers_routes:
  assumes "accepts_all rb" and "distinct (map pr_key_b64 ps)" and "p' \<in> set (fst (tick_peers ctx rb now inst by_key cr ps))"
  shows "set (routes_of (snd (fst (snd (tick_peers ctx rb now inst by_key cr ps)))) (pr_key_b64 p')) = wanted_routes p'"
  using assms(2,3)
proof (induction ps arbitrary: cr)
  case (Cons p ps)
  let ?t = "tick_peer ctx rb now inst (by_key (pr_wg_public p)) cr p"
  have k: "pr_key_b64 (fst ?t) = pr_key_b64 p" by (rule keeps_key [OF tick_peer_keeps(1)])
  have "pr_key_b64 p \<notin> pr_key_b64 ` set ps" using Cons.prems(1) by simp
  note other = tick_peers_other_routes [OF this, of ctx rb now inst by_key "fst (snd ?t)"]
  show ?case
  proof (cases "p' = fst ?t")
    case True
    then show ?thesis using k other tick_peer_routes(2) [OF assms(1), of ctx now inst "by_key (pr_wg_public p)" cr p]
      by (simp add: Let_def case_prod_unfold)
  next
    case False
    then show ?thesis using Cons.IH [of "fst (snd ?t)"] Cons.prems by (simp add: Let_def case_prod_unfold)
  qed
qed simp

text \<open>C31: The installed site routes follow the connections. After a tick whose route commands succeed,
  each connected peer, direct or relayed, has exactly its announced routes and each searching peer has none;
  the routes of a key that is not in the table are left as they were.\<close>

theorem routes_follow_connection:
  assumes "daemon_ok d" and "accepts_all rb" and "d' = fst (daemon_step ctx ops rb d (TickEvent (Inr ss) now inst))"
  shows "(\<forall>p'\<in>set (dm_peers d'). set (routes_of (dm_routes d') (pr_key_b64 p')) =
      (case state (pr_fsm p') of Connected _ \<Rightarrow> set (pr_routes p') | Probing _ _ \<Rightarrow> {})) \<and>
    (\<forall>k. k \<notin> pr_key_b64 ` set (dm_peers d) \<longrightarrow> routes_of (dm_routes d') k = routes_of (dm_routes d) k)"
proof -
  let ?t = "tick_peers ctx rb now inst (status_map ss) (dm_cache d, dm_routes d) (dm_peers d)"
  have "distinct (map pr_key_b64 (dm_peers d))" using assms(1) by (simp add: daemon_ok_def)
  note routes = tick_peers_routes [OF assms(2) this, of _ ctx now inst "status_map ss" "(dm_cache d, dm_routes d)"]
  have "dm_peers d' = fst ?t" "dm_routes d' = snd (fst (snd ?t))"
    by (simp_all add: assms(3) tick_once_def Let_def case_prod_unfold)
  then show ?thesis
    using routes tick_peers_other_routes [of _ "dm_peers d" ctx rb now inst "status_map ss" "(dm_cache d, dm_routes d)"]
    by (simp add: wanted_routes_def)
qed

theorem routes_follow_connection_witness:
  "list_all (\<lambda>p'. set (routes_of (dm_routes (fst (daemon_step ex_ctx ex_show accepting (daemon_idle\<lparr>dm_peers := [ex_runtime]\<rparr>)
      (TickEvent (Inr [ex_status] :: (unit, peer_status list) result) 10 10)))) (pr_key_b64 p')) =
      (case state (pr_fsm p') of Connected _ \<Rightarrow> set (pr_routes p') | Probing _ _ \<Rightarrow> {}))
    (dm_peers (fst (daemon_step ex_ctx ex_show accepting (daemon_idle\<lparr>dm_peers := [ex_runtime]\<rparr>)
      (TickEvent (Inr [ex_status] :: (unit, peer_status list) result) 10 10))))"
proof -
  have "accepts_all accepting" by (simp add: accepts_all_def accepting_def)
  from routes_follow_connection [OF ex_runtime_ok this refl] show ?thesis unfolding list_all_iff by blast
qed

section \<open>Membership\<close>

lemma find_peer_Some: "find_peer ps key = Some i \<Longrightarrow> i < length ps \<and> pr_key_b64 (ps ! i) = key"
  by (auto simp: find_peer_def dest: position_Some)

lemma set_vec_remove_at: "i < length xs \<Longrightarrow> distinct xs \<Longrightarrow> set (vec_remove i xs) = set xs - {xs ! i}"
proof -
  assume i: "i < length xs" and d: "distinct xs"
  have "xs = take i xs @ xs ! i # drop (i + 1) xs" using i by (simp add: id_take_nth_drop)
  then show ?thesis using d unfolding vec_remove_def
    by (metis (no_types, lifting) Diff_insert_absorb Un_insert_right distinct.simps(2) distinct_append
        disjoint_insert(1) insert_iff list.simps(15) not_in_set_insert set_append UnE)
qed

lemma revoked_peers:
  assumes "daemon_ok d"
  shows "set (dm_peers (fst (on_revoked ops node d))) = {p \<in> set (dm_peers d). pr_key_b64 p \<noteq> to_base64 ops node}"
proof -
  have dist: "distinct (map pr_key_b64 (dm_peers d))" using assms(1) by (simp add: daemon_ok_def)
  show ?thesis
  proof (cases "find_peer (dm_peers d) (to_base64 ops node)")
    case None
    then have "dm_peers (fst (on_revoked ops node d)) = dm_peers d"
      by (simp add: on_revoked_def Let_def case_prod_unfold)
    moreover have "pr_key_b64 p \<noteq> to_base64 ops node" if "p \<in> set (dm_peers d)" for p
      using that None unfolding find_peer_None by (metis imageI)
    ultimately show ?thesis by auto
  next
    case (Some i)
    note i = find_peer_Some [OF Some]
    have "dm_peers (fst (on_revoked ops node d)) = vec_remove i (dm_peers d)"
      by (simp add: on_revoked_def Let_def case_prod_unfold Some)
    moreover have "distinct (dm_peers d)" using dist by (simp add: distinct_map)
    ultimately have "set (dm_peers (fst (on_revoked ops node d))) = set (dm_peers d) - {dm_peers d ! i}"
      using set_vec_remove_at i by metis
    moreover have "pr_key_b64 p = to_base64 ops node \<longleftrightarrow> p = dm_peers d ! i" if "p \<in> set (dm_peers d)" for p
      using that i dist by (metis distinct_map inj_onD nth_mem)
    ultimately show ?thesis by blast
  qed
qed



text \<open>
  The route table is not part of it: the routes of a revoked peer stay tracked, and installed, through
  every later tick.
\<close>

lemma revoked_routes_stay:
  assumes "daemon_ok d" and "d' = fst (on_revoked ops node d)"
  shows "routes_of (dm_routes (fst (daemon_step ctx ops rb d' (TickEvent statuses now inst)))) (to_base64 ops node) =
    routes_of (dm_routes d) (to_base64 ops node)"
proof -
  have r: "dm_routes d' = dm_routes d" by (simp add: assms(2) on_revoked_def Let_def case_prod_unfold)
  have "to_base64 ops node \<notin> pr_key_b64 ` set (dm_peers d')" using revoked_peers [OF assms(1)] by (auto simp: assms(2))
  from tick_peers_other_routes [OF this, of ctx rb now inst _ "(dm_cache d', dm_routes d')"] r show ?thesis
    by (cases statuses) (simp_all add: tick_once_def Let_def case_prod_unfold)
qed

section \<open>Dead addresses\<close>

lemma take_distinct_other:
  assumes "distinct xs" and "y \<in> set xs" and "y \<noteq> x" and "2 \<le> n"
  shows "\<exists>z\<in>set (take n xs). z \<noteq> x"
proof (rule ccontr)
  assume "\<not> ?thesis"
  then have sub: "set (take n xs) \<subseteq> {x}" by auto
  have "length (take n xs) = card (set (take n xs))" using assms(1) by (simp add: distinct_card)
  also have "\<dots> \<le> 1" using card_mono [OF _ sub] by simp
  finally have "length xs \<le> n" using assms(4) by (simp add: min_def split: if_splits)
  then show False using sub assms(2,3) by auto
qed

lemma candidates_have_other:
  assumes "y \<in> set (direct_sources s)" and "normalize y \<noteq> x"
  shows "\<exists>z\<in>set (build_candidates s). z \<noteq> x"
proof -
  have "\<exists>z\<in>set (take (direct_cap s) (dedup_onto [] (map normalize (direct_sources s)))). z \<noteq> x"
    by (rule take_distinct_other [of _ "normalize y"])
       (use assms in \<open>auto simp: distinct_dedup_onto direct_cap_def MAX_CANDIDATES_def\<close>)
  then show ?thesis by (auto simp: build_candidates_reference reference_candidates_def Let_def split: option.split)
qed

lemma reported_mem: "e \<in> set eps \<Longrightarrow> (src, e) \<in> set (replace_discovered ds src eps)"
  by (simp add: replace_discovered_def)

lemma authoritative_reliable: "still_reported_by_authoritative_source ds ep \<Longrightarrow> reported_by_reliable_source ds ep"
  by (auto simp: reported_by_reliable_source_def still_reported_by_authoritative_source_def list_ex_iff)

text \<open>C29: A dead address is left. When a discovery source replaces a peer's addresses so that no reliable
  source reports the connected endpoint any more, and it is not configured, it is evicted from the cache;
  and when the update names another address, the peer leaves the dead endpoint at once: WireGuard is pointed
  at a different candidate instead of waiting for the handshake to go stale.\<close>

theorem dead_address_left:
  assumes "state (pr_fsm p) = Connected ep" and "session_of p = None" and "normalize ep = ep" and "\<not> is_configured p ep"
    and "\<not> reported_by_reliable_source (replace_discovered (pr_discovered p) src eps) ep"
    and "e \<in> set eps" and "normalize e \<noteq> ep"
    and "discovered_peer p src eps cache now = (p', cache', fx)"
  shows "ep \<notin> cached_endpoints cache' (pr_key_b64 p) \<and>
    (\<exists>i t. t \<noteq> ep \<and> state (pr_fsm p') = Probing i 0 \<and> current_candidate (pr_fsm p') = Some t \<and>
       WgSetEndpoint (pr_wg_public p) t \<in> set fx)"
proof -
  define q where "q = p\<lparr>pr_discovered := replace_discovered (pr_discovered p) src eps\<rparr>"
  have q: "state (pr_fsm q) = Connected ep" "session_of q = None" "pr_key_b64 q = pr_key_b64 p" "pr_wg_public q = pr_wg_public p"
    "\<not> is_configured q ep" "\<not> reported_by_reliable_source (pr_discovered q) ep"
    using assms(1,2,4,5) by (simp_all add: q_def session_of_def is_configured_def)
  have na: "\<not> still_reported_by_authoritative_source (pr_discovered q) ep" using q(6) authoritative_reliable by blast
  define c where "c = evict cache (pr_key_b64 p) ep"
  have step: "discovered_peer p src eps cache now = (fst (leave_endpoint q ep c now), fst (snd (leave_endpoint q ep c now)),
      SaveCache c # snd (snd (leave_endpoint q ep c now)))"
    using q na unfolding discovered_peer_def q_def [symmetric]
    by (simp add: relayed_via_endpoint_def Let_def prune_endpoint_def c_def case_prod_unfold)
  have "candidates_for q c = build_candidates (sources_for q c)"
    using q(2) by (auto simp: candidates_for_def session_of_def split: option.splits)
  moreover have "e \<in> set (direct_sources (sources_for q c))"
    using reported_mem [OF assms(6), of src "pr_discovered p"] by (force simp: direct_sources_def sources_for_def Let_def q_def)
  ultimately obtain x where x: "x \<in> set (candidates_for q c)" "x \<noteq> ep" using candidates_have_other [OF _ assms(7)] by metis
  let ?f = "pr_fsm (fst (refresh_candidates q c now))"
  have f: "state ?f = Connected ep" "candidates ?f = dedup_onto [] (map normalize (candidates_for q c))"
    using q(1) by (simp_all add: set_candidates_def adopt_Connected)
  have act: "snd (refresh_candidates q c now) = []" using q(1) by (simp add: set_candidates_def adopt_Connected)
  have "normalize x = x" using x(1) \<open>candidates_for q c = _\<close> build_candidates_normal by simp
  then have "x \<in> set (candidates ?f)" using x(1) unfolding f(2) by force
  from retry_leaves [OF f(1) this, of "Some ep" now False] x(2) assms(3)
  obtain i t where t: "t \<noteq> ep" "snd (retry_from ?f (Some ep) now) = [SetEndpoint t, Nudge]"
    "state (fst (retry_from ?f (Some ep) now)) = Probing i 0" "current_candidate (fst (retry_from ?f (Some ep) now)) = Some t"
    by (auto simp: retry_from_def)
  have wg: "pr_wg_public (fst (refresh_candidates q c now)) = pr_wg_public p"
    using refresh_keeps [of q c now] q(4) by (simp add: keeps_def identity_def)
  have "cache' = c" "pr_fsm p' = fst (retry_from ?f (Some ep) now)" "WgSetEndpoint (pr_wg_public p) t \<in> set fx"
    using assms(8) step t(2) act wg by (auto simp: leave_endpoint_def Let_def case_prod_unfold)
  then show ?thesis using t assms(3) by (auto simp: c_def cached_evict)
qed

definition ex_moved :: peer_runtime where
  "ex_moved = ex_runtime\<lparr>pr_discovered := [(Lan, sock 7 1)], pr_fsm := (fsm_new [sock 7 1] 0)\<lparr>state := Connected (sock 7 1)\<rparr>\<rparr>"

theorem dead_address_left_witness:
  "\<exists>t. t \<noteq> sock 7 1 \<and> current_candidate (pr_fsm (fst (discovered_peer ex_moved Lan [sock 8 1] cache_new 10))) = Some t"
proof -
  obtain p' cache' fx where d: "discovered_peer ex_moved Lan [sock 8 1] cache_new 10 = (p', cache', fx)" by (metis surj_pair)
  have s: "state (pr_fsm ex_moved) = Connected (sock 7 1)" "session_of ex_moved = None" "normalize (sock 7 1) = sock 7 1"
    "\<not> is_configured ex_moved (sock 7 1)" "normalize (sock 8 1) \<noteq> sock 7 1"
    by (simp_all add: ex_moved_def session_of_def ex_runtime_def member_peer_def is_configured_def normalize_def sock_def)
  have r: "\<not> reported_by_reliable_source (replace_discovered (pr_discovered ex_moved) Lan [sock 8 1]) (sock 7 1)" by code_simp
  from dead_address_left [OF s(1-4) r _ s(5) d] show ?thesis unfolding d by auto
qed

section \<open>Two gaps\<close>

text \<open>
  A peer without any candidate never counts a round, so its relay is never asked: the tick neither moves
  its machine nor starts a registration.
\<close>

lemma no_candidates_no_relay:
  assumes "candidates (pr_fsm p) = []" and "state (pr_fsm p) = Probing i 0" and "\<not> handshake_is_fresh (last_handshake obs) now"
    and "pr_relay p = Some link" and "rl_session link = None"
  shows "tick (pr_fsm p) now obs = (pr_fsm p, [])" and "drive_relay ctx p cache inst now = (p, [], [])"
  using assms by (simp_all add: tick_def Let_def drive_relay_def drive_probing_def RELAY_AFTER_ROUNDS_def)

text \<open>
  A member persisted by an earlier run is back in the run-time table after a restart, but the start-up asks
  WireGuard for no peer, and when gossip admits the member again the event is ignored.
\<close>

lemma kick_adds_no_peer: "WgAddPeer spec \<notin> set (snd (snd (kick_peers now cache ps)))"
proof (induction ps arbitrary: cache)
  case (Cons p ps)
  have "WgAddPeer spec \<notin> set (snd (apply_actions now q c (snd (kick f now))))" for q c f
    by (simp add: kick_def split: punch_state.split option.split)
  then show ?case using Cons by (simp add: Let_def case_prod_unfold)
qed simp

lemma persisted_member_not_added:
  "WgAddPeer spec \<notin> set (snd (daemon_start tops vp ops cfg cf mf start now))"
  "p \<in> set (dm_peers d) \<Longrightarrow> pr_key_b64 p = to_base64 ops node \<Longrightarrow> on_member_admitted ctx ops node name a now d = (d, [])"
proof -
  show "WgAddPeer spec \<notin> set (snd (daemon_start tops vp ops cfg cf mf start now))"
    by (simp add: daemon_start_def Let_def case_prod_unfold kick_adds_no_peer)
  assume "p \<in> set (dm_peers d)" and "pr_key_b64 p = to_base64 ops node"
  then have "find_peer (dm_peers d) (to_base64 ops node) \<noteq> None" unfolding find_peer_None by (metis imageI)
  then show "on_member_admitted ctx ops node name a now d = (d, [])" by (auto simp: on_member_admitted_def Let_def)
qed

end
