(* ===== verification/Rendezvous_Record.thy ===== *)
theory Rendezvous_Record
  imports Candidates Contracts
begin

text \<open>
  The encrypted rendezvous records of the DHT and DDNS paths (\<open>crates/discovery/src/record.rs\<close>,
  \<open>client.rs\<close>, \<open>nodes.rs\<close>, \<open>ddns/mod.rs\<close>). The AEAD cipher, the JSON form of a payload and base64url
  are third-party code and parameters; what is relied on is stated in \<open>record_laws\<close>. The texts of the
  error messages are not modelled, their kinds are.
\<close>

section \<open>Records\<close>

record record_payload =
  rec_endpoints :: "socket_v6 list"
  rec_epoch :: u64

record record_ops =
  aead_encrypt :: "key32 \<Rightarrow> bytes \<Rightarrow> bytes \<Rightarrow> bytes option"
  aead_decrypt :: "key32 \<Rightarrow> bytes \<Rightarrow> bytes \<Rightarrow> bytes option"
  payload_to_json :: "record_payload \<Rightarrow> bytes option"
  payload_of_json :: "bytes \<Rightarrow> record_payload option"
  b64url_encode :: "bytes \<Rightarrow> string"
  b64url_decode :: "string \<Rightarrow> bytes option"

datatype record_error =
    SerializeFailed | EncryptFailed | RecordTooShort | DecryptFailed | PayloadInvalid | MissingPrefix | BadBase64url

definition NONCE_LEN :: nat where "NONCE_LEN = 12"
definition RENDEZVOUS_SEED_LEN :: nat where "RENDEZVOUS_SEED_LEN = 32"

definition derive_dht_key :: "hkdf \<Rightarrow> network_key \<Rightarrow> key32" where
  "derive_dht_key kdf key = from_be_bytes (kdf SALT (octets32 key) (ascii ''dht-record'') 32)"

text \<open>\<open>tag[..RENDEZVOUS_SEED_LEN]\<close> is the whole tag.\<close>

definition rendezvous_seed :: "hmac \<Rightarrow> key32 \<Rightarrow> public_key \<Rightarrow> key32" where
  "rendezvous_seed mac dht_key node =
     from_be_bytes (take RENDEZVOUS_SEED_LEN (octets32 (mac (octets32 dht_key) (ascii ''hextet-dht-sign'' @ octets32 node))))"

definition seal :: "record_ops \<Rightarrow> bytes \<Rightarrow> key32 \<Rightarrow> record_payload \<Rightarrow> (record_error, bytes) result" where
  "seal ops nonce_bytes key payload =
     (case payload_to_json ops payload of
        None \<Rightarrow> Inl SerializeFailed
      | Some json \<Rightarrow>
          (case aead_encrypt ops key nonce_bytes json of
             None \<Rightarrow> Inl EncryptFailed
           | Some ct \<Rightarrow> Inr (nonce_bytes @ ct)))"

definition open_record :: "record_ops \<Rightarrow> key32 \<Rightarrow> bytes \<Rightarrow> (record_error, record_payload) result" where
  "open_record ops key sealed =
     (if length sealed < NONCE_LEN + 16 then Inl RecordTooShort
      else case aead_decrypt ops key (take NONCE_LEN sealed) (drop NONCE_LEN sealed) of
        None \<Rightarrow> Inl DecryptFailed
      | Some plain \<Rightarrow> (case payload_of_json ops plain of None \<Rightarrow> Inl PayloadInvalid | Some p \<Rightarrow> Inr p))"

definition epoch_of :: "u64 \<Rightarrow> u64" where
  "epoch_of unix = unix div 3600"

definition usable_endpoints :: "ipv6 list \<Rightarrow> u16 \<Rightarrow> socket_v6 list" where
  "usable_endpoints addrs p =
     (if p = 0 then [] else map (\<lambda>a. sock a p) (filter is_usable_endpoint_addr addrs))"

text \<open>The filter of the reading side, in \<open>lookup\<close> and \<open>select_endpoints\<close>.\<close>

definition acceptable :: "socket_v6 \<Rightarrow> bool" where
  "acceptable e \<longleftrightarrow> port e \<noteq> 0 \<and> is_usable_endpoint_addr (ip e)"

section \<open>The DHT client\<close>

text \<open>
  \<open>ed_public\<close> gives the public key of a signing seed; \<open>recent\<close> is what \<open>get_mutable_most_recent\<close> returned
  for it; \<open>put_ok\<close> is whether \<open>put_mutable\<close> accepted the item. The sequence number is an \<open>i64\<close>.
\<close>

definition I64_MAX :: int where "I64_MAX = 2 ^ 63 - 1"

record mutable_item =
  mi_seq :: int
  mi_value :: bytes

record put_request =
  pu_public :: key32
  pu_item :: mutable_item
  pu_cas :: "int option"

datatype dht_error = SealError record_error | SeqExhausted | PutFailed

definition rendezvous_public :: "hmac \<Rightarrow> (key32 \<Rightarrow> key32) \<Rightarrow> key32 \<Rightarrow> public_key \<Rightarrow> key32" where
  "rendezvous_public mac ed_public dht_key node = ed_public (rendezvous_seed mac dht_key node)"

definition checked_next_seq :: "int \<Rightarrow> int option" where
  "checked_next_seq s = (if s + 1 \<le> I64_MAX then Some (s + 1) else None)"

definition dht_publish ::
  "record_ops \<Rightarrow> hmac \<Rightarrow> (key32 \<Rightarrow> key32) \<Rightarrow> (key32 \<Rightarrow> mutable_item option) \<Rightarrow> (put_request \<Rightarrow> bool) \<Rightarrow> bytes \<Rightarrow> key32 \<Rightarrow>
     public_key \<Rightarrow> socket_v6 list \<Rightarrow> u64 \<Rightarrow> (dht_error, put_request) result" where
  "dht_publish ops mac ed_public recent put_ok nonce_bytes key node eps epoch =
     (case seal ops nonce_bytes key \<lparr>rec_endpoints = eps, rec_epoch = epoch\<rparr> of
        Inl e \<Rightarrow> Inl (SealError e)
      | Inr value \<Rightarrow>
          let public = rendezvous_public mac ed_public key node in
          case (case recent public of
                  Some item \<Rightarrow> map_option (\<lambda>next. (next, Some (mi_seq item))) (checked_next_seq (mi_seq item))
                | None \<Rightarrow> Some (1, None)) of
            None \<Rightarrow> Inl SeqExhausted
          | Some (next, cas) \<Rightarrow>
              let req = \<lparr>pu_public = public, pu_item = \<lparr>mi_seq = next, mi_value = value\<rparr>, pu_cas = cas\<rparr>
              in if put_ok req then Inr req else Inl PutFailed)"

definition dht_lookup ::
  "record_ops \<Rightarrow> hmac \<Rightarrow> (key32 \<Rightarrow> key32) \<Rightarrow> (key32 \<Rightarrow> mutable_item option) \<Rightarrow> key32 \<Rightarrow> public_key \<Rightarrow>
     (record_error, socket_v6 list) result" where
  "dht_lookup ops mac ed_public recent key node =
     (case recent (rendezvous_public mac ed_public key node) of
        Some item \<Rightarrow> (case open_record ops key (mi_value item) of Inl e \<Rightarrow> Inl e | Inr p \<Rightarrow> Inr (filter acceptable (rec_endpoints p)))
      | None \<Rightarrow> Inr [])"

section \<open>The table of DHT nodes\<close>

definition NODES_VERSION :: u32 where "NODES_VERSION = 1"
definition MAX_NODES :: nat where "MAX_NODES = 128"

record dht_nodes_file =
  nf_version :: u32
  nf_nodes :: "string list"

definition nodes_new :: dht_nodes_file where
  "nodes_new = \<lparr>nf_version = NODES_VERSION, nf_nodes = []\<rparr>"

definition nodes_load :: "(io_error, dht_nodes_file) result \<Rightarrow> dht_nodes_file" where
  "nodes_load r = (case r of Inr n \<Rightarrow> if nf_version n = NODES_VERSION then n else nodes_new | Inl _ \<Rightarrow> nodes_new)"

text \<open>The learned nodes first, then the old ones they do not contain; \<open>dedup_onto\<close> is that loop.\<close>

definition nodes_refresh :: "dht_nodes_file \<Rightarrow> string list \<Rightarrow> dht_nodes_file" where
  "nodes_refresh n bootstrap = n\<lparr>nf_nodes := take MAX_NODES (dedup_onto bootstrap (nf_nodes n))\<rparr>"

section \<open>DDNS records\<close>

definition DDNS_PREFIX :: string where "DDNS_PREFIX = ''hxdd1.''"

definition derive_ddns_key :: "hkdf \<Rightarrow> network_key \<Rightarrow> key32" where
  "derive_ddns_key kdf key = from_be_bytes (kdf SALT (octets32 key) (ascii ''ddns-record'') 32)"

fun strip_prefix_str :: "string \<Rightarrow> string \<Rightarrow> string option" where
  "strip_prefix_str [] s = Some s"
| "strip_prefix_str (c # cs) [] = None"
| "strip_prefix_str (c # cs) (d # ds) = (if c = d then strip_prefix_str cs ds else None)"

definition render_record :: "record_ops \<Rightarrow> bytes \<Rightarrow> key32 \<Rightarrow> record_payload \<Rightarrow> (record_error, string) result" where
  "render_record ops nonce_bytes key payload =
     (case seal ops nonce_bytes key payload of Inl e \<Rightarrow> Inl e | Inr bs \<Rightarrow> Inr (DDNS_PREFIX @ b64url_encode ops bs))"

definition parse_record :: "record_ops \<Rightarrow> key32 \<Rightarrow> string \<Rightarrow> (record_error, record_payload) result" where
  "parse_record ops key txt =
     (case strip_prefix_str DDNS_PREFIX txt of
        None \<Rightarrow> Inl MissingPrefix
      | Some body \<Rightarrow> (case b64url_decode ops body of None \<Rightarrow> Inl BadBase64url | Some bs \<Rightarrow> open_record ops key bs))"

fun select_best :: "record_ops \<Rightarrow> key32 \<Rightarrow> (u64 \<times> socket_v6 list) option \<Rightarrow> string list \<Rightarrow> (u64 \<times> socket_v6 list) option" where
  "select_best ops key best [] = best"
| "select_best ops key best (s # ss) =
     (case parse_record ops key s of
        Inl _ \<Rightarrow> select_best ops key best ss
      | Inr p \<Rightarrow>
          if (case best of None \<Rightarrow> True | Some (epoch, _) \<Rightarrow> rec_epoch p > epoch)
          then select_best ops key (Some (rec_epoch p, rec_endpoints p)) ss
          else select_best ops key best ss)"

definition select_endpoints :: "record_ops \<Rightarrow> key32 \<Rightarrow> string list \<Rightarrow> socket_v6 list" where
  "select_endpoints ops key txts =
     filter acceptable (case select_best ops key None txts of None \<Rightarrow> [] | Some (_, eps) \<Rightarrow> eps)"

section \<open>What is relied on\<close>

text \<open>
  Decryption inverts encryption under the same key and nonce and the ciphertext is 16 bytes longer; the
  JSON form of a payload reads back when its endpoints carry no flow label and no scope (the text form of a
  socket address has no place for a flow label); base64url decoding inverts encoding.
\<close>

definition record_laws :: "record_ops \<Rightarrow> bool" where
  "record_laws ops \<longleftrightarrow>
     (\<forall>k n m ct. aead_encrypt ops k n m = Some ct \<longrightarrow> length ct = length m + 16 \<and> aead_decrypt ops k n ct = Some m) \<and>
     (\<forall>p j. (\<forall>e\<in>set (rec_endpoints p). normalize e = e) \<longrightarrow> payload_to_json ops p = Some j \<longrightarrow> payload_of_json ops j = Some p) \<and>
     (\<forall>bs. b64url_decode ops (b64url_encode ops bs) = Some bs)"

definition payload_plain :: "record_payload \<Rightarrow> bool" where
  "payload_plain p \<longleftrightarrow> (\<forall>e\<in>set (rec_endpoints p). normalize e = e)"

lemma open_seal:
  assumes "record_laws ops" and "payload_plain p" and "length nb = NONCE_LEN" and "seal ops nb key p = Inr bs"
  shows "open_record ops key bs = Inr p"
proof -
  from assms(4) obtain j ct where j: "payload_to_json ops p = Some j" and c: "aead_encrypt ops key nb j = Some ct" and bs: "bs = nb @ ct"
    by (auto simp: seal_def split: option.splits)
  have "length ct = length j + 16" "aead_decrypt ops key nb ct = Some j" "payload_of_json ops j = Some p"
    using assms(1,2) j c unfolding record_laws_def payload_plain_def by blast+
  then show ?thesis using assms(3) by (simp add: open_record_def bs)
qed

lemma strip_prefix_append [simp]: "strip_prefix_str p (p @ s) = Some s"
  by (induction p) auto

lemma strip_prefix_Some: "strip_prefix_str p s = Some r \<longleftrightarrow> s = p @ r"
  by (induction p s rule: strip_prefix_str.induct) auto

lemma parse_render:
  assumes "record_laws ops" and "payload_plain p" and "length nb = NONCE_LEN" and "render_record ops nb key p = Inr txt"
  shows "parse_record ops key txt = Inr p"
  using assms(4) open_seal [OF assms(1-3)] assms(1)
  by (auto simp: render_record_def parse_record_def record_laws_def split: sum.splits)

text \<open>Both record formats are texts that read back.\<close>

interpretation sealed_record: reversible "seal ops nb key" "open_record ops key" "\<lambda>p. record_laws ops \<and> payload_plain p \<and> length nb = NONCE_LEN"
  for ops nb key
  by unfold_locales (blast intro: open_seal)

interpretation ddns_record: reversible "render_record ops nb key" "parse_record ops key" "\<lambda>p. record_laws ops \<and> payload_plain p \<and> length nb = NONCE_LEN"
  for ops nb key
  by unfold_locales (blast intro: parse_render)

lemma usable_plain: "payload_plain \<lparr>rec_endpoints = take n (usable_endpoints addrs p), rec_epoch = e\<rparr>"
  by (auto simp: payload_plain_def usable_endpoints_def normalize_def sock_def split: if_splits dest!: in_set_takeD)

lemma usable_acceptable: "e \<in> set (usable_endpoints addrs p) \<Longrightarrow> acceptable e"
  by (auto simp: usable_endpoints_def acceptable_def sock_def split: if_splits)

lemma filter_usable: "filter acceptable (take n (usable_endpoints addrs p)) = take n (usable_endpoints addrs p)"
  by (rule filter_True) (auto intro: usable_acceptable dest: in_set_takeD)

section \<open>Choosing the newest record\<close>

definition parsed :: "record_ops \<Rightarrow> key32 \<Rightarrow> string list \<Rightarrow> record_payload list" where
  "parsed ops key txts = List.map_filter (\<lambda>s. case parse_record ops key s of Inl _ \<Rightarrow> None | Inr p \<Rightarrow> Some p) txts"

text \<open>The first payload whose epoch no other exceeds.\<close>

definition newest_payload :: "record_payload list \<Rightarrow> record_payload option" where
  "newest_payload ps = find (\<lambda>p. list_all (\<lambda>q. rec_epoch q \<le> rec_epoch p) ps) ps"

fun best_payload :: "record_payload option \<Rightarrow> record_payload list \<Rightarrow> record_payload option" where
  "best_payload b [] = b"
| "best_payload b (p # ps) = best_payload (if (case b of None \<Rightarrow> True | Some q \<Rightarrow> rec_epoch p > rec_epoch q) then Some p else b) ps"

lemma select_best_parsed:
  "select_best ops key (map_option (\<lambda>p. (rec_epoch p, rec_endpoints p)) b) txts =
     map_option (\<lambda>p. (rec_epoch p, rec_endpoints p)) (best_payload b (parsed ops key txts))"
proof (induction txts arbitrary: b)
  case Nil
  show ?case by (simp add: parsed_def map_filter_simps)
next
  case (Cons t txts)
  show ?case
  proof (cases "parse_record ops key t")
    case (Inl e)
    then show ?thesis using Cons.IH [of b] by (simp add: parsed_def map_filter_simps)
  next
    case (Inr p)
    then show ?thesis using Cons.IH [of b] Cons.IH [of "Some p"]
      by (cases b) (simp_all add: parsed_def map_filter_simps)
  qed
qed

lemma best_payload_Some: "best_payload (Some b) ps = newest_payload (b # ps)"
proof (induction ps arbitrary: b)
  case Nil
  show ?case by (simp add: newest_payload_def)
next
  case (Cons p ps)
  let ?top = "\<lambda>b x. rec_epoch b \<le> rec_epoch x \<and> list_all (\<lambda>q. rec_epoch q \<le> rec_epoch x) ps"
  have expand: "newest_payload (b # ps) = (if list_all (\<lambda>q. rec_epoch q \<le> rec_epoch b) ps then Some b else find (?top b) ps)" for b
    by (simp add: newest_payload_def)
  show ?case
  proof (cases "rec_epoch p > rec_epoch b")
    case True
    have "newest_payload (b # p # ps) = newest_payload (p # ps)"
      using True by (auto simp: newest_payload_def intro!: find_cong)
    then show ?thesis using True Cons.IH by simp
  next
    case False
    then have le: "rec_epoch p \<le> rec_epoch b" by simp
    have "find (\<lambda>x. rec_epoch b \<le> rec_epoch x \<and> rec_epoch p \<le> rec_epoch x \<and> list_all (\<lambda>q. rec_epoch q \<le> rec_epoch x) ps) ps = find (?top b) ps"
      using le by (intro find_cong) auto
    moreover have "list_all (\<lambda>q. rec_epoch q \<le> rec_epoch b) ps" if "?top b p"
      using that le by (auto simp: list_all_iff intro: order_trans)
    ultimately have "newest_payload (b # p # ps) = newest_payload (b # ps)"
      using le unfolding expand by (auto simp: newest_payload_def)
    then show ?thesis using False Cons.IH by simp
  qed
qed

lemma select_best_newest:
  "select_best ops key None txts = map_option (\<lambda>p. (rec_epoch p, rec_endpoints p)) (newest_payload (parsed ops key txts))"
proof -
  have "best_payload None ps = newest_payload ps" for ps
    by (cases ps) (simp_all add: best_payload_Some, simp add: newest_payload_def)
  then show ?thesis using select_best_parsed [of ops key None txts] by simp
qed

section \<open>Publishing and looking up\<close>

text \<open>A peer that looks a node up in the DHT finds exactly what the node published: given the item the
  node put there, the lookup under the same network key, on the same derived slot, opens the record and
  returns every published endpoint; and the put carries the next sequence number and the old one as its
  guard, so that a concurrent writer is noticed.\<close>

lemma dht_lookup_finds:
  assumes "record_laws ops" and "length nb = NONCE_LEN"
    and "dht_publish ops mac ed recent put_ok nb key node (take n (usable_endpoints addrs p)) epoch = Inr req"
    and "recent' (pu_public req) = Some (pu_item req)"
  shows "dht_lookup ops mac ed recent' key node = Inr (take n (usable_endpoints addrs p)) \<and>
    pu_cas req = map_option mi_seq (recent (pu_public req)) \<and>
    mi_seq (pu_item req) = (case recent (pu_public req) of None \<Rightarrow> 1 | Some item \<Rightarrow> mi_seq item + 1) \<and>
    (\<forall>item. recent (pu_public req) = Some item \<longrightarrow> mi_seq item < I64_MAX)"
proof -
  let ?p = "\<lparr>rec_endpoints = take n (usable_endpoints addrs p), rec_epoch = epoch\<rparr>"
  from assms(3) obtain sealed where v: "seal ops nb key ?p = Inr sealed"
    and r: "pu_public req = rendezvous_public mac ed key node" "mi_value (pu_item req) = sealed"
    "pu_cas req = map_option mi_seq (recent (pu_public req))"
    "mi_seq (pu_item req) = (case recent (pu_public req) of None \<Rightarrow> 1 | Some item \<Rightarrow> mi_seq item + 1)"
    "\<forall>item. recent (pu_public req) = Some item \<longrightarrow> mi_seq item < I64_MAX"
    by (auto simp: dht_publish_def Let_def checked_next_seq_def split: sum.splits option.splits if_splits)
  have "open_record ops key sealed = Inr ?p"
    using sealed_record.reads_back [OF _ v] assms(1,2) usable_plain by blast
  then show ?thesis using r assms(4) by (simp add: dht_lookup_def filter_usable)
qed

section \<open>Properties\<close>

text \<open>Of the TXT strings a DDNS lookup returns, exactly the newest counts: the result is the
  acceptable endpoints of the first record with the highest epoch among those that decrypt, and nothing if
  none decrypts; strings that are not records of this network do not matter.\<close>

theorem ddns_selects_newest:
  "select_endpoints ops key txts =
     (case newest_payload (parsed ops key txts) of None \<Rightarrow> [] | Some p \<Rightarrow> filter acceptable (rec_endpoints p)) \<and>
   (\<forall>e\<in>set (select_endpoints ops key txts). port e \<noteq> 0 \<and> is_usable_endpoint_addr (ip e))"
  by (auto simp: select_endpoints_def select_best_newest acceptable_def split: option.splits)

text \<open>Instances of the parameters that satisfy the laws.\<close>

definition ex_addr1 :: ipv6 where "ex_addr1 = push_bit 112 0x2001 + 1"

definition ex_payload :: record_payload where
  "ex_payload = \<lparr>rec_endpoints = [sock ex_addr1 4193], rec_epoch = 7\<rparr>"

definition ex_record_ops :: record_ops where
  "ex_record_ops = \<lparr>aead_encrypt = (\<lambda>k n m. Some (replicate 16 0 @ m)), aead_decrypt = (\<lambda>k n c. Some (drop 16 c)),
     payload_to_json = (\<lambda>p. if p = ex_payload then Some [1] else None), payload_of_json = (\<lambda>_. Some ex_payload),
     b64url_encode = str_of_bytes, b64url_decode = (\<lambda>s. Some (ascii s))\<rparr>"

lemma ex_record_laws: "record_laws ex_record_ops"
  by (simp add: record_laws_def ex_record_ops_def)

theorem ddns_selects_newest_witness:
  "select_endpoints ex_record_ops 5 [''junk'', DDNS_PREFIX @ str_of_bytes (replicate 28 0)] = [sock ex_addr1 4193]"
proof -
  have a: "acceptable (sock ex_addr1 4193)" by code_simp
  have "parse_record ex_record_ops 5 (DDNS_PREFIX @ str_of_bytes (replicate 28 0)) = Inr ex_payload"
    by (simp add: parse_record_def open_record_def ex_record_ops_def NONCE_LEN_def)
  moreover have "parse_record ex_record_ops 5 ''junk'' = Inl MissingPrefix"
    by (simp add: parse_record_def DDNS_PREFIX_def)
  ultimately have "parsed ex_record_ops 5 [''junk'', DDNS_PREFIX @ str_of_bytes (replicate 28 0)] = [ex_payload]"
    by (simp add: parsed_def map_filter_simps)
  with ddns_selects_newest [of ex_record_ops 5 "[''junk'', DDNS_PREFIX @ str_of_bytes (replicate 28 0)]"] a
  show ?thesis by (simp add: newest_payload_def ex_payload_def)
qed

end
