(* ===== verification/Rendezvous_Tasks.thy ===== *)
theory Rendezvous_Tasks
  imports Rendezvous_Record Node_Config Engine_State
begin

text \<open>
  The DHT and DDNS tasks of the daemon (\<open>crates/engine/src/dht.rs\<close>, \<open>ddns.rs\<close>) and the writers of DDNS
  records (\<open>crates/discovery/src/ddns/updater.rs\<close>, \<open>resolver.rs\<close>). A task is a function from its state and
  one event of its loop to the new state, or nothing when the task ends, and what it sends. The DHT, the
  DNS resolver, the HTTP client and the list of local addresses are parameters of the events.
\<close>

section \<open>The DHT task\<close>

definition DHT_PUBLISH_INTERVAL :: int where "DHT_PUBLISH_INTERVAL = secs (55 * 60)"
definition DHT_LOOKUP_INTERVAL :: int where "DHT_LOOKUP_INTERVAL = secs 30"
definition LOOKUP_BUDGET :: int where "LOOKUP_BUDGET = secs 20"
definition MAX_PUBLISHED_ENDPOINTS :: nat where "MAX_PUBLISHED_ENDPOINTS = 8"
definition NODES_SAVE_INTERVAL :: int where "NODES_SAVE_INTERVAL = secs (10 * 60)"

record dht_config =
  dc_key :: key32
  dc_own_public :: public_key
  dc_listen_port :: u16

record dht_env =
  en_ops :: record_ops
  en_mac :: hmac
  en_ed_public :: "key32 \<Rightarrow> key32"
  en_from_base64 :: "string \<Rightarrow> (identity_error, public_key) result"
  en_to_base64 :: "public_key \<Rightarrow> string"

text \<open>The state of the DHT a step sees: the most recent items and whether a put succeeds.\<close>

record dht_view =
  dv_recent :: "key32 \<Rightarrow> mutable_item option"
  dv_put_ok :: "put_request \<Rightarrow> bool"

record dht_task =
  dt_peers :: "public_key list"
  dt_nodes :: dht_nodes_file

datatype dht_output = DhtPut put_request | DhtDiscovered discovered_endpoints | SaveNodes dht_nodes_file

definition parse_peers :: "dht_env \<Rightarrow> string list \<Rightarrow> public_key list" where
  "parse_peers env bs = List.map_filter (\<lambda>b. case en_from_base64 env b of Inl _ \<Rightarrow> None | Inr k \<Rightarrow> Some k) bs"

definition dht_publish_own ::
  "dht_env \<Rightarrow> dht_config \<Rightarrow> dht_view \<Rightarrow> bytes \<Rightarrow> ('x, ipv6 list) result \<Rightarrow> u64 \<Rightarrow> put_request option" where
  "dht_publish_own env cfg view nonce_bytes addrs now =
     (case addrs of
        Inl _ \<Rightarrow> None
      | Inr as \<Rightarrow>
          if as = [] then None
          else let eps = take MAX_PUBLISHED_ENDPOINTS (usable_endpoints as (dc_listen_port cfg)) in
            if eps = [] then None
            else case dht_publish (en_ops env) (en_mac env) (en_ed_public env) (dv_recent view) (dv_put_ok view) nonce_bytes
                        (dc_key cfg) (dc_own_public cfg) eps (epoch_of now) of
                   Inl _ \<Rightarrow> None
                 | Inr req \<Rightarrow> Some req)"

text \<open>
  One round of lookups; the peers are those reached before the budget ran out. \<open>rx\<close> is whether the daemon
  still takes the event; when it does not, the task ends.
\<close>

fun dht_lookup_round ::
  "dht_env \<Rightarrow> dht_config \<Rightarrow> dht_view \<Rightarrow> (discovered_endpoints \<Rightarrow> bool) \<Rightarrow> public_key list \<Rightarrow> discovered_endpoints list \<times> bool" where
  "dht_lookup_round env cfg view rx [] = ([], False)"
| "dht_lookup_round env cfg view rx (p # ps) =
     (case dht_lookup (en_ops env) (en_mac env) (en_ed_public env) (dv_recent view) (dc_key cfg) p of
        Inl _ \<Rightarrow> dht_lookup_round env cfg view rx ps
      | Inr eps \<Rightarrow>
          if eps = [] then dht_lookup_round env cfg view rx ps
          else let d = \<lparr>de_source = Dht, peer_key = en_to_base64 env p, endpoints = eps\<rparr> in
            if \<not> rx d then ([], True)
            else case dht_lookup_round env cfg view rx ps of (ds, closed) \<Rightarrow> (d # ds, closed))"

datatype 'x dht_event =
    DhtPublishTick dht_view bytes "('x, ipv6 list) result" u64
  | DhtLookupTick dht_view nat "discovered_endpoints \<Rightarrow> bool"
  | DhtSaveTick "string list"
  | DhtKick "(dht_view \<times> bytes \<times> ('x, ipv6 list) result \<times> u64) option"
  | DhtUpdatePeers "string list option"

definition dht_start :: "dht_env \<Rightarrow> (io_error, dht_nodes_file) result \<Rightarrow> string list \<Rightarrow> dht_task" where
  "dht_start env file bs = \<lparr>dt_peers = parse_peers env bs, dt_nodes = nodes_load file\<rparr>"

definition put_output :: "put_request option \<Rightarrow> dht_output list" where
  "put_output r = (case r of None \<Rightarrow> [] | Some req \<Rightarrow> [DhtPut req])"

fun dht_serve :: "dht_env \<Rightarrow> dht_config \<Rightarrow> dht_task \<Rightarrow> 'x dht_event \<Rightarrow> dht_task option \<times> dht_output list" where
  "dht_serve env cfg t (DhtPublishTick view nb addrs now) = (Some t, put_output (dht_publish_own env cfg view nb addrs now))"
| "dht_serve env cfg t (DhtLookupTick view reached rx) =
     (case dht_lookup_round env cfg view rx (take reached (dt_peers t)) of
        (ds, closed) \<Rightarrow> (if closed then None else Some t, map DhtDiscovered ds))"
| "dht_serve env cfg t (DhtSaveTick bootstrap) =
     (let n = nodes_refresh (dt_nodes t) bootstrap in (Some (t\<lparr>dt_nodes := n\<rparr>), [SaveNodes n]))"
| "dht_serve env cfg t (DhtKick None) = (None, [])"
| "dht_serve env cfg t (DhtKick (Some (view, nb, addrs, now))) = (Some t, put_output (dht_publish_own env cfg view nb addrs now))"
| "dht_serve env cfg t (DhtUpdatePeers None) = (None, [])"
| "dht_serve env cfg t (DhtUpdatePeers (Some bs)) = (Some (t\<lparr>dt_peers := parse_peers env bs\<rparr>), [])"

section \<open>The DDNS task\<close>

definition DDNS_PUBLISH_INTERVAL :: int where "DDNS_PUBLISH_INTERVAL = secs (15 * 60)"
definition DDNS_LOOKUP_INTERVAL :: int where "DDNS_LOOKUP_INTERVAL = secs 30"
definition DDNS_MAX_PUBLISHED :: nat where "DDNS_MAX_PUBLISHED = 2"

record ddns_peer =
  dp_key_b64 :: string
  dp_fqdn :: "string option"

record ddns_config =
  dd_key :: key32
  dd_listen_port :: u16
  dd_fqdn :: "string option"

text \<open>What a TXT query gives: its strings, that there is no such record, or a failure.\<close>

datatype txt_answer = TxtStrings "string list" | NoRecords | TxtFailed

definition lookup_peer :: "record_ops \<Rightarrow> key32 \<Rightarrow> txt_answer \<Rightarrow> (unit, socket_v6 list) result" where
  "lookup_peer ops key ans =
     (case ans of TxtStrings ss \<Rightarrow> Inr (select_endpoints ops key ss) | NoRecords \<Rightarrow> Inr [] | TxtFailed \<Rightarrow> Inl ())"

text \<open>\<open>publish_own\<close>: the name and the TXT value handed to the updater, if any.\<close>

definition ddns_publish_own :: "record_ops \<Rightarrow> ddns_config \<Rightarrow> bool \<Rightarrow> bytes \<Rightarrow> ('x, ipv6 list) result \<Rightarrow> u64 \<Rightarrow> (string \<times> string) option" where
  "ddns_publish_own ops cfg has_updater nonce_bytes addrs now =
     (case dd_fqdn cfg of
        None \<Rightarrow> None
      | Some fqdn \<Rightarrow>
          if \<not> has_updater then None
          else case addrs of
            Inl _ \<Rightarrow> None
          | Inr as \<Rightarrow>
              let usable = usable_endpoints as (dd_listen_port cfg) in
              if usable = [] then None
              else case render_record ops nonce_bytes (dd_key cfg) \<lparr>rec_endpoints = take DDNS_MAX_PUBLISHED usable, rec_epoch = epoch_of now\<rparr> of
                Inl _ \<Rightarrow> None
              | Inr v \<Rightarrow> Some (fqdn, v))"

fun ddns_lookup_round ::
  "record_ops \<Rightarrow> key32 \<Rightarrow> (string \<Rightarrow> txt_answer) \<Rightarrow> (discovered_endpoints \<Rightarrow> bool) \<Rightarrow> ddns_peer list \<Rightarrow> discovered_endpoints list \<times> bool" where
  "ddns_lookup_round ops key dns rx [] = ([], False)"
| "ddns_lookup_round ops key dns rx (p # ps) =
     (case dp_fqdn p of
        None \<Rightarrow> ddns_lookup_round ops key dns rx ps
      | Some fqdn \<Rightarrow>
          (case lookup_peer ops key (dns fqdn) of
             Inl _ \<Rightarrow> ddns_lookup_round ops key dns rx ps
           | Inr eps \<Rightarrow>
               if eps = [] then ddns_lookup_round ops key dns rx ps
               else let d = \<lparr>de_source = Ddns, peer_key = dp_key_b64 p, endpoints = eps\<rparr> in
                 if \<not> rx d then ([], True)
                 else case ddns_lookup_round ops key dns rx ps of (ds, closed) \<Rightarrow> (d # ds, closed)))"

datatype 'x ddns_event =
    DdnsPublishTick bytes "('x, ipv6 list) result" u64
  | DdnsLookupTick "string \<Rightarrow> txt_answer" "discovered_endpoints \<Rightarrow> bool"
  | DdnsKick "(bytes \<times> ('x, ipv6 list) result \<times> u64) option"
  | DdnsUpdatePeers "ddns_peer list option"

datatype ddns_output = SetTxt string string | DdnsDiscovered discovered_endpoints

definition txt_output :: "(string \<times> string) option \<Rightarrow> ddns_output list" where
  "txt_output r = (case r of None \<Rightarrow> [] | Some (fqdn, v) \<Rightarrow> [SetTxt fqdn v])"

fun ddns_serve :: "record_ops \<Rightarrow> ddns_config \<Rightarrow> bool \<Rightarrow> ddns_peer list \<Rightarrow> 'x ddns_event \<Rightarrow> ddns_peer list option \<times> ddns_output list" where
  "ddns_serve ops cfg upd ps (DdnsPublishTick nb addrs now) = (Some ps, txt_output (ddns_publish_own ops cfg upd nb addrs now))"
| "ddns_serve ops cfg upd ps (DdnsLookupTick dns rx) =
     (case ddns_lookup_round ops (dd_key cfg) dns rx ps of
        (ds, closed) \<Rightarrow> (if closed then None else Some ps, map DdnsDiscovered ds))"
| "ddns_serve ops cfg upd ps (DdnsKick None) = (None, [])"
| "ddns_serve ops cfg upd ps (DdnsKick (Some (nb, addrs, now))) = (Some ps, txt_output (ddns_publish_own ops cfg upd nb addrs now))"
| "ddns_serve ops cfg upd ps (DdnsUpdatePeers None) = (None, [])"
| "ddns_serve ops cfg upd ps (DdnsUpdatePeers (Some qs)) = (Some qs, [])"

section \<open>The updaters\<close>

datatype json = JNull | JBool bool | JNum int | JStr string | JArr "json list" | JObj "(string \<times> json) list"

fun json_get :: "string \<Rightarrow> json \<Rightarrow> json option" where
  "json_get k (JObj kvs) = map_of (rev kvs) k"
| "json_get k _ = None"

fun json_first :: "json \<Rightarrow> json option" where
  "json_first (JArr (j # _)) = Some j"
| "json_first _ = None"

fun as_str :: "json \<Rightarrow> string option" where
  "as_str (JStr s) = Some s"
| "as_str _ = None"

text \<open>\<open>pointer("/result/0/id").and_then(as_str)\<close>; index 0 of an object is its key \<open>"0"\<close>.\<close>

definition json_item :: "json \<Rightarrow> json option" where
  "json_item j = (case j of JObj _ \<Rightarrow> json_get ''0'' j | _ \<Rightarrow> json_first j)"

definition first_id :: "json \<Rightarrow> string option" where
  "first_id body = Option.bind (Option.bind (Option.bind (json_get ''result'' body) json_item) (json_get ''id'')) as_str"

definition api_success :: "json \<Rightarrow> bool" where
  "api_success body \<longleftrightarrow> json_get ''success'' body = Some (JBool True)"

datatype http_method = GET | POST | PUT

record http_request =
  hq_method :: http_method
  hq_url :: string
  hq_bearer :: "string option"
  hq_body :: "json option"

text \<open>A response has a status and, when its body is JSON, that value. The client sees a history of requests.\<close>

record http_response =
  hs_status :: nat
  hs_json :: "json option"

type_synonym http_client = "http_request list \<Rightarrow> http_request \<Rightarrow> http_response option"

datatype update_error = RequestFailed | BadStatus nat | NotJson | ApiFailed json | ZoneNotFound string | ZoneEmpty | BadUrl

definition webhook_new :: "(string \<Rightarrow> bool) \<Rightarrow> string \<Rightarrow> string option \<Rightarrow> (update_error, string \<times> string option) result" where
  "webhook_new url_parses url token = (if url_parses url then Inr (url, token) else Inl BadUrl)"

definition webhook_request :: "string \<Rightarrow> string option \<Rightarrow> string \<Rightarrow> string \<Rightarrow> http_request" where
  "webhook_request url token fqdn v =
     \<lparr>hq_method = POST, hq_url = url, hq_bearer = token, hq_body = Some (JObj [(''fqdn'', JStr fqdn), (''value'', JStr v)])\<rparr>"

definition webhook_set_txt :: "http_client \<Rightarrow> string \<Rightarrow> string option \<Rightarrow> string \<Rightarrow> string \<Rightarrow> http_request list \<times> (update_error, unit) result" where
  "webhook_set_txt http url token fqdn v =
     (let req = webhook_request url token fqdn v in
      ([req], case http [] req of
                None \<Rightarrow> Inl RequestFailed
              | Some resp \<Rightarrow> if 200 \<le> hs_status resp \<and> hs_status resp < 300 then Inr () else Inl (BadStatus (hs_status resp))))"

definition CF_BASE :: string where "CF_BASE = ''https://api.cloudflare.com/client/v4''"

record cloudflare_updater =
  cu_token :: string
  cu_zone :: string
  cu_base :: string

definition cloudflare_new :: "string \<Rightarrow> string \<Rightarrow> (update_error, cloudflare_updater) result" where
  "cloudflare_new token zone =
     (if str_trim zone = [] then Inl ZoneEmpty else Inr \<lparr>cu_token = token, cu_zone = zone, cu_base = CF_BASE\<rparr>)"

definition hex_digit_upper :: "nat \<Rightarrow> char" where
  "hex_digit_upper n = (if n < 10 then char_of (48 + n) else char_of (55 + n))"

definition unreserved :: "char \<Rightarrow> bool" where
  "unreserved c \<longleftrightarrow>
     (let n = of_char c :: nat in
      65 \<le> n \<and> n \<le> 90 \<or> 97 \<le> n \<and> n \<le> 122 \<or> 48 \<le> n \<and> n \<le> 57 \<or> c = CHR ''-'' \<or> c = CHR ''_'' \<or> c = CHR ''.'' \<or> c = CHR ''~'')"

fun urlencode :: "string \<Rightarrow> string" where
  "urlencode [] = []"
| "urlencode (c # s) =
     (if unreserved c then c # urlencode s
      else CHR ''%'' # hex_digit_upper (of_char c div 16) # hex_digit_upper (of_char c mod 16) # urlencode s)"

definition cf_request :: "cloudflare_updater \<Rightarrow> http_method \<Rightarrow> string \<Rightarrow> json option \<Rightarrow> http_request" where
  "cf_request cf m path body = \<lparr>hq_method = m, hq_url = cu_base cf @ path, hq_bearer = Some (cu_token cf), hq_body = body\<rparr>"

text \<open>A request whose JSON answer must report success.\<close>

definition cf_call :: "http_client \<Rightarrow> http_request list \<Rightarrow> http_request \<Rightarrow> (update_error, json) result" where
  "cf_call http hist req =
     (case http hist req of
        None \<Rightarrow> Inl RequestFailed
      | Some resp \<Rightarrow>
          (case hs_json resp of
             None \<Rightarrow> Inl NotJson
           | Some body \<Rightarrow> if api_success body then Inr body else Inl (ApiFailed body)))"

definition zone_request :: "cloudflare_updater \<Rightarrow> http_request" where
  "zone_request cf = cf_request cf GET (''/zones?name='' @ urlencode (cu_zone cf)) None"

definition record_request :: "cloudflare_updater \<Rightarrow> string \<Rightarrow> string \<Rightarrow> http_request" where
  "record_request cf zone_id fqdn = cf_request cf GET (''/zones/'' @ zone_id @ ''/dns_records?type=TXT&name='' @ urlencode fqdn) None"

definition upsert_request :: "cloudflare_updater \<Rightarrow> string \<Rightarrow> string option \<Rightarrow> string \<Rightarrow> string \<Rightarrow> http_request" where
  "upsert_request cf zone_id record_id fqdn v =
     (let payload = JObj [(''type'', JStr ''TXT''), (''name'', JStr fqdn), (''content'', JStr v), (''ttl'', JNum 300)] in
      case record_id of
        Some rid \<Rightarrow> cf_request cf PUT (''/zones/'' @ zone_id @ ''/dns_records/'' @ rid) (Some payload)
      | None \<Rightarrow> cf_request cf POST (''/zones/'' @ zone_id @ ''/dns_records'') (Some payload))"

definition cf_set_txt :: "http_client \<Rightarrow> cloudflare_updater \<Rightarrow> string \<Rightarrow> string \<Rightarrow> http_request list \<times> (update_error, unit) result" where
  "cf_set_txt http cf fqdn v =
     (let r1 = zone_request cf in
      case cf_call http [] r1 of
        Inl e \<Rightarrow> ([r1], Inl e)
      | Inr zones \<Rightarrow>
          (case first_id zones of
             None \<Rightarrow> ([r1], Inl (ZoneNotFound (cu_zone cf)))
           | Some zone_id \<Rightarrow>
               let r2 = record_request cf zone_id fqdn in
               case cf_call http [r1] r2 of
                 Inl e \<Rightarrow> ([r1, r2], Inl e)
               | Inr records \<Rightarrow>
                   let r3 = upsert_request cf zone_id (first_id records) fqdn v in
                   ([r1, r2, r3], case cf_call http [r1, r2] r3 of Inl e \<Rightarrow> Inl e | Inr _ \<Rightarrow> Inr ())))"

datatype ddns_updater = WebhookUpdater string "string option" | CloudflareUpdater cloudflare_updater

fun set_txt :: "http_client \<Rightarrow> ddns_updater \<Rightarrow> string \<Rightarrow> string \<Rightarrow> http_request list \<times> (update_error, unit) result" where
  "set_txt http (WebhookUpdater url token) fqdn v = webhook_set_txt http url token fqdn v"
| "set_txt http (CloudflareUpdater cf) fqdn v = cf_set_txt http cf fqdn v"

section \<open>Facts\<close>

text \<open>Percent decoding as a server does it.\<close>

definition hex_value :: "char \<Rightarrow> nat" where
  "hex_value c = (let n = of_char c :: nat in if n \<le> 57 then n - 48 else n - 55)"

fun percent_decode :: "string \<Rightarrow> string" where
  "percent_decode (CHR ''%'' # a # b # s) = char_of (hex_value a * 16 + hex_value b) # percent_decode s"
| "percent_decode (c # s) = c # percent_decode s"
| "percent_decode [] = []"

lemma char_nibbles: "of_char c div 16 < (16 :: nat)" "of_char c mod 16 < (16 :: nat)"
  using nat_of_char_less_256 [of c] by (simp_all add: div_less_iff_less_mult del: nat_of_char_less_256)

lemma hex_value_digit: "n < 16 \<Longrightarrow> hex_value (hex_digit_upper n) = n"
  by (auto simp: hex_value_def hex_digit_upper_def)

lemma hex_digit_unreserved: "n < 16 \<Longrightarrow> unreserved (hex_digit_upper n)"
  by (auto simp: unreserved_def hex_digit_upper_def)

lemma percent_reserved: "\<not> unreserved (CHR ''%'')"
  by code_simp

lemma reserved_chars: "c \<in> {CHR ''&'', CHR ''/'', CHR ''#'', CHR ''?''} \<Longrightarrow> \<not> unreserved c \<and> c \<noteq> CHR ''%''"
proof -
  have "\<not> unreserved (CHR ''&'')" "\<not> unreserved (CHR ''/'')" "\<not> unreserved (CHR ''#'')" "\<not> unreserved (CHR ''?'')" by code_simp+
  then show "c \<in> {CHR ''&'', CHR ''/'', CHR ''#'', CHR ''?''} \<Longrightarrow> \<not> unreserved c \<and> c \<noteq> CHR ''%''" by auto
qed

lemma percent_decode_other: "c \<noteq> CHR ''%'' \<Longrightarrow> percent_decode (c # s) = c # percent_decode s"
  by (cases "c # s" rule: percent_decode.cases) auto

lemma percent_decode_urlencode: "percent_decode (urlencode s) = s"
proof (induction s)
  case (Cons c s)
  show ?case
  proof (cases "unreserved c")
    case True
    then have "c \<noteq> CHR ''%''" using percent_reserved by blast
    then show ?thesis using True Cons.IH by (simp add: percent_decode_other)
  next
    case False
    have "of_char c div 16 * 16 + of_char c mod 16 = (of_char c :: nat)" by simp
    then show ?thesis using False Cons.IH by (simp add: hex_value_digit char_nibbles)
  qed
qed simp

lemma urlencode_safe: "c \<in> set (urlencode s) \<Longrightarrow> unreserved c \<or> c = CHR ''%''"
proof (induction s)
  case (Cons a s)
  then show ?case by (auto simp: hex_digit_unreserved char_nibbles split: if_splits)
qed simp

lemma dht_round_open:
  "\<forall>d. rx d \<Longrightarrow> \<not> snd (dht_lookup_round env cfg view rx ps)"
  by (induction ps) (auto simp: Let_def split: sum.splits prod.splits)

lemma dht_round_finds:
  assumes "\<forall>d. rx d" and "p \<in> set ps" and "eps \<noteq> []"
    and "dht_lookup (en_ops env) (en_mac env) (en_ed_public env) (dv_recent view) (dc_key cfg) p = Inr eps"
  shows "\<lparr>de_source = Dht, peer_key = en_to_base64 env p, endpoints = eps\<rparr> \<in> set (fst (dht_lookup_round env cfg view rx ps))"
  using assms by (induction ps) (auto simp: Let_def case_prod_unfold split: sum.splits)

lemma dht_round_acceptable:
  "d \<in> set (fst (dht_lookup_round env cfg view rx ps)) \<Longrightarrow>
     de_source d = Dht \<and> endpoints d \<noteq> [] \<and> (\<forall>e\<in>set (endpoints d). acceptable e) \<and> peer_key d \<in> en_to_base64 env ` set ps"
  by (induction ps) (auto simp: Let_def dht_lookup_def split: sum.splits prod.splits if_splits option.splits)

lemma ddns_round_finds:
  assumes "\<forall>d. rx d" and "p \<in> set ps" and "dp_fqdn p = Some fqdn" and "eps \<noteq> []" and "lookup_peer ops key (dns fqdn) = Inr eps"
  shows "\<lparr>de_source = Ddns, peer_key = dp_key_b64 p, endpoints = eps\<rparr> \<in> set (fst (ddns_lookup_round ops key dns rx ps))"
  using assms by (induction ps) (auto simp: Let_def case_prod_unfold split: sum.splits option.splits)

lemma ddns_round_open: "\<forall>d. rx d \<Longrightarrow> \<not> snd (ddns_lookup_round ops key dns rx ps)"
  by (induction ps) (auto simp: Let_def split: sum.splits prod.splits option.splits)

lemma newest_unique:
  assumes "p \<in> set ps" and "\<forall>q\<in>set ps. q = p \<or> rec_epoch q < rec_epoch p"
  shows "newest_payload ps = Some p"
proof -
  have all: "list_all (\<lambda>q. rec_epoch q \<le> rec_epoch x) ps \<longleftrightarrow> x = p" if "x \<in> set ps" for x
    using assms that by (auto simp: list_all_iff leD dest: less_imp_le)
  have "find (\<lambda>x. x = p) xs = Some p" if "p \<in> set xs" for xs using that by (induction xs) auto
  moreover have "find (\<lambda>x. list_all (\<lambda>q. rec_epoch q \<le> rec_epoch x) ps) ps = find (\<lambda>x. x = p) ps"
    using all by (intro find_cong) auto
  ultimately show ?thesis using assms(1) by (simp add: newest_payload_def)
qed

lemma in_parsed: "p \<in> set (parsed ops key txts) \<longleftrightarrow> (\<exists>t\<in>set txts. parse_record ops key t = Inr p)"
  by (induction txts) (auto simp: parsed_def map_filter_simps split: sum.splits option.splits)

section \<open>Properties\<close>

text \<open>C38: Two nodes of a network meet through the DHT. What a node with usable addresses publishes, at most
  eight of them, is what another node with the same network key reports to its daemon, under the publisher's
  key, in the first lookup round that reaches the publisher; the task goes on. Every report of a round is
  for one of the task's peers and holds acceptable addresses only.\<close>

theorem dht_nodes_meet:
  assumes "record_laws (en_ops env)" and "length nb = NONCE_LEN" and "dc_key cfg' = dc_key cfg"
    and "dht_publish_own env cfg view nb (Inr addrs) now = Some req"
    and "dv_recent view' (pu_public req) = Some (pu_item req)"
    and "dc_own_public cfg \<in> set (take reached (dt_peers t))" and "\<forall>d. rx d"
  shows "fst (dht_serve env cfg' t (DhtLookupTick view' reached rx)) = Some t \<and>
    DhtDiscovered \<lparr>de_source = Dht, peer_key = en_to_base64 env (dc_own_public cfg),
        endpoints = take MAX_PUBLISHED_ENDPOINTS (usable_endpoints addrs (dc_listen_port cfg))\<rparr>
      \<in> set (snd (dht_serve env cfg' t (DhtLookupTick view' reached rx))) \<and>
    (\<forall>d. DhtDiscovered d \<in> set (snd (dht_serve env cfg' t (DhtLookupTick view' reached rx))) \<longrightarrow>
       peer_key d \<in> en_to_base64 env ` set (dt_peers t) \<and> (\<forall>e\<in>set (endpoints d). acceptable e))"
proof -
  let ?eps = "take MAX_PUBLISHED_ENDPOINTS (usable_endpoints addrs (dc_listen_port cfg))"
  from assms(4) have ne: "?eps \<noteq> []" and pub: "dht_publish (en_ops env) (en_mac env) (en_ed_public env) (dv_recent view) (dv_put_ok view) nb
      (dc_key cfg) (dc_own_public cfg) ?eps (epoch_of now) = Inr req"
    by (auto simp: dht_publish_own_def Let_def split: if_splits sum.splits)
  have "dht_lookup (en_ops env) (en_mac env) (en_ed_public env) (dv_recent view') (dc_key cfg') (dc_own_public cfg) = Inr ?eps"
    using dht_lookup_finds [OF assms(1,2) pub, of "dv_recent view'"] assms(3,5) by simp
  from dht_round_finds [OF assms(7,6) ne this] show ?thesis
    using dht_round_open [OF assms(7)] dht_round_acceptable [of _ env cfg' view' rx "take reached (dt_peers t)"]
      image_mono [OF set_take_subset [of reached "dt_peers t"], of "en_to_base64 env"]
    by (auto simp: case_prod_unfold)
qed

text \<open>Two nodes meet through DDNS. The TXT value a node publishes, when the answer to the query holds
  it beside any strings that are older records or no records of this network, makes the other node report
  the publisher's usable addresses, at most two of them.\<close>

theorem ddns_nodes_meet:
  assumes "record_laws ops" and "length nb = NONCE_LEN" and "dd_key cfg' = dd_key cfg"
    and "ddns_publish_own ops cfg upd nb (Inr addrs) now = Some (fqdn, v)"
    and "dns fqdn = TxtStrings ss" and "v \<in> set ss"
    and "\<forall>t\<in>set ss. \<forall>q. parse_record ops (dd_key cfg) t = Inr q \<longrightarrow> t = v \<or> rec_epoch q < epoch_of now"
    and "p \<in> set ps" and "dp_fqdn p = Some fqdn" and "\<forall>d. rx d"
  shows "fst (ddns_serve ops cfg' upd' ps (DdnsLookupTick dns rx)) = Some ps \<and>
    DdnsDiscovered \<lparr>de_source = Ddns, peer_key = dp_key_b64 p,
        endpoints = take DDNS_MAX_PUBLISHED (usable_endpoints addrs (dd_listen_port cfg))\<rparr>
      \<in> set (snd (ddns_serve ops cfg' upd' ps (DdnsLookupTick dns rx)))"
proof -
  let ?eps = "take DDNS_MAX_PUBLISHED (usable_endpoints addrs (dd_listen_port cfg))"
  let ?p = "\<lparr>rec_endpoints = ?eps, rec_epoch = epoch_of now\<rparr>"
  from assms(4) have ne: "?eps \<noteq> []" and r: "render_record ops nb (dd_key cfg) ?p = Inr v"
    by (auto simp: ddns_publish_own_def Let_def DDNS_MAX_PUBLISHED_def split: option.splits if_splits sum.splits)
  have pv: "parse_record ops (dd_key cfg) v = Inr ?p"
    using ddns_record.reads_back [OF _ r] assms(1,2) usable_plain by blast
  have "newest_payload (parsed ops (dd_key cfg) ss) = Some ?p"
  proof (rule newest_unique)
    show "?p \<in> set (parsed ops (dd_key cfg) ss)" using assms(6) pv by (auto simp: in_parsed)
    show "\<forall>q\<in>set (parsed ops (dd_key cfg) ss). q = ?p \<or> rec_epoch q < rec_epoch ?p"
    proof
      fix q assume "q \<in> set (parsed ops (dd_key cfg) ss)"
      then obtain t where t: "t \<in> set ss" "parse_record ops (dd_key cfg) t = Inr q" by (auto simp: in_parsed)
      then have "t = v \<or> rec_epoch q < epoch_of now" using assms(7) by blast
      then show "q = ?p \<or> rec_epoch q < rec_epoch ?p" using t(2) pv by auto
    qed
  qed
  then have "lookup_peer ops (dd_key cfg') (dns fqdn) = Inr ?eps"
    by (simp add: assms(3,5) lookup_peer_def select_endpoints_def select_best_newest filter_usable)
  from ddns_round_finds [where key = "dd_key cfg'" and dns = dns, OF assms(10,8,9) ne this] ddns_round_open [OF assms(10)] show ?thesis
    by (auto simp: case_prod_unfold)
qed

text \<open>A Cloudflare update is an upsert: the updater asks for the zone and for the record, in that order
  and with the names percent-encoded, and writes only when both answers report success and the zone exists:
  one request, replacing the record that was found or creating one. It reports success exactly when the
  write was answered with success.\<close>

theorem cloudflare_upserts:
  "case cf_set_txt http cf fqdn v of (reqs, r) \<Rightarrow>
     (r = Inr () \<longleftrightarrow>
        (\<exists>zones zone_id records body. cf_call http [] (zone_request cf) = Inr zones \<and> first_id zones = Some zone_id \<and>
           cf_call http [zone_request cf] (record_request cf zone_id fqdn) = Inr records \<and>
           cf_call http [zone_request cf, record_request cf zone_id fqdn] (upsert_request cf zone_id (first_id records) fqdn v) = Inr body)) \<and>
     filter (\<lambda>q. hq_method q \<noteq> GET) reqs =
       (case (cf_call http [] (zone_request cf)) of
          Inl _ \<Rightarrow> []
        | Inr zones \<Rightarrow>
            (case first_id zones of
               None \<Rightarrow> []
             | Some zone_id \<Rightarrow>
                 (case cf_call http [zone_request cf] (record_request cf zone_id fqdn) of
                    Inl _ \<Rightarrow> []
                  | Inr records \<Rightarrow> [upsert_request cf zone_id (first_id records) fqdn v]))) \<and>
     percent_decode (urlencode fqdn) = fqdn \<and> set (urlencode fqdn) \<inter> {CHR ''&'', CHR ''/'', CHR ''#'', CHR ''?''} = {}"
proof -
  have safe: "set (urlencode fqdn) \<inter> {CHR ''&'', CHR ''/'', CHR ''#'', CHR ''?''} = {}"
    using urlencode_safe [of _ fqdn] reserved_chars by blast
  have m: "hq_method (zone_request cf) = GET" "hq_method (record_request cf z fqdn) = GET"
    "hq_method (upsert_request cf z rid fqdn v) \<noteq> GET" for z rid
    by (simp_all add: zone_request_def record_request_def upsert_request_def cf_request_def Let_def split: option.split)
  show ?thesis
    using safe percent_decode_urlencode [of fqdn]
    by (auto simp: cf_set_txt_def Let_def m split: sum.splits option.splits)
qed

section \<open>Instances\<close>

definition ex_env :: dht_env where
  "ex_env = \<lparr>en_ops = ex_record_ops, en_mac = (\<lambda>_ _. 0), en_ed_public = (\<lambda>k. k), en_from_base64 = (\<lambda>_. Inl InvalidEncoding), en_to_base64 = (\<lambda>_. ''k'')\<rparr>"

definition ex_dht :: dht_config where
  "ex_dht = \<lparr>dc_key = 5, dc_own_public = 6, dc_listen_port = 4193\<rparr>"

lemma ex_usable: "usable_endpoints [ex_addr1] 4193 = [sock ex_addr1 4193]"
  by code_simp

lemma ex_sealed:
  "seal ex_record_ops nb key \<lparr>rec_endpoints = [sock ex_addr1 4193], rec_epoch = 7\<rparr> = Inr (nb @ replicate 16 0 @ [1])"
  by (simp add: seal_def ex_record_ops_def ex_payload_def)

theorem dht_nodes_meet_witness:
  "\<exists>req. dht_publish_own ex_env ex_dht \<lparr>dv_recent = (\<lambda>_. None), dv_put_ok = (\<lambda>_. True)\<rparr> (replicate 12 0) (Inr [ex_addr1] :: (unit, ipv6 list) result) 25200 = Some req \<and>
     DhtDiscovered \<lparr>de_source = Dht, peer_key = ''k'', endpoints = [sock ex_addr1 4193]\<rparr> \<in>
       set (snd (dht_serve ex_env ex_dht \<lparr>dt_peers = [6], dt_nodes = nodes_new\<rparr>
         (DhtLookupTick \<lparr>dv_recent = (\<lambda>_. Some (pu_item req)), dv_put_ok = (\<lambda>_. True)\<rparr> 1 (\<lambda>_. True) :: unit dht_event)))"
proof -
  let ?v = "\<lparr>dv_recent = (\<lambda>_. None), dv_put_ok = (\<lambda>_. True)\<rparr> :: dht_view"
  have e: "epoch_of 25200 = 7" by code_simp
  obtain req where r: "dht_publish_own ex_env ex_dht ?v (replicate 12 0) (Inr [ex_addr1] :: (unit, ipv6 list) result) 25200 = Some req"
    by (simp add: dht_publish_own_def dht_publish_def ex_dht_def ex_env_def ex_usable ex_sealed e MAX_PUBLISHED_ENDPOINTS_def Let_def)
  have l: "record_laws (en_ops ex_env)" "length (replicate 12 (0 :: byte)) = NONCE_LEN"
    by (simp_all add: ex_env_def ex_record_laws NONCE_LEN_def)
  from dht_nodes_meet [OF l refl r, where view' = "\<lparr>dv_recent = (\<lambda>_. Some (pu_item req)), dv_put_ok = (\<lambda>_. True)\<rparr>" and reached = 1
      and rx = "\<lambda>_. True" and t = "\<lparr>dt_peers = [6], dt_nodes = nodes_new\<rparr>"] r
  show ?thesis by (auto simp: ex_dht_def ex_env_def ex_usable MAX_PUBLISHED_ENDPOINTS_def simp del: dht_serve.simps)
qed

theorem ddns_nodes_meet_witness:
  "\<exists>v. ddns_publish_own ex_record_ops \<lparr>dd_key = 5, dd_listen_port = 4193, dd_fqdn = Some ''n.example''\<rparr> True (replicate 12 0)
       (Inr [ex_addr1] :: (unit, ipv6 list) result) 25200 = Some (''n.example'', v) \<and>
     DdnsDiscovered \<lparr>de_source = Ddns, peer_key = ''k'', endpoints = [sock ex_addr1 4193]\<rparr> \<in>
       set (snd (ddns_serve ex_record_ops \<lparr>dd_key = 5, dd_listen_port = 1, dd_fqdn = None\<rparr> False [\<lparr>dp_key_b64 = ''k'', dp_fqdn = Some ''n.example''\<rparr>]
         (DdnsLookupTick (\<lambda>_. TxtStrings [v]) (\<lambda>_. True) :: unit ddns_event)))"
proof -
  have e: "epoch_of 25200 = 7" by code_simp
  obtain v where r: "ddns_publish_own ex_record_ops \<lparr>dd_key = 5, dd_listen_port = 4193, dd_fqdn = Some ''n.example''\<rparr> True (replicate 12 0)
       (Inr [ex_addr1] :: (unit, ipv6 list) result) 25200 = Some (''n.example'', v)"
    by (simp add: ddns_publish_own_def render_record_def ex_usable ex_sealed e DDNS_MAX_PUBLISHED_def)
  have l: "length (replicate 12 (0 :: byte)) = NONCE_LEN" by (simp add: NONCE_LEN_def)
  from ddns_nodes_meet [OF ex_record_laws l _ r, where cfg' = "\<lparr>dd_key = 5, dd_listen_port = 1, dd_fqdn = None\<rparr>" and dns = "\<lambda>_. TxtStrings [v]" and ss = "[v]"
      and ps = "[\<lparr>dp_key_b64 = ''k'', dp_fqdn = Some ''n.example''\<rparr>]" and rx = "\<lambda>_. True" and upd' = False] r
  show ?thesis by (auto simp: ex_usable DDNS_MAX_PUBLISHED_def simp del: ddns_serve.simps)
qed

end
