(* ===== verification/Config_Text.thy ===== *)
theory Config_Text
  imports Node_Config
begin

text \<open>
  Writing configuration files (\<open>crates/core/src/config.rs\<close>: \<open>toml_basic_string\<close>, \<open>render_peer_block\<close>,
  \<open>render_template\<close>) and finding the identity a configuration names (\<open>load_config_and_identity\<close>). The
  comment lines of the template are left out: TOML ignores them. A file system path is its list of
  components with a flag for the root, as \<open>std::path\<close> compares paths.
\<close>

section \<open>TOML text\<close>

definition upper_hex :: "int \<Rightarrow> char" where
  "upper_hex n = (if n < 10 then char_of (48 + n) else char_of (55 + n))"

text \<open>The escape of a control character, four hexadecimal digits; its code point is below 256.\<close>

definition toml_unicode :: "int \<Rightarrow> string" where
  "toml_unicode n = [CHR 0x5C, CHR ''u'', CHR ''0'', CHR ''0'', upper_hex (n div 16), upper_hex (n mod 16)]"

text \<open>
  The characters of a string as UTF-8 bytes: the control characters are the bytes below 32, 127, and the
  two-byte forms of the code points 128 to 159.
\<close>

fun toml_escape :: "string \<Rightarrow> string" where
  "toml_escape [] = []"
| "toml_escape (c # s) =
     (let n = of_char c :: int in
      if n = 34 then CHR 0x5C # CHR 0x22 # toml_escape s
      else if n = 92 then CHR 0x5C # CHR 0x5C # toml_escape s
      else if n = 10 then CHR 0x5C # CHR ''n'' # toml_escape s
      else if n = 13 then CHR 0x5C # CHR ''r'' # toml_escape s
      else if n = 9 then CHR 0x5C # CHR ''t'' # toml_escape s
      else if n < 32 \<or> n = 127 then toml_unicode n @ toml_escape s
      else if n = 194 then
        (case s of
           [] \<Rightarrow> [c]
         | d # t \<Rightarrow> let m = of_char d :: int in
             if 128 \<le> m \<and> m \<le> 159 then toml_unicode m @ toml_escape t else c # toml_escape s)
      else c # toml_escape s)"

definition toml_basic_string :: "string \<Rightarrow> string" where
  "toml_basic_string s = CHR 0x22 # toml_escape s @ [CHR 0x22]"

fun join_str :: "string \<Rightarrow> string list \<Rightarrow> string" where
  "join_str sep [] = []"
| "join_str sep [x] = x"
| "join_str sep (x # xs) = x @ sep @ join_str sep xs"

definition quoted :: "string \<Rightarrow> string" where
  "quoted s = CHR 0x22 # s @ [CHR 0x22]"

definition newline :: string where "newline = [CHR 0x0A]"

definition render_list :: "string \<Rightarrow> string list \<Rightarrow> string" where
  "render_list field xs = (if xs = [] then [] else field @ '' = ['' @ join_str '', '' (map quoted xs) @ '']'' @ newline)"

definition render_peer_block :: "(public_key \<Rightarrow> string) \<Rightarrow> string \<Rightarrow> public_key \<Rightarrow> socket_v6 list \<Rightarrow> ipv6_route list \<Rightarrow> string" where
  "render_peer_block b64 name pk eps routes =
     newline @ ''[[peers]]'' @ newline @ ''name = '' @ toml_basic_string name @ newline @ ''public_key = '' @ quoted (b64 pk) @ newline @
     render_list ''endpoints'' (map show_sock_v6 eps) @ render_list ''routes'' (map show_route routes)"

section \<open>Paths\<close>

record file_path =
  fp_absolute :: bool
  fp_components :: "string list"

definition path_parent :: "file_path \<Rightarrow> file_path option" where
  "path_parent p = (if fp_components p = [] then None else Some (p\<lparr>fp_components := butlast (fp_components p)\<rparr>))"

definition path_dot :: file_path where
  "path_dot = \<lparr>fp_absolute = False, fp_components = [''.'']\<rparr>"

definition path_join :: "file_path \<Rightarrow> file_path \<Rightarrow> file_path" where
  "path_join p q = (if fp_absolute q then q else p\<lparr>fp_components := fp_components p @ fp_components q\<rparr>)"

fun strip_components :: "string list \<Rightarrow> string list \<Rightarrow> string list option" where
  "strip_components [] qs = Some qs"
| "strip_components (p # ps) [] = None"
| "strip_components (p # ps) (q # qs) = (if p = q then strip_components ps qs else None)"

text \<open>The rest of an absolute path after an absolute prefix is relative.\<close>

definition path_strip_prefix :: "file_path \<Rightarrow> file_path \<Rightarrow> file_path option" where
  "path_strip_prefix p base =
     (if fp_absolute p \<noteq> fp_absolute base \<and> \<not> (\<not> fp_absolute base \<and> fp_components base = []) then None
      else if fp_absolute p \<and> \<not> fp_absolute base then Some p
      else map_option (\<lambda>cs. \<lparr>fp_absolute = False, fp_components = cs\<rparr>) (strip_components (fp_components base) (fp_components p)))"

text \<open>
  The directory of the configuration and the path a \<open>key_file\<close> in it denotes
  (\<open>load_config_and_identity\<close>).
\<close>

definition config_dir :: "file_path \<Rightarrow> file_path" where
  "config_dir config_path = (case path_parent config_path of None \<Rightarrow> path_dot | Some d \<Rightarrow> d)"

definition resolve_key_file :: "file_path \<Rightarrow> file_path \<Rightarrow> file_path" where
  "resolve_key_file config_path key_file = (if \<not> fp_absolute key_file then path_join (config_dir config_path) key_file else key_file)"

definition key_file_ref_for_config :: "file_path \<Rightarrow> file_path \<Rightarrow> file_path" where
  "key_file_ref_for_config config_path key_path =
     (case path_strip_prefix key_path (config_dir config_path) of
        Some rel \<Rightarrow> if fp_components rel \<noteq> [] \<or> fp_absolute rel then rel else key_path
      | None \<Rightarrow> key_path)"

definition path_text :: "file_path \<Rightarrow> string" where
  "path_text p = (if fp_absolute p then ''/'' else []) @ join_str ''/'' (fp_components p)"

text \<open>\<open>render_template\<close> without its comment lines.\<close>

definition render_template :: "(network_key \<Rightarrow> string) \<Rightarrow> string \<Rightarrow> network_key \<Rightarrow> file_path \<Rightarrow> u16 \<Rightarrow> file_path option \<Rightarrow> string" where
  "render_template b64 name key key_file lp state_dir =
     ''[network]'' @ newline @ ''name = '' @ quoted name @ newline @ ''key = '' @ quoted (b64 key) @ newline @ newline @
     ''[node]'' @ newline @ ''key_file = '' @ quoted (path_text key_file) @ newline @
     ''listen_port = '' @ show_number 10 (uint lp) @ newline @
     (case state_dir of None \<Rightarrow> [] | Some d \<Rightarrow> ''state_dir = '' @ quoted (path_text d) @ newline) @ newline"

section \<open>Identities on disk\<close>

text \<open>\<open>NodeIdentity::load\<close>: the seed in the text of a key file.\<close>

definition identity_load :: "text_ops \<Rightarrow> string option \<Rightarrow> (identity_error, key32) result" where
  "identity_load ops content =
     (case content of
        None \<Rightarrow> Inl (Io ''read'')
      | Some txt \<Rightarrow>
          (case Option.bind (b64_decode ops (str_trim txt)) bytes_to_key of None \<Rightarrow> Inl InvalidEncoding | Some k \<Rightarrow> Inr k))"

text \<open>
  \<open>load_config_and_identity\<close>: the configuration names the key file, and is loaded again with the public key
  of the identity it holds. \<open>ed_public\<close> gives the public key of a seed, \<open>node_key_file\<close> reads the path of a
  configured key file.
\<close>

definition load_config_and_identity ::
  "text_ops \<Rightarrow> (key32 \<Rightarrow> bool) \<Rightarrow> sha256 \<Rightarrow> hkdf \<Rightarrow> (key32 \<Rightarrow> public_key) \<Rightarrow> (string \<Rightarrow> file_path) \<Rightarrow> (file_path \<Rightarrow> string option) \<Rightarrow>
     (config_error, raw_config) result \<Rightarrow> file_path \<Rightarrow> (config_error, config \<times> key32) result option" where
  "load_config_and_identity ops vp sha kdf ed_public to_path files file config_path =
     (case file of
        Inl e \<Rightarrow> Some (Inl e)
      | Inr raw \<Rightarrow>
          (case config_load ops vp sha kdf raw None of
             None \<Rightarrow> None
           | Some (Inl e) \<Rightarrow> Some (Inl e)
           | Some (Inr cfg) \<Rightarrow>
               let key_path = resolve_key_file config_path (to_path (ns_key_file (cf_node cfg))) in
               case identity_load ops (files key_path) of
                 Inl e \<Rightarrow> Some (Inl (ConfigIdentity (path_text key_path) e))
               | Inr seed \<Rightarrow>
                   (case config_load ops vp sha kdf raw (Some (ed_public seed)) of
                      None \<Rightarrow> None
                    | Some (Inl e) \<Rightarrow> Some (Inl e)
                    | Some (Inr cfg) \<Rightarrow> Some (Inr (cfg, seed)))))"

section \<open>A quoted string reads back\<close>

text \<open>Reading a TOML basic string after its opening quote: the string and what follows the closing quote.\<close>

definition hex4 :: "string \<Rightarrow> int option" where
  "hex4 s = (case read_number 16 None True 65536 (take 4 s) of Some (n, []) \<Rightarrow> if length s < 4 then None else Some n | _ \<Rightarrow> None)"

definition utf8_of :: "int \<Rightarrow> string" where
  "utf8_of n = (if n < 128 then [char_of n] else if n < 2048 then [char_of (192 + n div 64), char_of (128 + n mod 64)]
     else [char_of (224 + n div 4096), char_of (128 + n div 64 mod 64), char_of (128 + n mod 64)])"

definition toml_short_escape :: "char \<Rightarrow> char option" where
  "toml_short_escape c =
     (if c = CHR 0x22 \<or> c = CHR 0x5C then Some c else if c = CHR ''n'' then Some (CHR 0x0A) else if c = CHR ''r'' then Some (CHR 0x0D)
      else if c = CHR ''t'' then Some (CHR 0x09) else None)"

function read_basic :: "string \<Rightarrow> (string \<times> string) option" where
  "read_basic s =
     (case s of
        [] \<Rightarrow> None
      | c # r \<Rightarrow>
          if c = CHR 0x22 then Some ([], r)
          else if c = CHR 0x5C then
            (case r of
               [] \<Rightarrow> None
             | d # r \<Rightarrow>
                 (case toml_short_escape d of
                    Some e \<Rightarrow> map_option (\<lambda>(t, r). (e # t, r)) (read_basic r)
                  | None \<Rightarrow>
                      if d = CHR ''u'' then
                        (case hex4 r of None \<Rightarrow> None | Some n \<Rightarrow> map_option (\<lambda>(t, r). (utf8_of n @ t, r)) (read_basic (drop 4 r)))
                      else None))
          else if (of_char c < (32 :: int) \<and> c \<noteq> CHR 0x09) \<or> c = CHR 0x7F then None
          else map_option (\<lambda>(t, r). (c # t, r)) (read_basic r))"
  by auto
termination by (relation "measure length") auto

declare read_basic.simps [simp del]

lemma upper_hex_digit: "0 \<le> n \<Longrightarrow> n < 16 \<Longrightarrow> digit_value 16 (upper_hex n) = Some n"
  by (auto simp: digit_value_def upper_hex_def of_char_of)

lemma hex4_unicode:
  assumes "0 \<le> n" and "n < 256"
  shows "hex4 (CHR ''0'' # CHR ''0'' # upper_hex (n div 16) # upper_hex (n mod 16) # r) = Some n"
proof -
  have d: "digit_value 16 (upper_hex (n div 16)) = Some (n div 16)" "digit_value 16 (upper_hex (n mod 16)) = Some (n mod 16)"
    using assms by (auto intro!: upper_hex_digit)
  have z: "digit_value 16 (CHR ''0'') = Some 0" by (simp add: digit_value_def)
  show ?thesis using assms d z by (simp add: hex4_def read_number_def digits_value_def)
qed

lemma read_basic_unicode:
  "0 \<le> n \<Longrightarrow> n < 256 \<Longrightarrow> read_basic (toml_unicode n @ r) = map_option (\<lambda>(t, r). (utf8_of n @ t, r)) (read_basic r)"
  by (subst read_basic.simps) (simp add: toml_unicode_def toml_short_escape_def hex4_unicode)

lemma char_eq_code: "c = d \<longleftrightarrow> (of_char c :: int) = of_char d"
  by (metis of_char_eq_iff)

lemma read_basic_plain:
  assumes "(of_char c :: int) \<ge> 32" and "of_char c \<notin> {34, 92, 127 :: int}"
  shows "read_basic (c # r) = map_option (\<lambda>(t, r). (c # t, r)) (read_basic r)"
proof -
  have "c \<noteq> CHR 0x22" "c \<noteq> CHR 0x5C" "c \<noteq> CHR 0x7F" using assms(2) by (auto simp: char_eq_code)
  then show ?thesis using assms(1) by (subst read_basic.simps) simp
qed

lemma read_basic_escape:
  "toml_short_escape d = Some e \<Longrightarrow> read_basic (CHR 0x5C # d # r) = map_option (\<lambda>(t, r). (e # t, r)) (read_basic r)"
  by (subst read_basic.simps) simp

lemma utf8_of_control: "0 \<le> n \<Longrightarrow> n < 128 \<Longrightarrow> utf8_of n = [char_of n]" "128 \<le> n \<Longrightarrow> n \<le> 159 \<Longrightarrow> utf8_of n = [char_of (194 :: int), char_of n]"
proof -
  show "128 \<le> n \<Longrightarrow> n \<le> 159 \<Longrightarrow> utf8_of n = [char_of (194 :: int), char_of n]"
  proof -
    assume n: "128 \<le> n" "n \<le> 159"
    then have "n div 64 = 2" "n mod 64 = n - 128" by presburger+
    then show ?thesis using n by (simp add: utf8_of_def)
  qed
qed (simp add: utf8_of_def)

lemma char_of_code: "(of_char c :: int) = n \<Longrightarrow> char_of n = c"
  by auto

lemma read_basic_quote: "read_basic (CHR 0x22 # r) = Some ([], r)"
  by (subst read_basic.simps) simp

lemma toml_escape_short:
  assumes "c \<in> {CHR 0x22, CHR 0x5C, CHR 0x0A, CHR 0x0D, CHR 0x09}"
  shows "\<exists>d. toml_short_escape d = Some c \<and> toml_escape (c # s) = CHR 0x5C # d # toml_escape s"
proof -
  have "toml_short_escape (CHR 0x22) = Some (CHR 0x22)" "toml_short_escape (CHR 0x5C) = Some (CHR 0x5C)"
    "toml_short_escape (CHR ''n'') = Some (CHR 0x0A)" "toml_short_escape (CHR ''r'') = Some (CHR 0x0D)" "toml_short_escape (CHR ''t'') = Some (CHR 0x09)"
    by (simp_all add: toml_short_escape_def)
  then show ?thesis using assms by auto
qed

lemma toml_escape_control:
  "(of_char c :: int) < 32 \<or> of_char c = (127 :: int) \<Longrightarrow> of_char c \<notin> {34, 92, 10, 13, 9 :: int} \<Longrightarrow>
     toml_escape (c # s) = toml_unicode (of_char c) @ toml_escape s"
  by (simp add: Let_def)

lemma toml_escape_c1:
  "(of_char c :: int) = 194 \<Longrightarrow> 128 \<le> (of_char d :: int) \<Longrightarrow> of_char d \<le> (159 :: int) \<Longrightarrow>
     toml_escape (c # d # t) = toml_unicode (of_char d) @ toml_escape t"
  by (subst toml_escape.simps(2)) (simp add: Let_def)

lemma toml_escape_plain:
  "(of_char c :: int) \<ge> 32 \<Longrightarrow> of_char c \<notin> {127, 34, 92 :: int} \<Longrightarrow>
     \<not> ((of_char c :: int) = 194 \<and> s \<noteq> [] \<and> 128 \<le> (of_char (hd s) :: int) \<and> of_char (hd s) \<le> (159 :: int)) \<Longrightarrow>
     toml_escape (c # s) = c # toml_escape s"
  by (subst toml_escape.simps(2), cases s) (auto simp: Let_def simp del: toml_escape.simps(2))

lemma read_basic_toml: "read_basic (toml_escape s @ CHR 0x22 # r) = Some (s, r)"
proof (induction s rule: length_induct)
  case (1 s)
  show ?case
  proof (cases s)
    case Nil
    then show ?thesis by (simp add: read_basic_quote)
  next
    case (Cons c t)
    let ?n = "of_char c :: int"
    have IH: "read_basic (toml_escape t @ CHR 0x22 # r) = Some (t, r)" using 1 Cons by simp
    have pos: "0 \<le> ?n" by (metis of_nat_of_char of_nat_0_le_iff)
    consider (short) "c \<in> {CHR 0x22, CHR 0x5C, CHR 0x0A, CHR 0x0D, CHR 0x09}"
      | (control) "?n < 32 \<or> ?n = 127" "?n \<notin> {34, 92, 10, 13, 9}"
      | (c1) d u where "?n = 194" "t = d # u" "128 \<le> (of_char d :: int)" "of_char d \<le> (159 :: int)"
      | (plain) "?n \<ge> 32" "?n \<notin> {127, 34, 92}"
          "\<not> (?n = 194 \<and> t \<noteq> [] \<and> 128 \<le> (of_char (hd t) :: int) \<and> of_char (hd t) \<le> (159 :: int))"
    proof (cases "?n = 194 \<and> t \<noteq> [] \<and> 128 \<le> (of_char (hd t) :: int) \<and> of_char (hd t) \<le> (159 :: int)")
      case True
      then show ?thesis using c1 [of "hd t" "tl t"] by simp
    next
      case False
      moreover have "c \<in> {CHR 0x22, CHR 0x5C, CHR 0x0A, CHR 0x0D, CHR 0x09} \<longleftrightarrow> ?n \<in> {34, 92, 10, 13, 9}"
        by (simp add: char_eq_code)
      moreover have "?n < 32 \<or> ?n \<ge> 32" by linarith
      ultimately show ?thesis using short control plain by blast
    qed
    then show ?thesis
    proof cases
      case short
      then obtain d where "toml_short_escape d = Some c" "toml_escape (c # t) = CHR 0x5C # d # toml_escape t"
        using toml_escape_short by blast
      then show ?thesis using IH Cons by (simp add: read_basic_escape del: toml_escape.simps)
    next
      case control
      have "utf8_of ?n = [c]" using control(1) pos utf8_of_control(1) [of ?n] by auto
      then show ?thesis using control pos IH Cons
        by (auto simp: toml_escape_control read_basic_unicode simp del: toml_escape.simps)
    next
      case c1
      have "utf8_of (of_char d) = [c, d]" using c1 utf8_of_control(2) [of "of_char d"] char_of_code [OF c1(1)] by simp
      moreover have "read_basic (toml_escape u @ CHR 0x22 # r) = Some (u, r)" using 1 Cons c1(2) by simp
      ultimately show ?thesis using c1 Cons by (simp add: toml_escape_c1 read_basic_unicode del: toml_escape.simps)
    next
      case plain
      then show ?thesis using IH Cons by (simp add: toml_escape_plain read_basic_plain del: toml_escape.simps)
    qed
  qed
qed

section \<open>The key file is found again\<close>

lemma strip_components_Some: "strip_components ps qs = Some r \<Longrightarrow> qs = ps @ r"
  by (induction ps qs rule: strip_components.induct) (auto split: if_splits)

lemma key_file_found:
  assumes "fp_absolute key_path \<or> path_strip_prefix key_path (config_dir config_path) \<noteq> None" and "fp_components key_path \<noteq> fp_components (config_dir config_path)"
  shows "resolve_key_file config_path (key_file_ref_for_config config_path key_path) = key_path"
proof (cases "path_strip_prefix key_path (config_dir config_path)")
  case None
  then show ?thesis using assms(1) by (simp add: key_file_ref_for_config_def resolve_key_file_def)
next
  case (Some rel)
  then show ?thesis using assms
    by (auto simp: path_strip_prefix_def key_file_ref_for_config_def resolve_key_file_def path_join_def
        split: if_splits dest!: strip_components_Some)
qed

text \<open>A relative key path outside the directory of the configuration is looked for in the wrong place.\<close>

lemma relative_key_lost:
  "resolve_key_file \<lparr>fp_absolute = True, fp_components = [''etc'', ''home.toml'']\<rparr>
     (key_file_ref_for_config \<lparr>fp_absolute = True, fp_components = [''etc'', ''home.toml'']\<rparr> \<lparr>fp_absolute = False, fp_components = [''node.key'']\<rparr>)
   = \<lparr>fp_absolute = True, fp_components = [''etc'', ''node.key'']\<rparr>"
  by (simp add: resolve_key_file_def key_file_ref_for_config_def config_dir_def path_parent_def path_strip_prefix_def path_join_def)

text \<open>The template does not escape the network name: a quote in it ends the string early.\<close>

lemma template_name_cut:
  "read_basic (drop (length (''[network]'' @ newline @ ''name = '') + 1) (render_template b64 (CHR ''a'' # CHR 0x22 # s) key key_file lp state_dir)) =
     Some (''a'', s @ CHR 0x22 # newline @ ''key = '' @ quoted (b64 key) @ newline @ newline @
       ''[node]'' @ newline @ ''key_file = '' @ quoted (path_text key_file) @ newline @
       ''listen_port = '' @ show_number 10 (uint lp) @ newline @
       (case state_dir of None \<Rightarrow> [] | Some d \<Rightarrow> ''state_dir = '' @ quoted (path_text d) @ newline) @ newline)"
  by (simp add: render_template_def quoted_def newline_def read_basic_plain read_basic_quote)

section \<open>The identity a configuration names\<close>

lemma config_load_key_file:
  "config_load ops vp sha kdf raw own_pk = Some (Inr c) \<Longrightarrow> ns_key_file (cf_node c) = rn_key_file (rc_node raw)"
  by (auto simp: config_load_def and_then_Inr node_settings_of_def split: sum.splits option.splits prod.splits)

lemma load_identity_Inr:
  assumes "load_config_and_identity ops vp sha kdf ed_public to_path files file config_path = Some (Inr (c, seed))"
  shows "\<exists>raw. file = Inr raw \<and> config_load ops vp sha kdf raw (Some (ed_public seed)) = Some (Inr c) \<and>
    identity_load ops (files (resolve_key_file config_path (to_path (ns_key_file (cf_node c))))) = Inr seed"
proof -
  from assms obtain raw c0 where r: "file = Inr raw" "config_load ops vp sha kdf raw None = Some (Inr c0)"
    "identity_load ops (files (resolve_key_file config_path (to_path (ns_key_file (cf_node c0))))) = Inr seed"
    "config_load ops vp sha kdf raw (Some (ed_public seed)) = Some (Inr c)"
    by (auto simp: load_config_and_identity_def Let_def split: sum.splits option.splits)
  have "ns_key_file (cf_node c0) = ns_key_file (cf_node c)" using config_load_key_file [OF r(2)] config_load_key_file [OF r(4)] by simp
  then show ?thesis using r by simp
qed

section \<open>Properties\<close>

text \<open>The block written for a new peer reads back: whatever characters its name has, a reader of the
  quoted string gets exactly that name and goes on with the public key line.\<close>

theorem peer_block_reads_back:
  "read_basic (drop (length (newline @ ''[[peers]]'' @ newline @ ''name = '') + 1) (render_peer_block b64 name pk eps routes)) =
     Some (name, newline @ ''public_key = '' @ quoted (b64 pk) @ newline @
       render_list ''endpoints'' (map show_sock_v6 eps) @ render_list ''routes'' (map show_route routes))"
  by (simp add: render_peer_block_def toml_basic_string_def newline_def read_basic_toml)

text \<open>A key file is found again: the path written into the configuration for a key file that is absolute,
  or lies under the directory of the configuration, is resolved back to that key file.\<close>

theorem key_file_resolves:
  assumes "fp_absolute key_path \<or> path_strip_prefix key_path (config_dir config_path) \<noteq> None"
    and "fp_components key_path \<noteq> fp_components (config_dir config_path)"
  shows "resolve_key_file config_path (key_file_ref_for_config config_path key_path) = key_path"
  by (rule key_file_found [OF assms])

theorem key_file_resolves_witness:
  "resolve_key_file \<lparr>fp_absolute = True, fp_components = [''etc'', ''home.toml'']\<rparr>
     (key_file_ref_for_config \<lparr>fp_absolute = True, fp_components = [''etc'', ''home.toml'']\<rparr>
       \<lparr>fp_absolute = True, fp_components = [''etc'', ''keys'', ''node.key'']\<rparr>) =
     \<lparr>fp_absolute = True, fp_components = [''etc'', ''keys'', ''node.key'']\<rparr>"
  by (rule key_file_resolves) (simp_all add: config_dir_def path_parent_def)

text \<open>Loading a configuration with its identity always ends in a result or an error, never in a panic; a
  configuration it returns passed every check with the node's own address taken into account, and comes
  with the seed in the key file it names.\<close>

theorem identity_loaded:
  assumes "hkdf_fills kdf"
  shows "load_config_and_identity ops vp sha kdf ed_public to_path files file config_path \<noteq> None \<and>
    (load_config_and_identity ops vp sha kdf ed_public to_path files file config_path = Some (Inr (c, seed)) \<longrightarrow>
       (\<exists>own. derive_node_addr sha (cf_prefix c) (ed_public seed) = Inr own \<and> config_ok sha (Some own) c) \<and>
       identity_load ops (files (resolve_key_file config_path (to_path (ns_key_file (cf_node c))))) = Inr seed)"
proof (intro conjI impI)
  show "load_config_and_identity ops vp sha kdf ed_public to_path files file config_path \<noteq> None"
    by (auto simp: load_config_and_identity_def Let_def config_load_total [OF assms, simplified] split: sum.splits option.splits)
    (use config_load_total [OF assms] in blast)+
next
  assume l: "load_config_and_identity ops vp sha kdf ed_public to_path files file config_path = Some (Inr (c, seed))"
  from load_identity_Inr [OF l] show "identity_load ops (files (resolve_key_file config_path (to_path (ns_key_file (cf_node c))))) = Inr seed"
    by blast
  from load_identity_Inr [OF l] obtain raw where "config_load ops vp sha kdf raw (Some (ed_public seed)) = Some (Inr c)" by blast
  from config_load_ok [OF assms this]
  show "\<exists>own. derive_node_addr sha (cf_prefix c) (ed_public seed) = Inr own \<and> config_ok sha (Some own) c"
    by (auto simp: load_own_def and_then_Inr)
qed

definition ex_files :: "file_path \<Rightarrow> string option" where
  "ex_files p = (if fp_components p = [''etc'', ''node.key''] then Some ''key'' else None)"

lemma ex_load_first: "config_load ex_ops (\<lambda>_. True) ex_sha (\<lambda>_ _ _ n. replicate n 1) ex_raw None = Some (Inr ex_config)"
proof -
  have p: "prefix_derive (\<lambda>_ _ _ n. replicate n 1) k = ex_prefix" for k
    by (simp add: prefix_derive_def ex_prefix_def eval_nat_numeral)
  have raw: "rc_node ex_raw = ex_node" "rc_network_key ex_raw = ''K''" "rc_network_name ex_raw = ''net''"
    by (simp_all add: ex_raw_def)
  have c: "check_subnet_collisions (named_addrs ex_peers None) = Inr ()" "check_conflicts [overlay_route ex_prefix] ex_peers = Inr ()"
    by code_simp+
  have r: "reserved_routes ex_prefix None = Some [overlay_route ex_prefix]"
    using reserved_routes_ok [of ex_prefix ex_sha None None] by (simp add: load_own_def) (simp add: prefix_ok_def ex_prefix_def)
  have l: "load_checked ex_ops (\<lambda>_. True) ex_sha ex_prefix ex_raw None = Inr (ex_peers, [], [from_be_bytes (replicate 32 65)], None)"
    by (simp add: load_checked_def ex_load_peers ex_checks load_keys_def load_key_def load_own_def ex_keys c)
       (simp add: ex_raw_def ex_node_def ex_keys load_key_def)
  show ?thesis unfolding config_load_def raw ex_check_node ex_keys by (simp add: p r l c ex_checks ex_config_def)
qed

theorem identity_loaded_witness:
  "load_config_and_identity ex_ops (\<lambda>_. True) ex_sha (\<lambda>_ _ _ n. replicate n 1) (\<lambda>_. from_be_bytes (replicate 32 9)) (\<lambda>s. \<lparr>fp_absolute = False, fp_components = [s]\<rparr>)
     ex_files (Inr ex_raw) \<lparr>fp_absolute = True, fp_components = [''etc'', ''home.toml'']\<rparr> =
     Some (Inr (ex_config, from_be_bytes (replicate 32 107))) \<and>
   (\<exists>own. config_ok ex_sha (Some own) ex_config)"
proof -
  let ?l = "load_config_and_identity ex_ops (\<lambda>_. True) ex_sha (\<lambda>_ _ _ n. replicate n 1) (\<lambda>_. from_be_bytes (replicate 32 9)) (\<lambda>s. \<lparr>fp_absolute = False, fp_components = [s]\<rparr>)
     ex_files (Inr ex_raw) \<lparr>fp_absolute = True, fp_components = [''etc'', ''home.toml'']\<rparr>"
  have k: "hkdf_fills (\<lambda>_ _ _ n. replicate n 1)" by (simp add: hkdf_fills_def)
  have f: "ns_key_file (cf_node ex_config) = ''node.key''" by (simp add: ex_config_def node_settings_of_def ex_node_def)
  have d: "config_dir \<lparr>fp_absolute = True, fp_components = [''etc'', ''home.toml'']\<rparr> = \<lparr>fp_absolute = True, fp_components = [''etc'']\<rparr>"
    by (simp add: config_dir_def path_parent_def)
  have i: "identity_load ex_ops (Some ''key'') = Inr (from_be_bytes (replicate 32 107))" by code_simp
  have l: "?l = Some (Inr (ex_config, from_be_bytes (replicate 32 107)))"
    by (simp add: load_config_and_identity_def ex_load_first f d resolve_key_file_def path_join_def ex_files_def i
        ex_load_Inr [unfolded ex_load_def])
  then show ?thesis using identity_loaded [OF k] by blast
qed

end
