(* ===== verification/Invite.thy ===== *)
theory Invite
  imports Node_Config Gossip_Entry
begin

text \<open>
  Invitations (\<open>crates/core/src/invite.rs\<close>): signed single-line tokens that let a node join a network.
  Base64 in its two alphabets, the JSON form of the payload and Ed25519 are third-party code and
  parameters; \<open>invite_laws\<close> states what is relied on. The random identifier of a new invitation is an
  argument. The text inside a JSON error is not modelled.
\<close>

section \<open>Data\<close>

record bootstrap_peer =
  bp_name :: string
  bp_public_key :: public_key
  bp_endpoints :: "socket_v6 list"

record invite =
  iv_id :: invite_id
  iv_network_name :: string
  iv_network_key :: network_key
  iv_issuer :: public_key
  iv_issued_unix :: u64
  iv_expires_unix :: u64
  iv_listen_port :: u16
  iv_bootstrap :: "bootstrap_peer list"

record raw_bootstrap =
  rb_name :: string
  rb_public_key :: string
  rb_endpoints :: "string list"

record raw_invite =
  ri_v :: u32
  ri_id :: string
  ri_network_name :: string
  ri_network_key :: string
  ri_issuer :: string
  ri_issued_unix :: u64
  ri_expires_unix :: u64
  ri_listen_port :: u16
  ri_bootstrap :: "raw_bootstrap list"

datatype invite_error =
    InviteBadPrefix | InviteMalformed | InviteBadJson | InviteBadVersion u32 | InviteBadSignature | IssuerMismatch
  | InviteExpired u64 u64 | NoBootstrap | TooManyBootstrap nat | InviteTooLarge nat nat
  | InviteIpv4Endpoint string | InviteBadEndpoint string | InviteBadKey identity_error

definition INVITE_PREFIX :: string where "INVITE_PREFIX = ''hxi1''"
definition INVITE_VERSION :: u32 where "INVITE_VERSION = 1"
definition MAX_BOOTSTRAP :: nat where "MAX_BOOTSTRAP = 8"
definition MAX_TOKEN_LEN :: nat where "MAX_TOKEN_LEN = 8192"
definition ID_LEN :: nat where "ID_LEN = 16"

record 'sk invite_ops =
  io_signer :: "'sk signer_ops"
  io_verify :: verify_fn
  io_valid_point :: "key32 \<Rightarrow> bool"
  io_text :: text_ops
  io_b64_encode :: "key32 \<Rightarrow> string"
  io_b64url_encode :: "bytes \<Rightarrow> string"
  io_b64url_decode :: "string \<Rightarrow> bytes option"
  io_to_json :: "raw_invite \<Rightarrow> bytes option"
  io_of_json :: "bytes \<Rightarrow> raw_invite option"

section \<open>Operations\<close>

definition invite_new ::
  "invite_id \<Rightarrow> string \<Rightarrow> network_key \<Rightarrow> public_key \<Rightarrow> u64 \<Rightarrow> u64 \<Rightarrow> u16 \<Rightarrow> bootstrap_peer list \<Rightarrow> invite" where
  "invite_new rid name key issuer issued ttl lp bs =
     \<lparr>iv_id = rid, iv_network_name = name, iv_network_key = key, iv_issuer = issuer, iv_issued_unix = issued,
      iv_expires_unix = sat_add issued ttl, iv_listen_port = lp, iv_bootstrap = bs\<rparr>"

definition check_bootstrap_len :: "nat \<Rightarrow> (invite_error, unit) result" where
  "check_bootstrap_len n =
     (if n = 0 then Inl NoBootstrap else if n > MAX_BOOTSTRAP then Inl (TooManyBootstrap n) else Inr ())"

definition id_string :: "'sk invite_ops \<Rightarrow> invite \<Rightarrow> string" where
  "id_string ops iv = io_b64url_encode ops (octets16 (iv_id iv))"

definition raw_bootstrap_of :: "'sk invite_ops \<Rightarrow> bootstrap_peer \<Rightarrow> raw_bootstrap" where
  "raw_bootstrap_of ops b =
     \<lparr>rb_name = bp_name b, rb_public_key = io_b64_encode ops (bp_public_key b), rb_endpoints = map show_sock_v6 (bp_endpoints b)\<rparr>"

definition raw_invite_of :: "'sk invite_ops \<Rightarrow> invite \<Rightarrow> raw_invite" where
  "raw_invite_of ops iv =
     \<lparr>ri_v = INVITE_VERSION, ri_id = id_string ops iv, ri_network_name = iv_network_name iv,
      ri_network_key = io_b64_encode ops (iv_network_key iv), ri_issuer = io_b64_encode ops (iv_issuer iv),
      ri_issued_unix = iv_issued_unix iv, ri_expires_unix = iv_expires_unix iv, ri_listen_port = iv_listen_port iv,
      ri_bootstrap = map (raw_bootstrap_of ops) (iv_bootstrap iv)\<rparr>"

definition token_of :: "'sk invite_ops \<Rightarrow> string \<Rightarrow> sig64 \<Rightarrow> string" where
  "token_of ops payload sig = INVITE_PREFIX @ ''.'' @ payload @ ''.'' @ io_b64url_encode ops (octets64 sig)"

definition invite_encode :: "'sk invite_ops \<Rightarrow> 'sk \<Rightarrow> invite \<Rightarrow> (invite_error, string) result" where
  "invite_encode ops sk iv =
     (if sk_public (io_signer ops) sk \<noteq> iv_issuer iv then Inl IssuerMismatch
      else and_then (check_bootstrap_len (length (iv_bootstrap iv))) (\<lambda>_.
        case io_to_json ops (raw_invite_of ops iv) of
          None \<Rightarrow> Inl InviteBadJson
        | Some json \<Rightarrow>
            let payload = io_b64url_encode ops json
            in Inr (token_of ops payload (sk_sign (io_signer ops) sk (ascii payload)))))"

fun split_parts :: "char \<Rightarrow> string \<Rightarrow> string list" where
  "split_parts c [] = [[]]"
| "split_parts c (x # xs) =
     (if x = c then [] # split_parts c xs else case split_parts c xs of [] \<Rightarrow> [[x]] | p # ps \<Rightarrow> (x # p) # ps)"

definition invite_endpoint :: "string \<Rightarrow> (invite_error, socket_v6) result" where
  "invite_endpoint e =
     (case parse_sock e of Some (V6 a) \<Rightarrow> Inr a | Some (V4 _ _) \<Rightarrow> Inl (InviteIpv4Endpoint e) | None \<Rightarrow> Inl (InviteBadEndpoint e))"

definition invite_bootstrap :: "'sk invite_ops \<Rightarrow> raw_bootstrap \<Rightarrow> (invite_error, bootstrap_peer) result" where
  "invite_bootstrap ops rb =
     and_then (map_err InviteBadKey (pk_from_base64 (io_text ops) (io_valid_point ops) (rb_public_key rb))) (\<lambda>pk.
     and_then (try_map invite_endpoint (rb_endpoints rb)) (\<lambda>eps.
     Inr \<lparr>bp_name = rb_name rb, bp_public_key = pk, bp_endpoints = eps\<rparr>))"

definition bytes_to_id :: "bytes \<Rightarrow> invite_id option" where
  "bytes_to_id bs = (if length bs = ID_LEN then Some (from_be_bytes bs) else None)"

definition bytes_to_sig :: "bytes \<Rightarrow> sig64 option" where
  "bytes_to_sig bs = (if length bs = SIG_LEN then Some (from_be_bytes bs) else None)"

text \<open>The checks after the signature.\<close>

definition invite_fields :: "'sk invite_ops \<Rightarrow> public_key \<Rightarrow> raw_invite \<Rightarrow> (invite_error, invite) result" where
  "invite_fields ops issuer raw =
     and_then (check_bootstrap_len (length (ri_bootstrap raw))) (\<lambda>_.
     and_then (case Option.bind (io_b64url_decode ops (ri_id raw)) bytes_to_id of None \<Rightarrow> Inl InviteMalformed | Some i \<Rightarrow> Inr i) (\<lambda>rid.
     and_then (map_err InviteBadKey (network_key_from_base64 (io_text ops) (ri_network_key raw))) (\<lambda>key.
     and_then (try_map (invite_bootstrap ops) (ri_bootstrap raw)) (\<lambda>bs.
     Inr \<lparr>iv_id = rid, iv_network_name = ri_network_name raw, iv_network_key = key, iv_issuer = issuer,
          iv_issued_unix = ri_issued_unix raw, iv_expires_unix = ri_expires_unix raw, iv_listen_port = ri_listen_port raw,
          iv_bootstrap = bs\<rparr>))))"

definition invite_payload :: "'sk invite_ops \<Rightarrow> string \<Rightarrow> string \<Rightarrow> (invite_error, invite) result" where
  "invite_payload ops payload sig_b64 =
     (case io_b64url_decode ops payload of
        None \<Rightarrow> Inl InviteMalformed
      | Some json \<Rightarrow>
          (case Option.bind (io_b64url_decode ops sig_b64) bytes_to_sig of
             None \<Rightarrow> Inl InviteMalformed
           | Some sig \<Rightarrow>
               (case io_of_json ops json of
                  None \<Rightarrow> Inl InviteBadJson
                | Some raw \<Rightarrow>
                    if ri_v raw \<noteq> INVITE_VERSION then Inl (InviteBadVersion (ri_v raw))
                    else and_then (map_err InviteBadKey (pk_from_base64 (io_text ops) (io_valid_point ops) (ri_issuer raw))) (\<lambda>issuer.
                      if \<not> io_verify ops issuer (ascii payload) sig then Inl InviteBadSignature
                      else invite_fields ops issuer raw))))"

definition invite_decode :: "'sk invite_ops \<Rightarrow> string \<Rightarrow> (invite_error, invite) result" where
  "invite_decode ops token =
     (if length token > MAX_TOKEN_LEN then Inl (InviteTooLarge (length token) MAX_TOKEN_LEN)
      else case split_parts (CHR ''.'') token of
        [pre, payload, sig_b64] \<Rightarrow> if pre \<noteq> INVITE_PREFIX then Inl InviteBadPrefix else invite_payload ops payload sig_b64
      | _ \<Rightarrow> Inl InviteMalformed)"

definition check_not_expired :: "invite \<Rightarrow> u64 \<Rightarrow> (invite_error, unit) result" where
  "check_not_expired iv now = (if now > iv_expires_unix iv then Inl (InviteExpired (iv_expires_unix iv) now) else Inr ())"

section \<open>What is relied on\<close>

definition invite_laws :: "'sk invite_ops \<Rightarrow> bool" where
  "invite_laws ops \<longleftrightarrow>
     signatures_verify (io_verify ops) (io_valid_point ops) (io_signer ops) \<and>
     (\<forall>k. str_trim (io_b64_encode ops k) = io_b64_encode ops k \<and> b64_decode (io_text ops) (io_b64_encode ops k) = Some (octets32 k)) \<and>
     (\<forall>bs. io_b64url_decode ops (io_b64url_encode ops bs) = Some bs \<and> CHR ''.'' \<notin> set (io_b64url_encode ops bs)) \<and>
     (\<forall>raw j. io_to_json ops raw = Some j \<longrightarrow> io_of_json ops j = Some raw)"

text \<open>The keys are points and the endpoints have a text form that reads back.\<close>

definition invite_plain :: "'sk invite_ops \<Rightarrow> invite \<Rightarrow> bool" where
  "invite_plain ops iv \<longleftrightarrow>
     (\<forall>b\<in>set (iv_bootstrap iv). io_valid_point ops (bp_public_key b) \<and>
        (\<forall>e\<in>set (bp_endpoints b). \<not> is_ipv4_mapped (ip e) \<and> flowinfo e = 0))"

section \<open>Tokens read back\<close>

lemma split_parts_none: "c \<notin> set s \<Longrightarrow> split_parts c s = [s]"
  by (induction s) auto

lemma split_parts_append: "c \<notin> set s \<Longrightarrow> split_parts c (s @ c # t) = s # split_parts c t"
  by (induction s) auto

lemma split_parts_three:
  assumes "split_parts c s = [x, y, z]"
  shows "s = x @ c # y @ c # z"
proof -
  have join: "split_parts c s \<noteq> [] \<and> s = hd (split_parts c s) @ concat (map ((#) c) (tl (split_parts c s)))" for s
    by (induction s) (auto split: list.splits)
  show ?thesis using join [of s] assms by simp
qed

lemma pk_reads_back: "invite_laws ops \<Longrightarrow> io_valid_point ops k \<Longrightarrow> pk_from_base64 (io_text ops) (io_valid_point ops) (io_b64_encode ops k) = Inr k"
  by (simp add: invite_laws_def pk_from_base64_def bytes_to_key_def pk_from_bytes_def)

lemma network_key_reads_back: "invite_laws ops \<Longrightarrow> network_key_from_base64 (io_text ops) (io_b64_encode ops k) = Inr k"
  by (simp add: invite_laws_def network_key_from_base64_def bytes_to_key_def)

lemma endpoints_read_back:
  "\<forall>e\<in>set eps. \<not> is_ipv4_mapped (ip e) \<and> flowinfo e = 0 \<Longrightarrow> try_map invite_endpoint (map show_sock_v6 eps) = Inr eps"
  by (induction eps) (auto simp: invite_endpoint_def parse_sock_show)

lemma bootstrap_reads_back:
  "invite_laws ops \<Longrightarrow> io_valid_point ops (bp_public_key b) \<Longrightarrow> \<forall>e\<in>set (bp_endpoints b). \<not> is_ipv4_mapped (ip e) \<and> flowinfo e = 0 \<Longrightarrow>
     invite_bootstrap ops (raw_bootstrap_of ops b) = Inr b"
  by (simp add: invite_bootstrap_def raw_bootstrap_of_def pk_reads_back endpoints_read_back)

lemma bootstraps_read_back:
  assumes "invite_laws ops"
    and "\<forall>b\<in>set bs. io_valid_point ops (bp_public_key b) \<and> (\<forall>e\<in>set (bp_endpoints b). \<not> is_ipv4_mapped (ip e) \<and> flowinfo e = 0)"
  shows "try_map (invite_bootstrap ops) (map (raw_bootstrap_of ops) bs) = Inr bs"
  using assms(2) by (induction bs) (simp_all add: bootstrap_reads_back [OF assms(1)])

lemma fields_read_back:
  assumes "invite_laws ops" and "invite_plain ops iv" and "check_bootstrap_len (length (iv_bootstrap iv)) = Inr ()"
  shows "invite_fields ops (iv_issuer iv) (raw_invite_of ops iv) = Inr iv"
proof -
  have "io_b64url_decode ops (id_string ops iv) = Some (octets16 (iv_id iv))" using assms(1) by (simp add: invite_laws_def id_string_def)
  moreover have "try_map (invite_bootstrap ops) (map (raw_bootstrap_of ops) (iv_bootstrap iv)) = Inr (iv_bootstrap iv)"
    using assms(2) by (intro bootstraps_read_back [OF assms(1)]) (simp add: invite_plain_def)
  ultimately show ?thesis
    using assms(3) by (simp add: invite_fields_def raw_invite_of_def bytes_to_id_def ID_LEN_def network_key_reads_back [OF assms(1)])
qed

lemma invite_encode_Inr:
  assumes "invite_encode ops sk iv = Inr token"
  shows "\<exists>json. sk_public (io_signer ops) sk = iv_issuer iv \<and> check_bootstrap_len (length (iv_bootstrap iv)) = Inr () \<and>
    io_to_json ops (raw_invite_of ops iv) = Some json \<and>
    token = token_of ops (io_b64url_encode ops json) (sk_sign (io_signer ops) sk (ascii (io_b64url_encode ops json)))"
  using assms by (auto simp: invite_encode_def and_then_Inr Let_def split: if_splits option.splits)

lemma invite_reads_back:
  assumes "invite_laws ops" and "invite_plain ops iv" and "length token \<le> MAX_TOKEN_LEN" and "invite_encode ops sk iv = Inr token"
  shows "invite_decode ops token = Inr iv"
proof -
  from invite_encode_Inr [OF assms(4)] obtain json where
    pk: "sk_public (io_signer ops) sk = iv_issuer iv" and n: "check_bootstrap_len (length (iv_bootstrap iv)) = Inr ()" and
    j: "io_to_json ops (raw_invite_of ops iv) = Some json" and
    t: "token = token_of ops (io_b64url_encode ops json) (sk_sign (io_signer ops) sk (ascii (io_b64url_encode ops json)))" by blast
  let ?p = "io_b64url_encode ops json" and ?s = "sk_sign (io_signer ops) sk (ascii (io_b64url_encode ops json))"
  have nodot: "CHR ''.'' \<notin> set INVITE_PREFIX" "CHR ''.'' \<notin> set (io_b64url_encode ops bs)" for bs
    using assms(1) by (simp_all add: invite_laws_def INVITE_PREFIX_def)
  have split: "split_parts (CHR ''.'') token = [INVITE_PREFIX, ?p, io_b64url_encode ops (octets64 ?s)]"
    using nodot by (simp add: t token_of_def split_parts_append split_parts_none)
  have laws: "io_b64url_decode ops ?p = Some json" "io_b64url_decode ops (io_b64url_encode ops (octets64 ?s)) = Some (octets64 ?s)"
    "io_of_json ops json = Some (raw_invite_of ops iv)" "io_verify ops (iv_issuer iv) (ascii ?p) ?s" "io_valid_point ops (iv_issuer iv)"
    using assms(1) j pk unfolding invite_laws_def signatures_verify_def by metis+
  have "invite_payload ops ?p (io_b64url_encode ops (octets64 ?s)) = invite_fields ops (iv_issuer iv) (raw_invite_of ops iv)"
    using laws pk_reads_back [OF assms(1) laws(5)]
    by (simp add: invite_payload_def bytes_to_sig_def SIG_LEN_def raw_invite_of_def [of ops iv])
  then show ?thesis using assms(3) by (simp add: invite_decode_def split fields_read_back [OF assms(1,2) n])
qed

definition token_fits :: "'sk invite_ops \<Rightarrow> 'sk \<Rightarrow> invite \<Rightarrow> bool" where
  "token_fits ops sk iv \<longleftrightarrow> (\<forall>t. invite_encode ops sk iv = Inr t \<longrightarrow> length t \<le> MAX_TOKEN_LEN)"

interpretation invitation: reversible "invite_encode ops sk" "invite_decode ops" "\<lambda>iv. invite_laws ops \<and> invite_plain ops iv \<and> token_fits ops sk iv"
  for ops sk
  by unfold_locales (auto simp: token_fits_def invite_reads_back)

section \<open>Accepted tokens\<close>

lemma invite_fields_Inr:
  assumes "invite_fields ops issuer raw = Inr iv"
  shows "iv_issuer iv = issuer \<and> iv_network_name iv = ri_network_name raw \<and> iv_expires_unix iv = ri_expires_unix raw \<and>
    iv_listen_port iv = ri_listen_port raw \<and> network_key_from_base64 (io_text ops) (ri_network_key raw) = Inr (iv_network_key iv) \<and>
    list_all2 (\<lambda>rb b. invite_bootstrap ops rb = Inr b) (ri_bootstrap raw) (iv_bootstrap iv) \<and>
    1 \<le> length (iv_bootstrap iv) \<and> length (iv_bootstrap iv) \<le> MAX_BOOTSTRAP"
  using assms by (auto simp: invite_fields_def and_then_Inr try_map_Inr check_bootstrap_len_def Suc_le_eq split: if_splits option.splits dest: list_all2_lengthD)

lemma invite_payload_Inr:
  assumes "invite_payload ops payload sig_b64 = Inr iv"
  shows "\<exists>json sig raw. io_b64url_decode ops payload = Some json \<and> Option.bind (io_b64url_decode ops sig_b64) bytes_to_sig = Some sig \<and>
    io_of_json ops json = Some raw \<and> ri_v raw = INVITE_VERSION \<and>
    pk_from_base64 (io_text ops) (io_valid_point ops) (ri_issuer raw) = Inr (iv_issuer iv) \<and>
    io_verify ops (iv_issuer iv) (ascii payload) sig \<and> invite_fields ops (iv_issuer iv) raw = Inr iv"
  using assms by (auto simp: invite_payload_def and_then_Inr split: option.splits if_splits dest: invite_fields_Inr)

lemma invite_decode_Inr:
  assumes "invite_decode ops token = Inr iv"
  shows "length token \<le> MAX_TOKEN_LEN \<and>
    (\<exists>payload sig_b64. token = INVITE_PREFIX @ ''.'' @ payload @ ''.'' @ sig_b64 \<and> invite_payload ops payload sig_b64 = Inr iv)"
  using assms split_parts_three [of "CHR ''.''" token]
  by (auto simp: invite_decode_def split: if_splits list.splits)

lemma invite_new_valid: "check_not_expired (invite_new rid name key issuer issued ttl lp bs) now = Inr () \<longleftrightarrow> now \<le> sat_add issued ttl"
  by (auto simp: check_not_expired_def invite_new_def)

section \<open>Properties\<close>

text \<open>An invitation survives its token: what the issuer encodes is decoded by anyone to the same
  invitation, whenever the token is within the length that decoding accepts, the bootstrap keys are points
  and the endpoints are plain IPv6; and two invitations never share a token.\<close>

theorem invite_roundtrip:
  assumes "invite_laws ops" and "invite_plain ops iv" and "token_fits ops sk iv" and "invite_encode ops sk iv = Inr token"
  shows "invite_decode ops token = Inr iv \<and> (invite_plain ops jv \<and> token_fits ops sk jv \<and> invite_encode ops sk jv = Inr token \<longrightarrow> jv = iv)"
  using invitation.reads_back [of ops iv sk token] invitation.written_inject [of ops jv sk iv token] assms by blast


section \<open>An example\<close>

text \<open>Concrete parameters: two letters per byte for the base64 alphabets, a JSON form of one payload.\<close>

definition ex_letters :: "bytes \<Rightarrow> string" where
  "ex_letters bs = concat (map (\<lambda>b. [char_of (65 + unat b div 16), char_of (65 + unat b mod 16)]) bs)"

fun ex_unletters :: "string \<Rightarrow> bytes option" where
  "ex_unletters [] = Some []"
| "ex_unletters [c] = None"
| "ex_unletters (c # d # s) = map_option ((#) (of_nat ((of_char c - 65) * 16 + (of_char d - 65)))) (ex_unletters s)"

lemma ex_unletters_letters: "ex_unletters (ex_letters bs) = Some bs"
proof (induction bs)
  case (Cons b bs)
  have "unat b div 16 < 16" "unat b mod 16 < 16" using unsigned_less [where 'a = nat, of b] by simp_all
  then show ?case using Cons by (simp add: ex_letters_def of_char_of)
qed (simp add: ex_letters_def)

lemma ex_letters_range: "c \<in> set (ex_letters bs) \<Longrightarrow> 65 \<le> (of_char c :: nat) \<and> of_char c \<le> (80 :: nat)"
proof (induction bs)
  case (Cons b bs)
  have "unat b div 16 < 16" "unat b mod 16 < 16" using unsigned_less [where 'a = nat, of b] by simp_all
  then show ?case using Cons by (auto simp: ex_letters_def of_char_of)
qed (simp add: ex_letters_def)

lemma ws_len_letter: "s \<noteq> [] \<Longrightarrow> 33 \<le> (of_char (hd s) :: nat) \<Longrightarrow> of_char (hd s) \<le> (126 :: nat) \<Longrightarrow> ws_len s = 0"
  by (cases s) (auto simp: ws_len_def split: list.splits)

lemma trim_letters:
  assumes "\<forall>c\<in>set s. 33 \<le> (of_char c :: nat) \<and> of_char c \<le> (126 :: nat)"
  shows "str_trim s = s"
proof -
  have d: "ws_len (drop n s) = 0" if "n < length s" for n
    using that assms by (intro ws_len_letter) (auto simp: hd_drop_conv_nth)
  have "trim_start s = s" using d [of 0] by (cases "s = []") (simp_all add: trim_start.simps)
  moreover have "trim_end s = s" using d by (cases "s = []") (simp_all add: trim_end.simps [of "[]"] trim_end.simps [of s] ws_end_def)
  ultimately show ?thesis by (simp add: str_trim_def)
qed

definition ex_invite :: invite where
  "ex_invite = invite_new 17 ''home'' 5 7 1000 86400 4193
     [\<lparr>bp_name = ''router'', bp_public_key = 7, bp_endpoints = [sock (push_bit 96 0x20010db8 + 1) 4193]\<rparr>]"

definition ex_base_ops :: "unit invite_ops" where
  "ex_base_ops =
     \<lparr>io_signer = \<lparr>sk_public = (\<lambda>_. 7), sk_sign = (\<lambda>_ m. of_nat (length m))\<rparr>, io_verify = (\<lambda>pk m s. pk = 7 \<and> s = of_nat (length m)),
      io_valid_point = (\<lambda>_. True), io_text = \<lparr>b64_decode = ex_unletters\<rparr>, io_b64_encode = ex_letters \<circ> octets32,
      io_b64url_encode = ex_letters, io_b64url_decode = ex_unletters, io_to_json = (\<lambda>_. None), io_of_json = (\<lambda>_. None)\<rparr>"

definition ex_invite_raw :: raw_invite where
  "ex_invite_raw = raw_invite_of ex_base_ops ex_invite"

definition ex_invite_ops :: "unit invite_ops" where
  "ex_invite_ops = ex_base_ops
     \<lparr>io_to_json := (\<lambda>raw. if raw = ex_invite_raw then Some [1, 2, 3] else None), io_of_json := (\<lambda>_. Some ex_invite_raw)\<rparr>"

definition ex_token :: string where
  "ex_token = ''hxi1.'' @ ex_letters [1, 2, 3] @ ''.'' @ ex_letters (octets64 6)"

lemma ex_invite_laws: "invite_laws ex_invite_ops"
proof -
  have "str_trim (ex_letters bs) = ex_letters bs" for bs by (rule trim_letters) (use ex_letters_range in fastforce)
  moreover have "CHR ''.'' \<notin> set (ex_letters bs)" for bs using ex_letters_range [of "CHR ''.''" bs] by auto
  ultimately show ?thesis
    by (simp add: invite_laws_def ex_invite_ops_def ex_base_ops_def signatures_verify_def ex_unletters_letters)
qed

lemma ex_letters_length: "length (ex_letters bs) = 2 * length bs"
  by (induction bs) (simp_all add: ex_letters_def)

lemma ex_invite_raw_of: "raw_invite_of ex_invite_ops ex_invite = ex_invite_raw"
  by (simp add: raw_invite_of_def ex_invite_raw_def raw_bootstrap_of_def [abs_def] id_string_def ex_invite_ops_def)

lemma ex_invite_encodes: "invite_encode ex_invite_ops () ex_invite = Inr ex_token" "length ex_token \<le> MAX_TOKEN_LEN" "invite_plain ex_invite_ops ex_invite"
proof -
  have l: "length (ex_letters [1, 2, 3]) = 6" by (simp add: ex_letters_length)
  have i: "iv_issuer ex_invite = 7" "length (iv_bootstrap ex_invite) = 1" by (simp_all add: ex_invite_def invite_new_def)
  show "invite_encode ex_invite_ops () ex_invite = Inr ex_token"
    unfolding invite_encode_def ex_invite_raw_of i
    by (simp add: ex_invite_ops_def ex_base_ops_def l Let_def token_of_def ex_token_def INVITE_PREFIX_def check_bootstrap_len_def MAX_BOOTSTRAP_def)
  show "length ex_token \<le> MAX_TOKEN_LEN" by (simp add: ex_token_def ex_letters_length MAX_TOKEN_LEN_def)
  have "\<not> is_ipv4_mapped (push_bit 96 0x20010db8 + 1)" by code_simp
  then show "invite_plain ex_invite_ops ex_invite"
    by (simp add: invite_plain_def ex_invite_def invite_new_def ex_invite_ops_def ex_base_ops_def sock_def)
qed

lemma ex_invite_decodes: "invite_decode ex_invite_ops ex_token = Inr ex_invite"
  by (rule invite_reads_back [OF ex_invite_laws ex_invite_encodes(3,2,1)])

theorem invite_roundtrip_witness: "invite_decode ex_invite_ops ex_token = Inr ex_invite"
proof -
  have "token_fits ex_invite_ops () ex_invite" using ex_invite_encodes by (simp add: token_fits_def)
  with invite_roundtrip [OF ex_invite_laws ex_invite_encodes(3) _ ex_invite_encodes(1)] show ?thesis by blast
qed


end
