(* ===== verification/Bootstrap.thy ===== *)
theory Bootstrap
  imports Config_Text Invite
begin

text \<open>
  Joining and initialising a network (\<open>crates/core/src/bootstrap.rs\<close>), with the key file of
  \<open>crates/core/src/identity.rs\<close>. The file system is a map from paths to texts; opening and writing a file
  may fail, a write possibly after some characters, and other processes may change the file system just
  before each of the two writes. Random keys are arguments.
\<close>

section \<open>Files\<close>

type_synonym file_system = "file_path \<rightharpoonup> string"

text \<open>How one \<open>create_new\<close> open with the write after it goes; an existing file is refused by the system itself.\<close>

datatype io_outcome = IoOk | IoOpenFails | IoWriteFails nat

datatype create_error = AlreadyExists | CreateFailed

fun create_new :: "io_outcome \<Rightarrow> file_system \<Rightarrow> file_path \<Rightarrow> string \<Rightarrow> create_error option \<times> file_system" where
  "create_new IoOpenFails fs path txt = (Some CreateFailed, fs)"
| "create_new IoOk fs path txt = (if fs path \<noteq> None then (Some AlreadyExists, fs) else (None, fs(path \<mapsto> txt)))"
| "create_new (IoWriteFails n) fs path txt =
     (if fs path \<noteq> None then (Some AlreadyExists, fs) else (Some CreateFailed, fs(path \<mapsto> take n txt)))"

definition remove_file :: "file_system \<Rightarrow> file_path \<Rightarrow> file_system" where
  "remove_file fs path = fs(path := None)"

section \<open>Data\<close>

datatype bootstrap_error =
    BadInvite invite_error | BootInviteExpired | LoadKey file_path identity_error | SaveKey file_path identity_error
  | KeyMissing file_path | DeriveAddr addr_error | BootSubnetCollision | JoinConfigExists file_path
  | ConfigExists file_path | WriteConfig file_path | BootNetworkKey identity_error

record join_options =
  jo_name :: string
  jo_listen_port :: "u16 option"
  jo_state_dir :: "file_path option"

record init_options =
  io_listen_port :: u16
  io_state_dir :: "file_path option"
  io_require_existing_key :: bool

record join_outcome =
  jc_network_name :: string
  jc_prefix :: string
  jc_node_address :: string
  jc_public_key :: string
  jc_config_path :: string
  jc_key_file :: string
  jc_bootstrap_peers :: "string list"
  jc_bootstrap_endpoints :: "string list list"
  jc_site :: string
  jc_listen_port :: u16
  jc_peer_add_command :: string

record init_outcome =
  ic_network_name :: string
  ic_prefix :: string
  ic_node_address :: string
  ic_public_key :: string
  ic_config_path :: string
  ic_key_file :: string
  ic_network_key_base64 :: string

record 'sk boot_env =
  be_ops :: "'sk invite_ops"
  be_sha :: sha256
  be_kdf :: hkdf
  be_ed_public :: "key32 \<Rightarrow> public_key"
  be_seed :: key32
  be_network_key :: network_key
  be_save :: io_outcome
  be_write :: io_outcome
  be_removed :: bool
  be_before_save :: "file_system \<Rightarrow> file_system"
  be_before_write :: "file_system \<Rightarrow> file_system"

section \<open>Operations\<close>

definition show_prefix :: "network_prefix \<Rightarrow> string" where
  "show_prefix p = show_ipv6 (prefix_network p) @ CHR ''/'' # show_number 10 (uint PREFIX_LEN)"

text \<open>\<open>NodeIdentity::save\<close>.\<close>

definition identity_save :: "'sk boot_env \<Rightarrow> file_system \<Rightarrow> file_path \<Rightarrow> key32 \<Rightarrow> (identity_error, unit) result \<times> file_system" where
  "identity_save env fs path seed =
     (case create_new (be_save env) fs path (io_b64_encode (be_ops env) seed @ newline) of
        (None, fs) \<Rightarrow> (Inr (), fs)
      | (Some _, fs) \<Rightarrow> (Inl (Io ''save''), fs))"

definition load_or_generate_identity ::
  "'sk boot_env \<Rightarrow> file_system \<Rightarrow> file_path \<Rightarrow> bool \<Rightarrow> (bootstrap_error, key32 \<times> bool) result" where
  "load_or_generate_identity env fs key_path require_existing =
     (if fs key_path \<noteq> None then
        and_then (map_err (LoadKey key_path) (identity_load (io_text (be_ops env)) (fs key_path))) (\<lambda>s. Inr (s, False))
      else if require_existing then Inl (KeyMissing key_path)
      else Inr (be_seed env, True))"

definition write_new_0600 :: "io_outcome \<Rightarrow> file_system \<Rightarrow> file_path \<Rightarrow> string \<Rightarrow> (bootstrap_error, unit) result \<times> file_system" where
  "write_new_0600 out fs path txt =
     (case create_new out fs path txt of
        (None, fs) \<Rightarrow> (Inr (), fs)
      | (Some AlreadyExists, fs) \<Rightarrow> (Inl (ConfigExists path), fs)
      | (Some CreateFailed, fs) \<Rightarrow> (Inl (WriteConfig path), fs))"

text \<open>
  The end of both operations: the new key is saved, then the configuration is written, and a key just
  generated is removed again when that fails; a failure to remove it is ignored.
\<close>

definition save_and_write ::
  "'sk boot_env \<Rightarrow> file_system \<Rightarrow> file_path \<Rightarrow> file_path \<Rightarrow> key32 \<Rightarrow> bool \<Rightarrow> string \<Rightarrow> (bootstrap_error, unit) result \<times> file_system" where
  "save_and_write env fs key_path config_path seed generated txt =
     (case (if generated then identity_save env (be_before_save env fs) key_path seed else (Inr (), fs)) of
        (Inl e, fs) \<Rightarrow> (Inl (SaveKey key_path e), fs)
      | (Inr _, fs) \<Rightarrow>
          (case write_new_0600 (be_write env) (be_before_write env fs) config_path txt of
             (Inl e, fs) \<Rightarrow> (Inl e, if generated \<and> be_removed env then remove_file fs key_path else fs)
           | (Inr _, fs) \<Rightarrow> (Inr (), fs)))"

text \<open>The addresses of the bootstrap peers and of the node, and that no two share a subnet.\<close>

definition join_addrs :: "sha256 \<Rightarrow> network_prefix \<Rightarrow> invite \<Rightarrow> public_key \<Rightarrow> (bootstrap_error, node_addr) result" where
  "join_addrs sha pfx iv own_pk =
     and_then (map_err DeriveAddr (derive_node_addr sha pfx own_pk)) (\<lambda>own.
     and_then (try_map (\<lambda>b. and_then (map_err DeriveAddr (derive_node_addr sha pfx (bp_public_key b))) (\<lambda>a. Inr (bp_name b, a))) (iv_bootstrap iv)) (\<lambda>others.
     and_then (map_err (\<lambda>_. BootSubnetCollision) (check_subnet_collisions (others @ [(''<self>'', own)]))) (\<lambda>_.
     Inr own)))"

definition join_text :: "'sk invite_ops \<Rightarrow> invite \<Rightarrow> file_path \<Rightarrow> file_path \<Rightarrow> u16 \<Rightarrow> file_path option \<Rightarrow> string" where
  "join_text ops iv config_path key_path lp state_dir =
     render_template (io_b64_encode ops) (iv_network_name iv) (iv_network_key iv) (key_file_ref_for_config config_path key_path) lp state_dir @
     concat (map (\<lambda>b. render_peer_block (io_b64_encode ops) (bp_name b) (bp_public_key b) (bp_endpoints b) []) (iv_bootstrap iv))"

definition peer_add_command :: "string \<Rightarrow> string \<Rightarrow> u16 \<Rightarrow> string" where
  "peer_add_command name pk lp =
     ''hextet peer add --name '' @ name @ '' --public-key '' @ [CHR 0x27] @ pk @ [CHR 0x27] @ '' --endpoint '' @ [CHR 0x27] @ ''['' @
     [CHR 0xE4, CHR 0xBD, CHR 0xA0, CHR 0xE7, CHR 0x9A, CHR 0x84, CHR 0xE5, CHR 0x85, CHR 0xAC, CHR 0xE7, CHR 0xBD, CHR 0x91] @
     ''IPv6]:'' @ show_number 10 (uint lp) @ [CHR 0x27]"

definition join_outcome_of ::
  "'sk invite_ops \<Rightarrow> invite \<Rightarrow> network_prefix \<Rightarrow> node_addr \<Rightarrow> public_key \<Rightarrow> file_path \<Rightarrow> file_path \<Rightarrow> u16 \<Rightarrow> string \<Rightarrow> join_outcome" where
  "join_outcome_of ops iv pfx own pk key_path config_path lp name =
     \<lparr>jc_network_name = iv_network_name iv, jc_prefix = show_prefix pfx, jc_node_address = show_ipv6 (address own),
      jc_public_key = io_b64_encode ops pk, jc_config_path = path_text config_path, jc_key_file = path_text key_path,
      jc_bootstrap_peers = map bp_name (iv_bootstrap iv),
      jc_bootstrap_endpoints = map (map show_sock_v6 \<circ> bp_endpoints) (iv_bootstrap iv),
      jc_site = show_ipv6 (site own) @ ''/64'', jc_listen_port = lp,
      jc_peer_add_command = peer_add_command name (io_b64_encode ops pk) lp\<rparr>"

text \<open>Everything \<open>join_network\<close> checks before it writes: the invitation, the seed, whether it is new, the own address.\<close>

definition join_checks ::
  "'sk boot_env \<Rightarrow> string \<Rightarrow> file_path \<Rightarrow> file_path \<Rightarrow> u64 \<Rightarrow> file_system \<Rightarrow> (bootstrap_error, invite \<times> key32 \<times> bool \<times> node_addr) result" where
  "join_checks env token key_path config_path now fs =
     and_then (map_err BadInvite (invite_decode (be_ops env) (str_trim token))) (\<lambda>iv.
     and_then (map_err (\<lambda>_. BootInviteExpired) (check_not_expired iv now)) (\<lambda>_.
     and_then (load_or_generate_identity env fs key_path False) (\<lambda>(seed, generated).
     and_then (join_addrs (be_sha env) (prefix_derive (be_kdf env) (iv_network_key iv)) iv (be_ed_public env seed)) (\<lambda>own.
     if fs config_path \<noteq> None then Inl (JoinConfigExists config_path) else Inr (iv, seed, generated, own)))))"

definition join_network ::
  "'sk boot_env \<Rightarrow> string \<Rightarrow> file_path \<Rightarrow> file_path \<Rightarrow> u64 \<Rightarrow> join_options \<Rightarrow> file_system \<Rightarrow>
     (bootstrap_error, join_outcome) result \<times> file_system" where
  "join_network env token key_path config_path now opts fs =
     (case join_checks env token key_path config_path now fs of
        Inl e \<Rightarrow> (Inl e, fs)
      | Inr (iv, seed, generated, own) \<Rightarrow>
          let lp = unwrap_or (jo_listen_port opts) (iv_listen_port iv) in
          (case save_and_write env fs key_path config_path seed generated (join_text (be_ops env) iv config_path key_path lp (jo_state_dir opts)) of
             (Inl e, fs) \<Rightarrow> (Inl e, fs)
           | (Inr _, fs) \<Rightarrow>
               (Inr (join_outcome_of (be_ops env) iv (prefix_derive (be_kdf env) (iv_network_key iv)) own (be_ed_public env seed)
                       key_path config_path lp (jo_name opts)), fs)))"

definition init_checks ::
  "'sk boot_env \<Rightarrow> file_path \<Rightarrow> string option \<Rightarrow> bool \<Rightarrow> file_system \<Rightarrow> (bootstrap_error, key32 \<times> bool \<times> network_key \<times> node_addr) result" where
  "init_checks env key_path network_key require fs =
     and_then (load_or_generate_identity env fs key_path require) (\<lambda>(seed, generated).
     and_then (case network_key of
                 Some s \<Rightarrow> map_err BootNetworkKey (network_key_from_base64 (io_text (be_ops env)) s)
               | None \<Rightarrow> Inr (be_network_key env)) (\<lambda>key.
     and_then (map_err DeriveAddr (derive_node_addr (be_sha env) (prefix_derive (be_kdf env) key) (be_ed_public env seed))) (\<lambda>own.
     Inr (seed, generated, key, own))))"

definition init_network ::
  "'sk boot_env \<Rightarrow> string \<Rightarrow> file_path \<Rightarrow> file_path \<Rightarrow> string option \<Rightarrow> init_options \<Rightarrow> file_system \<Rightarrow>
     (bootstrap_error, init_outcome) result \<times> file_system" where
  "init_network env name key_path config_path network_key opts fs =
     (case init_checks env key_path network_key (io_require_existing_key opts) fs of
        Inl e \<Rightarrow> (Inl e, fs)
      | Inr (seed, generated, key, own) \<Rightarrow>
          (case save_and_write env fs key_path config_path seed generated
                  (render_template (io_b64_encode (be_ops env)) name key (key_file_ref_for_config config_path key_path)
                     (io_listen_port opts) (io_state_dir opts)) of
             (Inl e, fs) \<Rightarrow> (Inl e, fs)
           | (Inr _, fs) \<Rightarrow>
               (Inr \<lparr>ic_network_name = name, ic_prefix = show_prefix (prefix_derive (be_kdf env) key),
                     ic_node_address = show_ipv6 (address own), ic_public_key = io_b64_encode (be_ops env) (be_ed_public env seed),
                     ic_config_path = path_text config_path, ic_key_file = path_text key_path,
                     ic_network_key_base64 = io_b64_encode (be_ops env) key\<rparr>, fs)))"

section \<open>Key files read back\<close>

lemma trim_start_length: "length (trim_start s) \<le> length s"
proof (induction s rule: trim_start.induct)
  case (1 s)
  show ?case
  proof (cases "s = [] \<or> ws_len s = 0")
    case False
    then show ?thesis using 1 [OF False] by (simp add: trim_start.simps [of s])
  qed (simp add: trim_start.simps [of s])
qed

lemma trim_end_length: "length (trim_end s) \<le> length s"
proof (induction s rule: trim_end.induct)
  case (1 s)
  show ?case
  proof (cases "s = [] \<or> ws_end s = 0")
    case False
    then show ?thesis using 1 [OF False] by (simp add: trim_end.simps [of s])
  qed (simp add: trim_end.simps [of s])
qed

lemma trimmed_no_space:
  assumes "str_trim s = s" and "s \<noteq> []"
  shows "ws_len s = 0"
proof (rule ccontr)
  assume w: "ws_len s \<noteq> 0"
  then have "length (trim_start s) \<le> length s - ws_len s"
    using assms(2) trim_start_length [of "drop (ws_len s) s"] by (simp add: trim_start.simps [of s])
  moreover have "length s \<le> length (trim_start s)"
    using trim_end_length [of "trim_start s"] assms(1) unfolding str_trim_def by simp
  ultimately show False using w assms(2) by (cases s) auto
qed

text \<open>The bytes of a white space character are not followed by a newline.\<close>

lemma ws_len_newline:
  assumes "s \<noteq> []" and "ws_len s = 0"
  shows "ws_len (s @ newline) = 0"
proof -
  have n: "of_char (CHR 0x0A) = (10 :: nat)" by simp
  consider a where "s = [a]" | a b where "s = [a, b]" | a b c t where "s = a # b # c # t"
    using assms(1) by (metis neq_Nil_conv)
  then show ?thesis using assms(2) by cases (simp_all add: ws_len_def newline_def n split: if_splits)
qed

lemma trim_newline:
  assumes "str_trim s = s"
  shows "str_trim (s @ newline) = s"
proof (cases "s = []")
  case True
  then show ?thesis by (simp add: newline_def) code_simp
next
  case False
  have z: "ws_len s = 0" by (rule trimmed_no_space [OF assms False])
  have "trim_start (s @ newline) = s @ newline" using ws_len_newline [OF False z] by (simp add: trim_start.simps [of "s @ newline"])
  moreover have "ws_end (s @ newline) = 1" by (simp add: ws_end_def newline_def ws_len_def)
  moreover have "trim_end s = s" using assms z by (simp add: str_trim_def trim_start.simps [of s])
  ultimately show ?thesis by (simp add: str_trim_def trim_end.simps [of "s @ newline"]) (simp add: newline_def)
qed

lemma identity_reads_back:
  "invite_laws ops \<Longrightarrow> identity_load (io_text ops) (Some (io_b64_encode ops k @ newline)) = Inr k"
  by (simp add: invite_laws_def identity_load_def trim_newline bytes_to_key_def)

section \<open>What the writes do\<close>

lemma create_new_keeps: "create_new out fs p t = (r, fs') \<Longrightarrow> fs q = Some v \<Longrightarrow> fs' q = Some v"
  by (cases out) (auto split: if_splits)

lemma create_new_None: "create_new out fs p t = (None, fs') \<Longrightarrow> fs p = None \<and> fs' = fs(p \<mapsto> t)"
  by (cases out) (auto split: if_splits)

lemma write_new_keeps: "write_new_0600 out fs p t = (r, fs') \<Longrightarrow> fs q = Some v \<Longrightarrow> fs' q = Some v"
  using create_new_keeps [of out fs p t]
  by (auto simp: write_new_0600_def split: prod.splits option.splits create_error.splits)

lemma write_new_Inr: "write_new_0600 out fs p t = (Inr u, fs') \<Longrightarrow> fs p = None \<and> fs' = fs(p \<mapsto> t)"
  using create_new_None [of out fs p t]
  by (auto simp: write_new_0600_def split: prod.splits option.splits create_error.splits)

lemma identity_save_keeps: "identity_save env fs p s = (r, fs') \<Longrightarrow> fs q = Some v \<Longrightarrow> fs' q = Some v"
  using create_new_keeps [of "be_save env" fs p] by (auto simp: identity_save_def split: prod.splits option.splits)

lemma identity_save_Inr: "identity_save env fs p s = (Inr u, fs') \<Longrightarrow> fs' = fs(p \<mapsto> io_b64_encode (be_ops env) s @ newline)"
  using create_new_None [of "be_save env" fs p] by (auto simp: identity_save_def split: prod.splits option.splits)

text \<open>Other processes may add files in between, and leave those that are there.\<close>

definition others_only_add :: "'sk boot_env \<Rightarrow> bool" where
  "others_only_add env \<longleftrightarrow>
     (\<forall>fs q v. fs q = Some v \<longrightarrow> be_before_save env fs q = Some v \<and> be_before_write env fs q = Some v)"

lemma others_keep:
  "others_only_add env \<Longrightarrow> fs q = Some v \<Longrightarrow> be_before_save env fs q = Some v"
  "others_only_add env \<Longrightarrow> fs q = Some v \<Longrightarrow> be_before_write env fs q = Some v"
  by (auto simp: others_only_add_def)

text \<open>The state after the key was saved, when it is new.\<close>

definition after_save :: "'sk boot_env \<Rightarrow> file_system \<Rightarrow> file_path \<Rightarrow> key32 \<Rightarrow> bool \<Rightarrow> (identity_error, unit) result \<times> file_system" where
  "after_save env fs key_path seed generated =
     (if generated then identity_save env (be_before_save env fs) key_path seed else (Inr (), fs))"

lemma after_save_keeps:
  "others_only_add env \<Longrightarrow> after_save env fs kp s g = (r, fs') \<Longrightarrow> fs q = Some v \<Longrightarrow> fs' q = Some v"
  by (auto simp: after_save_def others_keep identity_save_keeps split: if_splits)

lemma save_and_write_cases:
  assumes "save_and_write env fs kp cp s g txt = (r, fs')"
  obtains (saving) e where "after_save env fs kp s g = (Inl e, fs')" "r = Inl (SaveKey kp e)"
  | (writing) fs1 fs2 e where "after_save env fs kp s g = (Inr (), fs1)" "write_new_0600 (be_write env) (be_before_write env fs1) cp txt = (Inl e, fs2)"
      "r = Inl e" "fs' = (if g \<and> be_removed env then remove_file fs2 kp else fs2)"
  | (written) fs1 where "after_save env fs kp s g = (Inr (), fs1)" "write_new_0600 (be_write env) (be_before_write env fs1) cp txt = (Inr (), fs')" "r = Inr ()"
proof -
  obtain r1 fs1 where a: "after_save env fs kp s g = (r1, fs1)" by fastforce
  obtain r2 fs2 where w: "write_new_0600 (be_write env) (be_before_write env fs1) cp txt = (r2, fs2)" by fastforce
  from assms a w have r: "(r, fs') = (case r1 of Inl e \<Rightarrow> (Inl (SaveKey kp e), fs1)
      | Inr _ \<Rightarrow> (case r2 of Inl e \<Rightarrow> (Inl e, if g \<and> be_removed env then remove_file fs2 kp else fs2) | Inr _ \<Rightarrow> (Inr (), fs2)))"
    unfolding save_and_write_def after_save_def [symmetric] by (cases r1) simp_all
  then show thesis using saving writing written a w by (cases r1; cases r2) auto
qed

lemma save_and_write_keeps:
  assumes "others_only_add env" and "g \<Longrightarrow> fs kp = None" and "save_and_write env fs kp cp s g txt = (r, fs')" and "fs q = Some v"
  shows "fs' q = Some v"
  using assms(3)
proof (cases rule: save_and_write_cases)
  case saving
  then show ?thesis using after_save_keeps [OF assms(1)] assms(4) by blast
next
  case (writing fs1 fs2 e)
  have "fs2 q = Some v"
    using write_new_keeps [OF writing(2)] others_keep(2) [OF assms(1)] after_save_keeps [OF assms(1) writing(1) assms(4)] by blast
  then show ?thesis using writing(4) assms(2,4) by (auto simp: remove_file_def)
next
  case (written fs1)
  then show ?thesis using write_new_keeps others_keep(2) [OF assms(1)] after_save_keeps [OF assms(1) written(1) assms(4)] by blast
qed

lemma save_and_write_done:
  assumes "others_only_add env" and "save_and_write env fs kp cp s g txt = (Inr u, fs')"
  shows "fs' cp = Some txt \<and> (g \<longrightarrow> fs' kp = Some (io_b64_encode (be_ops env) s @ newline))"
  using assms(2)
proof (cases rule: save_and_write_cases)
  case (written fs1)
  have w: "be_before_write env fs1 cp = None" "fs' = (be_before_write env fs1)(cp \<mapsto> txt)" using write_new_Inr [OF written(2)] by simp_all
  have "be_before_write env fs1 kp = Some (io_b64_encode (be_ops env) s @ newline)" if g
    using written(1) that identity_save_Inr [of env "be_before_save env fs" kp s] others_keep(2) [OF assms(1)]
    by (auto simp: after_save_def)
  then show ?thesis using w by auto
qed simp_all

text \<open>A file system in which a write either fails before the file appears or completes.\<close>

definition writes_whole :: "'sk boot_env \<Rightarrow> bool" where
  "writes_whole env \<longleftrightarrow> be_save env \<in> {IoOk, IoOpenFails} \<and> be_write env \<in> {IoOk, IoOpenFails} \<and> be_removed env \<and>
     be_before_save env = id \<and> be_before_write env = id"

lemma create_new_whole: "out \<in> {IoOk, IoOpenFails} \<Longrightarrow> create_new out fs p t = (Some e, fs') \<Longrightarrow> fs' = fs"
  by (auto split: if_splits)

lemma write_new_whole: "out \<in> {IoOk, IoOpenFails} \<Longrightarrow> write_new_0600 out fs p t = (Inl e, fs') \<Longrightarrow> fs' = fs"
  using create_new_whole [of out fs p t]
  by (auto simp: write_new_0600_def split: prod.splits option.splits create_error.splits)

lemma save_and_write_whole:
  assumes "writes_whole env" and "g \<Longrightarrow> fs kp = None" and "save_and_write env fs kp cp s g txt = (Inl e, fs')"
  shows "fs' = fs"
  using assms(3)
proof (cases rule: save_and_write_cases)
  case saving
  then show ?thesis using assms(1) create_new_whole [of "be_save env" fs kp]
    by (auto simp: after_save_def writes_whole_def identity_save_def split: if_splits prod.splits option.splits)
next
  case (writing fs1 fs2 e)
  have "fs2 = fs1" using write_new_whole [OF _ writing(2)] assms(1) by (simp add: writes_whole_def)
  moreover have "fs1 = (if g then fs(kp \<mapsto> io_b64_encode (be_ops env) s @ newline) else fs)"
    using writing(1) assms(1) identity_save_Inr [of env fs kp s] by (auto simp: after_save_def writes_whole_def split: if_splits)
  ultimately show ?thesis using writing(4) assms(1,2) by (auto simp: remove_file_def writes_whole_def fun_upd_idem)
qed simp

section \<open>Joining and initialising\<close>

lemma generated_is_new: "load_or_generate_identity env fs kp req = Inr (seed, g) \<Longrightarrow> g \<Longrightarrow> fs kp = None"
  by (auto simp: load_or_generate_identity_def and_then_Inr split: if_splits)

lemma loaded_seed:
  "load_or_generate_identity env fs kp req = Inr (seed, g) \<Longrightarrow> \<not> g \<Longrightarrow> identity_load (io_text (be_ops env)) (fs kp) = Inr seed \<and> fs kp \<noteq> None"
  by (auto simp: load_or_generate_identity_def and_then_Inr split: if_splits)

lemma join_checks_Inr:
  assumes "join_checks env token kp cp now fs = Inr (iv, seed, g, own)"
  shows "invite_decode (be_ops env) (str_trim token) = Inr iv \<and> now \<le> iv_expires_unix iv \<and>
    load_or_generate_identity env fs kp False = Inr (seed, g) \<and>
    join_addrs (be_sha env) (prefix_derive (be_kdf env) (iv_network_key iv)) iv (be_ed_public env seed) = Inr own \<and> fs cp = None"
  using assms by (auto simp: join_checks_def and_then_Inr check_not_expired_def split: if_splits)

lemma join_network_cases:
  assumes "join_network env token kp cp now opts fs = (r, fs')"
  obtains (refused) e where "join_checks env token kp cp now fs = Inl e" "r = Inl e" "fs' = fs"
  | (acted) iv seed g own r' where "join_checks env token kp cp now fs = Inr (iv, seed, g, own)"
      "save_and_write env fs kp cp seed g (join_text (be_ops env) iv cp kp (unwrap_or (jo_listen_port opts) (iv_listen_port iv)) (jo_state_dir opts)) = (r', fs')"
      "r = and_then r' (\<lambda>_. Inr (join_outcome_of (be_ops env) iv (prefix_derive (be_kdf env) (iv_network_key iv)) own (be_ed_public env seed)
         kp cp (unwrap_or (jo_listen_port opts) (iv_listen_port iv)) (jo_name opts)))"
proof (cases "join_checks env token kp cp now fs")
  case (Inl e)
  show thesis by (rule refused [OF Inl]) (use assms Inl in \<open>simp_all add: join_network_def\<close>)
next
  case (Inr c)
  obtain iv seed g own where c: "c = (iv, seed, g, own)" by (cases c)
  let ?lp = "unwrap_or (jo_listen_port opts) (iv_listen_port iv)"
  obtain r' fs2 where s: "save_and_write env fs kp cp seed g (join_text (be_ops env) iv cp kp ?lp (jo_state_dir opts)) = (r', fs2)"
    by fastforce
  have "join_network env token kp cp now opts fs = (and_then r' (\<lambda>_. Inr (join_outcome_of (be_ops env) iv
      (prefix_derive (be_kdf env) (iv_network_key iv)) own (be_ed_public env seed) kp cp ?lp (jo_name opts))), fs2)"
    by (cases r') (simp_all add: join_network_def Inr c s Let_def)
  with assms have r: "fs' = fs2" "r = and_then r' (\<lambda>_. Inr (join_outcome_of (be_ops env) iv
      (prefix_derive (be_kdf env) (iv_network_key iv)) own (be_ed_public env seed) kp cp ?lp (jo_name opts)))" by simp_all
  show thesis by (rule acted [OF Inr [unfolded c] s [folded r(1)] r(2)])
qed

lemma init_network_cases:
  assumes "init_network env name kp cp nk opts fs = (r, fs')"
  obtains (refused) e where "init_checks env kp nk (io_require_existing_key opts) fs = Inl e" "r = Inl e" "fs' = fs"
  | (acted) seed g t r' where "load_or_generate_identity env fs kp (io_require_existing_key opts) = Inr (seed, g)"
      "save_and_write env fs kp cp seed g t = (r', fs')" "(\<exists>e. r = Inl e) = (\<exists>e. r' = Inl e)"
proof (cases "init_checks env kp nk (io_require_existing_key opts) fs")
  case (Inl e)
  show thesis by (rule refused [OF Inl]) (use assms Inl in \<open>simp_all add: init_network_def\<close>)
next
  case (Inr c)
  obtain seed g key own where c: "c = (seed, g, key, own)" by (cases c)
  have l: "load_or_generate_identity env fs kp (io_require_existing_key opts) = Inr (seed, g)"
    using Inr c by (auto simp: init_checks_def and_then_Inr split: option.splits)
  obtain r' fs2 where s: "save_and_write env fs kp cp seed g (render_template (io_b64_encode (be_ops env)) name key (key_file_ref_for_config cp kp)
      (io_listen_port opts) (io_state_dir opts)) = (r', fs2)" by fastforce
  have r: "fs' = fs2" "(\<exists>e. r = Inl e) = (\<exists>e. r' = Inl e)"
    using assms by (cases r'; auto simp: init_network_def Inr c s)+
  show thesis by (rule acted [OF l s [folded r(1)] r(2)])
qed

lemma join_addrs_Inr:
  assumes "join_addrs sha pfx iv pk = Inr own"
  shows "derive_node_addr sha pfx pk = Inr own \<and>
    (\<exists>others. list_all2 (\<lambda>b a. derive_node_addr sha pfx (bp_public_key b) = Inr a) (iv_bootstrap iv) others \<and> distinct (map subnet_id (others @ [own])))"
proof -
  let ?d = "\<lambda>b. and_then (map_err DeriveAddr (derive_node_addr sha pfx (bp_public_key b))) (\<lambda>a. Inr (bp_name b, a))"
  from assms obtain others where d: "derive_node_addr sha pfx pk = Inr own" and t: "try_map ?d (iv_bootstrap iv) = Inr others" and
    c: "check_subnet_collisions (others @ [(''<self>'', own)]) = Inr ()" by (auto simp: join_addrs_def and_then_Inr)
  have "list_all2 (\<lambda>b a. derive_node_addr sha pfx (bp_public_key b) = Inr a) (iv_bootstrap iv) (map snd others)"
    using t unfolding try_map_Inr list_all2_map2 by (rule list_all2_mono) (auto simp: and_then_Inr)
  moreover have "distinct (map subnet_id (map snd others @ [own]))"
    using c by (simp add: check_subnet_collisions_iff)
  ultimately show ?thesis using d by blast
qed

text \<open>After a successful join: what was accepted, what is on disk, and what was reported.\<close>

lemma join_network_done:
  assumes laws: "invite_laws (be_ops env)" "others_only_add env"
    and paths: "fp_absolute kp \<or> path_strip_prefix kp (config_dir cp) \<noteq> None" "fp_components kp \<noteq> fp_components (config_dir cp)"
    and join: "join_network env token kp cp now opts fs = (Inr outc, fs')"
  obtains iv seed own where "invite_decode (be_ops env) (str_trim token) = Inr iv" "now \<le> iv_expires_unix iv"
    "fs' cp = Some (join_text (be_ops env) iv cp kp (jc_listen_port outc) (jo_state_dir opts))"
    "identity_load (io_text (be_ops env)) (fs' (resolve_key_file cp (key_file_ref_for_config cp kp))) = Inr seed"
    "join_addrs (be_sha env) (prefix_derive (be_kdf env) (iv_network_key iv)) iv (be_ed_public env seed) = Inr own"
    "outc = join_outcome_of (be_ops env) iv (prefix_derive (be_kdf env) (iv_network_key iv)) own (be_ed_public env seed) kp cp
       (jc_listen_port outc) (jo_name opts)"
  using join
proof (cases rule: join_network_cases)
  case (acted iv seed g own r')
  from acted(3) obtain u where r: "r' = Inr u" by (cases r') auto
  note c = join_checks_Inr [OF acted(1)]
  have w: "fs' cp = Some (join_text (be_ops env) iv cp kp (unwrap_or (jo_listen_port opts) (iv_listen_port iv)) (jo_state_dir opts))"
    "g \<longrightarrow> fs' kp = Some (io_b64_encode (be_ops env) seed @ newline)"
    using save_and_write_done [OF laws(2)] acted(2) r by blast+
  have "identity_load (io_text (be_ops env)) (fs' kp) = Inr seed"
  proof (cases g)
    case True
    then show ?thesis using w(2) identity_reads_back [OF laws(1)] by simp
  next
    case False
    then obtain v where v: "identity_load (io_text (be_ops env)) (Some v) = Inr seed" "fs kp = Some v" using loaded_seed c by fastforce
    have "fs' kp = Some v" using save_and_write_keeps [OF laws(2) _ acted(2) v(2)] False by blast
    then show ?thesis using v by simp
  qed
  moreover have "resolve_key_file cp (key_file_ref_for_config cp kp) = kp" by (rule key_file_found [OF paths])
  moreover have o: "outc = join_outcome_of (be_ops env) iv (prefix_derive (be_kdf env) (iv_network_key iv)) own (be_ed_public env seed)
      kp cp (unwrap_or (jo_listen_port opts) (iv_listen_port iv)) (jo_name opts)" using acted(3) r by simp
  moreover have "unwrap_or (jo_listen_port opts) (iv_listen_port iv) = jc_listen_port outc" by (subst o) (simp add: join_outcome_of_def)
  ultimately show thesis using that [of iv seed own] c w(1) by simp
qed simp

section \<open>Properties\<close>

text \<open>Joining and initialising never overwrite and never remove a file that was there, whatever fails and
  whatever files other processes create meanwhile.\<close>

theorem bootstrap_never_overwrites:
  assumes "others_only_add env" and "fs q = Some v"
  shows "snd (join_network env token kp cp now opts fs) q = Some v \<and> snd (init_network env name kp cp nk iopts fs) q = Some v"
proof
  obtain r fs' where j: "join_network env token kp cp now opts fs = (r, fs')" by fastforce
  from j show "snd (join_network env token kp cp now opts fs) q = Some v"
  proof (cases rule: join_network_cases)
    case (acted iv seed g own r')
    have "g \<Longrightarrow> fs kp = None" using generated_is_new join_checks_Inr [OF acted(1)] by blast
    from save_and_write_keeps [OF assms(1) this acted(2) assms(2)] show ?thesis by (simp add: j)
  qed (simp add: j assms(2))
next
  obtain r fs' where i: "init_network env name kp cp nk iopts fs = (r, fs')" by fastforce
  from i show "snd (init_network env name kp cp nk iopts fs) q = Some v"
  proof (cases rule: init_network_cases)
    case (acted seed g t r')
    have "g \<Longrightarrow> fs kp = None" using generated_is_new acted(1) by blast
    from save_and_write_keeps [OF assms(1) this acted(2) assms(2)] show ?thesis by (simp add: i)
  qed (simp add: i assms(2))
qed


text \<open>A node that joined can start: the invitation was authentic and current, the configuration on disk is
  the rendered one, the key file it names holds the seed of the address that was reported, and that address
  shares its subnet with no bootstrap peer.\<close>

theorem join_finds_identity:
  assumes "invite_laws (be_ops env)" and "others_only_add env"
    and "fp_absolute kp \<or> path_strip_prefix kp (config_dir cp) \<noteq> None" and "fp_components kp \<noteq> fp_components (config_dir cp)"
    and "join_network env token kp cp now opts fs = (Inr outc, fs')"
  shows "\<exists>iv seed own others.
    invite_decode (be_ops env) (str_trim token) = Inr iv \<and> now \<le> iv_expires_unix iv \<and>
    fs' cp = Some (join_text (be_ops env) iv cp kp (jc_listen_port outc) (jo_state_dir opts)) \<and>
    identity_load (io_text (be_ops env)) (fs' (resolve_key_file cp (key_file_ref_for_config cp kp))) = Inr seed \<and>
    derive_node_addr (be_sha env) (prefix_derive (be_kdf env) (iv_network_key iv)) (be_ed_public env seed) = Inr own \<and>
    jc_node_address outc = show_ipv6 (address own) \<and>
    list_all2 (\<lambda>b a. derive_node_addr (be_sha env) (prefix_derive (be_kdf env) (iv_network_key iv)) (bp_public_key b) = Inr a) (iv_bootstrap iv) others \<and>
    distinct (map subnet_id (others @ [own]))"
proof -
  obtain iv seed own where d: "invite_decode (be_ops env) (str_trim token) = Inr iv" "now \<le> iv_expires_unix iv"
    "fs' cp = Some (join_text (be_ops env) iv cp kp (jc_listen_port outc) (jo_state_dir opts))"
    "identity_load (io_text (be_ops env)) (fs' (resolve_key_file cp (key_file_ref_for_config cp kp))) = Inr seed"
    "join_addrs (be_sha env) (prefix_derive (be_kdf env) (iv_network_key iv)) iv (be_ed_public env seed) = Inr own"
    and o: "outc = join_outcome_of (be_ops env) iv (prefix_derive (be_kdf env) (iv_network_key iv)) own (be_ed_public env seed) kp cp
       (jc_listen_port outc) (jo_name opts)"
    by (rule join_network_done [OF assms])
  have "jc_node_address outc = show_ipv6 (address own)" by (subst o) (simp add: join_outcome_of_def)
  then show ?thesis using d(1-4) join_addrs_Inr [OF d(5)] by blast
qed

section \<open>An example\<close>

definition ex_boot :: "unit boot_env" where
  "ex_boot = \<lparr>be_ops = ex_invite_ops, be_sha = ex_sha, be_kdf = (\<lambda>_ _ _ n. replicate n 1), be_ed_public = (\<lambda>_. from_be_bytes (replicate 32 9)),
     be_seed = 3, be_network_key = 5, be_save = IoOk, be_write = IoOk, be_removed = True, be_before_save = id, be_before_write = id\<rparr>"

definition ex_key :: file_path where "ex_key = \<lparr>fp_absolute = True, fp_components = [''etc'', ''node.key'']\<rparr>"
definition ex_conf :: file_path where "ex_conf = \<lparr>fp_absolute = True, fp_components = [''etc'', ''home.toml'']\<rparr>"

definition ex_join :: join_options where "ex_join = \<lparr>jo_name = ''new-node'', jo_listen_port = None, jo_state_dir = None\<rparr>"
definition ex_init :: init_options where "ex_init = \<lparr>io_listen_port = 4193, io_state_dir = None, io_require_existing_key = False\<rparr>"

lemma ex_boot_laws: "others_only_add ex_boot" "writes_whole ex_boot" "invite_laws (be_ops ex_boot)"
  by (simp_all add: others_only_add_def writes_whole_def ex_boot_def ex_invite_laws)

lemma ex_token_trimmed: "str_trim ex_token = ex_token"
proof (rule trim_letters)
  have "33 \<le> (of_char c :: nat) \<and> of_char c \<le> (126 :: nat)" if "c \<in> set (ex_letters bs)" for c bs
    using ex_letters_range [OF that] by simp
  then show "\<forall>c\<in>set ex_token. 33 \<le> (of_char c :: nat) \<and> of_char c \<le> (126 :: nat)" by (auto simp: ex_token_def)
qed

lemma ex_join_addrs:
  "join_addrs ex_sha (prefix_derive (\<lambda>_ _ _ n. replicate n 1) (iv_network_key ex_invite)) ex_invite (from_be_bytes (replicate 32 9)) = Inr (ex_addr 9)"
proof -
  have p: "prefix_derive (\<lambda>_ _ _ n. replicate n 1) k = ex_prefix" for k
    by (simp add: prefix_derive_def ex_prefix_def eval_nat_numeral)
  have seven: "derive_node_addr ex_sha ex_prefix 7 = Inr (ex_addr 7)" by code_simp
  have "check_subnet_collisions [(''router'', ex_addr 7), (''<self>'', ex_addr 9)] = Inr ()" by code_simp
  then show ?thesis by (simp add: join_addrs_def p ex_addrs seven ex_invite_def invite_new_def)
qed

lemma ex_join_checks: "join_checks ex_boot ex_token kp cp 2000 Map.empty = Inr (ex_invite, 3, True, ex_addr 9)"
proof -
  have "sat_add 1000 86400 = (87400 :: u64)" by (simp add: sat_add_def)
  then have e: "check_not_expired ex_invite 2000 = Inr ()" unfolding ex_invite_def invite_new_valid by simp
  have b: "be_ops ex_boot = ex_invite_ops" "be_sha ex_boot = ex_sha" "be_kdf ex_boot = (\<lambda>_ _ _ n. replicate n 1)" "be_seed ex_boot = 3"
    "be_ed_public ex_boot = (\<lambda>_. from_be_bytes (replicate 32 9))" by (simp_all add: ex_boot_def)
  show ?thesis
    by (simp add: join_checks_def b ex_token_trimmed ex_invite_decodes e load_or_generate_identity_def ex_join_addrs)
qed

lemma ex_join_works:
  assumes "cp \<noteq> kp"
  shows "\<exists>outc fs'. join_network ex_boot ex_token kp cp 2000 opts Map.empty = (Inr outc, fs')"
proof -
  have "\<exists>fs'. save_and_write ex_boot Map.empty kp cp 3 True t = (Inr (), fs')" for t
    using assms by (simp add: save_and_write_def identity_save_def write_new_0600_def ex_boot_def)
  then show ?thesis by (auto simp: join_network_def ex_join_checks Let_def split: prod.splits sum.splits)
    (metis Pair_inject old.sum.distinct(1))+
qed

lemma ex_join_done:
  "\<exists>outc fs'. join_network ex_boot ex_token ex_key ex_conf 2000 ex_join Map.empty = (Inr outc, fs')"
  by (rule ex_join_works) (simp add: ex_conf_def ex_key_def)

text \<open>A write that fails half-way leaves a part of the configuration behind.\<close>

lemma config_half_written:
  "snd (join_network (ex_boot\<lparr>be_write := IoWriteFails 9\<rparr>) ex_token ex_key ex_conf 2000 ex_join Map.empty) ex_conf = Some ''[network]''"
proof -
  have n: "ex_conf \<noteq> ex_key" by (simp add: ex_conf_def ex_key_def)
  have t: "take 9 (join_text ops iv cp kp lp d) = ''[network]''" for ops :: "unit invite_ops" and iv cp kp lp d
    by (simp add: join_text_def render_template_def)
  have j: "join_checks (ex_boot\<lparr>be_write := IoWriteFails 9\<rparr>) ex_token ex_key ex_conf 2000 Map.empty = Inr (ex_invite, 3, True, ex_addr 9)"
    using ex_join_checks by (simp add: join_checks_def load_or_generate_identity_def)
  have "save_and_write (ex_boot\<lparr>be_write := IoWriteFails 9\<rparr>) Map.empty ex_key ex_conf 3 True u = (Inl (WriteConfig ex_conf), [ex_conf \<mapsto> take 9 u])" for u
    using n by (simp add: save_and_write_def identity_save_def write_new_0600_def remove_file_def ex_boot_def fun_upd_twist)
  then show ?thesis by (simp add: join_network_def j Let_def t)
qed

theorem bootstrap_never_overwrites_witness:
  "snd (join_network ex_boot ex_token ex_key ex_conf 2000 ex_join [ex_conf \<mapsto> ''mine'']) ex_conf = Some ''mine''"
  using bootstrap_never_overwrites [OF ex_boot_laws(1), of "[ex_conf \<mapsto> ''mine'']" ex_conf "''mine''"] by simp


theorem join_finds_identity_witness:
  "\<exists>seed. identity_load (io_text ex_invite_ops) (snd (join_network ex_boot ex_token ex_key ex_conf 2000 ex_join Map.empty)
     (resolve_key_file ex_conf (key_file_ref_for_config ex_conf ex_key))) = Inr seed"
proof -
  obtain outc fs' where j: "join_network ex_boot ex_token ex_key ex_conf 2000 ex_join Map.empty = (Inr outc, fs')" using ex_join_done by blast
  have p: "fp_absolute ex_key \<or> path_strip_prefix ex_key (config_dir ex_conf) \<noteq> None" "fp_components ex_key \<noteq> fp_components (config_dir ex_conf)"
    by (simp_all add: ex_key_def ex_conf_def config_dir_def path_parent_def)
  have b: "be_ops ex_boot = ex_invite_ops" by (simp add: ex_boot_def)
  from join_finds_identity [OF ex_boot_laws(3,1) p j] show ?thesis unfolding j b by auto
qed

end
