(* ===== verification/State_Files.thy ===== *)
theory State_Files
  imports Bootstrap Candidates Member_Table
begin

text \<open>
  Atomic replacement of a file (\<open>crates/engine/src/atomic.rs\<close>, and the same routine in
  \<open>crates/discovery/src/nodes.rs\<close> and \<open>crates/cli/src/commands/hosts.rs\<close>): write a temporary file in the same
  directory, flush it, rename it over the target. Every system call may fail, a write possibly after some
  characters, and the process may die between and inside the calls.
\<close>

section \<open>System calls\<close>

datatype file_step =
    CreateTruncate file_path
  | SetMode file_path
  | WriteText file_path string
  | SyncAll file_path
  | Rename file_path file_path

definition text_at :: "file_system \<Rightarrow> file_path \<Rightarrow> string" where
  "text_at fs p = (case fs p of None \<Rightarrow> [] | Some t \<Rightarrow> t)"

fun file_exec :: "file_system \<Rightarrow> file_step \<Rightarrow> file_system" where
  "file_exec fs (CreateTruncate p) = fs(p \<mapsto> [])"
| "file_exec fs (SetMode p) = fs"
| "file_exec fs (WriteText p t) = fs(p \<mapsto> text_at fs p @ t)"
| "file_exec fs (SyncAll p) = fs"
| "file_exec fs (Rename p q) = fs(q := fs p, p := None)"

text \<open>A call that fails after \<open>n\<close> characters.\<close>

fun file_partial :: "nat \<Rightarrow> file_system \<Rightarrow> file_step \<Rightarrow> file_system" where
  "file_partial n fs (WriteText p t) = fs(p \<mapsto> text_at fs p @ take n t)"
| "file_partial n fs _ = fs"

text \<open>
  Calls in order up to the first failure. \<open>stop\<close> is how many calls complete, and how many characters the
  call after them writes before it fails or the process dies; \<open>None\<close> is a run in which every call succeeds.
\<close>

fun run_calls :: "(nat \<times> nat) option \<Rightarrow> file_system \<Rightarrow> file_step list \<Rightarrow> bool \<times> file_system" where
  "run_calls stop fs [] = (True, fs)"
| "run_calls None fs (s # ss) = run_calls None (file_exec fs s) ss"
| "run_calls (Some (0, n)) fs (s # ss) = (False, file_partial n fs s)"
| "run_calls (Some (Suc k, n)) fs (s # ss) = run_calls (Some (k, n)) (file_exec fs s) ss"

section \<open>The routine\<close>

definition path_file_name :: "file_path \<Rightarrow> string option" where
  "path_file_name p = (if fp_components p = [] \<or> last (fp_components p) = ''..'' then None else Some (last (fp_components p)))"

definition tmp_path :: "string \<Rightarrow> file_path \<Rightarrow> file_path" where
  "tmp_path fallback path =
     (let stem = (case path_file_name path of None \<Rightarrow> fallback | Some n \<Rightarrow> n)
      in path_join (config_dir path) \<lparr>fp_absolute = False, fp_components = [''.'' @ stem @ ''.tmp'']\<rparr>)"

definition write_json :: "(nat \<times> nat) option \<Rightarrow> file_path \<Rightarrow> string \<Rightarrow> file_system \<Rightarrow> bool \<times> file_system" where
  "write_json stop path json fs =
     (let tmp = tmp_path ''state'' path
      in run_calls stop fs [CreateTruncate tmp, SetMode tmp, WriteText tmp json, WriteText tmp newline, SyncAll tmp, Rename tmp path])"

definition nodes_write_json :: "(nat \<times> nat) option \<Rightarrow> file_path \<Rightarrow> string \<Rightarrow> file_system \<Rightarrow> bool \<times> file_system" where
  "nodes_write_json stop path json fs =
     (let tmp = tmp_path ''nodes'' path
      in run_calls stop fs [CreateTruncate tmp, SetMode tmp, WriteText tmp json, WriteText tmp newline, SyncAll tmp, Rename tmp path])"

definition write_atomic :: "(nat \<times> nat) option \<Rightarrow> file_path \<Rightarrow> string \<Rightarrow> file_system \<Rightarrow> bool \<times> file_system" where
  "write_atomic stop path contents fs =
     (let tmp = tmp_path ''hosts'' path
      in run_calls stop fs [CreateTruncate tmp, SetMode tmp, WriteText tmp contents, SyncAll tmp, Rename tmp path])"

text \<open>\<open>of_json\<close> is the deserialiser; a missing file and a text it refuses are errors.\<close>

definition read_json :: "(string \<Rightarrow> 'a option) \<Rightarrow> file_path \<Rightarrow> file_system \<Rightarrow> (io_error, 'a) result" where
  "read_json of_json path fs =
     (case fs path of
        None \<Rightarrow> Inl NotFound
      | Some t \<Rightarrow> (case of_json t of None \<Rightarrow> Inl (OtherIo ''invalid data'') | Some v \<Rightarrow> Inr v))"

section \<open>Stopping anywhere\<close>

lemma tmp_differs: "tmp_path fallback path \<noteq> path"
proof
  assume eq: "tmp_path fallback path = path"
  define stem where "stem = (case path_file_name path of None \<Rightarrow> fallback | Some n \<Rightarrow> n)"
  have c: "fp_components path = fp_components (config_dir path) @ [''.'' @ stem @ ''.tmp'']"
    using arg_cong [OF eq, of fp_components] by (simp add: tmp_path_def path_join_def stem_def)
  have "''.'' @ stem @ ''.tmp'' \<noteq> ''..''" by simp
  then have "path_file_name path = Some (''.'' @ stem @ ''.tmp'')" using c by (simp add: path_file_name_def)
  then have "stem = ''.'' @ stem @ ''.tmp''" using stem_def by (metis option.case(2))
  then have "length stem = length (''.'' @ stem @ ''.tmp'')" by (rule arg_cong)
  then show False by simp
qed

text \<open>Calls that only touch the temporary file.\<close>

fun only_writes :: "file_path \<Rightarrow> file_step \<Rightarrow> bool" where
  "only_writes tmp (CreateTruncate p) = (p = tmp)"
| "only_writes tmp (SetMode p) = (p = tmp)"
| "only_writes tmp (WriteText p t) = (p = tmp)"
| "only_writes tmp (SyncAll p) = (p = tmp)"
| "only_writes tmp (Rename p q) = False"

lemma exec_elsewhere: "only_writes tmp s \<Longrightarrow> q \<noteq> tmp \<Longrightarrow> file_exec fs s q = fs q \<and> file_partial n fs s q = fs q"
  by (cases s) auto

lemma run_calls_stopped:
  "list_all (only_writes tmp) ss \<Longrightarrow> run_calls stop fs (ss @ [Rename tmp path]) = (False, fs') \<Longrightarrow> q \<noteq> tmp \<Longrightarrow> fs' q = fs q"
proof (induction stop fs ss rule: run_calls.induct)
  case (1 stop fs)
  then show ?case by (cases "(stop, fs, [Rename tmp path])" rule: run_calls.cases) auto
qed (auto simp: exec_elsewhere)

lemma run_calls_finished: "run_calls stop fs ss = (True, fs') \<Longrightarrow> fs' = foldl file_exec fs ss"
  by (induction stop fs ss rule: run_calls.induct) auto

lemma foldl_elsewhere: "list_all (only_writes tmp) ss \<Longrightarrow> q \<noteq> tmp \<Longrightarrow> foldl file_exec fs ss q = fs q"
  by (induction ss arbitrary: fs) (auto simp: exec_elsewhere)

text \<open>What every replacement guarantees, wherever it stops.\<close>

lemma replacement:
  assumes "list_all (only_writes tmp) ss" and "tmp \<noteq> path" and "run_calls stop fs (ss @ [Rename tmp path]) = (ok, fs')"
  shows "fs' path = (if ok then foldl file_exec fs ss tmp else fs path) \<and> (\<forall>q. q \<noteq> tmp \<longrightarrow> q \<noteq> path \<longrightarrow> fs' q = fs q)"
proof (cases ok)
  case True
  then have "fs' = (foldl file_exec fs ss)(path := foldl file_exec fs ss tmp, tmp := None)"
    using run_calls_finished assms(3) by fastforce
  then show ?thesis using True assms(1,2) by (simp add: foldl_elsewhere)
next
  case False
  then show ?thesis using run_calls_stopped [OF assms(1)] assms(2,3) by auto
qed

lemma run_calls_ok: "fst (run_calls stop fs ss) \<longleftrightarrow> (case stop of None \<Rightarrow> True | Some (k, _) \<Rightarrow> length ss \<le> k)"
  by (induction stop fs ss rule: run_calls.induct) (auto split: option.splits)

lemma write_json_spec:
  assumes "write_json stop path json fs = (ok, fs')"
  shows "fs' path = (if ok then Some (json @ newline) else fs path) \<and> (\<forall>q. q \<noteq> tmp_path ''state'' path \<longrightarrow> q \<noteq> path \<longrightarrow> fs' q = fs q)"
proof -
  let ?t = "tmp_path ''state'' path"
  let ?ss = "[CreateTruncate ?t, SetMode ?t, WriteText ?t json, WriteText ?t newline, SyncAll ?t]"
  have "run_calls stop fs (?ss @ [Rename ?t path]) = (ok, fs')" using assms by (simp add: write_json_def Let_def)
  from replacement [OF _ tmp_differs this] show ?thesis by (simp add: text_at_def)
qed

lemma write_atomic_spec:
  assumes "write_atomic stop path txt fs = (ok, fs')"
  shows "fs' path = (if ok then Some txt else fs path) \<and> (\<forall>q. q \<noteq> tmp_path ''hosts'' path \<longrightarrow> q \<noteq> path \<longrightarrow> fs' q = fs q)"
proof -
  let ?t = "tmp_path ''hosts'' path"
  have "run_calls stop fs ([CreateTruncate ?t, SetMode ?t, WriteText ?t txt, SyncAll ?t] @ [Rename ?t path]) = (ok, fs')"
    using assms by (simp add: write_atomic_def Let_def)
  from replacement [OF _ tmp_differs this] show ?thesis by (simp add: text_at_def)
qed

section \<open>Histories of saves\<close>

text \<open>The saves of one file in order, each completing or stopping somewhere, and those that complete.\<close>

definition save_all :: "('a \<Rightarrow> string) \<Rightarrow> file_path \<Rightarrow> file_system \<Rightarrow> ((nat \<times> nat) option \<times> 'a) list \<Rightarrow> file_system" where
  "save_all to_json path = foldl (\<lambda>fs (stop, v). snd (write_json stop path (to_json v) fs))"

definition completes :: "(nat \<times> nat) option \<Rightarrow> bool" where
  "completes stop = (case stop of None \<Rightarrow> True | Some (k, _) \<Rightarrow> 6 \<le> k)"

definition saved :: "((nat \<times> nat) option \<times> 'a) list \<Rightarrow> 'a list" where
  "saved hist = map snd (filter (completes \<circ> fst) hist)"

lemma write_json_ok: "fst (write_json stop path json fs) = completes stop"
  by (auto simp: write_json_def Let_def run_calls_ok completes_def split: option.splits)

lemma save_all_spec:
  assumes "\<And>v. of_json (to_json v @ newline) = Some v"
  shows "read_json of_json path (save_all to_json path fs hist) =
    (if saved hist = [] then read_json of_json path fs else Inr (last (saved hist)))"
proof (induction hist rule: rev_induct)
  case (snoc x hist)
  obtain stop v where x: "x = (stop, v)" by (cases x)
  let ?fs = "save_all to_json path fs hist"
  obtain ok fs' where w: "write_json stop path (to_json v) ?fs = (ok, fs')" by fastforce
  have ok: "ok = completes stop" using write_json_ok [of stop path "to_json v" ?fs] w by simp
  have "read_json of_json path fs' = (if ok then Inr v else read_json of_json path ?fs)"
    using write_json_spec [OF w] assms by (simp add: read_json_def)
  moreover have "save_all to_json path fs (hist @ [x]) = fs'" using w by (simp add: save_all_def x)
  ultimately show ?case using snoc ok by (simp add: saved_def x)
qed (simp add: save_all_def saved_def)

section \<open>Properties\<close>

text \<open>C21: Soft state on disk is never torn. Whatever saves of a file are attempted, each completing or
  stopping at any call, possibly in the middle of a write, reading the file gives the value of the last save
  that completed, or what was there before when none did; files other than the target and its temporary
  file are not touched.\<close>

theorem soft_state_never_torn:
  assumes "\<And>v. of_json (to_json v @ newline) = Some v"
  shows "read_json of_json path (save_all to_json path fs hist) =
      (if saved hist = [] then read_json of_json path fs else Inr (last (saved hist))) \<and>
    (q \<noteq> path \<and> q \<noteq> tmp_path ''state'' path \<longrightarrow> snd (write_json stop path json fs) q = fs q)"
  using save_all_spec [of of_json to_json, OF assms] write_json_spec [of stop path json fs "fst (write_json stop path json fs)"]
  by simp

definition ex_file :: file_path where "ex_file = \<lparr>fp_absolute = True, fp_components = [''var'', ''state.json'']\<rparr>"

theorem soft_state_never_torn_witness:
  "read_json (\<lambda>t. Some (take (length t - 1) t)) ex_file (save_all id ex_file Map.empty [(None, ''a''), (Some (2, 1), ''bc''), (Some (5, 0), ''d'')]) = Inr ''a''"
proof -
  have "\<And>v. (\<lambda>t. Some (take (length t - 1) t)) (id v @ newline) = Some v" by (simp add: newline_def)
  from soft_state_never_torn [of "\<lambda>t. Some (take (length t - 1) t)" id, OF this,
      of ex_file Map.empty "[(None, ''a''), (Some (2, 1), ''bc''), (Some (5, 0), ''d'')]"]
  show ?thesis by (simp add: saved_def completes_def)
qed

end
