(* ===== verification/Std_Bytes.thy ===== *)
theory Std_Bytes
  imports Std_Text
begin

text \<open>
  More of the standard library's text functions: integers of any width (\<open>str::parse\<close>), lossy UTF-8 decoding
  (\<open>String::from_utf8_lossy\<close>), splitting and searching.
\<close>

section \<open>Unsigned integers\<close>

text \<open>An optional plus sign and digits; no value above the largest one.\<close>

definition parse_uint :: "int \<Rightarrow> string \<Rightarrow> int option" where
  "parse_uint max_value s =
     (let t = (case s of c # d # r \<Rightarrow> if c = CHR ''+'' then d # r else s | _ \<Rightarrow> s)
      in case read_digits 10 t of
           (ds, r) \<Rightarrow> if ds = [] \<or> r \<noteq> [] \<or> digits_value 10 ds > max_value then None else Some (digits_value 10 ds))"

definition U64_MAX :: int where "U64_MAX = 2 ^ 64 - 1"

lemma digits_value_nonneg: "\<forall>d\<in>set ds. 0 \<le> d \<Longrightarrow> 0 \<le> a \<Longrightarrow> 0 \<le> foldl (\<lambda>n d. n * 10 + d) a (ds :: int list)"
  by (induction ds arbitrary: a) auto

lemma read_digits_nonneg: "read_digits radix s = (ds, r) \<Longrightarrow> \<forall>d\<in>set ds. 0 \<le> d"
  by (induction s arbitrary: ds r) (auto split: option.splits prod.splits dest: digit_value_range)

lemma parse_uint_range: "parse_uint m s = Some n \<Longrightarrow> 0 \<le> n \<and> n \<le> m"
  using read_digits_nonneg [of 10] digits_value_nonneg
  by (fastforce simp: parse_uint_def digits_value_def Let_def split: prod.splits if_splits)

section \<open>Lossy UTF-8\<close>

definition byte_at :: "bytes \<Rightarrow> nat \<Rightarrow> byte" where
  "byte_at bs i = (if i < length bs then bs ! i else 0)"

text \<open>Whether the bytes start with a character, and how many bytes it, or the invalid sequence there, has.\<close>

definition utf8_chunk :: "bytes \<Rightarrow> bool \<times> nat" where
  "utf8_chunk bs =
     (let a = byte_at bs 0; b = byte_at bs 1; c = byte_at bs 2; d = byte_at bs 3 in
      if a < 0x80 then (True, 1)
      else if 0xC2 \<le> a \<and> a \<le> 0xDF then (if utf8_cont b then (True, 2) else (False, 1))
      else if 0xE0 \<le> a \<and> a \<le> 0xEF then
        (if \<not> (utf8_cont b \<and> (a = 0xE0 \<longrightarrow> 0xA0 \<le> b) \<and> (a = 0xED \<longrightarrow> b \<le> 0x9F)) then (False, 1)
         else if utf8_cont c then (True, 3) else (False, 2))
      else if 0xF0 \<le> a \<and> a \<le> 0xF4 then
        (if \<not> (utf8_cont b \<and> (a = 0xF0 \<longrightarrow> 0x90 \<le> b) \<and> (a = 0xF4 \<longrightarrow> b \<le> 0x8F)) then (False, 1)
         else if \<not> utf8_cont c then (False, 2)
         else if utf8_cont d then (True, 4) else (False, 3))
      else (False, 1))"

lemma utf8_chunk_pos: "0 < snd (utf8_chunk bs)"
  by (simp add: utf8_chunk_def Let_def)

lemma utf8_chunk_shrinks: "bs \<noteq> [] \<Longrightarrow> (ok, n) = utf8_chunk bs \<Longrightarrow> length bs - n < length bs"
  using utf8_chunk_pos [of bs] by (metis diff_less length_greater_0_conv snd_conv)

definition replacement_char :: string where
  "replacement_char = [CHR 0xEF, CHR 0xBF, CHR 0xBD]"

function utf8_lossy :: "bytes \<Rightarrow> string" where
  "utf8_lossy bs =
     (if bs = [] then []
      else case utf8_chunk bs of
        (ok, n) \<Rightarrow> (if ok then str_of_bytes (take n bs) else replacement_char) @ utf8_lossy (drop n bs))"
  by auto
termination
  by (relation "measure length") (simp_all add: utf8_chunk_shrinks)

declare utf8_lossy.simps [simp del]

lemma utf8_lossy_ascii: "\<forall>b\<in>set bs. b < 0x80 \<Longrightarrow> utf8_lossy bs = str_of_bytes bs"
proof (induction bs)
  case (Cons b bs)
  have "utf8_chunk (b # bs) = (True, 1)" using Cons.prems by (simp add: utf8_chunk_def byte_at_def)
  then show ?case using Cons by (subst utf8_lossy.simps) (simp add: str_of_bytes_def)
qed (simp add: utf8_lossy.simps str_of_bytes_def)

section \<open>Searching\<close>

text \<open>The first place where a pattern occurs (\<open>windows(n).position\<close>, \<open>str::find\<close>).\<close>

fun find_sub :: "'a list \<Rightarrow> 'a list \<Rightarrow> nat option" where
  "find_sub pat [] = (if pat = [] then Some 0 else None)"
| "find_sub pat (x # xs) = (if take (length pat) (x # xs) = pat then Some 0 else map_option Suc (find_sub pat xs))"

text \<open>The pieces between occurrences of CR LF.\<close>

fun split_crlf :: "string \<Rightarrow> string list" where
  "split_crlf [] = [[]]"
| "split_crlf [c] = [[c]]"
| "split_crlf (c # d # s) =
     (if c = CHR 0x0D \<and> d = CHR 0x0A then [] # split_crlf s
      else case split_crlf (d # s) of [] \<Rightarrow> [[c]] | p # ps \<Rightarrow> (c # p) # ps)"

definition ascii_lower :: "char \<Rightarrow> char" where
  "ascii_lower c = (let n = of_char c :: nat in if 65 \<le> n \<and> n \<le> 90 then char_of (n + 32) else c)"

definition eq_ignore_ascii_case :: "string \<Rightarrow> string \<Rightarrow> bool" where
  "eq_ignore_ascii_case s t \<longleftrightarrow> map ascii_lower s = map ascii_lower t"

lemma find_sub_Some: "find_sub pat xs = Some i \<Longrightarrow> i + length pat \<le> length xs \<and> take (length pat) (drop i xs) = pat"
proof (induction pat xs arbitrary: i rule: find_sub.induct)
  case (2 pat x xs)
  then show ?case by (cases i) (auto split: if_splits dest!: arg_cong [where f = length])
qed (auto split: if_splits)

lemma find_sub_append: "find_sub pat xs = Some i \<Longrightarrow> find_sub pat (xs @ ys) = Some i"
proof (induction pat xs arbitrary: i rule: find_sub.induct)
  case (1 pat)
  then show ?case by (cases ys) (auto split: if_splits)
next
  case (2 pat x xs)
  then show ?case
  proof (cases "take (length pat) (x # xs) = pat")
    case True
    then have "length pat \<le> length (x # xs)" by (metis length_take min.absorb_iff2 min.commute)
    then have "take (length pat) ((x # xs) @ ys) = pat" using True by (simp only: take_append) simp
    then show ?thesis using 2 True by simp
  next
    case False
    with 2 obtain k where k: "find_sub pat xs = Some k" "i = Suc k" by auto
    then have IH: "find_sub pat (xs @ ys) = Some k" using 2 False by simp
    have "length pat \<le> length xs" using find_sub_Some [OF k(1)] by simp
    then have "take (length pat) ((x # xs) @ ys) = take (length pat) (x # xs)" by (cases pat) simp_all
    then show ?thesis using IH k False by simp
  qed
qed

lemma find_sub_map: "inj f \<Longrightarrow> find_sub (map f pat) (map f xs) = find_sub pat xs"
proof (induction xs)
  case (Cons x xs)
  have "take (length pat) (map f (x # xs)) = map f pat \<longleftrightarrow> take (length pat) (x # xs) = pat"
    using Cons.prems by (simp add: take_map inj_map_eq_map del: list.map)
  then show ?case using Cons by simp
qed simp

end
