(* ===== verification/Local_Ddns.thy ===== *)
theory Local_Ddns
  imports Rendezvous_Tasks Config_Text Std_Bytes
begin

text \<open>
  The self-hosted DDNS meeting point (\<open>crates/discovery/src/ddns/node.rs\<close>): a webhook receiver that stores
  published values and a DNS server that answers TXT queries from them. The chunks a TCP connection delivers
  and the datagrams are arguments; the JSON parser is a parameter.
\<close>

unbundle bit_operations_syntax

section \<open>The DNS server\<close>

definition DNS_TYPE_TXT :: u16 where "DNS_TYPE_TXT = 16"
definition DNS_CLASS_IN :: u16 where "DNS_CLASS_IN = 1"

type_synonym ddns_store = "(string \<times> string) list"

text \<open>The labels of the name in the question, and the position after it.\<close>

function read_qname :: "bytes \<Rightarrow> nat \<Rightarrow> (string list \<times> nat) option" where
  "read_qname query pos =
     (if length query \<le> pos then None
      else let len = unat (query ! pos) in
        if len = 0 then Some ([], pos + 1)
        else if query ! pos AND 0xC0 = 0xC0 then None
        else let e = pos + 1 + len in
          if e > length query then None
          else map_option (\<lambda>(ls, p). (utf8_lossy (slice (pos + 1) e query) # ls, p)) (read_qname query e))"
  by auto
termination by (relation "measure (\<lambda>(query, pos). length query - pos)") auto

declare read_qname.simps [simp del]

definition stored_value :: "ddns_store \<Rightarrow> string \<Rightarrow> string option" where
  "stored_value store name = (case hm_get store name of Some v \<Rightarrow> Some v | None \<Rightarrow> hm_get store (name @ ''.''))"

definition txt_record :: "string \<Rightarrow> bytes" where
  "txt_record v =
     u16_be 0xC00C @ u16_be DNS_TYPE_TXT @ u16_be DNS_CLASS_IN @ to_be_bytes 4 (0 :: u32) @
     u16_be (of_nat (1 + length v)) @ [of_nat (length v)] @ ascii v"

definition dns_txt_response :: "bytes \<Rightarrow> ddns_store \<Rightarrow> bytes option" where
  "dns_txt_response query store =
     (if length query < 12 then None
      else case read_qname query 12 of
        None \<Rightarrow> None
      | Some (labels, pos) \<Rightarrow>
          if length query \<le> pos + 1 then None
          else if from_be_bytes [query ! pos, query ! (pos + 1)] \<noteq> DNS_TYPE_TXT \<or> pos + 4 > length query then None
          else let v = stored_value store (join_str ''.'' labels) in
            Some (slice 0 2 query @ u16_be 0x8180 @ u16_be 1 @ u16_be (if v = None then 0 else 1) @ u16_be 0 @ u16_be 0 @
              slice 12 (pos + 4) query @ (case v of None \<Rightarrow> [] | Some v \<Rightarrow> txt_record v)))"

definition DNS_BUF :: nat where "DNS_BUF = 512"

text \<open>One round of \<open>dns_serve\<close>: the datagram is cut to the buffer.\<close>

definition dns_serve :: "bytes \<Rightarrow> ddns_store \<Rightarrow> bytes option" where
  "dns_serve datagram store = dns_txt_response (take DNS_BUF datagram) store"

section \<open>The webhook receiver\<close>

definition crlf2 :: "byte list" where "crlf2 = [0x0D, 0x0A, 0x0D, 0x0A]"

definition find_header_end :: "bytes \<Rightarrow> nat option" where
  "find_header_end buf = map_option (\<lambda>i. i + 4) (find_sub crlf2 buf)"

fun header_length :: "string list \<Rightarrow> nat" where
  "header_length [] = 0"
| "header_length (l # ls) =
     (case split_once (CHR '':'') l of
        Some (name, v) \<Rightarrow>
          if eq_ignore_ascii_case (str_trim name) ''content-length''
          then (case parse_uint U64_MAX (str_trim v) of None \<Rightarrow> 0 | Some n \<Rightarrow> nat n)
          else header_length ls
      | None \<Rightarrow> header_length ls)"

definition content_length :: "bytes \<Rightarrow> nat" where
  "content_length headers = header_length (split_crlf (utf8_lossy headers))"

text \<open>The sum of the two lengths is a \<open>usize\<close> and wraps.\<close>

definition request_complete :: "bytes \<Rightarrow> bool" where
  "request_complete buf =
     (case find_header_end buf of
        None \<Rightarrow> False
      | Some h \<Rightarrow> (h + content_length (take h buf)) mod 2 ^ 64 \<le> length buf)"

text \<open>The read loop: \<open>None\<close> is a failed or timed out read, an empty chunk the end of the stream.\<close>

fun read_request :: "bytes \<Rightarrow> bytes option list \<Rightarrow> bytes" where
  "read_request buf [] = buf"
| "read_request buf (None # _) = buf"
| "read_request buf (Some c # cs) =
     (if c = [] then buf else if request_complete (buf @ c) then buf @ c else read_request (buf @ c) cs)"

definition webhook_body :: "bytes \<Rightarrow> string option" where
  "webhook_body buf =
     (let req = utf8_lossy buf
      in map_option (\<lambda>i. str_trim (drop (i + 4) req)) (find_sub (str_of_bytes crlf2) req))"

definition json_str :: "string \<Rightarrow> json \<Rightarrow> string" where
  "json_str k j = (case Option.bind (json_get k j) as_str of None \<Rightarrow> [] | Some s \<Rightarrow> s)"

text \<open>The new table, and whether the request was answered.\<close>

definition handle_http :: "(string \<Rightarrow> json option) \<Rightarrow> bytes option list \<Rightarrow> ddns_store \<Rightarrow> ddns_store \<times> bool" where
  "handle_http of_json chunks store =
     (case webhook_body (read_request [] chunks) of
        None \<Rightarrow> (store, False)
      | Some body \<Rightarrow>
          (case of_json body of
             None \<Rightarrow> (store, True)
           | Some j \<Rightarrow> (if json_str ''fqdn'' j \<noteq> [] then hm_insert (json_str ''fqdn'' j) (json_str ''value'' j) store else store, True)))"

section \<open>What a resolver sees\<close>

text \<open>A TXT query for a name, as a resolver sends it, and the TXT string in a response with one question.\<close>

definition encode_labels :: "string list \<Rightarrow> bytes" where
  "encode_labels ls = concat (map (\<lambda>l. of_nat (length l) # ascii l) ls) @ [0]"

definition dns_query :: "u16 \<Rightarrow> string list \<Rightarrow> bytes" where
  "dns_query tid ls = u16_be tid @ u16_be 0x0100 @ u16_be 1 @ u16_be 0 @ u16_be 0 @ u16_be 0 @ encode_labels ls @ u16_be 16 @ u16_be 1"

definition response_txt :: "bytes \<Rightarrow> bytes option option" where
  "response_txt resp =
     (case read_qname resp 12 of
        None \<Rightarrow> None
      | Some (_, pos) \<Rightarrow>
          Some (if slice 6 8 resp = u16_be 0 then None
                else let rdata = drop (pos + 4 + 12) resp in Some (take (unat (hd rdata)) (tl rdata))))"

definition label_ok :: "string \<Rightarrow> bool" where
  "label_ok l \<longleftrightarrow> 0 < length l \<and> length l < 64 \<and> (\<forall>c\<in>set l. (of_char c :: nat) < 128)"

lemma ascii_lossy: "\<forall>c\<in>set l. (of_char c :: nat) < 128 \<Longrightarrow> utf8_lossy (ascii l) = l"
proof -
  assume l: "\<forall>c\<in>set l. (of_char c :: nat) < 128"
  have "b < 0x80" if "b \<in> set (ascii l)" for b
    using that l by (auto simp: ascii_def word_less_nat_alt unat_of_nat)
  then show ?thesis by (simp add: utf8_lossy_ascii)
qed

lemma small_label: "0 < n \<Longrightarrow> n < 64 \<Longrightarrow> unat (of_nat n :: byte) = n \<and> (of_nat n :: byte) AND 0xC0 \<noteq> 0xC0"
proof -
  assume n: "0 < n" "n < 64"
  have "list_all (\<lambda>n. unat (of_nat n :: byte) = n \<and> (of_nat n :: byte) AND 0xC0 \<noteq> 0xC0) [1..<64]" by code_simp
  moreover have "n \<in> set [1..<64]" using n by simp
  ultimately show ?thesis unfolding list_all_iff by blast
qed

lemma encode_labels_Cons: "encode_labels (l # ls) = (of_nat (length l) # ascii l) @ encode_labels ls"
  by (simp add: encode_labels_def)

lemma read_qname_encoded:
  "list_all label_ok ls \<Longrightarrow>
   read_qname (pre @ encode_labels ls @ rest) (length pre) = Some (ls, length pre + length (encode_labels ls))"
proof (induction ls arbitrary: pre)
  case Nil
  then show ?case by (subst read_qname.simps) (simp add: encode_labels_def)
next
  case (Cons l ls)
  have l: "0 < length l" "length l < 64" "\<forall>c\<in>set l. (of_char c :: nat) < 128" using Cons.prems by (simp_all add: label_ok_def)
  let ?q = "pre @ encode_labels (l # ls) @ rest" and ?e = "length pre + 1 + length l"
  let ?b = "of_nat (length l) :: byte"
  have at: "?q ! length pre = ?b" by (simp add: encode_labels_Cons nth_append)
  have len: "unat ?b = length l" and c: "?b AND 0xC0 \<noteq> 0xC0" using small_label l by auto
  have al: "length (ascii l) = length l" by (simp add: ascii_def)
  have lab: "utf8_lossy (slice (length pre + 1) ?e ?q) = l"
    using l al by (simp add: slice_def encode_labels_Cons ascii_lossy)
  have IH: "read_qname ?q ?e = Some (ls, ?e + length (encode_labels ls))"
    using Cons.IH [of "pre @ ?b # ascii l"] Cons.prems al by (simp add: encode_labels_Cons)
  show ?case
    by (subst read_qname.simps) (use l al at len c lab IH in \<open>simp add: encode_labels_Cons Let_def\<close>)
qed

lemma ascii_append: "ascii (a @ b) = ascii a @ ascii b"
  by (simp add: ascii_def)

text \<open>The response to a query, byte for byte.\<close>

lemma dns_response_to_query:
  assumes "list_all label_ok ls"
  shows "dns_txt_response (dns_query tid ls) store =
    (let v = stored_value store (join_str ''.'' ls) in
     Some (u16_be tid @ u16_be 0x8180 @ u16_be 1 @ u16_be (if v = None then 0 else 1) @ u16_be 0 @ u16_be 0 @
       encode_labels ls @ u16_be 16 @ u16_be 1 @ (case v of None \<Rightarrow> [] | Some v \<Rightarrow> txt_record v)))"
proof -
  let ?h = "u16_be tid @ u16_be 0x0100 @ u16_be 1 @ u16_be 0 @ u16_be 0 @ u16_be 0" and ?e = "encode_labels ls"
  have q: "dns_query tid ls = ?h @ ?e @ u16_be 16 @ u16_be 1" by (simp add: dns_query_def)
  have n: "read_qname (dns_query tid ls) 12 = Some (ls, 12 + length ?e)"
    using read_qname_encoded [OF assms, of ?h "u16_be 16 @ u16_be 1"] by (simp add: q)
  have t: "[dns_query tid ls ! (12 + length ?e), dns_query tid ls ! Suc (12 + length ?e)] = u16_be 16"
    by (simp add: q nth_append eval_nat_numeral)
  have w: "slice 12 (12 + length ?e + 4) (dns_query tid ls) = ?e @ u16_be 16 @ u16_be 1"
    by (simp add: q slice_def)
  have i: "slice 0 2 (dns_query tid ls) = u16_be tid" by (simp add: q slice_def)
  have l: "length (dns_query tid ls) = 16 + length ?e" by (simp add: q)
  have f: "from_be_bytes (u16_be 16) = DNS_TYPE_TXT" by (simp add: DNS_TYPE_TXT_def)
  show ?thesis unfolding dns_txt_response_def n option.case prod.case l
    using t f i w by (simp add: Let_def add.commute del: to_be_bytes.simps)
qed

lemma response_txt_of_query:
  assumes "list_all label_ok ls" "\<And>v. stored_value store (join_str ''.'' ls) = Some v \<Longrightarrow> length v \<le> 255"
    and "dns_txt_response (dns_query tid ls) store = Some resp"
  shows "response_txt resp = Some (map_option ascii (stored_value store (join_str ''.'' ls)))"
proof -
  let ?v = "stored_value store (join_str ''.'' ls)" and ?e = "encode_labels ls"
  let ?h = "u16_be tid @ u16_be 0x8180 @ u16_be 1 @ u16_be (if ?v = None then 0 else 1) @ u16_be 0 @ u16_be 0"
  let ?t = "case ?v of None \<Rightarrow> [] | Some v \<Rightarrow> txt_record v"
  have r: "resp = ?h @ ?e @ u16_be 16 @ u16_be 1 @ ?t"
    using assms(3) unfolding dns_response_to_query [OF assms(1)] by (simp add: Let_def)
  have n: "read_qname resp 12 = Some (ls, 12 + length ?e)"
    using read_qname_encoded [OF assms(1), of ?h "u16_be 16 @ u16_be 1 @ ?t"] by (simp add: r)
  have c: "slice 6 8 resp = u16_be (if ?v = None then 0 else 1)" by (simp add: r slice_def)
  have d: "drop (12 + length ?e + 4 + 12) resp = of_nat (length v) # ascii v" if "?v = Some v" for v
    using that by (simp add: r txt_record_def)
  have ne: "u16_be 1 \<noteq> u16_be 0" by (metis from_to_be(1) zero_neq_one)
  show ?thesis
  proof (cases ?v)
    case None
    then show ?thesis unfolding response_txt_def n using c by simp
  next
    case (Some v)
    then have "unat (of_nat (length v) :: byte) = length v" using assms(2) by (simp add: unat_of_nat)
    then show ?thesis unfolding response_txt_def n using c d [OF Some] Some ne
      by (simp add: Let_def del: to_be_bytes.simps)
  qed
qed

text \<open>The answer for a value longer than 255 bytes carries a wrapped length byte.\<close>

lemma txt_length_wraps: "txt_record v ! 12 = of_nat (length v mod 256)"
  by (simp add: txt_record_def nth_append word_of_nat_eq_iff take_bit_eq_mod)

section \<open>Requests in pieces\<close>

text \<open>A proper prefix of a request is not complete.\<close>

lemma prefix_incomplete:
  assumes "find_header_end head = Some (length head)" "content_length head = length body"
    and "length head + length body < 2 ^ 64" "head @ body = p @ r" "r \<noteq> []"
  shows "\<not> request_complete p"
proof (cases "find_sub crlf2 p")
  case None
  then show ?thesis by (simp add: request_complete_def find_header_end_def)
next
  case (Some i)
  have "find_sub crlf2 (head @ body) = Some i" using find_sub_append [OF Some, of r] assms(4) by simp
  moreover obtain k where k: "find_sub crlf2 head = Some k" "k + 4 = length head"
    using assms(1) by (auto simp: find_header_end_def)
  ultimately have i: "i + 4 = length head" using find_sub_append [OF k(1), of body] by simp
  have lp: "length head \<le> length p" using find_sub_Some [OF Some] i by (simp add: crlf2_def)
  then have "take (length head) p = head" using assms(4) by (metis append_eq_append_conv_if)
  moreover have "length p < length head + length body"
    using arg_cong [OF assms(4), of length] assms(5) by (cases r) simp_all
  ultimately show ?thesis using Some i assms(2,3) by (simp add: request_complete_def find_header_end_def)
qed

lemma whole_complete:
  assumes "find_header_end head = Some (length head)" "content_length head = length body"
    and "length head + length body < 2 ^ 64"
  shows "request_complete (head @ body)"
proof -
  obtain k where k: "find_sub crlf2 head = Some k" "k + 4 = length head"
    using assms(1) by (auto simp: find_header_end_def)
  show ?thesis using find_sub_append [OF k(1), of body] k(2) assms(2,3)
    by (simp add: request_complete_def find_header_end_def)
qed

text \<open>However the connection cuts a request, it is read up to its last byte and not further.\<close>

lemma read_request_whole:
  assumes "find_header_end head = Some (length head)" "content_length head = length body"
    and "length head + length body < 2 ^ 64"
  shows "[] \<notin> set chunks \<Longrightarrow> chunks \<noteq> [] \<Longrightarrow> buf @ concat chunks = head @ body \<Longrightarrow>
    read_request buf (map Some chunks @ later) = head @ body"
proof (induction chunks arbitrary: buf)
  case (Cons c cs)
  show ?case
  proof (cases cs)
    case Nil
    then show ?thesis using Cons.prems whole_complete [OF assms] by simp
  next
    case (Cons d ds)
    then have "\<not> request_complete (buf @ c)"
      using Cons.prems by (intro prefix_incomplete [OF assms, of _ "concat cs"]) auto
    then show ?thesis using Cons.prems Cons.IH [of "buf @ c"] Cons by auto
  qed
qed simp

lemma inj_byte_of_char: "inj (\<lambda>c. word_of_nat (of_char c) :: byte)"
proof (rule injI)
  fix a b :: char
  assume "(word_of_nat (of_char a) :: byte) = word_of_nat (of_char b)"
  then have "unat (word_of_nat (of_char a) :: byte) = unat (word_of_nat (of_char b) :: byte)" by simp
  then have "(of_char a :: nat) = of_char b" by (simp add: unat_of_nat)
  then show "a = b" by simp
qed

definition crlf2_text :: string where
  "crlf2_text = [CHR 0x0D, CHR 0x0A, CHR 0x0D, CHR 0x0A]"

lemma crlf2_text: "crlf2 = ascii crlf2_text" "str_of_bytes crlf2 = crlf2_text"
  by code_simp+

lemma webhook_body_of_request:
  assumes "find_header_end (ascii head) = Some (length head)" "\<forall>c\<in>set (head @ body). (of_char c :: nat) < 128"
  shows "webhook_body (ascii (head @ body)) = Some (str_trim body)"
proof -
  obtain k where k: "find_sub crlf2 (ascii head) = Some k" "k + 4 = length head"
    using assms(1) by (auto simp: find_header_end_def)
  then have "find_sub crlf2_text head = Some k"
    using find_sub_map [OF inj_byte_of_char, of crlf2_text head] by (simp add: crlf2_text ascii_def)
  from find_sub_append [OF this] show ?thesis
    using ascii_lossy [OF assms(2)] k(2) by (simp add: webhook_body_def crlf2_text)
qed

lemma join_str_nonempty: "list_all label_ok ls \<Longrightarrow> ls \<noteq> [] \<Longrightarrow> join_str sep ls \<noteq> []"
  by (cases "(sep, ls)" rule: join_str.cases) (auto simp: label_ok_def)

text \<open>The local meeting point serves what was published. A webhook request with a JSON object naming a
  name and a value, cut into pieces in any way, is stored; a TXT query for that name is then answered with the
  query's identifier and exactly that value, and every other name is answered as before.\<close>

theorem local_ddns_serves:
  assumes name: "list_all label_ok ls" "ls \<noteq> []" "length (encode_labels ls) \<le> 255"
    and request: "find_header_end (ascii head) = Some (length head)" "content_length (ascii head) = length body"
      "\<forall>c\<in>set (head @ body). (of_char c :: nat) < 128" "length head + length body < 2 ^ 64"
    and pieces: "concat chunks = ascii (head @ body)" "[] \<notin> set chunks"
    and json: "of_json (str_trim body) = Some j" "json_str ''fqdn'' j = join_str ''.'' ls"
      "length (json_str ''value'' j) \<le> 255"
    and new: "handle_http of_json (map Some chunks @ later) store = (store', answered)"
  shows "answered \<and>
    (\<exists>resp. dns_serve (dns_query tid ls) store' = Some resp \<and> take 2 resp = u16_be tid \<and>
      response_txt resp = Some (Some (ascii (json_str ''value'' j)))) \<and>
    (\<forall>n. n \<noteq> join_str ''.'' ls \<longrightarrow> n @ ''.'' \<noteq> join_str ''.'' ls \<longrightarrow> stored_value store' n = stored_value store n)"
proof -
  have ne: "join_str ''.'' ls \<noteq> []" using join_str_nonempty name by blast
  have "head \<noteq> []" using request(1) by (auto simp: find_header_end_def crlf2_def ascii_def)
  then have cs: "chunks \<noteq> []" using pieces(1) by (auto simp: ascii_def)
  have "read_request [] (map Some chunks @ later) = ascii (head @ body)"
    using read_request_whole [of "ascii head" "ascii body" chunks "[]" later] request pieces cs
    by (simp add: ascii_append)
  then have st: "store' = hm_insert (join_str ''.'' ls) (json_str ''value'' j) store" and an: "answered"
    using new webhook_body_of_request [OF request(1,3)] json ne by (simp_all add: handle_http_def)
  then have v: "stored_value store' (join_str ''.'' ls) = Some (json_str ''value'' j)"
    by (simp add: stored_value_def hm)
  have "length (dns_query tid ls) \<le> DNS_BUF" using name(3) by (simp add: dns_query_def DNS_BUF_def)
  then have q: "dns_serve (dns_query tid ls) store' = dns_txt_response (dns_query tid ls) store'"
    by (simp add: dns_serve_def)
  obtain resp where r: "dns_txt_response (dns_query tid ls) store' = Some resp" "take 2 resp = u16_be tid"
    using dns_response_to_query [OF name(1), of tid store'] by (simp add: Let_def)
  have "response_txt resp = Some (Some (ascii (json_str ''value'' j)))"
    using response_txt_of_query [OF name(1) _ r(1)] v json(3) by simp
  with an q r st show ?thesis by (auto simp: stored_value_def hm split: option.splits)
qed

definition ex_head :: string where
  "ex_head = ''POST /update'' @ [CHR 0x0D, CHR 0x0A] @ ''Content-Length: 4'' @ crlf2_text"

definition ex_hook_json :: json where
  "ex_hook_json = JObj [(''fqdn'', JStr ''n.example''), (''value'', JStr ''v=1'')]"

theorem local_ddns_serves_witness:
  "\<exists>store' resp. handle_http (\<lambda>s. if s = ''{..}'' then Some ex_hook_json else None)
      [Some (ascii (take 20 ex_head)), Some (ascii (drop 20 ex_head @ ''{'')), Some (ascii ''..}''), None] [] = (store', True) \<and>
    dns_serve (dns_query 7 [''n'', ''example'']) store' = Some resp \<and> response_txt resp = Some (Some (ascii ''v=1''))"
proof -
  let ?f = "\<lambda>s. if s = ''{..}'' then Some ex_hook_json else None"
  let ?cs = "[ascii (take 20 ex_head), ascii (drop 20 ex_head @ ''{''), ascii ''..}'']"
  obtain st a where e: "handle_http ?f (map Some ?cs @ [None]) [] = (st, a)" by (cases "handle_http ?f (map Some ?cs @ [None]) []")
  have 1: "list_all label_ok [''n'', ''example'']" "[''n'', ''example''] \<noteq> []" "length (encode_labels [''n'', ''example'']) \<le> 255"
    by code_simp+
  have 2: "find_header_end (ascii ex_head) = Some (length ex_head)" "content_length (ascii ex_head) = length ''{..}''"
    by code_simp+
  have "list_all (\<lambda>c. (of_char c :: nat) < 128) (ex_head @ ''{..}'')" "length ex_head = 35" by code_simp+
  then have 3: "\<forall>c\<in>set (ex_head @ ''{..}''). (of_char c :: nat) < 128" "length ex_head + length ''{..}'' < 2 ^ 64"
    by (simp_all add: list_all_iff)
  have 4: "concat ?cs = ascii (ex_head @ ''{..}'')" "[] \<notin> set ?cs" by code_simp+
  have 5: "?f (str_trim ''{..}'') = Some ex_hook_json" by code_simp
  have 6: "json_str ''fqdn'' ex_hook_json = join_str ''.'' [''n'', ''example'']" "json_str ''value'' ex_hook_json = ''v=1''"
    by code_simp+
  then have 7: "length (json_str ''value'' ex_hook_json) \<le> 255" by simp
  show ?thesis using local_ddns_serves [OF 1 2 3 4 5 6(1) 7 e, of 7] e unfolding 6 by auto
qed

end
