(* ===== verification/Local_Nodes.thy ===== *)
theory Local_Nodes
  imports Local_Ddns
begin

text \<open>
  The self-hosted DDNS meeting point as a running service (\<open>LocalDdnsMock\<close> of \<open>crates/discovery/src/ddns/node.rs\<close>):
  starting it, the turns of its webhook thread and its DNS thread in any order over the table they share, and stopping
  it. The table is locked for each access, so a run is a sequence of turns.
\<close>

section \<open>The service\<close>

datatype mock_start = HttpBind | HttpAddr | DnsBind | DnsAddr | HttpThread | DnsThread

record ddns_mock =
  mk_shutdown :: bool
  mk_http :: bool
  mk_dns :: bool
  mk_store :: ddns_store

text \<open>\<open>LocalDdnsMock::spawn\<close> stops at the first step that fails.\<close>

definition mock_spawn :: "(mock_start \<Rightarrow> bool) \<Rightarrow> (mock_start, ddns_mock) result" where
  "mock_spawn works =
     and_then (try_all (\<lambda>st. if works st then None else Some st) [HttpBind, HttpAddr, DnsBind, DnsAddr, HttpThread, DnsThread])
       (\<lambda>_. Inr \<lparr>mk_shutdown = False, mk_http = True, mk_dns = True, mk_store = []\<rparr>)"

datatype mock_event =
    HttpConnection "bytes option list" | HttpIdle | HttpAcceptFails | DnsDatagram bytes | DnsIdle | DnsRecvFails | MockDropped

datatype mock_output = HttpAnswered | DnsAnswered bytes

text \<open>
  A turn of \<open>http_serve\<close> or \<open>dns_serve\<close>: a thread that saw the shutdown flag or an error has left its loop. Dropping the
  service sets the flag and waits for both threads.
\<close>

fun mock_step :: "(string \<Rightarrow> json option) \<Rightarrow> ddns_mock \<Rightarrow> mock_event \<Rightarrow> ddns_mock \<times> mock_output option" where
  "mock_step of_json m (HttpConnection chunks) =
     (if mk_http m \<and> \<not> mk_shutdown m
      then (case handle_http of_json chunks (mk_store m) of
              (st, answered) \<Rightarrow> (m\<lparr>mk_store := st\<rparr>, if answered then Some HttpAnswered else None))
      else (m, None))"
| "mock_step of_json m HttpIdle = (m, None)"
| "mock_step of_json m HttpAcceptFails = (m\<lparr>mk_http := False\<rparr>, None)"
| "mock_step of_json m (DnsDatagram d) =
     (m, if mk_dns m \<and> \<not> mk_shutdown m then map_option DnsAnswered (dns_serve d (mk_store m)) else None)"
| "mock_step of_json m DnsIdle = (m, None)"
| "mock_step of_json m DnsRecvFails = (m\<lparr>mk_dns := False\<rparr>, None)"
| "mock_step of_json m MockDropped = (m\<lparr>mk_shutdown := True, mk_http := False, mk_dns := False\<rparr>, None)"

definition mock_run :: "(string \<Rightarrow> json option) \<Rightarrow> ddns_mock \<Rightarrow> mock_event list \<Rightarrow> ddns_mock" where
  "mock_run of_json = foldl (\<lambda>m e. fst (mock_step of_json m e))"

section \<open>What was published\<close>

text \<open>The name and value a request publishes.\<close>

definition webhook_of :: "(string \<Rightarrow> json option) \<Rightarrow> bytes option list \<Rightarrow> (string \<times> string) option" where
  "webhook_of of_json chunks =
     (case Option.bind (webhook_body (read_request [] chunks)) of_json of
        None \<Rightarrow> None
      | Some j \<Rightarrow> if json_str ''fqdn'' j = [] then None else Some (json_str ''fqdn'' j, json_str ''value'' j))"

lemma handle_http_store:
  "fst (handle_http of_json chunks st) = (case webhook_of of_json chunks of None \<Rightarrow> st | Some (n, v) \<Rightarrow> hm_insert n v st)"
  by (auto simp: handle_http_def webhook_of_def split: option.splits bind_splits)

fun published :: "(string \<Rightarrow> json option) \<Rightarrow> mock_event list \<Rightarrow> (string \<times> string) list" where
  "published of_json [] = []"
| "published of_json (HttpConnection c # es) =
     (case webhook_of of_json c of None \<Rightarrow> published of_json es | Some nv \<Rightarrow> nv # published of_json es)"
| "published of_json (_ # es) = published of_json es"

lemma published_append: "published of_json (es @ fs) = published of_json es @ published of_json fs"
  by (induction of_json es rule: published.induct) (auto split: option.splits)

definition last_published :: "(string \<times> string) list \<Rightarrow> string \<Rightarrow> string option" where
  "last_published ps = map_of (rev ps)"

text \<open>Both threads stay in their loops.\<close>

definition serving :: "mock_event list \<Rightarrow> bool" where
  "serving es \<longleftrightarrow> HttpAcceptFails \<notin> set es \<and> DnsRecvFails \<notin> set es \<and> MockDropped \<notin> set es"

lemma mock_step_serves:
  assumes "mk_http m" "mk_dns m" "\<not> mk_shutdown m" "serving [e]"
  shows "fst (mock_step of_json m e) = m\<lparr>mk_store := mk_store (fst (mock_step of_json m e))\<rparr> \<and>
    hm_get (mk_store (fst (mock_step of_json m e))) = hm_get (mk_store m) ++ map_of (rev (published of_json [e]))"
  using assms handle_http_store [of of_json _ "mk_store m"]
  by (cases e) (auto simp: serving_def case_prod_unfold hm fun_eq_iff map_add_def split: option.splits)

lemma mock_run_serves:
  assumes "mk_http m" "mk_dns m" "\<not> mk_shutdown m" "serving es"
  shows "mock_run of_json m es = m\<lparr>mk_store := mk_store (mock_run of_json m es)\<rparr> \<and>
    hm_get (mk_store (mock_run of_json m es)) = hm_get (mk_store m) ++ last_published (published of_json es)"
  using assms
proof (induction es rule: rev_induct)
  case (snoc e es)
  let ?m = "mock_run of_json m es"
  have IH: "?m = m\<lparr>mk_store := mk_store ?m\<rparr>" "hm_get (mk_store ?m) = hm_get (mk_store m) ++ last_published (published of_json es)"
    using snoc by (auto simp: serving_def)
  have on: "mk_http ?m" "mk_dns ?m" "\<not> mk_shutdown ?m" by (subst IH(1), use snoc.prems in simp)+
  have e: "serving [e]" using snoc.prems(4) by (auto simp: serving_def)
  note s = mock_step_serves [OF on e, of of_json]
  have run: "mock_run of_json m (es @ [e]) = fst (mock_step of_json ?m e)" by (simp add: mock_run_def)
  have "fst (mock_step of_json ?m e) = m\<lparr>mk_store := mk_store (fst (mock_step of_json ?m e))\<rparr>"
    using s IH(1) by (metis ddns_mock.surjective ddns_mock.update_convs(4))
  with s IH(2) show ?case unfolding run by (simp add: published_append last_published_def)
qed (simp add: mock_run_def last_published_def)

text \<open>A whole request, cut into pieces in any way, is one publication.\<close>

lemma webhook_of_request:
  assumes "find_header_end (ascii head) = Some (length head)" "content_length (ascii head) = length body"
      "\<forall>c\<in>set (head @ body). (of_char c :: nat) < 128" "length head + length body < 2 ^ 64"
    and "concat chunks = ascii (head @ body)" "[] \<notin> set chunks"
    and "of_json (str_trim body) = Some j" "json_str ''fqdn'' j \<noteq> []"
  shows "webhook_of of_json (map Some chunks @ later) = Some (json_str ''fqdn'' j, json_str ''value'' j)"
proof -
  have "head \<noteq> []" using assms(1) by (auto simp: find_header_end_def crlf2_def ascii_def)
  then have "chunks \<noteq> []" using assms(5) by (auto simp: ascii_def)
  then have "read_request [] (map Some chunks @ later) = ascii (head @ body)"
    using read_request_whole [of "ascii head" "ascii body" chunks "[]" later] assms by (simp add: ascii_append)
  then show ?thesis using webhook_body_of_request [OF assms(1,3)] assms(7,8) by (simp add: webhook_of_def)
qed

section \<open>Properties\<close>

text \<open>
  C40: The local meeting point serves what was published last. After it was started, in any sequence of turns of its two
  threads in which neither fails, a webhook request that names a name and a value, cut into pieces in any way, is
  answered; from then on, and until another request publishes under the name, with any other requests and queries in
  between, a TXT query for the name is answered with the query's identifier and exactly that value. Once the service is
  dropped nothing is answered any more.
\<close>

theorem ddns_node_serves_last:
  assumes start: "mock_spawn works = Inr m0" and turns: "serving (before @ between)"
    and name: "list_all label_ok ls" "ls \<noteq> []" "length (encode_labels ls) \<le> 255"
    and request: "find_header_end (ascii head) = Some (length head)" "content_length (ascii head) = length body"
      "\<forall>c\<in>set (head @ body). (of_char c :: nat) < 128" "length head + length body < 2 ^ 64"
    and pieces: "concat chunks = ascii (head @ body)" "[] \<notin> set chunks"
    and json: "of_json (str_trim body) = Some j" "json_str ''fqdn'' j = join_str ''.'' ls" "length (json_str ''value'' j) \<le> 255"
    and unpublished: "join_str ''.'' ls \<notin> fst ` set (published of_json between)"
    and hook: "hook = HttpConnection (map Some chunks @ later)"
  shows "snd (mock_step of_json (mock_run of_json m0 before) hook) = Some HttpAnswered \<and>
    (\<exists>resp. snd (mock_step of_json (mock_run of_json m0 (before @ hook # between)) (DnsDatagram (dns_query tid ls))) = Some (DnsAnswered resp) \<and>
       take 2 resp = u16_be tid \<and> response_txt resp = Some (Some (ascii (json_str ''value'' j)))) \<and>
    (\<forall>after e. snd (mock_step of_json (mock_run of_json m0 (before @ MockDropped # after)) e) = None)"
proof -
  let ?name = "join_str ''.'' ls" and ?v = "json_str ''value'' j"
  have ne: "?name \<noteq> []" using join_str_nonempty name by blast
  then have w: "webhook_of of_json (map Some chunks @ later) = Some (?name, ?v)"
    using webhook_of_request [OF request pieces, of of_json j later] json(1,2) by simp
  have on0: "mk_http m0" "mk_dns m0" "\<not> mk_shutdown m0" "mk_store m0 = []"
    using start by (auto simp: mock_spawn_def and_then_Inr)
  have sv: "serving before" "serving (before @ hook # between)" using turns by (auto simp: serving_def hook)
  note r = mock_run_serves [OF on0(1-3) sv(1), of of_json, THEN conjunct1]
  have on: "mk_http (mock_run of_json m0 before)" "\<not> mk_shutdown (mock_run of_json m0 before)" by (subst r, use on0 in simp)+
  have "snd (handle_http of_json (map Some chunks @ later) st)" for st
    using w by (auto simp: handle_http_def webhook_of_def split: option.splits bind_splits)
  then have answered: "snd (mock_step of_json (mock_run of_json m0 before) hook) = Some HttpAnswered"
    using on by (simp add: hook case_prod_unfold)
  let ?m = "mock_run of_json m0 (before @ hook # between)"
  note r' = mock_run_serves [OF on0(1-3) sv(2), of of_json]
  have on': "mk_dns ?m" "\<not> mk_shutdown ?m" by (subst r' [THEN conjunct1], use on0 in simp)+
  have "hm_get (mk_store ?m) = last_published (published of_json before @ (?name, ?v) # published of_json between)"
    using r' on0(4) w by (simp add: published_append hook)
  moreover have "map_of (rev (published of_json between)) ?name = None" using unpublished by (simp add: map_of_eq_None_iff)
  ultimately have v: "stored_value (mk_store ?m) ?name = Some ?v" by (simp add: stored_value_def last_published_def map_add_def)
  obtain resp where resp: "dns_txt_response (dns_query tid ls) (mk_store ?m) = Some resp" "take 2 resp = u16_be tid"
    using dns_response_to_query [OF name(1), of tid "mk_store ?m"] by (simp add: Let_def)
  have answer: "response_txt resp = Some (Some (ascii ?v))" using response_txt_of_query [OF name(1) _ resp(1)] v json(3) by simp
  have "length (dns_query tid ls) \<le> DNS_BUF" using name(3) by (simp add: dns_query_def DNS_BUF_def)
  then have "snd (mock_step of_json ?m (DnsDatagram (dns_query tid ls))) = Some (DnsAnswered resp)"
    using on' resp(1) by (simp add: dns_serve_def)
  moreover have "snd (mock_step of_json (mock_run of_json m0 (before @ MockDropped # after)) e) = None" for after e
  proof -
    have "mk_shutdown (foldl (\<lambda>m e. fst (mock_step of_json m e)) m es)" if "mk_shutdown m" for m es
      using that
    proof (induction es arbitrary: m)
      case (Cons x es)
      have "mk_shutdown (fst (mock_step of_json m x))" using Cons.prems by (cases x) auto
      then show ?case using Cons.IH by simp
    qed simp
    then have "mk_shutdown (mock_run of_json m0 (before @ MockDropped # after))" by (simp add: mock_run_def)
    then show ?thesis by (cases e) auto
  qed
  ultimately show ?thesis using answered resp(2) answer by blast
qed

theorem ddns_node_serves_last_witness:
  "\<exists>m0 resp. mock_spawn (\<lambda>_. True) = Inr m0 \<and>
    snd (mock_step (\<lambda>s. if s = ''{..}'' then Some ex_hook_json else None)
      (mock_run (\<lambda>s. if s = ''{..}'' then Some ex_hook_json else None) m0
        [DnsIdle, HttpConnection (map Some [ascii (take 20 ex_head), ascii (drop 20 ex_head @ ''{''), ascii ''..}''] @ [None]), HttpIdle])
      (DnsDatagram (dns_query 7 [''n'', ''example'']))) = Some (DnsAnswered resp) \<and>
    response_txt resp = Some (Some (ascii ''v=1''))"
proof -
  let ?f = "\<lambda>s. if s = ''{..}'' then Some ex_hook_json else None"
  let ?cs = "[ascii (take 20 ex_head), ascii (drop 20 ex_head @ ''{''), ascii ''..}'']"
  obtain m0 where m0: "mock_spawn (\<lambda>_. True) = Inr m0" by (simp add: mock_spawn_def)
  have t: "serving ([DnsIdle] @ [HttpIdle])" by (simp add: serving_def)
  have 1: "list_all label_ok [''n'', ''example'']" "[''n'', ''example''] \<noteq> []" "length (encode_labels [''n'', ''example'']) \<le> 255"
    by code_simp+
  have 2: "find_header_end (ascii ex_head) = Some (length ex_head)" "content_length (ascii ex_head) = length ''{..}''"
    by code_simp+
  have "list_all (\<lambda>c. (of_char c :: nat) < 128) (ex_head @ ''{..}'')" "length ex_head = 35" by code_simp+
  then have 3: "\<forall>c\<in>set (ex_head @ ''{..}''). (of_char c :: nat) < 128" "length ex_head + length ''{..}'' < 2 ^ 64"
    by (simp_all add: list_all_iff)
  have 4: "concat ?cs = ascii (ex_head @ ''{..}'')" "[] \<notin> set ?cs" by code_simp+
  have 5: "?f (str_trim ''{..}'') = Some ex_hook_json" by code_simp
  have 6: "json_str ''fqdn'' ex_hook_json = join_str ''.'' [''n'', ''example'']" "json_str ''value'' ex_hook_json = ''v=1''"
    by code_simp+
  then have 7: "length (json_str ''value'' ex_hook_json) \<le> 255" by simp
  have 8: "join_str ''.'' [''n'', ''example''] \<notin> fst ` set (published ?f [HttpIdle])" by simp
  from ddns_node_serves_last [OF m0 t 1 2 3 4 5 6(1) 7 8 refl, of "[None]" 7, THEN conjunct2, THEN conjunct1] m0
  show ?thesis unfolding 6 append.simps by blast
qed

end
