(* ===== verification/Wg_Backend.thy ===== *)
theory Wg_Backend
  imports Daemon_Behaviour
begin

text \<open>
  The WireGuard backends behind the trait \<open>WgBackend\<close> (\<open>crates/wg\<close>): the user-space one with its table of
  devices and its table of names (\<open>crates/wg-userspace/src/lib.rs\<close>) and the kernel one with the updates it
  sends (\<open>crates/wg/src/kernel.rs\<close>). The gotatun library and the kernel are parameters. Below the backends
  stands one device seen as a map from keys to peers; both backends implement it, and the daemon keeps it in
  step with its own table of peers.
\<close>

section \<open>Errors\<close>

datatype wg_fault =
    BadAllowedIps | OpenTun | ReadTunName | WrapFd | BuildDevice | ModifyPeer string | AddPeer string
  | RemovePeer string | NoSuchPeer | BadInterface string | KernelFault string | NoKernelDown

datatype wg_error = WgNotFound string | WgBackendError wg_fault

section \<open>The user-space device\<close>

text \<open>A peer as gotatun holds it, its counters, and the operations of a device.\<close>

record gt_peer =
  gp_public_key :: key32
  gp_endpoint :: "socket_addr option"
  gp_allowed_ips :: "(ipv6 \<times> u8) list"
  gp_keepalive :: "u16 option"

record gt_stats =
  gs_last_handshake :: "int option"
  gs_rx_bytes :: u64
  gs_tx_bytes :: u64

text \<open>An operation gives its result and the device afterwards.\<close>

record 'd gotatun =
  ip_network :: "ipv6 \<Rightarrow> u8 \<Rightarrow> bool"
  gt_build :: "key32 \<Rightarrow> u16 \<Rightarrow> gt_peer list \<Rightarrow> 'd option"
  gt_peers :: "'d \<Rightarrow> (gt_peer \<times> gt_stats) list"
  gt_set_endpoint :: "key32 \<Rightarrow> socket_addr option \<Rightarrow> 'd \<Rightarrow> (string, bool) result \<times> 'd"
  gt_add_peer :: "gt_peer \<Rightarrow> 'd \<Rightarrow> (string, unit) result \<times> 'd"
  gt_remove_peer :: "key32 \<Rightarrow> 'd \<Rightarrow> (string, bool) result \<times> 'd"

section \<open>The user-space backend\<close>

datatype 'd device_handle = Named (handle_device: 'd) | Fd (handle_device: 'd)

record 'd userspace =
  us_devices :: "(string \<times> 'd device_handle) list"
  us_aliases :: "(string \<times> string) list"

definition us_new :: "'d userspace" where
  "us_new = \<lparr>us_devices = [], us_aliases = []\<rparr>"

definition resolve :: "'d userspace \<Rightarrow> string \<Rightarrow> string" where
  "resolve b interface = unwrap_or (hm_get (us_aliases b) interface) interface"

definition peer_spec_to_peer :: "'d gotatun \<Rightarrow> peer_spec \<Rightarrow> (wg_error, gt_peer) result" where
  "peer_spec_to_peer g spec =
     (if list_all (\<lambda>(ip, len). ip_network g ip len) (ps_allowed_ips spec)
      then Inr \<lparr>gp_public_key = ps_wg_public spec, gp_endpoint = map_option V6 (ps_endpoint spec),
                gp_allowed_ips = ps_allowed_ips spec, gp_keepalive = ps_persistent_keepalive spec\<rparr>
      else Inl (WgBackendError BadAllowedIps))"

text \<open>\<open>iter().map(peer_spec_to_peer).collect()\<close>.\<close>

fun peers_of_specs :: "'d gotatun \<Rightarrow> peer_spec list \<Rightarrow> (wg_error, gt_peer list) result" where
  "peers_of_specs g [] = Inr []"
| "peers_of_specs g (s # ss) =
     (case peer_spec_to_peer g s of
        Inl e \<Rightarrow> Inl e
      | Inr p \<Rightarrow> (case peers_of_specs g ss of Inl e \<Rightarrow> Inl e | Inr ps \<Rightarrow> Inr (p # ps)))"

definition request_name :: "bool \<Rightarrow> string \<Rightarrow> string" where
  "request_name macos interface = (if macos then ''utun'' else interface)"

text \<open>
  \<open>tun_open\<close> is what opening a TUN device of a name gives: a failure, or the device, whose real name may
  fail to be read.
\<close>

definition us_apply ::
  "'d gotatun \<Rightarrow> bool \<Rightarrow> (string \<Rightarrow> string option option) \<Rightarrow> device_spec \<Rightarrow> 'd userspace \<Rightarrow> (wg_error, string) result \<times> 'd userspace" where
  "us_apply g macos tun_open spec b =
     (case peers_of_specs g (ds_peers spec) of
        Inl e \<Rightarrow> (Inl e, b)
      | Inr ps \<Rightarrow>
          (case tun_open (request_name macos (ds_interface spec)) of
             None \<Rightarrow> (Inl (WgBackendError OpenTun), b)
           | Some None \<Rightarrow> (Inl (WgBackendError ReadTunName), b)
           | Some (Some real_name) \<Rightarrow>
               (case gt_build g (ds_wg_secret spec) (ds_listen_port spec) ps of
                  None \<Rightarrow> (Inl (WgBackendError BuildDevice), b)
                | Some dev \<Rightarrow>
                    (Inr real_name,
                     b\<lparr>us_devices := hm_insert real_name (Named dev) (us_devices b),
                       us_aliases := hm_insert (ds_interface spec) real_name (us_aliases b)\<rparr>))))"

definition us_apply_with_fd :: "'d gotatun \<Rightarrow> bool \<Rightarrow> device_spec \<Rightarrow> 'd userspace \<Rightarrow> (wg_error, string) result \<times> 'd userspace" where
  "us_apply_with_fd g fd_ok spec b =
     (case peers_of_specs g (ds_peers spec) of
        Inl e \<Rightarrow> (Inl e, b)
      | Inr ps \<Rightarrow>
          if \<not> fd_ok then (Inl (WgBackendError WrapFd), b)
          else case gt_build g (ds_wg_secret spec) (ds_listen_port spec) ps of
            None \<Rightarrow> (Inl (WgBackendError BuildDevice), b)
          | Some dev \<Rightarrow> (Inr (ds_interface spec), b\<lparr>us_devices := hm_insert (ds_interface spec) (Fd dev) (us_devices b)\<rparr>))"

text \<open>The time of a handshake from its age; before the first representable time it is the epoch.\<close>

definition SYSTEM_TIME_MIN :: time where "SYSTEM_TIME_MIN = secs (- (2 ^ 63))"

definition handshake_time :: "time \<Rightarrow> int \<Rightarrow> time" where
  "handshake_time now age = (if now - age < SYSTEM_TIME_MIN then 0 else now - age)"

definition status_of :: "'d gotatun \<Rightarrow> time \<Rightarrow> 'd \<Rightarrow> peer_status list" where
  "status_of g now dev =
     map (\<lambda>(p, s). \<lparr>wgs_public = gp_public_key p, wgs_endpoint = gp_endpoint p,
                    wgs_last_handshake = map_option (handshake_time now) (gs_last_handshake s),
                    wgs_rx_bytes = gs_rx_bytes s, wgs_tx_bytes = gs_tx_bytes s\<rparr>) (gt_peers g dev)"

definition us_status :: "'d gotatun \<Rightarrow> time \<Rightarrow> string \<Rightarrow> 'd userspace \<Rightarrow> (wg_error, peer_status list) result" where
  "us_status g now interface b =
     (case hm_get (us_devices b) (resolve b interface) of
        None \<Rightarrow> Inl (WgNotFound interface)
      | Some h \<Rightarrow> Inr (status_of g now (handle_device h)))"

text \<open>An operation on the device of a name; the device stays registered under its handle.\<close>

fun set_handle :: "'d device_handle \<Rightarrow> 'd \<Rightarrow> 'd device_handle" where
  "set_handle (Named _) d = Named d"
| "set_handle (Fd _) d = Fd d"

definition on_device ::
  "string \<Rightarrow> ('d \<Rightarrow> (wg_error, unit) result \<times> 'd) \<Rightarrow> 'd userspace \<Rightarrow> (wg_error, unit) result \<times> 'd userspace" where
  "on_device interface f b =
     (let name = resolve b interface in
      case hm_get (us_devices b) name of
        None \<Rightarrow> (Inl (WgNotFound interface), b)
      | Some h \<Rightarrow> (case f (handle_device h) of (r, d) \<Rightarrow> (r, b\<lparr>us_devices := hm_insert name (set_handle h d) (us_devices b)\<rparr>)))"

definition set_endpoint_of :: "'d gotatun \<Rightarrow> key32 \<Rightarrow> socket_v6 \<Rightarrow> 'd \<Rightarrow> (wg_error, unit) result \<times> 'd" where
  "set_endpoint_of g k ep d =
     (case gt_set_endpoint g k (Some (V6 ep)) d of
        (Inl e, d) \<Rightarrow> (Inl (WgBackendError (ModifyPeer e)), d)
      | (Inr updated, d) \<Rightarrow> (if updated then Inr () else Inl (WgBackendError NoSuchPeer), d))"

definition us_set_peer_endpoint :: "'d gotatun \<Rightarrow> string \<Rightarrow> key32 \<Rightarrow> socket_v6 \<Rightarrow> 'd userspace \<Rightarrow> (wg_error, unit) result \<times> 'd userspace" where
  "us_set_peer_endpoint g interface k ep b = on_device interface (set_endpoint_of g k ep) b"

definition add_peer_of :: "'d gotatun \<Rightarrow> gt_peer \<Rightarrow> 'd \<Rightarrow> (wg_error, unit) result \<times> 'd" where
  "add_peer_of g p d =
     (case gt_add_peer g p d of (Inl e, d) \<Rightarrow> (Inl (WgBackendError (AddPeer e)), d) | (Inr u, d) \<Rightarrow> (Inr u, d))"

definition us_add_peer :: "'d gotatun \<Rightarrow> string \<Rightarrow> peer_spec \<Rightarrow> 'd userspace \<Rightarrow> (wg_error, unit) result \<times> 'd userspace" where
  "us_add_peer g interface spec b =
     on_device interface
       (\<lambda>d. case peer_spec_to_peer g spec of Inl e \<Rightarrow> (Inl e, d) | Inr p \<Rightarrow> add_peer_of g p d) b"

definition remove_peer_of :: "'d gotatun \<Rightarrow> key32 \<Rightarrow> 'd \<Rightarrow> (wg_error, unit) result \<times> 'd" where
  "remove_peer_of g k d =
     (case gt_remove_peer g k d of
        (Inl e, d) \<Rightarrow> (Inl (WgBackendError (RemovePeer e)), d)
      | (Inr found, d) \<Rightarrow> (if found then Inr () else Inl (WgBackendError NoSuchPeer), d))"

definition us_remove_peer :: "'d gotatun \<Rightarrow> string \<Rightarrow> key32 \<Rightarrow> 'd userspace \<Rightarrow> (wg_error, unit) result \<times> 'd userspace" where
  "us_remove_peer g interface k b = on_device interface (remove_peer_of g k) b"

definition us_down :: "string \<Rightarrow> 'd userspace \<Rightarrow> (wg_error, unit) result \<times> 'd userspace" where
  "us_down interface b =
     (let name = resolve b interface in
      case hm_get (us_devices b) name of
        None \<Rightarrow> (Inl (WgNotFound interface), b)
      | Some _ \<Rightarrow>
          (Inr (), b\<lparr>us_devices := hm_remove name (us_devices b),
                     us_aliases := hm_retain (\<lambda>_ real. real \<noteq> name) (us_aliases b)\<rparr>))"

section \<open>The kernel backend\<close>

record peer_config =
  pc_key :: key32
  pc_remove :: bool
  pc_endpoint :: "socket_addr option"
  pc_allowed_ips :: "(ipv6 \<times> u8) list"
  pc_keepalive :: "u16 option"

record device_update =
  du_private_key :: "key32 option"
  du_listen_port :: "u16 option"
  du_replace_peers :: bool
  du_peers :: "peer_config list"

record io_fault =
  if_not_found :: bool
  if_raw :: "int option"
  if_text :: string

text \<open>The kernel: which names it takes, an update of the device of a name, and reading it back.\<close>

record 'k wg_kernel =
  wk_iface_ok :: "string \<Rightarrow> bool"
  wk_apply :: "device_update \<Rightarrow> string \<Rightarrow> 'k \<Rightarrow> (string, unit) result \<times> 'k"
  wk_get :: "string \<Rightarrow> 'k \<Rightarrow> (io_fault, peer_status list) result"

definition ENODEV :: int where "ENODEV = 19"

definition is_missing_interface :: "io_fault \<Rightarrow> bool" where
  "is_missing_interface e \<longleftrightarrow> if_not_found e \<or> if_raw e = Some ENODEV"

definition peer_config_new :: "key32 \<Rightarrow> peer_config" where
  "peer_config_new k = \<lparr>pc_key = k, pc_remove = False, pc_endpoint = None, pc_allowed_ips = [], pc_keepalive = None\<rparr>"

definition peer_config_of :: "peer_spec \<Rightarrow> peer_config" where
  "peer_config_of s =
     (let pc = peer_config_new (ps_wg_public s);
          pc = (case ps_endpoint s of Some ep \<Rightarrow> pc\<lparr>pc_endpoint := Some (V6 ep)\<rparr> | None \<Rightarrow> pc);
          pc = foldl (\<lambda>pc net. pc\<lparr>pc_allowed_ips := pc_allowed_ips pc @ [net]\<rparr>) pc (ps_allowed_ips s)
      in case ps_persistent_keepalive s of Some ka \<Rightarrow> pc\<lparr>pc_keepalive := Some ka\<rparr> | None \<Rightarrow> pc)"

definition device_update_new :: device_update where
  "device_update_new = \<lparr>du_private_key = None, du_listen_port = None, du_replace_peers = False, du_peers = []\<rparr>"

definition update_add :: "peer_config \<Rightarrow> device_update \<Rightarrow> device_update" where
  "update_add pc u = u\<lparr>du_peers := du_peers u @ [pc]\<rparr>"

definition device_update_of :: "device_spec \<Rightarrow> device_update" where
  "device_update_of spec =
     foldl (\<lambda>u p. update_add (peer_config_of p) u)
       (device_update_new\<lparr>du_private_key := Some (ds_wg_secret spec), du_listen_port := Some (ds_listen_port spec),
          du_replace_peers := True\<rparr>) (ds_peers spec)"

definition kernel_send :: "'k wg_kernel \<Rightarrow> string \<Rightarrow> device_update \<Rightarrow> 'k \<Rightarrow> (wg_error, unit) result \<times> 'k" where
  "kernel_send wk interface u k =
     (if \<not> wk_iface_ok wk interface then (Inl (WgBackendError (BadInterface interface)), k)
      else case wk_apply wk u interface k of
        (Inl e, k) \<Rightarrow> (Inl (WgBackendError (KernelFault e)), k)
      | (Inr _, k) \<Rightarrow> (Inr (), k))"

definition kernel_apply :: "'k wg_kernel \<Rightarrow> device_spec \<Rightarrow> 'k \<Rightarrow> (wg_error, string) result \<times> 'k" where
  "kernel_apply wk spec k =
     (case kernel_send wk (ds_interface spec) (device_update_of spec) k of
        (Inl e, k) \<Rightarrow> (Inl e, k)
      | (Inr _, k) \<Rightarrow> (Inr (ds_interface spec), k))"

definition kernel_status :: "'k wg_kernel \<Rightarrow> string \<Rightarrow> 'k \<Rightarrow> (wg_error, peer_status list) result" where
  "kernel_status wk interface k =
     (if \<not> wk_iface_ok wk interface then Inl (WgBackendError (BadInterface interface))
      else case wk_get wk interface k of
        Inl e \<Rightarrow> Inl (if is_missing_interface e then WgNotFound interface else WgBackendError (KernelFault (if_text e)))
      | Inr ps \<Rightarrow> Inr ps)"

definition kernel_set_peer_endpoint :: "'k wg_kernel \<Rightarrow> string \<Rightarrow> key32 \<Rightarrow> socket_v6 \<Rightarrow> 'k \<Rightarrow> (wg_error, unit) result \<times> 'k" where
  "kernel_set_peer_endpoint wk interface key ep k =
     kernel_send wk interface (update_add ((peer_config_new key)\<lparr>pc_endpoint := Some (V6 ep)\<rparr>) device_update_new) k"

definition kernel_add_peer :: "'k wg_kernel \<Rightarrow> string \<Rightarrow> peer_spec \<Rightarrow> 'k \<Rightarrow> (wg_error, unit) result \<times> 'k" where
  "kernel_add_peer wk interface spec k = kernel_send wk interface (update_add (peer_config_of spec) device_update_new) k"

definition kernel_remove_peer :: "'k wg_kernel \<Rightarrow> string \<Rightarrow> key32 \<Rightarrow> 'k \<Rightarrow> (wg_error, unit) result \<times> 'k" where
  "kernel_remove_peer wk interface key k =
     kernel_send wk interface (update_add ((peer_config_new key)\<lparr>pc_remove := True\<rparr>) device_update_new) k"

definition kernel_down :: "'k \<Rightarrow> (wg_error, unit) result \<times> 'k" where
  "kernel_down k = (Inl (WgBackendError NoKernelDown), k)"

section \<open>The table of devices\<close>

text \<open>Calls of the backend as one step, for sequences of them.\<close>

datatype us_call =
    Apply bool "string \<Rightarrow> string option option" device_spec
  | ApplyFd bool device_spec
  | SetPeerEndpoint string key32 socket_v6
  | AddPeerTo string peer_spec
  | RemovePeerFrom string key32
  | Down string

fun us_step :: "'d gotatun \<Rightarrow> 'd userspace \<Rightarrow> us_call \<Rightarrow> 'd userspace" where
  "us_step g b (Apply macos tun spec) = snd (us_apply g macos tun spec b)"
| "us_step g b (ApplyFd ok spec) = snd (us_apply_with_fd g ok spec b)"
| "us_step g b (SetPeerEndpoint i k ep) = snd (us_set_peer_endpoint g i k ep b)"
| "us_step g b (AddPeerTo i s) = snd (us_add_peer g i s b)"
| "us_step g b (RemovePeerFrom i k) = snd (us_remove_peer g i k b)"
| "us_step g b (Down i) = snd (us_down i b)"

text \<open>Every name in the table of names leads to a device.\<close>

definition us_ok :: "'d userspace \<Rightarrow> bool" where
  "us_ok b \<longleftrightarrow> hm_ok (us_devices b) \<and> hm_ok (us_aliases b) \<and>
     (\<forall>n r. hm_get (us_aliases b) n = Some r \<longrightarrow> hm_get (us_devices b) r \<noteq> None)"

lemma us_ok_new: "us_ok us_new"
  by (simp add: us_ok_def us_new_def)

lemma on_device_ok: "us_ok b \<Longrightarrow> us_ok (snd (on_device i f b))"
  by (auto simp: us_ok_def on_device_def Let_def hm split: option.splits prod.splits)

lemma us_ok_step: "us_ok b \<Longrightarrow> us_ok (us_step g b c)"
proof (cases c)
  case (Down i)
  assume "us_ok b"
  then show ?thesis
    by (auto simp: Down us_down_def us_ok_def Let_def hm split: option.splits if_splits)
qed (auto simp: us_apply_def us_apply_with_fd_def us_set_peer_endpoint_def us_add_peer_def us_remove_peer_def on_device_ok,
     auto simp: us_ok_def hm split: sum.splits option.splits)

interpretation us_table: machine us_new "us_step g" us_ok for g
  by unfold_locales (simp add: us_ok_new, rule us_ok_step)

lemma resolve_registered: "us_ok b \<Longrightarrow> hm_get (us_aliases b) i \<noteq> None \<Longrightarrow> hm_get (us_devices b) (resolve b i) \<noteq> None"
  by (auto simp: us_ok_def resolve_def unwrap_or_def)

lemma us_apply_Inr:
  "us_apply g macos tun spec b = (Inr real, b1) \<longleftrightarrow>
     (\<exists>ps dev. peers_of_specs g (ds_peers spec) = Inr ps \<and> tun (request_name macos (ds_interface spec)) = Some (Some real) \<and>
        gt_build g (ds_wg_secret spec) (ds_listen_port spec) ps = Some dev \<and>
        b1 = b\<lparr>us_devices := hm_insert real (Named dev) (us_devices b), us_aliases := hm_insert (ds_interface spec) real (us_aliases b)\<rparr>)"
  by (auto simp: us_apply_def split: sum.splits option.splits)

text \<open>The user-space backend finds a device under both of its names and forgets both with it. After any
  calls, a device that was set up is reached by the name of the configuration and by the name the system gave
  it; taking it down by either name succeeds, and then neither name leads anywhere, while every device of
  another real name stays registered. The real name must not be used as a configured name of another device,
  nor the configured name as a real one.\<close>

theorem userspace_device_life:
  assumes "b = foldl (us_step g) us_new calls" and "us_apply g macos tun spec b = (Inr real, b1)"
    and "real \<noteq> ds_interface spec \<longrightarrow> hm_get (us_aliases b) real \<in> {None, Some real} \<and> hm_get (us_devices b) (ds_interface spec) = None"
    and "i \<in> {real, ds_interface spec}" and "us_down i b1 = (r, b2)"
  shows "(\<exists>ps dev. peers_of_specs g (ds_peers spec) = Inr ps \<and> gt_build g (ds_wg_secret spec) (ds_listen_port spec) ps = Some dev \<and>
       us_status g now i b1 = Inr (status_of g now dev)) \<and>
    r = Inr () \<and> us_status g now i b2 = Inl (WgNotFound i) \<and>
    us_status g now real b2 = Inl (WgNotFound real) \<and>
    us_status g now (ds_interface spec) b2 = Inl (WgNotFound (ds_interface spec)) \<and>
    (\<forall>n. n \<noteq> real \<longrightarrow> hm_get (us_devices b2) n = hm_get (us_devices b) n)"
proof -
  obtain ps dev where p: "peers_of_specs g (ds_peers spec) = Inr ps"
    and dev: "gt_build g (ds_wg_secret spec) (ds_listen_port spec) ps = Some dev"
    and b1: "b1 = b\<lparr>us_devices := hm_insert real (Named dev) (us_devices b), us_aliases := hm_insert (ds_interface spec) real (us_aliases b)\<rparr>"
    using assms(2) by (auto simp: us_apply_Inr)
  have ok: "hm_ok (us_aliases b)" "hm_ok (us_devices b)"
    using us_table.inv_reachable [of g calls] by (simp_all add: assms(1) us_ok_def)
  have res: "resolve b1 i = real" using assms(3,4) by (auto simp: b1 resolve_def unwrap_or_def hm)
  then have b2: "r = Inr ()" "b2 = b1\<lparr>us_devices := hm_remove real (us_devices b1), us_aliases := hm_retain (\<lambda>_ rl. rl \<noteq> real) (us_aliases b1)\<rparr>"
    using assms(5) by (auto simp: us_down_def b1 hm)
  have gone: "hm_get (us_devices b2) (resolve b2 j) = None" if "j \<in> {real, ds_interface spec}" for j
    using that assms(3) ok by (auto simp: b2 b1 resolve_def unwrap_or_def hm split: option.splits)
  show ?thesis
    using p dev res b2 gone assms(4) by (auto simp: us_status_def b1 hm)
qed

text \<open>A device that keeps its peers in a list, as an instance of the library's interface.\<close>

definition ex_gotatun :: "gt_peer list gotatun" where
  "ex_gotatun =
     \<lparr>ip_network = (\<lambda>_ len. len \<le> 128), gt_build = (\<lambda>_ _ ps. Some ps),
      gt_peers = map (\<lambda>p. (p, \<lparr>gs_last_handshake = None, gs_rx_bytes = 0, gs_tx_bytes = 0\<rparr>)),
      gt_set_endpoint = (\<lambda>k ep ps. (Inr (list_ex (\<lambda>p. gp_public_key p = k) ps),
        map (\<lambda>p. if gp_public_key p = k then p\<lparr>gp_endpoint := ep\<rparr> else p) ps)),
      gt_add_peer = (\<lambda>p ps. (Inr (), p # filter (\<lambda>q. gp_public_key q \<noteq> gp_public_key p) ps)),
      gt_remove_peer = (\<lambda>k ps. (Inr (list_ex (\<lambda>p. gp_public_key p = k) ps), filter (\<lambda>q. gp_public_key q \<noteq> k) ps))\<rparr>"

definition ex_device_spec :: device_spec where
  "ex_device_spec = \<lparr>ds_interface = ''hextet0'', ds_listen_port = 4193, ds_wg_secret = 1,
     ds_peers = [\<lparr>ps_wg_public = 5, ps_endpoint = None, ps_allowed_ips = [(7, 64)], ps_persistent_keepalive = None\<rparr>]\<rparr>"

theorem userspace_device_life_witness:
  "\<exists>b1 b2. us_apply ex_gotatun True (\<lambda>n. Some (Some (n @ ''3''))) ex_device_spec us_new = (Inr ''utun3'', b1) \<and>
     us_down ''hextet0'' b1 = (Inr (), b2) \<and> us_status ex_gotatun 0 ''utun3'' b2 = Inl (WgNotFound ''utun3'')"
proof -
  let ?a = "us_apply ex_gotatun True (\<lambda>n. Some (Some (n @ ''3''))) ex_device_spec us_new"
  obtain b1 where a: "?a = (Inr ''utun3'', b1)"
    by (simp add: us_apply_def ex_gotatun_def ex_device_spec_def request_name_def peer_spec_to_peer_def)
  obtain r b2 where d: "us_down ''hextet0'' b1 = (r, b2)" by (cases "us_down ''hextet0'' b1")
  have "''hextet0'' \<in> {''utun3'', ds_interface ex_device_spec}" by (simp add: ex_device_spec_def)
  from userspace_device_life [OF _ a _ this d, of "[]"] a d show ?thesis by (simp add: us_new_def)
qed

end
