(* ===== verification/Device_Sync.thy ===== *)
theory Device_Sync
  imports Wg_Backend
begin

text \<open>
  The WireGuard device beneath the daemon. What a backend promises the daemon is the locale
  \<open>wg_device\<close>: a device seen as a map from keys to AllowedIPs and keepalive, and what each call does to it. The
  user-space and the kernel backend both satisfy it, and the daemon keeps the device in step with its table
  of peers through every event.
\<close>

section \<open>The promise of a backend\<close>

type_synonym peer_core = "(ipv6 \<times> u8) set \<times> u16 option"

definition spec_core :: "peer_spec \<Rightarrow> peer_core" where
  "spec_core s = (set (ps_allowed_ips s), ps_persistent_keepalive s)"

definition gt_core :: "gt_peer \<Rightarrow> peer_core" where
  "gt_core p = (set (gp_allowed_ips p), gp_keepalive p)"

definition prefixes_ok :: "peer_spec \<Rightarrow> bool" where
  "prefixes_ok s \<longleftrightarrow> (\<forall>(ip, len)\<in>set (ps_allowed_ips s). len \<le> 128)"

text \<open>No other peer holds an AllowedIPs entry of these.\<close>

definition free_for :: "(key32 \<Rightarrow> peer_core option) \<Rightarrow> key32 \<Rightarrow> (ipv6 \<times> u8) set \<Rightarrow> bool" where
  "free_for m k a \<longleftrightarrow> (\<forall>k' c. k' \<noteq> k \<longrightarrow> m k' = Some c \<longrightarrow> fst c \<inter> a = {})"

fun is_wg :: "effect \<Rightarrow> bool" where
  "is_wg (WgSetEndpoint _ _) = True"
| "is_wg (WgRemovePeer _) = True"
| "is_wg (WgAddPeer _) = True"
| "is_wg _ = False"

text \<open>The effects on one peer: it is pointed at an address, or dropped and added again unchanged.\<close>

definition rt_core :: "peer_runtime \<Rightarrow> peer_core" where
  "rt_core p = (set (allowed_ips_for (site_of (pr_overlay p)) (pr_routes p)), pr_keepalive p)"

definition readd_spec :: "peer_runtime \<Rightarrow> socket_v6 \<Rightarrow> peer_spec" where
  "readd_spec p ep =
     \<lparr>ps_wg_public = pr_wg_public p, ps_endpoint = Some ep,
      ps_allowed_ips = allowed_ips_for (site_of (pr_overlay p)) (pr_routes p), ps_persistent_keepalive = pr_keepalive p\<rparr>"

inductive peer_fx :: "peer_runtime \<Rightarrow> effect list \<Rightarrow> bool" for p where
  peer_fx_Nil: "peer_fx p []"
| peer_fx_other: "\<not> is_wg e \<Longrightarrow> peer_fx p fx \<Longrightarrow> peer_fx p (e # fx)"
| peer_fx_point: "peer_fx p fx \<Longrightarrow> peer_fx p (WgSetEndpoint (pr_wg_public p) ep # fx)"
| peer_fx_flush: "peer_fx p fx \<Longrightarrow> peer_fx p (WgRemovePeer (pr_wg_public p) # WgAddPeer (readd_spec p ep) # fx)"

inductive table_fx :: "peer_runtime list \<Rightarrow> effect list \<Rightarrow> bool" for ps where
  table_fx_Nil: "table_fx ps []"
| table_fx_other: "\<not> is_wg e \<Longrightarrow> table_fx ps fx \<Longrightarrow> table_fx ps (e # fx)"
| table_fx_block: "p \<in> set ps \<Longrightarrow> peer_fx p fx \<Longrightarrow> table_fx ps gx \<Longrightarrow> table_fx ps (fx @ gx)"

definition table_core :: "peer_runtime list \<Rightarrow> key32 \<Rightarrow> peer_core option" where
  "table_core ps = map_of (map (\<lambda>p. (pr_wg_public p, rt_core p)) ps)"

text \<open>The peers of a table have different keys, disjoint AllowedIPs and valid prefix lengths.\<close>

definition separated :: "peer_runtime list \<Rightarrow> bool" where
  "separated ps \<longleftrightarrow> distinct (map pr_wg_public ps) \<and>
     (\<forall>p\<in>set ps. free_for (table_core ps) (pr_wg_public p) (fst (rt_core p)) \<and> (\<forall>r\<in>set (pr_routes p). prefix_len r \<le> 128))"

locale wg_device =
  fixes exec :: "effect \<Rightarrow> 'b \<Rightarrow> 'b"
    and core :: "'b \<Rightarrow> key32 \<Rightarrow> peer_core option"
    and ok :: "'b \<Rightarrow> bool"
  assumes ok_exec: "ok b \<Longrightarrow> ok (exec e b)"
    and exec_other: "\<not> is_wg e \<Longrightarrow> exec e b = b"
    and exec_point: "ok b \<Longrightarrow> core b k \<noteq> None \<Longrightarrow> core (exec (WgSetEndpoint k ep) b) = core b"
    and exec_remove: "ok b \<Longrightarrow> core (exec (WgRemovePeer k) b) = (core b)(k := None)"
    and exec_add: "ok b \<Longrightarrow> prefixes_ok s \<Longrightarrow> core b (ps_wg_public s) = None \<Longrightarrow>
      free_for (core b) (ps_wg_public s) (fst (spec_core s)) \<Longrightarrow>
      core (exec (WgAddPeer s) b) = (core b)(ps_wg_public s \<mapsto> spec_core s)"
begin

definition execs :: "effect list \<Rightarrow> 'b \<Rightarrow> 'b" where
  "execs fx b = foldl (\<lambda>b e. exec e b) b fx"

lemma execs_simps [simp]:
  "execs [] b = b" "execs (e # fx) b = execs fx (exec e b)" "execs (fx @ gx) b = execs gx (execs fx b)"
  by (simp_all add: execs_def)

lemma ok_execs: "ok b \<Longrightarrow> ok (execs fx b)"
  by (induction fx arbitrary: b) (auto intro: ok_exec)

lemma execs_peer:
  assumes "peer_fx p fx"
  shows "ok b \<Longrightarrow> core b (pr_wg_public p) = Some (rt_core p) \<Longrightarrow> free_for (core b) (pr_wg_public p) (fst (rt_core p)) \<Longrightarrow>
    \<forall>r\<in>set (pr_routes p). prefix_len r \<le> 128 \<Longrightarrow> core (execs fx b) = core b"
  using assms
proof (induction arbitrary: b rule: peer_fx.induct)
  case (peer_fx_flush fx ep)
  let ?s = "readd_spec p ep" and ?b1 = "exec (WgRemovePeer (pr_wg_public p)) b"
  have s: "ps_wg_public ?s = pr_wg_public p" "spec_core ?s = rt_core p"
    by (simp_all add: readd_spec_def spec_core_def rt_core_def)
  have "prefixes_ok ?s" using peer_fx_flush.prems(4)
    by (auto simp: prefixes_ok_def readd_spec_def allowed_ips_for_def set_push_allowed)
  moreover have "core ?b1 = (core b)(pr_wg_public p := None)" by (rule exec_remove [OF peer_fx_flush.prems(1)])
  ultimately have "core (exec (WgAddPeer ?s) ?b1) = core b"
    using exec_add [of ?b1 ?s] ok_exec [OF peer_fx_flush.prems(1)] peer_fx_flush.prems(2,3) s
    by (auto simp: free_for_def)
  then show ?case using peer_fx_flush.IH [of "exec (WgAddPeer ?s) ?b1"] peer_fx_flush.prems ok_exec by auto
next
  case (peer_fx_point fx ep)
  have "core (exec (WgSetEndpoint (pr_wg_public p) ep) b) = core b"
    using peer_fx_point.prems by (intro exec_point) auto
  then show ?case using peer_fx_point.IH [of "exec (WgSetEndpoint (pr_wg_public p) ep) b"] peer_fx_point.prems ok_exec by simp
qed (auto simp: exec_other)

lemma execs_table:
  assumes "table_fx ps fx"
  shows "ok b \<Longrightarrow> separated ps \<Longrightarrow> core b = table_core ps \<Longrightarrow> core (execs fx b) = core b"
  using assms
proof (induction arbitrary: b rule: table_fx.induct)
  case (table_fx_block p fx gx)
  have "core b (pr_wg_public p) = Some (rt_core p)"
    using table_fx_block.prems table_fx_block.hyps(1) by (auto simp: separated_def table_core_def comp_def)
  then have "core (execs fx b) = core b"
    using table_fx_block.prems table_fx_block.hyps by (intro execs_peer [of p]) (auto simp: separated_def)
  then show ?case using table_fx_block.IH [of "execs fx b"] table_fx_block.prems ok_execs by simp
qed (simp_all add: exec_other)

end

section \<open>What the handlers do to the device\<close>

lemma peer_fx_append: "peer_fx p fx \<Longrightarrow> peer_fx p gx \<Longrightarrow> peer_fx p (fx @ gx)"
  by (induction rule: peer_fx.induct) (auto intro: peer_fx.intros)

lemma peer_fx_quiet: "\<forall>e\<in>set fx. \<not> is_wg e \<Longrightarrow> peer_fx p fx"
  by (induction fx) (auto intro: peer_fx.intros)

lemma identity_device:
  assumes "identity q = identity p"
  shows "pr_wg_public q = pr_wg_public p" "rt_core q = rt_core p" "readd_spec q ep = readd_spec p ep" "peer_fx q fx = peer_fx p fx"
proof -
  show a: "pr_wg_public q = pr_wg_public p" "rt_core q = rt_core p" "readd_spec q ep = readd_spec p ep" for ep
    using assms by (simp_all add: identity_def rt_core_def readd_spec_def)
  have "peer_fx q fx \<Longrightarrow> peer_fx p fx" for fx
    by (induction rule: peer_fx.induct) (auto simp: a intro: peer_fx.intros)
  moreover have "peer_fx p fx \<Longrightarrow> peer_fx q fx" for fx
    by (induction rule: peer_fx.induct) (auto simp: a [symmetric] intro: peer_fx.intros)
  ultimately show "peer_fx q fx = peer_fx p fx" by blast
qed

lemma apply_action_fx: "peer_fx p (snd (apply_action now p cache a))"
proof (cases a)
  case (Rehandshake ep)
  then show ?thesis using peer_fx_flush [OF peer_fx_Nil, of p ep] by (simp add: readd_spec_def)
qed (auto simp: Let_def intro: peer_fx.intros)

lemma apply_actions_fx: "peer_fx p (snd (apply_actions now p cache as))"
  by (induction as arbitrary: cache) (auto simp: Let_def case_prod_unfold intro: peer_fx.intros peer_fx_append apply_action_fx)

lemma apply_actions_fx_as: "identity q = identity p \<Longrightarrow> peer_fx p (snd (apply_actions now q cache as))"
  using apply_actions_fx [of q] identity_device(4) by blast

lemma refresh_identity [simp]: "identity (fst (refresh_candidates p cache now)) = identity p"
  using refresh_keeps [of p cache now] by (simp add: keeps_def)

lemma adopt_fx: "peer_fx p (snd (snd (adopt_discovered p cache now)))"
  by (simp add: adopt_discovered_def Let_def case_prod_unfold apply_actions_fx_as)

lemma leave_fx: "peer_fx p (snd (snd (leave_endpoint p ep cache now)))"
  by (simp add: leave_endpoint_def Let_def case_prod_unfold apply_actions_fx_as)

lemma prune_fx: "peer_fx p (snd (prune_endpoint p ep cache))"
  by (auto simp: prune_endpoint_def Let_def intro: peer_fx_quiet)

lemma upgrade_fx: "peer_fx p (snd (snd (upgrade_from_relay p link ep cache now)))"
  by (simp add: upgrade_from_relay_def Let_def case_prod_unfold apply_actions_fx_as)

lemma discovered_fx: "peer_fx p (snd (snd (discovered_peer p src eps cache now)))"
proof -
  define q where "q = p\<lparr>pr_discovered := replace_discovered (pr_discovered p) src eps\<rparr>"
  have "peer_fx q (snd (snd (discovered_peer p src eps cache now)))"
    unfolding discovered_peer_def q_def [symmetric] Let_def
    by (auto simp: case_prod_unfold split: option.splits punch_state.splits
        intro: upgrade_fx adopt_fx peer_fx_append prune_fx leave_fx)
  then show ?thesis using identity_device(4) [of q p] by (simp add: q_def)
qed

lemma relay_registered_fx: "peer_fx p (snd (snd (relay_registered_peer p result cache inst now)))"
  by (auto simp: relay_registered_peer_def relay_ready_def Let_def case_prod_unfold
      split: option.splits punch_state.splits intro!: peer_fx_Nil peer_fx_append apply_actions_fx_as)

lemma drive_relay_quiet: "\<forall>e\<in>set (snd (snd (drive_relay ctx p cache inst now))). \<not> is_wg e"
  by (auto simp: drive_relay_def drive_direct_def drive_relayed_def drive_probing_def spawn_register_def spawn_unregister_def
      Let_def case_prod_unfold split: option.splits punch_state.splits)

lemma drive_relay_identity: "identity (fst (drive_relay ctx p cache inst now)) = identity p"
  using drive_relay_keeps [of p ctx cache inst now] by (simp add: keeps_def)

lemma tick_peer_fx: "peer_fx p (fst (snd (snd (tick_peer ctx rb now inst observed cr p))))"
  by (simp add: tick_peer_def Let_def case_prod_unfold)
     (intro peer_fx_append peer_fx_quiet drive_relay_quiet apply_actions_fx_as; simp add: drive_relay_identity)

lemma table_fx_append: "table_fx ps fx \<Longrightarrow> table_fx ps gx \<Longrightarrow> table_fx ps (fx @ gx)"
  by (induction rule: table_fx.induct) (auto intro: table_fx.intros)

lemma table_fx_quiet: "\<forall>e\<in>set fx. \<not> is_wg e \<Longrightarrow> table_fx ps fx"
  by (induction fx) (auto intro: table_fx.intros)

lemma table_fx_then: "table_fx ps fx \<Longrightarrow> \<forall>e\<in>set gx. \<not> is_wg e \<Longrightarrow> table_fx ps (fx @ gx)"
  by (rule table_fx_append [OF _ table_fx_quiet])

lemma table_fx_one: "p \<in> set ps \<Longrightarrow> peer_fx p fx \<Longrightarrow> table_fx ps fx"
  using table_fx_block [OF _ _ table_fx_Nil] by fastforce

lemma table_fx_mono: "table_fx ps fx \<Longrightarrow> set ps \<subseteq> set qs \<Longrightarrow> table_fx qs fx"
  by (induction rule: table_fx.induct) (auto intro: table_fx.intros)

lemma tick_peers_fx: "table_fx ps (fst (snd (snd (tick_peers ctx rb now inst by_key cr ps))))"
proof (induction ps arbitrary: cr)
  case (Cons p ps)
  show ?case
    by (simp add: Let_def case_prod_unfold)
       (intro table_fx_block [OF _ tick_peer_fx] table_fx_mono [OF Cons.IH]; auto)
qed (simp add: table_fx_Nil)

lemma kick_peers_fx: "table_fx ps (snd (snd (kick_peers now cache ps)))"
proof (induction ps arbitrary: cache)
  case (Cons p ps)
  show ?case
    by (simp add: Let_def case_prod_unfold)
       (intro table_fx_block [OF _ apply_actions_fx_as [of _ p]] table_fx_mono [OF Cons.IH]; auto)
qed (simp add: table_fx_Nil)

section \<open>The device follows the table\<close>

text \<open>Each peer's WireGuard key is the one derived from its identity.\<close>

definition keys_sound :: "show_ops \<Rightarrow> peer_runtime list \<Rightarrow> bool" where
  "keys_sound ops ps \<longleftrightarrow> (\<forall>p\<in>set ps. \<exists>n. pr_key_b64 p = to_base64 ops n \<and> pr_wg_public p = wg_public_bytes ops n)"

definition table_ok :: "show_ops \<Rightarrow> daemon \<Rightarrow> bool" where
  "table_ok ops d \<longleftrightarrow> daemon_ok d \<and> separated (dm_peers d) \<and> keys_sound ops (dm_peers d)"

text \<open>
  What the daemon does not check itself: an admitted member has a WireGuard key and a site of its own, and no
  other peer has the WireGuard key of a revoked node.
\<close>

fun event_separated :: "show_ops \<Rightarrow> daemon \<Rightarrow> 'x daemon_event \<Rightarrow> bool" where
  "event_separated ops d (GossipNews (MemberAdmitted node name a) now) \<longleftrightarrow>
     list_ex (\<lambda>p. pr_key_b64 p = to_base64 ops node) (dm_peers d) \<or>
     list_all (\<lambda>p. pr_wg_public p \<noteq> wg_public_bytes ops node \<and> (site_of a, 64) \<notin> fst (rt_core p)) (dm_peers d)"
| "event_separated ops d (GossipNews (Revoked node) now) \<longleftrightarrow>
     list_all (\<lambda>p. pr_wg_public p = wg_public_bytes ops node \<longrightarrow> pr_key_b64 p = to_base64 ops node) (dm_peers d)"
| "event_separated ops d _ \<longleftrightarrow> True"

lemma same_identity:
  assumes "map identity qs = map identity ps"
  shows "table_core qs = table_core ps" "separated qs = separated ps" "keys_sound ops qs = keys_sound ops ps"
proof -
  have l: "length qs = length ps" using assms by (metis length_map)
  have nth: "identity (qs ! i) = identity (ps ! i)" if "i < length ps" for i
    using that l arg_cong [OF assms, of "\<lambda>xs. xs ! i"] by simp
  have m: "map (\<lambda>p. (pr_wg_public p, rt_core p)) qs = map (\<lambda>p. (pr_wg_public p, rt_core p)) ps"
    using l identity_device(1,2) [OF nth] by (auto intro!: nth_equalityI)
  show t: "table_core qs = table_core ps" by (simp add: table_core_def m)
  have all: "(\<forall>q\<in>set qs. P q) = (\<forall>p\<in>set ps. P p)" if "\<And>p q. identity q = identity p \<Longrightarrow> P q = P p" for P
    unfolding all_set_conv_all_nth l using that [OF nth] by simp
  have d: "map pr_wg_public qs = map pr_wg_public ps" using arg_cong [OF m, of "map fst"] by (simp add: comp_def)
  have "(free_for (table_core ps) (pr_wg_public q) (fst (rt_core q)) \<and> (\<forall>r\<in>set (pr_routes q). prefix_len r \<le> 128)) =
      (free_for (table_core ps) (pr_wg_public p) (fst (rt_core p)) \<and> (\<forall>r\<in>set (pr_routes p). prefix_len r \<le> 128))"
    if "identity q = identity p" for p q
    using identity_device(1,2) [OF that] that by (simp add: identity_def)
  from all [OF this] show "separated qs = separated ps" by (simp add: separated_def t d)
  show "keys_sound ops qs = keys_sound ops ps" unfolding keys_sound_def by (rule all) (simp add: identity_def)
qed

lemma table_core_Some: "distinct (map pr_wg_public ps) \<Longrightarrow> table_core ps k = Some c \<longleftrightarrow> (\<exists>p\<in>set ps. pr_wg_public p = k \<and> rt_core p = c)"
  by (auto simp: table_core_def map_of_eq_Some_iff comp_def)

lemma table_core_None: "table_core ps k = None \<longleftrightarrow> k \<notin> pr_wg_public ` set ps"
  by (auto simp: table_core_def map_of_eq_None_iff image_iff)

lemma free_for_table:
  "distinct (map pr_wg_public ps) \<Longrightarrow>
     free_for (table_core ps) k a \<longleftrightarrow> (\<forall>q\<in>set ps. pr_wg_public q \<noteq> k \<longrightarrow> fst (rt_core q) \<inter> a = {})"
  unfolding free_for_def table_core_Some by blast

text \<open>The table as a set: its separation and its device do not depend on the order.\<close>

lemma separated_alt:
  "separated ps \<longleftrightarrow> distinct (map pr_wg_public ps) \<and>
     (\<forall>p\<in>set ps. \<forall>q\<in>set ps. pr_wg_public q \<noteq> pr_wg_public p \<longrightarrow> fst (rt_core q) \<inter> fst (rt_core p) = {}) \<and>
     (\<forall>p\<in>set ps. \<forall>r\<in>set (pr_routes p). prefix_len r \<le> 128)"
  by (cases "distinct (map pr_wg_public ps)") (simp_all add: separated_def free_for_table ball_conj_distrib)

lemma admitted_separated:
  assumes "separated ps" "list_all (\<lambda>p. pr_wg_public p \<noteq> pr_wg_public m \<and> fst (rt_core p) \<inter> fst (rt_core m) = {}) ps" "pr_routes m = []"
  shows "separated (ps @ [m])" "table_core (ps @ [m]) = (table_core ps)(pr_wg_public m \<mapsto> rt_core m)"
    "free_for (table_core ps) (pr_wg_public m) (fst (rt_core m))" "table_core ps (pr_wg_public m) = None"
proof -
  show "separated (ps @ [m])" using assms unfolding separated_alt list_all_iff by auto
  show none: "table_core ps (pr_wg_public m) = None" using assms(2) by (auto simp: table_core_None list_all_iff)
  then show "table_core (ps @ [m]) = (table_core ps)(pr_wg_public m \<mapsto> rt_core m)"
    by (auto simp: table_core_def map_add_def split: option.splits)
  have "distinct (map pr_wg_public ps)" using assms(1) by (simp add: separated_def)
  then show "free_for (table_core ps) (pr_wg_public m) (fst (rt_core m))"
    using assms(2) by (simp add: free_for_table list_all_iff)
qed

lemma removed_separated:
  assumes "separated ps" "distinct (map pr_wg_public qs)" "set qs = {p \<in> set ps. pr_wg_public p \<noteq> k}"
  shows "separated qs" "table_core qs = (table_core ps)(k := None)"
proof -
  show "separated qs" using assms unfolding separated_alt by auto
  have d: "distinct (map pr_wg_public ps)" using assms(1) by (simp add: separated_def)
  show "table_core qs = (table_core ps)(k := None)"
  proof
    fix j
    have "table_core qs j = Some c \<longleftrightarrow> ((table_core ps)(k := None)) j = Some c" for c
      using assms(3) by (auto simp: table_core_Some [OF d] table_core_Some [OF assms(2)])
    then show "table_core qs j = ((table_core ps)(k := None)) j" by (metis not_Some_eq)
  qed
qed

context wg_device
begin

lemma quiet_step:
  assumes "ok b" "table_ok ops d" "core b = table_core (dm_peers d)" "table_fx (dm_peers d) fx"
    and "map identity (dm_peers d') = map identity (dm_peers d)" "daemon_ok d'"
  shows "table_ok ops d' \<and> core (execs fx b) = table_core (dm_peers d')"
  using assms execs_table [OF assms(4,1)] same_identity [OF assms(5)] by (simp add: table_ok_def)

lemma admitted_step:
  assumes "ok b" "table_ok ops d" "core b = table_core (dm_peers d)"
    and "event_separated ops d (GossipNews (MemberAdmitted node name a) now)" "on_member_admitted ctx ops node name a now d = (d', fx)" "daemon_ok d'"
  shows "table_ok ops d' \<and> core (execs fx b) = table_core (dm_peers d')"
proof (cases "find_peer (dm_peers d) (to_base64 ops node) = None")
  case False
  then have "d' = d" "fx = []" using assms(5) by (auto simp: on_member_admitted_def Let_def)
  then show ?thesis using assms by simp
next
  case True
  define m where "m = member_peer name (to_base64 ops node) (wg_public_bytes ops node) a (cx_keepalive ctx) (build_candidates empty_sources) now"
  define s where "s = \<lparr>ps_wg_public = wg_public_bytes ops node, ps_endpoint = None, ps_allowed_ips = [(site_of a, 64)],
      ps_persistent_keepalive = keepalive_opt (cx_keepalive ctx)\<rparr>"
  obtain fx' where fx: "fx = WgAddPeer s # fx'" "\<forall>e\<in>set fx'. \<not> is_wg e" and ps: "dm_peers d' = dm_peers d @ [m]"
    using assms(5) True by (auto simp: on_member_admitted_def Let_def m_def s_def rendezvous_updates_def)
  have m: "pr_wg_public m = ps_wg_public s" "rt_core m = spec_core s" "pr_routes m = []"
    by (simp_all add: m_def s_def member_peer_def rt_core_def spec_core_def allowed_ips_for_def)
  have "list_all (\<lambda>p. pr_wg_public p \<noteq> pr_wg_public m \<and> fst (rt_core p) \<inter> fst (rt_core m) = {}) (dm_peers d)"
    using assms(4) True by (auto simp: find_peer_None image_iff list_ex_iff list_all_iff m_def s_def member_peer_def rt_core_def allowed_ips_for_def)
  note sep = admitted_separated [OF _ this m(3)]
  have old: "separated (dm_peers d)" "keys_sound ops (dm_peers d)" using assms(2) by (simp_all add: table_ok_def)
  have "prefixes_ok s" by (simp add: prefixes_ok_def s_def)
  then have "core (exec (WgAddPeer s) b) = table_core (dm_peers d')"
    using exec_add [OF assms(1)] sep [OF old(1)] assms(3) m(1,2) by (simp add: ps)
  moreover have "execs fx' c = c" for c using fx(2) by (induction fx' arbitrary: c) (simp_all add: exec_other)
  moreover have "keys_sound ops (dm_peers d')" using old(2) by (auto simp: keys_sound_def ps m_def member_peer_def)
  ultimately show ?thesis using sep(1) [OF old(1)] assms(6) by (simp add: table_ok_def ps fx(1))
qed

lemma revoked_step:
  assumes "ok b" "table_ok ops d" "core b = table_core (dm_peers d)" "inj (to_base64 ops)"
    and "event_separated ops d (GossipNews (Revoked node) now)" "on_revoked ops node d = (d', fx)" "daemon_ok d'"
  shows "table_ok ops d' \<and> core (execs fx b) = table_core (dm_peers d')"
proof -
  let ?k = "wg_public_bytes ops node" and ?key = "to_base64 ops node"
  have ok: "daemon_ok d" "separated (dm_peers d)" "keys_sound ops (dm_peers d)" using assms(2) by (simp_all add: table_ok_def)
  obtain fx' where fx: "fx = WgRemovePeer ?k # fx'" "\<forall>e\<in>set fx'. \<not> is_wg e"
    and ps: "dm_peers d' = (case find_peer (dm_peers d) ?key of None \<Rightarrow> dm_peers d | Some i \<Rightarrow> vec_remove i (dm_peers d))"
    using assms(6) by (auto simp: on_revoked_def Let_def case_prod_unfold rendezvous_updates_def)
  have "pr_key_b64 p = ?key \<longleftrightarrow> pr_wg_public p = ?k" if "p \<in> set (dm_peers d)" for p
    using that ok(3) assms(5) injD [OF assms(4)] unfolding keys_sound_def event_separated.simps list_all_iff by metis
  then have set: "set (dm_peers d') = {p \<in> set (dm_peers d). pr_wg_public p \<noteq> ?k}"
    using revoked_peers [OF ok(1), of ops node] assms(6) by auto
  have "distinct (map pr_wg_public (dm_peers d'))"
    using ok(2) by (auto simp: ps separated_def map_vec_remove distinct_vec_remove split: option.splits)
  note sep = removed_separated [OF ok(2) this set]
  have "execs fx' c = c" for c using fx(2) by (induction fx' arbitrary: c) (simp_all add: exec_other)
  then show ?thesis using sep ok(3) assms(3,7) exec_remove [OF assms(1)] set by (auto simp: table_ok_def keys_sound_def fx(1))
qed

lemma one_step:
  assumes "ok b" "table_ok ops d" "core b = table_core (dm_peers d)" "daemon_ok d'"
    and "find_peer (dm_peers d) key = Some i" "identity p = identity (dm_peers d ! i)" "peer_fx (dm_peers d ! i) fx"
    and "dm_peers d' = (dm_peers d)[i := p]"
  shows "table_ok ops d' \<and> core (execs fx b) = table_core (dm_peers d')"
proof (rule quiet_step [OF assms(1-3) _ _ assms(4)])
  have l: "i < length (dm_peers d)" using assms(5) by (auto simp: find_peer_def dest: position_less)
  then show "table_fx (dm_peers d) fx" using assms(7) by (intro table_fx_one [of "dm_peers d ! i"]) auto
  show "map identity (dm_peers d') = map identity (dm_peers d)" using l assms(6) by (simp add: assms(8) map_update list_update_same_conv)
qed

lemma discovered_step:
  assumes "ok b" "table_ok ops d" "core b = table_core (dm_peers d)" "daemon_ok d'" "on_discovered upd now d = (d', fx)"
  shows "table_ok ops d' \<and> core (execs fx b) = table_core (dm_peers d')"
proof (cases "find_peer (dm_peers d) (peer_key upd)")
  case None
  then show ?thesis using assms by (auto simp: on_discovered_def)
next
  case (Some i)
  show ?thesis using assms(5) discovered_keeps [of "dm_peers d ! i"] discovered_fx [of "dm_peers d ! i"]
    by (intro one_step [OF assms(1-4) Some, of "fst (discovered_peer (dm_peers d ! i) (de_source upd) (endpoints upd) (dm_cache d) now)"])
       (auto simp: on_discovered_def Some case_prod_unfold step_keeps_def keeps_def)
qed

lemma registered_step:
  assumes "ok b" "table_ok ops d" "core b = table_core (dm_peers d)" "daemon_ok d'" "on_relay_registered msg inst now d = (d', fx)"
  shows "table_ok ops d' \<and> core (execs fx b) = table_core (dm_peers d')"
proof (cases "find_peer (dm_peers d) (rd_peer_key msg)")
  case None
  then show ?thesis using assms by (auto simp: on_relay_registered_def)
next
  case (Some i)
  show ?thesis using assms(5) relay_registered_keeps [of "dm_peers d ! i"] relay_registered_fx [of "dm_peers d ! i"]
    by (intro one_step [OF assms(1-4) Some, of "fst (relay_registered_peer (dm_peers d ! i) (rd_session msg) (dm_cache d) inst now)"])
       (auto simp: on_relay_registered_def Some case_prod_unfold step_keeps_def keeps_def)
qed

lemma tick_step:
  assumes "ok b" "table_ok ops d" "core b = table_core (dm_peers d)" "daemon_ok d'" "daemon_step ctx ops rb d (TickEvent statuses now inst) = (d', fx)"
  shows "table_ok ops d' \<and> core (execs fx b) = table_core (dm_peers d')"
proof (rule quiet_step [OF assms(1-3) _ _ assms(4)])
  let ?t = "tick_peers ctx rb now inst (status_map (projr statuses)) (dm_cache d, dm_routes d) (dm_peers d)"
  have "map identity (fst ?t) = map identity (dm_peers d)"
    using all_keep(1) tick_peers_keeps [of "dm_peers d" ctx rb now inst "status_map (projr statuses)" "(dm_cache d, dm_routes d)"] by blast
  then show "map identity (dm_peers d') = map identity (dm_peers d)"
    using assms(5) by (cases statuses) (auto simp: tick_once_def Let_def case_prod_unfold)
  show "table_fx (dm_peers d) fx"
    using assms(5) tick_peers_fx [of "dm_peers d" ctx rb now inst _ "(dm_cache d, dm_routes d)"]
    by (cases statuses) (auto simp: tick_once_def Let_def case_prod_unfold intro!: table_fx_then table_fx_Nil)
qed

lemma kick_step:
  assumes "ok b" "table_ok ops d" "core b = table_core (dm_peers d)" "daemon_ok d'" "daemon_step ctx ops rb d (AddrChanged now) = (d', fx)"
  shows "table_ok ops d' \<and> core (execs fx b) = table_core (dm_peers d')"
proof (rule quiet_step [OF assms(1-3) _ _ assms(4)])
  have "map identity (fst (kick_peers now (dm_cache d) (dm_peers d))) = map identity (dm_peers d)"
    using all_keep(1) kick_peers_keeps [of "dm_peers d" now "dm_cache d"] by blast
  then show "map identity (dm_peers d') = map identity (dm_peers d)" using assms(5) by (auto simp: Let_def case_prod_unfold)
  show "table_fx (dm_peers d) fx" using assms(5) kick_peers_fx [of "dm_peers d" now "dm_cache d"]
    by (auto simp: Let_def case_prod_unfold intro!: table_fx_then)
qed

text \<open>One event: the calls it makes leave the device with exactly the peers of the table.\<close>

lemma follows_step:
  assumes "ok b" "table_ok ops d" "core b = table_core (dm_peers d)" "inj (to_base64 ops)" "event_separated ops d e"
    and "daemon_step ctx ops rb d e = (d', fx)"
  shows "ok (execs fx b) \<and> table_ok ops d' \<and> core (execs fx b) = table_core (dm_peers d')"
proof -
  have ok': "daemon_ok d'" using daemon_ok_step [of d ctx ops rb e] assms(2,6) by (simp add: table_ok_def)
  have "table_ok ops d' \<and> core (execs fx b) = table_core (dm_peers d')"
  proof (cases e)
    case (TickEvent statuses now inst)
    then show ?thesis using tick_step [OF assms(1-3) ok'] assms(6) by blast
  next
    case (AddrChanged now)
    then show ?thesis using kick_step [OF assms(1-3) ok'] assms(6) by blast
  next
    case (Rendezvous upd now)
    then show ?thesis using discovered_step [OF assms(1-3) ok'] assms(6) by simp
  next
    case (RelayDone msg inst now)
    then show ?thesis using registered_step [OF assms(1-3) ok'] assms(6) by simp
  next
    case (GossipNews g now)
    show ?thesis
    proof (cases g)
      case (Discovered upd)
      then show ?thesis using discovered_step [OF assms(1-3) ok'] assms(6) GossipNews by simp
    next
      case (MemberAdmitted node name a)
      then show ?thesis using admitted_step [OF assms(1-3) _ _ ok', of node name a now ctx fx] assms(5,6) GossipNews by simp
    next
      case (Revoked node)
      then show ?thesis using revoked_step [OF assms(1-4) _ _ ok', of node now fx] assms(5,6) GossipNews by simp
    qed
  qed
  then show ?thesis using ok_execs [OF assms(1)] by simp
qed

end

section \<open>Runs\<close>

text \<open>
  A run of the daemon on a device: before each event the device may change by itself (packets move endpoints
  and counters), then the calls of the event are made.
\<close>

fun device_run ::
  "daemon_ctx \<Rightarrow> show_ops \<Rightarrow> 'e route_backend \<Rightarrow> (effect \<Rightarrow> 'b \<Rightarrow> 'b) \<Rightarrow> daemon \<Rightarrow> 'b \<Rightarrow> (('b \<Rightarrow> 'b) \<times> 'x daemon_event) list \<Rightarrow> daemon \<times> 'b" where
  "device_run ctx ops rb exec d b [] = (d, b)"
| "device_run ctx ops rb exec d b ((env, e) # es) =
     (case daemon_step ctx ops rb d e of (d', fx) \<Rightarrow> device_run ctx ops rb exec d' (foldl (\<lambda>b e. exec e b) (env b) fx) es)"

fun run_separated :: "daemon_ctx \<Rightarrow> show_ops \<Rightarrow> 'e route_backend \<Rightarrow> daemon \<Rightarrow> (('b \<Rightarrow> 'b) \<times> 'x daemon_event) list \<Rightarrow> bool" where
  "run_separated ctx ops rb d [] \<longleftrightarrow> True"
| "run_separated ctx ops rb d ((env, e) # es) \<longleftrightarrow>
     event_separated ops d e \<and> run_separated ctx ops rb (fst (daemon_step ctx ops rb d e)) es"

context wg_device
begin

lemma follows_run:
  assumes "inj (to_base64 ops)"
  shows "ok b \<Longrightarrow> table_ok ops d \<Longrightarrow> core b = table_core (dm_peers d) \<Longrightarrow> run_separated ctx ops rb d es \<Longrightarrow>
    list_all (\<lambda>(env, e). \<forall>b. ok b \<longrightarrow> ok (env b) \<and> core (env b) = core b) es \<Longrightarrow> device_run ctx ops rb exec d b es = (d', b') \<Longrightarrow>
    table_ok ops d' \<and> core b' = table_core (dm_peers d')"
proof (induction es arbitrary: d b)
  case (Cons x es)
  obtain env e where x: "x = (env, e)" by (cases x)
  obtain d1 fx where s: "daemon_step ctx ops rb d e = (d1, fx)" by (cases "daemon_step ctx ops rb d e")
  have "ok (env b) \<and> core (env b) = core b" using Cons.prems(1,5) x by simp
  then have f: "ok (execs fx (env b)) \<and> table_ok ops d1 \<and> core (execs fx (env b)) = table_core (dm_peers d1)"
    using Cons.prems(2-4) x by (intro follows_step [OF _ _ _ assms _ s]) auto
  show ?case using Cons.IH [of "execs fx (env b)" d1] Cons.prems f by (simp add: x s execs_def)
qed simp

end

section \<open>The user-space backend keeps the promise\<close>

definition dev_core :: "'d gotatun \<Rightarrow> 'd \<Rightarrow> key32 \<Rightarrow> peer_core option" where
  "dev_core g d = map_of (map (\<lambda>(p, _). (gp_public_key p, gt_core p)) (gt_peers g d))"

text \<open>
  What gotatun documents: prefix lengths up to 128 make a network; a device has the peers it was built with;
  the endpoint is changed alone; a key is added or removed alone, as long as no other peer holds the
  AllowedIPs that are added.
\<close>

definition gotatun_ok :: "'d gotatun \<Rightarrow> bool" where
  "gotatun_ok g \<longleftrightarrow>
     (\<forall>ip len. ip_network g ip len \<longleftrightarrow> len \<le> 128) \<and>
     (\<forall>s port ps d. gt_build g s port ps = Some d \<longrightarrow> distinct (map gp_public_key ps) \<longrightarrow>
        (\<forall>p\<in>set ps. \<forall>q\<in>set ps. p \<noteq> q \<longrightarrow> set (gp_allowed_ips p) \<inter> set (gp_allowed_ips q) = {}) \<longrightarrow>
        dev_core g d = map_of (map (\<lambda>p. (gp_public_key p, gt_core p)) ps)) \<and>
     (\<forall>k ep d. dev_core g (snd (gt_set_endpoint g k ep d)) = dev_core g d) \<and>
     (\<forall>k d. dev_core g (snd (gt_remove_peer g k d)) = (dev_core g d)(k := None)) \<and>
     (\<forall>p d. dev_core g d (gp_public_key p) = None \<longrightarrow> free_for (dev_core g d) (gp_public_key p) (set (gp_allowed_ips p)) \<longrightarrow>
        dev_core g (snd (gt_add_peer g p d)) = (dev_core g d)(gp_public_key p \<mapsto> gt_core p))"

fun us_effect :: "'d gotatun \<Rightarrow> string \<Rightarrow> effect \<Rightarrow> 'd userspace \<Rightarrow> 'd userspace" where
  "us_effect g dev (WgSetEndpoint k ep) b = snd (us_set_peer_endpoint g dev k ep b)"
| "us_effect g dev (WgRemovePeer k) b = snd (us_remove_peer g dev k b)"
| "us_effect g dev (WgAddPeer s) b = snd (us_add_peer g dev s b)"
| "us_effect g dev _ b = b"

definition us_core :: "'d gotatun \<Rightarrow> string \<Rightarrow> 'd userspace \<Rightarrow> key32 \<Rightarrow> peer_core option" where
  "us_core g dev b =
     (case hm_get (us_devices b) (resolve b dev) of None \<Rightarrow> Map.empty | Some h \<Rightarrow> dev_core g (handle_device h))"

definition us_ready :: "'d gotatun \<Rightarrow> string \<Rightarrow> 'd userspace \<Rightarrow> bool" where
  "us_ready g dev b \<longleftrightarrow> gotatun_ok g \<and> hm_get (us_devices b) (resolve b dev) \<noteq> None"

lemma handle_set [simp]: "handle_device (set_handle h d) = d"
  by (cases h) simp_all

lemma on_device_ready:
  assumes "hm_get (us_devices b) (resolve b dev) = Some h"
  shows "us_core g dev (snd (on_device dev f b)) = dev_core g (snd (f (handle_device h)))"
    "us_ready g dev (snd (on_device dev f b)) = gotatun_ok g"
  using assms by (auto simp: on_device_def us_core_def us_ready_def resolve_def Let_def hm split: prod.splits)

lemma us_readyE:
  assumes "us_ready g dev b"
  obtains h where "hm_get (us_devices b) (resolve b dev) = Some h" "us_core g dev b = dev_core g (handle_device h)" "gotatun_ok g"
  using assms by (auto simp: us_ready_def us_core_def)

lemma us_ready_on_device: "us_ready g dev b \<Longrightarrow> us_ready g dev (snd (on_device dev f b))"
  by (metis us_readyE on_device_ready(2))

lemma us_ready_exec: "us_ready g dev b \<Longrightarrow> us_ready g dev (us_effect g dev e b)"
  by (cases e) (simp_all add: us_set_peer_endpoint_def us_remove_peer_def us_add_peer_def us_ready_on_device)

lemma snd_device_calls [simp]:
  "snd (set_endpoint_of g k ep d) = snd (gt_set_endpoint g k (Some (V6 ep)) d)"
  "snd (remove_peer_of g k d) = snd (gt_remove_peer g k d)"
  "snd (add_peer_of g p d) = snd (gt_add_peer g p d)"
  by (simp_all add: set_endpoint_of_def remove_peer_of_def add_peer_of_def split: prod.splits sum.splits)

lemma gotatun_okD:
  assumes "gotatun_ok g"
  shows "ip_network g net len \<longleftrightarrow> len \<le> 128"
    and "dev_core g (snd (gt_set_endpoint g k ep d)) = dev_core g d"
    and "dev_core g (snd (gt_remove_peer g k d)) = (dev_core g d)(k := None)"
    and "dev_core g d (gp_public_key p) = None \<Longrightarrow> free_for (dev_core g d) (gp_public_key p) (set (gp_allowed_ips p)) \<Longrightarrow>
      dev_core g (snd (gt_add_peer g p d)) = (dev_core g d)(gp_public_key p \<mapsto> gt_core p)"
  using assms unfolding gotatun_ok_def by blast+

interpretation us_dev: wg_device "us_effect g dev" "us_core g dev" "us_ready g dev" for g dev
proof (unfold_locales, goal_cases)
  case (1 b e) then show ?case by (rule us_ready_exec)
next
  case (2 e b) then show ?case by (cases e) auto
next
  case (3 b k ep)
  from us_readyE [OF 3(1)] show ?case
    by (metis gotatun_okD(2) on_device_ready(1) snd_device_calls(1) us_effect.simps(1) us_set_peer_endpoint_def)
next
  case (4 b k)
  from us_readyE [OF 4] show ?case
    by (metis gotatun_okD(3) on_device_ready(1) snd_device_calls(2) us_effect.simps(2) us_remove_peer_def)
next
  case (5 b s)
  obtain h where h: "hm_get (us_devices b) (resolve b dev) = Some h" "us_core g dev b = dev_core g (handle_device h)" "gotatun_ok g"
    by (rule us_readyE [OF 5(1)])
  let ?p = "\<lparr>gp_public_key = ps_wg_public s, gp_endpoint = map_option V6 (ps_endpoint s),
      gp_allowed_ips = ps_allowed_ips s, gp_keepalive = ps_persistent_keepalive s\<rparr>"
  have "peer_spec_to_peer g s = Inr ?p"
    using 5(2) gotatun_okD(1) [OF h(3)] by (auto simp: peer_spec_to_peer_def prefixes_ok_def list_all_iff)
  then have "us_core g dev (us_effect g dev (WgAddPeer s) b) = dev_core g (snd (gt_add_peer g ?p (handle_device h)))"
    by (simp add: us_add_peer_def on_device_ready(1) [OF h(1)])
  then show ?case using gotatun_okD(4) [OF h(3), of "handle_device h" ?p] 5(3,4) h(2) by (simp add: spec_core_def gt_core_def)
qed

section \<open>The kernel backend keeps the promise\<close>

type_synonym device_map = "key32 \<Rightarrow> gt_peer option"

definition strip_allowed :: "(ipv6 \<times> u8) list \<Rightarrow> gt_peer \<Rightarrow> gt_peer" where
  "strip_allowed a p = p\<lparr>gp_allowed_ips := filter (\<lambda>x. x \<notin> set a) (gp_allowed_ips p)\<rparr>"

text \<open>
  What the kernel documents of one peer of an update: it is removed, or created or merged with what is there;
  an AllowedIPs entry belongs to the peer that got it last.
\<close>

definition kernel_peer :: "device_map \<Rightarrow> peer_config \<Rightarrow> device_map" where
  "kernel_peer m pc =
     (if pc_remove pc then m(pc_key pc := None)
      else let old = unwrap_or (m (pc_key pc)) \<lparr>gp_public_key = pc_key pc, gp_endpoint = None, gp_allowed_ips = [], gp_keepalive = None\<rparr>
        in (\<lambda>k. map_option (strip_allowed (pc_allowed_ips pc)) (m k))
             (pc_key pc \<mapsto> old\<lparr>gp_endpoint := (case pc_endpoint pc of None \<Rightarrow> gp_endpoint old | Some ep \<Rightarrow> Some ep),
                gp_allowed_ips := gp_allowed_ips old @ pc_allowed_ips pc,
                gp_keepalive := (case pc_keepalive pc of None \<Rightarrow> gp_keepalive old | Some ka \<Rightarrow> Some ka)\<rparr>))"

text \<open>
  \<open>kmap\<close> reads the peers of the kernel's device of a name, none when there is no such device; an update of a
  valid name succeeds and creates the device where it is missing.
\<close>

definition kernel_ok :: "'k wg_kernel \<Rightarrow> ('k \<Rightarrow> string \<Rightarrow> device_map) \<Rightarrow> bool" where
  "kernel_ok wk kmap \<longleftrightarrow>
     (\<forall>u i k. wk_iface_ok wk i \<longrightarrow> fst (wk_apply wk u i k) = Inr () \<and>
        kmap (snd (wk_apply wk u i k)) i = foldl kernel_peer (if du_replace_peers u then Map.empty else kmap k i) (du_peers u))"

fun kernel_effect :: "'k wg_kernel \<Rightarrow> string \<Rightarrow> effect \<Rightarrow> 'k \<Rightarrow> 'k" where
  "kernel_effect wk dev (WgSetEndpoint key ep) k = snd (kernel_set_peer_endpoint wk dev key ep k)"
| "kernel_effect wk dev (WgRemovePeer key) k = snd (kernel_remove_peer wk dev key k)"
| "kernel_effect wk dev (WgAddPeer s) k = snd (kernel_add_peer wk dev s k)"
| "kernel_effect wk dev _ k = k"

definition map_core :: "device_map \<Rightarrow> key32 \<Rightarrow> peer_core option" where
  "map_core m key = map_option gt_core (m key)"

definition kernel_core :: "('k \<Rightarrow> string \<Rightarrow> device_map) \<Rightarrow> string \<Rightarrow> 'k \<Rightarrow> key32 \<Rightarrow> peer_core option" where
  "kernel_core kmap dev k = map_core (kmap k dev)"

definition kernel_ready :: "'k wg_kernel \<Rightarrow> ('k \<Rightarrow> string \<Rightarrow> device_map) \<Rightarrow> string \<Rightarrow> bool" where
  "kernel_ready wk kmap dev \<longleftrightarrow> kernel_ok wk kmap \<and> wk_iface_ok wk dev"

lemma kernel_send_ready:
  assumes "kernel_ready wk kmap dev"
  shows "kmap (snd (kernel_send wk dev u k)) dev = foldl kernel_peer (if du_replace_peers u then Map.empty else kmap k dev) (du_peers u)"
    "fst (kernel_send wk dev u k) = Inr ()"
proof -
  obtain k' where "wk_iface_ok wk dev" "wk_apply wk u dev k = (Inr (), k')"
    "kmap k' dev = foldl kernel_peer (if du_replace_peers u then Map.empty else kmap k dev) (du_peers u)"
    using assms unfolding kernel_ready_def kernel_ok_def by (metis prod.collapse)
  then show "kmap (snd (kernel_send wk dev u k)) dev = foldl kernel_peer (if du_replace_peers u then Map.empty else kmap k dev) (du_peers u)"
    "fst (kernel_send wk dev u k) = Inr ()" by (simp_all add: kernel_send_def)
qed

lemma kernel_one:
  "kernel_ready wk kmap dev \<Longrightarrow>
   kernel_core kmap dev (snd (kernel_send wk dev (update_add pc device_update_new) k)) = map_core (kernel_peer (kmap k dev) pc)"
  using kernel_send_ready(1) [of wk kmap dev "update_add pc device_update_new" k]
  by (simp add: kernel_core_def update_add_def device_update_new_def)

lemma kernel_add_core:
  assumes "\<not> pc_remove pc" "m (pc_key pc) = None" "free_for (map_core m) (pc_key pc) (set (pc_allowed_ips pc))"
  shows "map_core (kernel_peer m pc) = (map_core m)(pc_key pc \<mapsto> (set (pc_allowed_ips pc), pc_keepalive pc))"
proof -
  have "gt_core (strip_allowed (pc_allowed_ips pc) q) = gt_core q" if "m k = Some q" "k \<noteq> pc_key pc" for k q
    using that assms(3) by (auto simp: free_for_def map_core_def gt_core_def strip_allowed_def)
  then have "map_option gt_core (map_option (strip_allowed (pc_allowed_ips pc)) (m k)) = map_option gt_core (m k)" if "k \<noteq> pc_key pc" for k
    using that by (cases "m k") simp_all
  then show ?thesis using assms(1,2)
    by (auto simp: kernel_peer_def map_core_def fun_eq_iff gt_core_def Let_def unwrap_or_def split: option.splits)
qed

lemma peer_config_fields [simp]:
  "pc_key (peer_config_of s) = ps_wg_public s" "pc_remove (peer_config_of s) = False"
  "pc_allowed_ips (peer_config_of s) = ps_allowed_ips s" "pc_keepalive (peer_config_of s) = ps_persistent_keepalive s"
proof -
  have f: "foldl (\<lambda>pc net. pc\<lparr>pc_allowed_ips := pc_allowed_ips pc @ [net]\<rparr>) pc nets = pc\<lparr>pc_allowed_ips := pc_allowed_ips pc @ nets\<rparr>" for pc nets
    by (induction nets arbitrary: pc) simp_all
  show "pc_key (peer_config_of s) = ps_wg_public s" "pc_remove (peer_config_of s) = False"
    "pc_allowed_ips (peer_config_of s) = ps_allowed_ips s" "pc_keepalive (peer_config_of s) = ps_persistent_keepalive s"
    by (simp_all add: peer_config_of_def Let_def f peer_config_new_def split: option.splits)
qed

lemma kernel_point_core: "m k \<noteq> None \<Longrightarrow> map_core (kernel_peer m ((peer_config_new k)\<lparr>pc_endpoint := Some ep\<rparr>)) = map_core m"
  by (auto simp: kernel_peer_def map_core_def fun_eq_iff gt_core_def peer_config_new_def strip_allowed_def Let_def unwrap_or_def
      option.map_comp comp_def intro!: option.map_cong)

interpretation kernel_dev: wg_device "kernel_effect wk dev" "kernel_core kmap dev" "\<lambda>_. kernel_ready wk kmap dev" for wk kmap dev
proof (unfold_locales, goal_cases)
  case (1 b e) then show ?case .
next
  case (2 e b) then show ?case by (cases e) auto
next
  case (3 b k ep)
  then show ?case
    by (auto simp: kernel_set_peer_endpoint_def kernel_one kernel_core_def [of _ _ b] map_core_def [of _ k] kernel_point_core)
next
  case (4 b k)
  then show ?case
    by (auto simp: kernel_remove_peer_def kernel_one kernel_core_def [of _ _ b] kernel_peer_def peer_config_new_def map_core_def)
next
  case (5 b s)
  then show ?case using kernel_add_core [of "peer_config_of s" "kmap b dev"]
    by (simp add: kernel_add_peer_def kernel_one kernel_core_def [of _ _ b] spec_core_def map_core_def [of _ "ps_wg_public s"])
qed

section \<open>Start-up\<close>

definition specs_core :: "peer_spec list \<Rightarrow> key32 \<Rightarrow> peer_core option" where
  "specs_core ss = map_of (map (\<lambda>s. (ps_wg_public s, spec_core s)) ss)"

definition specs_separated :: "peer_spec list \<Rightarrow> bool" where
  "specs_separated ss \<longleftrightarrow> distinct (map ps_wg_public ss) \<and> list_all prefixes_ok ss \<and>
     (\<forall>s\<in>set ss. \<forall>t\<in>set ss. s \<noteq> t \<longrightarrow> set (ps_allowed_ips s) \<inter> set (ps_allowed_ips t) = {})"

lemma specs_core_Some: "specs_separated ss \<Longrightarrow> specs_core ss k = Some c \<longleftrightarrow> (\<exists>s\<in>set ss. ps_wg_public s = k \<and> spec_core s = c)"
  by (auto simp: specs_core_def specs_separated_def map_of_eq_Some_iff comp_def)

lemma peers_of_specs_ok:
  "gotatun_ok g \<Longrightarrow> list_all prefixes_ok ss \<Longrightarrow> peers_of_specs g ss = Inr (map (\<lambda>s.
     \<lparr>gp_public_key = ps_wg_public s, gp_endpoint = map_option V6 (ps_endpoint s),
      gp_allowed_ips = ps_allowed_ips s, gp_keepalive = ps_persistent_keepalive s\<rparr>) ss)"
proof (induction ss)
  case (Cons s ss)
  then have "list_all (\<lambda>(net, len). ip_network g net len) (ps_allowed_ips s)"
    by (auto simp: prefixes_ok_def list_all_iff gotatun_okD(1))
  then show ?case using Cons by (simp add: peer_spec_to_peer_def)
qed simp

text \<open>A device set up by the user-space backend has the peers it was asked for.\<close>

lemma us_apply_core:
  assumes "gotatun_ok g" "specs_separated (ds_peers spec)" "us_apply g macos tun spec b = (Inr dev, b')"
    and "dev \<noteq> ds_interface spec \<Longrightarrow> hm_get (us_aliases b) dev \<in> {None, Some dev}"
  shows "us_ready g dev b' \<and> us_core g dev b' = specs_core (ds_peers spec)"
proof -
  let ?f = "\<lambda>s. \<lparr>gp_public_key = ps_wg_public s, gp_endpoint = map_option V6 (ps_endpoint s),
      gp_allowed_ips = ps_allowed_ips s, gp_keepalive = ps_persistent_keepalive s\<rparr>"
  have ps: "peers_of_specs g (ds_peers spec) = Inr (map ?f (ds_peers spec))"
    using peers_of_specs_ok [OF assms(1)] assms(2) by (simp add: specs_separated_def)
  then obtain d where d: "gt_build g (ds_wg_secret spec) (ds_listen_port spec) (map ?f (ds_peers spec)) = Some d"
    and b': "b' = b\<lparr>us_devices := hm_insert dev (Named d) (us_devices b), us_aliases := hm_insert (ds_interface spec) dev (us_aliases b)\<rparr>"
    using assms(3) by (auto simp: us_apply_Inr)
  have "resolve b' dev = dev" using assms(4) by (auto simp: b' resolve_def unwrap_or_def hm)
  then have u: "us_ready g dev b'" "us_core g dev b' = dev_core g d"
    using assms(1) by (simp_all add: us_ready_def us_core_def b' hm)
  have "distinct (map gp_public_key (map ?f (ds_peers spec)))"
    "\<forall>p\<in>set (map ?f (ds_peers spec)). \<forall>q\<in>set (map ?f (ds_peers spec)). p \<noteq> q \<longrightarrow> set (gp_allowed_ips p) \<inter> set (gp_allowed_ips q) = {}"
    using assms(2) unfolding specs_separated_def by (simp_all add: comp_def) metis
  with assms(1) d have "dev_core g d = map_of (map (\<lambda>p. (gp_public_key p, gt_core p)) (map ?f (ds_peers spec)))"
    unfolding gotatun_ok_def by blast
  then show ?thesis using u by (simp add: specs_core_def comp_def gt_core_def spec_core_def)
qed

lemma kernel_fold_core:
  "specs_separated ss \<Longrightarrow> map_core (foldl kernel_peer Map.empty (map peer_config_of ss)) = specs_core ss"
proof (induction ss rule: rev_induct)
  case Nil
  then show ?case by (simp add: map_core_def specs_core_def fun_eq_iff)
next
  case (snoc s ss)
  let ?m = "foldl kernel_peer Map.empty (map peer_config_of ss)"
  have sep: "specs_separated ss" and new: "ps_wg_public s \<notin> ps_wg_public ` set ss"
    and dis: "\<forall>t\<in>set ss. set (ps_allowed_ips t) \<inter> set (ps_allowed_ips s) = {}"
    using snoc.prems by (fastforce simp: specs_separated_def)+
  have m: "map_core ?m = specs_core ss" by (rule snoc.IH [OF sep])
  have none: "specs_core ss (ps_wg_public s) = None" using new by (auto simp: specs_core_def map_of_eq_None_iff image_iff)
  then have "?m (ps_wg_public s) = None" using fun_cong [OF m, of "ps_wg_public s"] by (simp add: map_core_def)
  moreover have "free_for (map_core ?m) (ps_wg_public s) (set (ps_allowed_ips s))"
    using dis unfolding free_for_def m specs_core_Some [OF sep] by (auto simp: spec_core_def)
  ultimately have "map_core (kernel_peer ?m (peer_config_of s)) = (specs_core ss)(ps_wg_public s \<mapsto> spec_core s)"
    using kernel_add_core [of "peer_config_of s" ?m] m by (simp add: spec_core_def)
  moreover have "specs_core (ss @ [s]) = (specs_core ss)(ps_wg_public s \<mapsto> spec_core s)"
    using none by (auto simp: specs_core_def map_add_def fun_eq_iff split: option.splits)
  ultimately show ?case by simp
qed

lemma kernel_apply_core:
  assumes "kernel_ready wk kmap (ds_interface spec)" "specs_separated (ds_peers spec)"
  shows "\<exists>k'. kernel_apply wk spec k = (Inr (ds_interface spec), k') \<and> kernel_core kmap (ds_interface spec) k' = specs_core (ds_peers spec)"
proof -
  have "du_peers (foldl (\<lambda>u p. update_add (peer_config_of p) u) u ps) = du_peers u @ map peer_config_of ps \<and>
      du_replace_peers (foldl (\<lambda>u p. update_add (peer_config_of p) u) u ps) = du_replace_peers u" for u ps
    by (induction ps arbitrary: u) (simp_all add: update_add_def)
  then have "du_peers (device_update_of spec) = map peer_config_of (ds_peers spec)" "du_replace_peers (device_update_of spec)"
    by (simp_all add: device_update_of_def device_update_new_def)
  with kernel_send_ready [OF assms(1), of "device_update_of spec" k] kernel_fold_core [OF assms(2)] show ?thesis
    by (cases "kernel_send wk (ds_interface spec) (device_update_of spec) k") (simp add: kernel_apply_def kernel_core_def)
qed

text \<open>The device asked for at start-up is the table the daemon starts with, when no members were persisted.\<close>

lemma site_of_address:
  assumes "derive_node_addr sha pfx k = Inr n" "prefix_ok pfx"
  shows "site_of (address n) = site n"
proof -
  obtain iid where "octets (address n) = prefix_bytes pfx @ u16_be (subnet_id n) @ iid"
    using derive_node_addr_Inr(2) [OF assms] by blast
  moreover have "length (prefix_bytes pfx) = 6" using assms(2) by (simp add: prefix_ok_def)
  ultimately have "site_of (address n) = ipv6_of_octets (octets (site n))"
    using derive_node_addr_Inr(1) [OF assms] by (simp add: site_of_def)
  then show ?thesis by simp
qed

lemma allowed_entries_allow:
  assumes "peer_ok sha pfx p" "prefix_ok pfx" "(net, len) \<in> set (allowed_ips_for (site (cp_addr p)) (cp_routes p))"
  shows "allows (allowed_ips_for (site (cp_addr p)) (cp_routes p)) net" "len \<le> 128"
proof -
  have "route_ok \<lparr>prefix = net, prefix_len = len\<rparr>"
    using assms site_route_ok [of sha pfx "cp_public_key p" "cp_addr p"]
    by (auto simp: allowed_ips_for_def set_push_allowed peer_ok_def route_ok_def)
  then show "len \<le> 128" "allows (allowed_ips_for (site (cp_addr p)) (cp_routes p)) net"
    using assms(3) contains_prefix [of "\<lparr>prefix = net, prefix_len = len\<rparr>"] by (auto simp: allows_def route_ok_iff)
qed

lemma config_specs_separated:
  assumes "config_ok sha own cfg" "inj_on wg (cp_public_key ` set (cf_peers cfg))"
  shows "specs_separated (ds_peers (build_device_spec wg cfg secret))"
proof -
  let ?f = "peer_spec_of wg (ns_keepalive (cf_node cfg))"
  have ok: "prefix_ok (cf_prefix cfg)" "\<forall>p\<in>set (cf_peers cfg). peer_ok sha (cf_prefix cfg) p" "distinct (map cp_public_key (cf_peers cfg))"
    using assms(1) by (simp_all add: config_ok_def)
  have disj: "set (ps_allowed_ips (?f (cf_peers cfg ! i))) \<inter> set (ps_allowed_ips (?f (cf_peers cfg ! j))) = {}"
    if "i < j" "j < length (cf_peers cfg)" for i j
    using allowed_entries_allow(1) [OF _ ok(1)] ok(2) allowed_ips_disjoint [OF assms(1) that] that
    by (fastforce simp: peer_spec_of_def)
  have "distinct (map wg (map cp_public_key (cf_peers cfg)))" using ok(3) assms(2) by (simp add: distinct_map comp_inj_on)
  moreover have "prefixes_ok (?f p)" if "p \<in> set (cf_peers cfg)" for p
    using allowed_entries_allow(2) [OF _ ok(1)] ok(2) that by (auto simp: prefixes_ok_def peer_spec_of_def)
  moreover have "set (ps_allowed_ips s) \<inter> set (ps_allowed_ips t) = {}"
    if st: "s \<in> ?f ` set (cf_peers cfg)" "t \<in> ?f ` set (cf_peers cfg)" "s \<noteq> t" for s t
  proof -
    obtain i j where i: "s = ?f (cf_peers cfg ! i)" "i < length (cf_peers cfg)" and j: "t = ?f (cf_peers cfg ! j)" "j < length (cf_peers cfg)"
      using st(1,2) by (metis (no_types, lifting) imageE in_set_conv_nth)
    have "i < j \<or> j < i" using st(3) i(1) j(1) by (metis linorder_neqE_nat)
    then show ?thesis using disj [of i j] disj [of j i] i j by (auto simp: disjoint_iff)
  qed
  ultimately show ?thesis
    by (auto simp: specs_separated_def build_device_spec_def list_all_iff comp_def peer_spec_of_def [abs_def])
qed

lemma startup_table:
  assumes "config_ok sha own cfg" "inj_on (wg_public_bytes ops) (cp_public_key ` set (cf_peers cfg))" "members mf = []"
  shows "table_core (startup_peers tops vp ops cfg cache mf start) = specs_core (ds_peers (build_device_spec (wg_public_bytes ops) cfg secret))"
    "separated (startup_peers tops vp ops cfg cache mf start)" "keys_sound ops (startup_peers tops vp ops cfg cache mf start)"
proof -
  let ?r = "config_runtime ops cfg cache start" and ?s = "peer_spec_of (wg_public_bytes ops) (ns_keepalive (cf_node cfg))"
  have ps: "startup_peers tops vp ops cfg cache mf start = map ?r (cf_peers cfg)"
    using assms(3) by (simp add: startup_peers_def Let_def List.map_filter_def)
  have ss: "ds_peers (build_device_spec (wg_public_bytes ops) cfg secret) = map ?s (cf_peers cfg)" by (simp add: build_device_spec_def)
  have ok: "prefix_ok (cf_prefix cfg)" "\<forall>p\<in>set (cf_peers cfg). peer_ok sha (cf_prefix cfg) p"
    using assms(1) by (simp_all add: config_ok_def)
  have core: "rt_core (?r p) = spec_core (?s p)" if "p \<in> set (cf_peers cfg)" for p
  proof -
    have "site_of (address (cp_addr p)) = site (cp_addr p)"
      using ok that site_of_address [of sha "cf_prefix cfg" "cp_public_key p" "cp_addr p"] by (auto simp: peer_ok_def)
    then show ?thesis by (simp add: rt_core_def spec_core_def config_runtime_def peer_spec_of_def Let_def)
  qed
  have wg: "pr_wg_public (?r p) = ps_wg_public (?s p)" for p by (simp add: config_runtime_def peer_spec_of_def Let_def)
  show "table_core (startup_peers tops vp ops cfg cache mf start) = specs_core (ds_peers (build_device_spec (wg_public_bytes ops) cfg secret))"
    unfolding ps ss table_core_def specs_core_def using core wg by (simp add: comp_def cong: map_cong)
  have "specs_separated (map ?s (cf_peers cfg))" using config_specs_separated [OF assms(1,2), of secret] by (simp add: ss)
  moreover have "\<forall>r\<in>set (cp_routes p). prefix_len r \<le> 128" if "p \<in> set (cf_peers cfg)" for p
    using ok(2) that by (auto simp: peer_ok_def route_ok_iff)
  ultimately show "separated (startup_peers tops vp ops cfg cache mf start)"
    unfolding ps separated_alt specs_separated_def using core
    by (auto simp: comp_def wg spec_core_def disjoint_iff) metis
  show "keys_sound ops (startup_peers tops vp ops cfg cache mf start)"
    by (auto simp: ps keys_sound_def config_runtime_def Let_def)
qed

context wg_device
begin

lemma follows_start:
  assumes "ok b" "core b = specs_core (ds_peers (build_device_spec (wg_public_bytes ops) cfg secret))"
    and "config_ok sha own cfg" "inj_on (wg_public_bytes ops) (cp_public_key ` set (cf_peers cfg))" "inj (to_base64 ops)"
    and "members (members_load mf) = []" "cache_ok (cache_load cf)" "members_ok (members_load mf)"
    and "daemon_start tops vp ops cfg cf mf start now = (d, fx)"
  shows "ok (execs fx b) \<and> table_ok ops d \<and> core (execs fx b) = table_core (dm_peers d)"
proof -
  let ?ps = "startup_peers tops vp ops cfg (cache_load cf) (members_load mf) start"
  note st = startup_table [OF assms(3,4,6), where tops = tops and vp = vp and cache = "cache_load cf" and start = start]
  have k: "dm_peers d = fst (kick_peers now (cache_load cf) ?ps)" "fx = snd (snd (kick_peers now (cache_load cf) ?ps))"
    using assms(9) by (auto simp: daemon_start_def Let_def case_prod_unfold)
  then have "map identity (dm_peers d) = map identity ?ps" using all_keep(1) kick_peers_keeps [of ?ps now "cache_load cf"] by metis
  note same = same_identity [OF this]
  have "distinct (map cp_public_key (cf_peers cfg))" using assms(3) by (simp add: config_ok_def)
  then have "daemon_ok d" using daemon_start_ok [of cfg ops cf mf tops vp start now] assms(5,7-9) by simp
  then show ?thesis using same st assms(1,2) execs_table [OF kick_peers_fx, of b ?ps now "cache_load cf"] k(2)
    by (simp add: table_ok_def ok_execs)
qed

end

section \<open>The device from start to finish\<close>


lemma ex_gotatun_ok: "gotatun_ok ex_gotatun"
proof -
  have peers: "dev_core ex_gotatun ps = map_of (map (\<lambda>p. (gp_public_key p, gt_core p)) ps)" for ps
    by (simp add: dev_core_def ex_gotatun_def comp_def)
  have point: "dev_core ex_gotatun (snd (gt_set_endpoint ex_gotatun k ep ps)) = dev_core ex_gotatun ps" for k ep ps
    unfolding peers by (rule arg_cong [where f = map_of]) (simp add: ex_gotatun_def gt_core_def)
  have remove: "dev_core ex_gotatun (filter (\<lambda>q. gp_public_key q \<noteq> k) ps) = (dev_core ex_gotatun ps)(k := None)" for k ps
    unfolding peers by (induction ps) (auto simp: fun_eq_iff)
  have add: "dev_core ex_gotatun (snd (gt_add_peer ex_gotatun p ps)) = (dev_core ex_gotatun ps)(gp_public_key p \<mapsto> gt_core p)" for p ps
    using remove [of "gp_public_key p" ps] by (simp add: ex_gotatun_def peers [unfolded ex_gotatun_def])
  show ?thesis unfolding gotatun_ok_def
  proof (intro conjI allI impI)
    show "dev_core ex_gotatun (snd (gt_remove_peer ex_gotatun k d)) = (dev_core ex_gotatun d)(k := None)" for k d
      using remove by (simp add: ex_gotatun_def)
  qed (use peers point add in \<open>auto simp: ex_gotatun_def\<close>)
qed



text \<open>A kernel that holds the map itself, as an instance of the interface.\<close>

definition ex_kernel :: "(string \<Rightarrow> device_map) wg_kernel" where
  "ex_kernel =
     \<lparr>wk_iface_ok = (\<lambda>n. n \<noteq> []),
      wk_apply = (\<lambda>u i k. (Inr (), k(i := foldl kernel_peer (if du_replace_peers u then Map.empty else k i) (du_peers u)))),
      wk_get = (\<lambda>i k. Inr [])\<rparr>"


text \<open>
  The daemon does not check the site of an admitted member. A member with the site of another peer takes that
  peer's AllowedIPs entry away from it in the kernel, and the other peer can no longer be reached.
\<close>

lemma admitted_site_taken:
  assumes "m k = Some q" "(net, len) \<in> set (ps_allowed_ips s)" "ps_wg_public s \<noteq> k"
  shows "\<exists>q'. kernel_peer m (peer_config_of s) k = Some q' \<and> (net, len) \<notin> set (gp_allowed_ips q')"
  using assms by (simp add: kernel_peer_def strip_allowed_def Let_def)

end
