(* ===== verification/Platform.thy ===== *)
theory Platform
  imports Route_Manager Std_Bytes
begin

text \<open>
  The platform layer (\<open>crates/platform/src\<close>): interface set-up, routes, the enumeration of usable addresses and
  multicast interfaces, and the watchers of address changes on Linux, macOS and Windows; and the transport over
  a raw descriptor (\<open>crates/wg-userspace/src/raw_fd.rs\<close>). What the operating system answers is an argument; a netlink connection
  that cannot be opened is the failure of the first answer it would give.
\<close>

unbundle bit_operations_syntax

section \<open>Errors and events\<close>

datatype platform_error = PlatNotFound string | Unsupported | Netlink string | Tun string | Os string

datatype addr_event_kind = AddrAdded | AddrRemoved

record addr_event =
  ae_kind :: addr_event_kind
  ae_address :: ipv6
  ae_if_index :: u32

section \<open>Linux\<close>

text \<open>What the system is asked to do, and its answer.\<close>

datatype plat_request =
    AddAddress u32 ipv6 u8 bool
  | SetLink u32 u32 bool
  | DelLink u32
  | RouteAdd u32 ipv6 u8
  | RouteDel u32 ipv6 u8

datatype nl_error = NetlinkError int string | UnexpectedMessage string

fun nl_text :: "nl_error \<Rightarrow> string" where
  "nl_text (NetlinkError _ s) = s"
| "nl_text (UnexpectedMessage s) = s"

definition LINUX_ENODEV :: int where "LINUX_ENODEV = 19"

fun is_missing_link :: "nl_error \<Rightarrow> bool" where
  "is_missing_link (NetlinkError code _) \<longleftrightarrow> \<bar>code\<bar> = LINUX_ENODEV"
| "is_missing_link (UnexpectedMessage _) \<longleftrightarrow> False"

text \<open>The first link the lookup of a name yields.\<close>

definition link_index :: "(string \<Rightarrow> (nl_error, u32 option) result) \<Rightarrow> string \<Rightarrow> (platform_error, u32) result" where
  "link_index look name =
     (case look name of
        Inr (Some i) \<Rightarrow> Inr i
      | Inr None \<Rightarrow> Inl (PlatNotFound name)
      | Inl e \<Rightarrow> if is_missing_link e then Inl (PlatNotFound name) else Inl (Netlink (nl_text e)))"

text \<open>Requests in order, until one fails.\<close>

fun run_requests :: "(plat_request \<Rightarrow> nl_error option) \<Rightarrow> plat_request list \<Rightarrow> plat_request list \<times> (platform_error, unit) result" where
  "run_requests sys [] = ([], Inr ())"
| "run_requests sys (r # rs) =
     (case sys r of
        Some e \<Rightarrow> ([r], Inl (Netlink (nl_text e)))
      | None \<Rightarrow> (case run_requests sys rs of (done, res) \<Rightarrow> (r # done, res)))"

definition linux_setup_interface ::
  "(string \<Rightarrow> (nl_error, u32 option) result) \<Rightarrow> (plat_request \<Rightarrow> nl_error option) \<Rightarrow> string \<Rightarrow> ipv6 \<Rightarrow> u8 \<Rightarrow> u32 \<Rightarrow>
     plat_request list \<times> (platform_error, unit) result" where
  "linux_setup_interface look sys name a len mtu =
     (case link_index look name of
        Inl e \<Rightarrow> ([], Inl e)
      | Inr i \<Rightarrow> run_requests sys [AddAddress i a len True, SetLink i mtu True])"

definition linux_delete_interface ::
  "(string \<Rightarrow> (nl_error, u32 option) result) \<Rightarrow> (plat_request \<Rightarrow> nl_error option) \<Rightarrow> string \<Rightarrow> plat_request list \<times> (platform_error, unit) result" where
  "linux_delete_interface look sys name =
     (case link_index look name of Inl e \<Rightarrow> ([], Inl e) | Inr i \<Rightarrow> run_requests sys [DelLink i])"

definition linux_add_route ::
  "(string \<Rightarrow> (nl_error, u32 option) result) \<Rightarrow> (plat_request \<Rightarrow> nl_error option) \<Rightarrow> string \<Rightarrow> ipv6 \<Rightarrow> u8 \<Rightarrow> plat_request list \<times> (platform_error, unit) result" where
  "linux_add_route look sys name p len =
     (case link_index look name of Inl e \<Rightarrow> ([], Inl e) | Inr i \<Rightarrow> run_requests sys [RouteAdd i p len])"

definition linux_remove_route ::
  "(string \<Rightarrow> (nl_error, u32 option) result) \<Rightarrow> (plat_request \<Rightarrow> nl_error option) \<Rightarrow> string \<Rightarrow> ipv6 \<Rightarrow> u8 \<Rightarrow> plat_request list \<times> (platform_error, unit) result" where
  "linux_remove_route look sys name p len =
     (case link_index look name of Inl e \<Rightarrow> ([], Inl e) | Inr i \<Rightarrow> run_requests sys [RouteDel i p len])"

text \<open>An address message of netlink.\<close>

datatype address_family = Inet | Inet6 | OtherFamily
datatype address_scope = Universe | SiteScope | LinkScope | HostScope | OtherScope

record address_msg =
  am_family :: address_family
  am_scope :: address_scope
  am_index :: u32
  am_deprecated :: bool
  am_tentative :: bool
  am_dadfailed :: bool
  am_addresses :: "ipv6 list"

definition excluded_index ::
  "(string \<Rightarrow> (nl_error, u32 option) result) \<Rightarrow> string option \<Rightarrow> (platform_error, u32 option) result" where
  "excluded_index look exclude =
     (case exclude of
        None \<Rightarrow> Inr None
      | Some name \<Rightarrow>
          (case link_index look name of
             Inr i \<Rightarrow> Inr (Some i)
           | Inl (PlatNotFound _) \<Rightarrow> Inr None
           | Inl e \<Rightarrow> Inl e))"

definition linux_msg_addrs :: "u32 option \<Rightarrow> address_msg \<Rightarrow> ipv6 list" where
  "linux_msg_addrs excluded msg =
     (if am_family msg \<noteq> Inet6 then []
      else if am_scope msg \<noteq> Universe then []
      else if excluded = Some (am_index msg) then []
      else if am_deprecated msg \<or> am_tentative msg \<or> am_dadfailed msg then []
      else filter is_usable_endpoint_addr (am_addresses msg))"

definition linux_list_global_ipv6 ::
  "(string \<Rightarrow> (nl_error, u32 option) result) \<Rightarrow> (nl_error, address_msg list) result \<Rightarrow> string option \<Rightarrow> (platform_error, ipv6 list) result" where
  "linux_list_global_ipv6 look msgs exclude =
     (case excluded_index look exclude of
        Inl e \<Rightarrow> Inl e
      | Inr excluded \<Rightarrow>
          (case msgs of
             Inl e \<Rightarrow> Inl (Netlink (nl_text e))
           | Inr ms \<Rightarrow> Inr (remdups_adj (sort (concat (map (linux_msg_addrs excluded) ms))))))"

record link_msg =
  lm_index :: u32
  lm_loopback :: bool
  lm_up :: bool
  lm_multicast :: bool
  lm_name :: "string option"

definition linux_multicast :: "string option \<Rightarrow> link_msg \<Rightarrow> (u32 \<times> string) list" where
  "linux_multicast exclude msg =
     (if lm_loopback msg then []
      else if \<not> lm_up msg \<or> \<not> lm_multicast msg then []
      else case lm_name msg of
        None \<Rightarrow> []
      | Some name \<Rightarrow> if exclude = Some name then [] else [(lm_index msg, name)])"

text \<open>Pairs are ordered by index, then by the bytes of the name.\<close>

definition link_key :: "u32 \<times> string \<Rightarrow> nat list" where
  "link_key l = unat (fst l) # map of_char (snd l)"

fun lex_le :: "nat list \<Rightarrow> nat list \<Rightarrow> bool" where
  "lex_le [] _ = True"
| "lex_le (_ # _) [] = False"
| "lex_le (a # as) (b # bs) = (a < b \<or> a = b \<and> lex_le as bs)"

fun insert_link :: "u32 \<times> string \<Rightarrow> (u32 \<times> string) list \<Rightarrow> (u32 \<times> string) list" where
  "insert_link l [] = [l]"
| "insert_link l (m # ms) = (if lex_le (link_key l) (link_key m) then l # m # ms else m # insert_link l ms)"

definition sort_links :: "(u32 \<times> string) list \<Rightarrow> (u32 \<times> string) list" where
  "sort_links ls = foldr insert_link ls []"

definition linux_list_multicast_interfaces :: "(nl_error, link_msg list) result \<Rightarrow> string option \<Rightarrow> (platform_error, (u32 \<times> string) list) result" where
  "linux_list_multicast_interfaces msgs exclude =
     (case msgs of
        Inl e \<Rightarrow> Inl (Netlink (nl_text e))
      | Inr ms \<Rightarrow> Inr (sort_links (concat (map (linux_multicast exclude) ms))))"

text \<open>
  A watcher: the events it sends, until the messages end or the receiver, which takes \<open>room\<close> more events, is
  gone.
\<close>

datatype route_message = NewAddress u32 "ipv6 list" | DelAddress u32 "ipv6 list" | OtherMessage

fun linux_events :: "route_message \<Rightarrow> addr_event list" where
  "linux_events (NewAddress i as) = map (\<lambda>a. \<lparr>ae_kind = AddrAdded, ae_address = a, ae_if_index = i\<rparr>) as"
| "linux_events (DelAddress i as) = map (\<lambda>a. \<lparr>ae_kind = AddrRemoved, ae_address = a, ae_if_index = i\<rparr>) as"
| "linux_events OtherMessage = []"

fun linux_send_all :: "nat \<Rightarrow> route_message list \<Rightarrow> addr_event list" where
  "linux_send_all room [] = []"
| "linux_send_all room (m # ms) =
     (let evs = linux_events m in
      if length evs > room then take room evs else evs @ linux_send_all (room - length evs) ms)"

text \<open>The messages of the multicast connection, or why it could not be opened.\<close>

definition linux_watch :: "nat \<Rightarrow> (string, route_message list) result \<Rightarrow> addr_event list \<times> (platform_error, unit) result" where
  "linux_watch room conn =
     (case conn of Inl e \<Rightarrow> ([], Inl (Netlink e)) | Inr ms \<Rightarrow> (linux_send_all room ms, Inr ()))"

section \<open>macOS\<close>

fun mask_octets :: "nat \<Rightarrow> u8 \<Rightarrow> bytes" where
  "mask_octets 0 remaining = []"
| "mask_octets (Suc n) remaining =
     (if remaining = 0 then 0 else if remaining \<ge> 8 then 0xff else push_bit (8 - unat remaining) 0xff) #
     mask_octets n (sat_sub remaining 8)"

definition prefix_mask :: "u8 \<Rightarrow> ipv6" where
  "prefix_mask len = ipv6_of_octets (mask_octets 16 len)"

definition IFNAMSIZ :: nat where "IFNAMSIZ = 16"

definition copy_ifname :: "string \<Rightarrow> (platform_error, bytes) result" where
  "copy_ifname name =
     (if length name \<ge> IFNAMSIZ then Inl (PlatNotFound name)
      else Inr (ascii name @ replicate (IFNAMSIZ - length name) 0))"

text \<open>The requests of the two ioctls.\<close>

datatype in6_request = AliasReq bytes ipv6 ipv6 | IfReq bytes ipv6

definition ENXIO :: int where "ENXIO = 6"

datatype ioctl_answer = IoctlOk | SocketFailed string | IoctlFailed int string

definition ioctl_in6 :: "(in6_request \<Rightarrow> ioctl_answer) \<Rightarrow> in6_request \<Rightarrow> string \<Rightarrow> (platform_error, unit) result" where
  "ioctl_in6 sys req name =
     (case sys req of
        IoctlOk \<Rightarrow> Inr ()
      | SocketFailed e \<Rightarrow> Inl (Os e)
      | IoctlFailed code e \<Rightarrow> if code = ENXIO \<or> code = LINUX_ENODEV then Inl (PlatNotFound name) else Inl (Os e))"

definition assign_ipv6 :: "(string \<Rightarrow> bool) \<Rightarrow> (in6_request \<Rightarrow> ioctl_answer) \<Rightarrow> string \<Rightarrow> ipv6 \<Rightarrow> u8 \<Rightarrow> (platform_error, unit) result" where
  "assign_ipv6 exists sys name a len =
     (if \<not> exists name then Inl (PlatNotFound name)
      else case copy_ifname name of
        Inl e \<Rightarrow> Inl e
      | Inr n \<Rightarrow> ioctl_in6 sys (AliasReq n a (prefix_mask len)) name)"

definition unassign_ipv6 :: "(string \<Rightarrow> bool) \<Rightarrow> (in6_request \<Rightarrow> ioctl_answer) \<Rightarrow> string \<Rightarrow> ipv6 \<Rightarrow> (platform_error, unit) result" where
  "unassign_ipv6 exists sys name a =
     (if \<not> exists name then Inl (PlatNotFound name)
      else case copy_ifname name of
        Inl e \<Rightarrow> Inl e
      | Inr n \<Rightarrow> ioctl_in6 sys (IfReq n a) name)"

definition macos_setup_interface :: "(string \<Rightarrow> bool) \<Rightarrow> (in6_request \<Rightarrow> ioctl_answer) \<Rightarrow> string \<Rightarrow> ipv6 \<Rightarrow> u8 \<Rightarrow> u32 \<Rightarrow> (platform_error, unit) result" where
  "macos_setup_interface exists sys name a len mtu = assign_ipv6 exists sys name a len"

definition macos_delete_interface :: "string \<Rightarrow> (platform_error, unit) result" where
  "macos_delete_interface name = Inl Unsupported"

text \<open>Adding and removing a route; \<open>handle\<close> is a failure to open the routing socket.\<close>

definition macos_route ::
  "(string \<Rightarrow> u32 option) \<Rightarrow> string option \<Rightarrow> (plat_request \<Rightarrow> string option) \<Rightarrow> (u32 \<Rightarrow> plat_request) \<Rightarrow> string \<Rightarrow> plat_request list \<times> (platform_error, unit) result" where
  "macos_route index handle sys req name =
     (case index name of
        None \<Rightarrow> ([], Inl (PlatNotFound name))
      | Some i \<Rightarrow>
          (case handle of
             Some e \<Rightarrow> ([], Inl (Os e))
           | None \<Rightarrow> ([req i], case sys (req i) of None \<Rightarrow> Inr () | Some e \<Rightarrow> Inl (Os e))))"

definition macos_add_route where
  "macos_add_route index handle sys name p len = macos_route index handle sys (\<lambda>i. RouteAdd i p len) name"

definition macos_remove_route where
  "macos_remove_route index handle sys name p len = macos_route index handle sys (\<lambda>i. RouteDel i p len) name"

record if_entry =
  ie_name :: string
  ie_address :: "ipv6 option"
  ie_index :: "u32 option"
  ie_loopback :: bool
  ie_up :: bool
  ie_multicast :: bool

definition current_global_addrs :: "(string, if_entry list) result \<Rightarrow> string option \<Rightarrow> (platform_error, ipv6 list) result" where
  "current_global_addrs ifs exclude =
     (case ifs of
        Inl e \<Rightarrow> Inl (Os e)
      | Inr is \<Rightarrow>
          Inr (remdups_adj (sort (List.map_filter
            (\<lambda>i. if Some (ie_name i) = exclude then None
                 else case ie_address i of
                   None \<Rightarrow> None
                 | Some a \<Rightarrow> if is_usable_endpoint_addr a then Some a else None) is))))"

definition diff_addrs :: "ipv6 list \<Rightarrow> ipv6 list \<Rightarrow> ipv6 list \<times> ipv6 list" where
  "diff_addrs previous current =
     (filter (\<lambda>a. a \<notin> set previous) (remdups_adj (sort current)), filter (\<lambda>a. a \<notin> set current) (remdups_adj (sort previous)))"

definition macos_list_multicast_interfaces :: "(string, if_entry list) result \<Rightarrow> string option \<Rightarrow> (platform_error, (u32 \<times> string) list) result" where
  "macos_list_multicast_interfaces ifs exclude =
     (case ifs of
        Inl e \<Rightarrow> Inl (Os e)
      | Inr is \<Rightarrow>
          Inr (remdups_adj (sort_links (List.map_filter
            (\<lambda>i. if ie_loopback i then None
                 else if \<not> ie_up i \<or> \<not> ie_multicast i then None
                 else if exclude = Some (ie_name i) then None
                 else map_option (\<lambda>x. (x, ie_name i)) (ie_index i)) is))))"

text \<open>How a watcher that polls stands: waiting for the next poll, stopped by an error, or without receiver.\<close>

datatype watch_end = Waiting | WatchFailed platform_error | ReceiverGone

definition poll_event :: "addr_event_kind \<Rightarrow> ipv6 \<Rightarrow> addr_event" where
  "poll_event k a = \<lparr>ae_kind = k, ae_address = a, ae_if_index = 0\<rparr>"

lemma poll_event_fields [simp]: "ae_kind (poll_event k a) = k" "ae_address (poll_event k a) = a"
  by (simp_all add: poll_event_def)

definition macos_round :: "ipv6 list \<Rightarrow> ipv6 list \<Rightarrow> addr_event list" where
  "macos_round previous current =
     (case diff_addrs previous current of (new, gone) \<Rightarrow> map (poll_event AddrRemoved) gone @ map (poll_event AddrAdded) new)"

fun macos_polls :: "nat \<Rightarrow> ipv6 list \<Rightarrow> (platform_error, ipv6 list) result list \<Rightarrow> addr_event list \<times> watch_end" where
  "macos_polls room previous [] = ([], Waiting)"
| "macos_polls room previous (Inl e # polls) = ([], WatchFailed e)"
| "macos_polls room previous (Inr current # polls) =
     (let evs = macos_round previous current in
      if length evs > room then (take room evs, ReceiverGone)
      else case macos_polls (room - length evs) current polls of (rest, w) \<Rightarrow> (evs @ rest, w))"

definition macos_watch :: "nat \<Rightarrow> (platform_error, ipv6 list) result \<Rightarrow> (platform_error, ipv6 list) result list \<Rightarrow> addr_event list \<times> watch_end" where
  "macos_watch room baseline polls =
     (case baseline of Inl e \<Rightarrow> ([], WatchFailed e) | Inr first \<Rightarrow> macos_polls room first polls)"

section \<open>Windows\<close>

record win_adapter =
  wa_friendly :: "string option"
  wa_name :: "string option"
  wa_up :: bool
  wa_index :: u32
  wa_addresses :: "(int \<times> bool \<times> ipv6) list"

definition is_excluded :: "win_adapter \<Rightarrow> string option \<Rightarrow> bool" where
  "is_excluded ad exclude =
     (case exclude of
        None \<Rightarrow> False
      | Some e \<Rightarrow> wa_friendly ad = Some e \<or> wa_name ad = Some e)"

text \<open>
  The two calls of \<open>GetAdaptersAddresses\<close>: the return code and the size of the first, the return code and the
  adapters of the second.
\<close>

definition ERROR_BUFFER_OVERFLOW :: u32 where "ERROR_BUFFER_OVERFLOW = 111"
definition ERROR_NO_DATA :: u32 where "ERROR_NO_DATA = 232"

definition win32_error :: "string \<Rightarrow> u32 \<Rightarrow> platform_error" where
  "win32_error what code = Os (what @ '' '' @ show_number 10 (uint code))"

definition win_adapters :: "u32 \<times> u32 \<Rightarrow> u32 \<times> win_adapter list \<Rightarrow> (platform_error, win_adapter list) result" where
  "win_adapters probe answer =
     (if fst probe \<noteq> ERROR_BUFFER_OVERFLOW \<and> fst probe \<noteq> ERROR_NO_DATA then Inl (win32_error ''GetAdaptersAddresses probe'' (fst probe))
      else if snd probe = 0 then Inr []
      else if fst answer \<noteq> 0 then Inl (win32_error ''GetAdaptersAddresses'' (fst answer)) else Inr (snd answer))"

definition SOCKADDR_IN6_SIZE :: int where "SOCKADDR_IN6_SIZE = 28"

text \<open>An address entry: the length of the socket address, whether its family is IPv6, and the address.\<close>

definition win_list_global_ipv6 :: "u32 \<times> u32 \<Rightarrow> u32 \<times> win_adapter list \<Rightarrow> string option \<Rightarrow> (platform_error, ipv6 list) result" where
  "win_list_global_ipv6 probe answer exclude =
     (case win_adapters probe answer of
        Inl e \<Rightarrow> Inl e
      | Inr ads \<Rightarrow>
          Inr (concat (map (\<lambda>ad. if is_excluded ad exclude then []
            else map (snd \<circ> snd) (filter (\<lambda>(len, v6, a). len \<ge> SOCKADDR_IN6_SIZE \<and> v6 \<and> is_usable_endpoint_addr a) (wa_addresses ad))) ads)))"

definition win_list_multicast_interfaces :: "u32 \<times> u32 \<Rightarrow> u32 \<times> win_adapter list \<Rightarrow> string option \<Rightarrow> (platform_error, (u32 \<times> string) list) result" where
  "win_list_multicast_interfaces probe answer exclude =
     (case win_adapters probe answer of
        Inl e \<Rightarrow> Inl e
      | Inr ads \<Rightarrow> Inr (map (\<lambda>ad. (wa_index ad, case wa_friendly ad of None \<Rightarrow> [] | Some n \<Rightarrow> n)) (filter (\<lambda>ad. wa_up ad \<and> \<not> is_excluded ad exclude) ads)))"

definition win_round :: "ipv6 list \<Rightarrow> ipv6 list \<Rightarrow> addr_event list" where
  "win_round prev cur =
     (case diff_addrs prev cur of (new, gone) \<Rightarrow> map (poll_event AddrAdded) new @ map (poll_event AddrRemoved) gone)"

text \<open>A poll that fails is skipped; a receiver found closed ends the watch.\<close>

fun win_polls :: "nat \<Rightarrow> ipv6 list \<Rightarrow> (bool \<times> (platform_error, ipv6 list) result) list \<Rightarrow> addr_event list \<times> watch_end" where
  "win_polls room prev [] = ([], Waiting)"
| "win_polls room prev ((closed, poll) # polls) =
     (if closed then ([], ReceiverGone)
      else case poll of
        Inl e \<Rightarrow> win_polls room prev polls
      | Inr cur \<Rightarrow>
          let evs = win_round prev cur in
          if length evs > room then (take room evs, ReceiverGone)
          else case win_polls (room - length evs) cur polls of (rest, w) \<Rightarrow> (evs @ rest, w))"

definition win_watch :: "nat \<Rightarrow> (platform_error, ipv6 list) result \<Rightarrow> (bool \<times> (platform_error, ipv6 list) result) list \<Rightarrow> addr_event list \<times> watch_end" where
  "win_watch room baseline polls =
     (case baseline of Inl e \<Rightarrow> ([], WatchFailed e) | Inr first \<Rightarrow> win_polls room first polls)"

text \<open>
  The rows handed to the system, and its answer: 0 is success. \<open>luid\<close> looks an interface up: its identifier, or
  the code of the failure.
\<close>

record forward_row =
  fw_luid :: u64
  fw_prefix :: ipv6
  fw_prefix_len :: u8
  fw_site_prefix_len :: u8

datatype win_request = CreateUnicast u64 ipv6 u8 | CreateForward forward_row | DeleteForward forward_row

definition iface_luid :: "(string \<Rightarrow> (u32, u64) result) \<Rightarrow> string \<Rightarrow> (platform_error, u64) result" where
  "iface_luid luid name =
     (case luid name of Inl code \<Rightarrow> Inl (win32_error ''ConvertInterfaceNameToLuidW'' code) | Inr l \<Rightarrow> Inr l)"

definition route_row :: "u64 \<Rightarrow> ipv6 \<Rightarrow> u8 \<Rightarrow> forward_row" where
  "route_row l p len = \<lparr>fw_luid = l, fw_prefix = p, fw_prefix_len = len, fw_site_prefix_len = len\<rparr>"

definition win_setup_interface ::
  "(string \<Rightarrow> (u32, u64) result) \<Rightarrow> (win_request \<Rightarrow> u32) \<Rightarrow> string \<Rightarrow> ipv6 \<Rightarrow> u8 \<Rightarrow> u32 \<Rightarrow> win_request list \<times> (platform_error, unit) result" where
  "win_setup_interface luid sys name a len mtu =
     (case iface_luid luid name of
        Inl e \<Rightarrow> ([], Inl e)
      | Inr l \<Rightarrow>
          let r = CreateUnicast l a len in
          ([r], if sys r \<noteq> 0 then Inl (win32_error ''CreateUnicastIpAddressEntry'' (sys r)) else Inr ()))"

definition win_delete_interface :: "string \<Rightarrow> (platform_error, unit) result" where
  "win_delete_interface name = Inl Unsupported"

definition win_add_route ::
  "(string \<Rightarrow> (u32, u64) result) \<Rightarrow> (win_request \<Rightarrow> u32) \<Rightarrow> string \<Rightarrow> ipv6 \<Rightarrow> u8 \<Rightarrow> win_request list \<times> (platform_error, unit) result" where
  "win_add_route luid sys name p len =
     (case iface_luid luid name of
        Inl e \<Rightarrow> ([], Inl e)
      | Inr l \<Rightarrow>
          let r = CreateForward (route_row l p len) in
          ([r], if sys r \<noteq> 0 then Inl (win32_error ''CreateIpForwardEntry2'' (sys r)) else Inr ()))"

definition win_remove_route ::
  "(string \<Rightarrow> (u32, u64) result) \<Rightarrow> (win_request \<Rightarrow> u32) \<Rightarrow> string \<Rightarrow> ipv6 \<Rightarrow> u8 \<Rightarrow> win_request list \<times> (platform_error, unit) result" where
  "win_remove_route luid sys name p len =
     (case iface_luid luid name of
        Inl e \<Rightarrow> ([], Inl e)
      | Inr l \<Rightarrow>
          let r = DeleteForward (route_row l p len) in
          ([r], if sys r \<noteq> 0 then Inl (win32_error ''DeleteIpForwardEntry2'' (sys r)) else Inr ()))"

section \<open>The transport over a descriptor\<close>

text \<open>What the system answers to one attempt to write or read.\<close>

datatype write_answer = Wrote nat | WriteFailed | WriteBlocked | NotWritable

text \<open>The pieces handed to the system and the outcome: \<open>None\<close> while it still waits.\<close>

fun fd_send :: "bytes \<Rightarrow> nat \<Rightarrow> write_answer list \<Rightarrow> bytes list \<times> bool option" where
  "fd_send buf written answers =
     (if written \<ge> length buf then ([], Some True)
      else case answers of
        [] \<Rightarrow> ([], None)
      | Wrote n # as \<Rightarrow> (case fd_send buf (written + n) as of (ps, r) \<Rightarrow> (take n (drop written buf) # ps, r))
      | WriteFailed # as \<Rightarrow> ([], Some False)
      | NotWritable # as \<Rightarrow> ([], Some False)
      | WriteBlocked # as \<Rightarrow> fd_send buf written as)"

declare fd_send.simps [simp del]

datatype read_answer = ReadBytes bytes | ReadFailed | ReadBlocked | NotReadable

fun fd_recv :: "nat \<Rightarrow> (bytes \<Rightarrow> bool) \<Rightarrow> read_answer list \<Rightarrow> bytes option option" where
  "fd_recv cap is_ip [] = None"
| "fd_recv cap is_ip (ReadBlocked # as) = fd_recv cap is_ip as"
| "fd_recv cap is_ip (ReadBytes bs # as) = Some (if is_ip (take cap bs) then Some (take cap bs) else None)"
| "fd_recv cap is_ip (_ # as) = Some None"

section \<open>Masks\<close>

text \<open>The mask macOS is given is the mask of the site routes.\<close>

lemma length_mask_octets [simp]: "length (mask_octets n r) = n"
  by (induction n arbitrary: r) simp_all

lemma mask_octets_nth:
  "j < n \<Longrightarrow> mask_octets n r ! j =
     (if unat r \<le> 8 * j then 0 else if 8 * (j + 1) \<le> unat r then 0xff else push_bit (8 - (unat r - 8 * j)) 0xff)"
proof (induction n arbitrary: r j)
  case (Suc n)
  show ?case
  proof (cases j)
    case 0
    then show ?thesis by (simp add: word_le_nat_alt unat_eq_0)
  next
    case (Suc i)
    have "unat (sat_sub r 8) \<le> 8 * i \<longleftrightarrow> unat r \<le> 8 * j" "8 * (i + 1) \<le> unat (sat_sub r 8) \<longleftrightarrow> 8 * (j + 1) \<le> unat r"
      "unat (sat_sub r 8) - 8 * i = unat r - 8 * j"
      unfolding unat_sat_sub Suc by auto
    then show ?thesis using Suc.IH [of i "sat_sub r 8"] Suc.prems Suc by simp
  qed
qed simp

lemma prefix_mask_octets:
  assumes "len \<le> 128"
  shows "octets (prefix_mask len) = route_mask len"
proof -
  define w r where "w = unat len div 8" and "r = unat len mod 8"
  have mask: "route_mask len = (let m = replicate w 0xff @ replicate (16 - w) 0 in if r > 0 then m[w := push_bit (8 - r) 0xff] else m)"
    by (simp add: route_mask_def w_def r_def Let_def)
  have le: "unat len \<le> 128" using assms by (simp add: word_le_nat_alt)
  have "mask_octets 16 len = route_mask len"
  proof (rule nth_equalityI)
    fix j assume "j < length (mask_octets 16 len)"
    then have j: "j < 16" by simp
    have len: "unat len = 8 * w + r" "r < 8" by (simp_all add: w_def r_def)
    consider "j < w" | "j = w" "r > 0" | "w \<le> j" "j = w \<longrightarrow> r = 0" by linarith
    then show "mask_octets 16 len ! j = route_mask len ! j"
    proof cases
      case 1
      then have "j + 1 \<le> w" by simp
      then have "8 * (j + 1) \<le> 8 * w + r" by simp
      then have "8 * (j + 1) \<le> unat len" using len(1) by simp
      then have "\<not> unat len \<le> 8 * j" "8 * (j + 1) \<le> unat len" by simp_all
      then show ?thesis using 1 j le by (auto simp: mask_octets_nth mask Let_def nth_append)
    next
      case 2
      then have "\<not> unat len \<le> 8 * j" "\<not> 8 * (j + 1) \<le> unat len" "unat len - 8 * j = r" using len by simp_all
      then show ?thesis using 2 j le by (auto simp: mask_octets_nth mask Let_def)
    next
      case 3
      then have "j = w \<and> r = 0 \<or> w + 1 \<le> j" by linarith
      then have "unat len \<le> 8 * j" using len by linarith
      then show ?thesis using 3 j le by (auto simp: mask_octets_nth mask Let_def nth_append nth_list_update)
    qed
  qed (simp add: length_route_mask [OF assms])
  then show ?thesis by (simp add: prefix_mask_def octets_of_octets length_route_mask [OF assms])
qed

section \<open>Listed addresses\<close>

lemma set_remdups_adj_sort [simp]: "set (remdups_adj (sort xs)) = set (xs :: ipv6 list)"
  by simp

lemma distinct_remdups_adj_sort: "distinct (remdups_adj (sort (xs :: ipv6 list)))"
proof -
  have "sorted ys \<Longrightarrow> distinct (remdups_adj ys)" for ys :: "ipv6 list"
    by (induction ys rule: remdups_adj.induct) (auto simp: less_le_not_le)
  then show ?thesis by simp
qed

section \<open>Watching is replaying\<close>

fun apply_event :: "ipv6 set \<Rightarrow> addr_event \<Rightarrow> ipv6 set" where
  "apply_event s e = (case ae_kind e of AddrAdded \<Rightarrow> insert (ae_address e) s | AddrRemoved \<Rightarrow> s - {ae_address e})"

text \<open>Each event changes the set; a replay ends with the set of the last poll.\<close>

fun replays :: "ipv6 set \<Rightarrow> addr_event list \<Rightarrow> ipv6 set \<Rightarrow> bool" where
  "replays s [] t \<longleftrightarrow> s = t"
| "replays s (e # es) t \<longleftrightarrow>
     (case ae_kind e of AddrAdded \<Rightarrow> ae_address e \<notin> s | AddrRemoved \<Rightarrow> ae_address e \<in> s) \<and> replays (apply_event s e) es t"

lemma replays_append: "replays s xs t \<Longrightarrow> replays t ys u \<Longrightarrow> replays s (xs @ ys) u"
  by (induction xs arbitrary: s) auto

lemma replays_added: "distinct as \<Longrightarrow> set as \<inter> s = {} \<Longrightarrow> replays s (map (poll_event AddrAdded) as) (s \<union> set as)"
proof (induction as arbitrary: s)
  case (Cons a as)
  then have "replays (insert a s) (map (poll_event AddrAdded) as) (insert a s \<union> set as)" by (intro Cons.IH) auto
  then show ?case using Cons.prems by simp
qed simp

lemma replays_removed: "distinct as \<Longrightarrow> set as \<subseteq> s \<Longrightarrow> replays s (map (poll_event AddrRemoved) as) (s - set as)"
proof (induction as arbitrary: s)
  case (Cons a as)
  then have "replays (s - {a}) (map (poll_event AddrRemoved) as) (s - {a} - set as)" by (intro Cons.IH) auto
  moreover have "s - {a} - set as = s - set (a # as)" by auto
  ultimately show ?case using Cons.prems by simp
qed simp

lemma round_replays:
  "replays (set prev) (macos_round prev cur) (set cur)" "replays (set prev) (win_round prev cur) (set cur)"
proof -
  let ?new = "filter (\<lambda>a. a \<notin> set prev) (remdups_adj (sort cur))" and ?gone = "filter (\<lambda>a. a \<notin> set cur) (remdups_adj (sort prev))"
  have d: "distinct ?new" "distinct ?gone" by (simp_all add: distinct_remdups_adj_sort)
  have s: "set ?new = set cur - set prev" "set ?gone = set prev - set cur" by auto
  have "replays (set prev) (map (poll_event AddrRemoved) ?gone @ map (poll_event AddrAdded) ?new) (set prev - set ?gone \<union> set ?new)"
    by (rule replays_append [OF replays_removed [OF d(2)] replays_added [OF d(1)]]) (use s in auto)
  moreover have "set prev - set ?gone \<union> set ?new = set cur" unfolding s by auto
  ultimately show "replays (set prev) (macos_round prev cur) (set cur)" by (simp add: macos_round_def diff_addrs_def)
  have "replays (set prev) (map (poll_event AddrAdded) ?new @ map (poll_event AddrRemoved) ?gone) ((set prev \<union> set ?new) - set ?gone)"
    by (rule replays_append [OF replays_added [OF d(1)] replays_removed [OF d(2)]]) (use s in auto)
  moreover have "(set prev \<union> set ?new) - set ?gone = set cur" unfolding s by auto
  ultimately show "replays (set prev) (win_round prev cur) (set cur)" by (simp add: win_round_def diff_addrs_def)
qed

text \<open>The addresses of the last poll that succeeded.\<close>

fun last_ok :: "ipv6 list \<Rightarrow> (platform_error, ipv6 list) result list \<Rightarrow> ipv6 list" where
  "last_ok prev [] = prev"
| "last_ok prev (Inl _ # ps) = last_ok prev ps"
| "last_ok prev (Inr cur # ps) = last_ok cur ps"

lemma macos_polls_replay: "macos_polls room prev polls = (evs, Waiting) \<Longrightarrow> replays (set prev) evs (set (last_ok prev polls))"
proof (induction room prev polls arbitrary: evs rule: macos_polls.induct)
  case (3 room previous current polls)
  obtain rest where r: "macos_polls (room - length (macos_round previous current)) current polls = (rest, Waiting)"
    and evs: "evs = macos_round previous current @ rest" and le: "\<not> length (macos_round previous current) > room"
    using 3(2) by (auto simp: Let_def split: if_splits prod.splits)
  show ?case using replays_append [OF round_replays(1) 3(1) [OF refl le r]] by (simp add: evs)
qed simp_all

lemma win_polls_replay: "win_polls room prev polls = (evs, Waiting) \<Longrightarrow> replays (set prev) evs (set (last_ok prev (map snd polls)))"
proof (induction polls arbitrary: room prev evs)
  case (Cons x polls)
  obtain closed poll where x: "x = (closed, poll)" by (cases x)
  show ?case
  proof (cases poll)
    case (Inl e)
    then show ?thesis using Cons x by (auto split: if_splits)
  next
    case (Inr cur)
    obtain rest where r: "win_polls (room - length (win_round prev cur)) cur polls = (rest, Waiting)" and evs: "evs = win_round prev cur @ rest"
      using Cons.prems by (auto simp: x Inr Let_def split: if_splits prod.splits)
    show ?thesis using replays_append [OF round_replays(2) Cons.IH [OF r]] by (simp add: x Inr evs)
  qed
qed simp

text \<open>C34: The address watchers of macOS and Windows report every change and nothing else. As long as the watch
  goes on, the events sent since the first poll, applied one by one to the addresses found there, give exactly
  the addresses of the last successful poll, and no event reports an address that was already there or that
  was not there.\<close>

theorem address_watch_exact:
  assumes "(macos_watch room (Inr first) polls = (evs, Waiting)) \<or> (win_watch room (Inr first) (map (Pair False) polls) = (evs, Waiting))"
  shows "replays (set first) evs (set (last_ok first polls))"
  using assms
proof
  assume "macos_watch room (Inr first) polls = (evs, Waiting)"
  then show ?thesis using macos_polls_replay by (simp add: macos_watch_def)
next
  assume "win_watch room (Inr first) (map (Pair False) polls) = (evs, Waiting)"
  then show ?thesis using win_polls_replay [of room first "map (Pair False) polls" evs] by (simp add: win_watch_def comp_def)
qed

theorem address_watch_exact_witness:
  "\<exists>evs. macos_watch 10 (Inr [1, 2]) [Inr [2, 3], Inr [3]] = (evs, Waiting) \<and> length evs = 3 \<and>
     replays {1, 2} evs {3}"
proof -
  let ?evs = "fst (macos_watch 10 (Inr [1, 2]) [Inr [2, 3], Inr [3]])"
  have e: "snd (macos_watch 10 (Inr [1, 2]) [Inr [2, 3], Inr [3]]) = Waiting" "length ?evs = 3" by code_simp+
  from address_watch_exact [of 10 "[1, 2]" "[Inr [2, 3], Inr [3]]" ?evs] e show ?thesis
    by (intro exI [of _ ?evs]) (auto simp: prod_eq_iff)
qed

section \<open>The transport sends whole packets\<close>

text \<open>What is written adds up to the packet when the send succeeds, and is a part of it at any time.\<close>

lemma fd_send_whole:
  "fd_send buf written answers = (ps, r) \<Longrightarrow>
     (\<exists>t. concat ps @ t = drop written buf) \<and> (r = Some True \<longrightarrow> concat ps = drop written buf)"
proof (induction buf written answers arbitrary: ps r rule: fd_send.induct)
  case (1 buf written answers)
  show ?case
  proof (cases "written \<ge> length buf")
    case True
    then show ?thesis using "1.prems" by (auto simp: fd_send.simps [of buf])
  next
    case False
    show ?thesis
    proof (cases answers)
      case Nil
      then show ?thesis using "1.prems" False by (auto simp: fd_send.simps [of buf])
    next
      case (Cons x as)
      show ?thesis
      proof (cases x)
        case (Wrote n)
        obtain qs where q: "fd_send buf (written + n) as = (qs, r)" "ps = take n (drop written buf) # qs"
          using "1.prems" False Cons Wrote by (subst (asm) fd_send.simps) (auto split: prod.splits)
        have "drop written buf = take n (drop written buf) @ drop (written + n) buf"
          by (metis append_take_drop_id drop_drop add.commute)
        then show ?thesis using "1.IH"(1) [OF False Cons Wrote q(1)] by (metis append.assoc concat.simps(2) q(2))
      next
        case WriteBlocked
        have "fd_send buf written as = (ps, r)"
          using "1.prems" False Cons WriteBlocked by (subst (asm) fd_send.simps) simp
        then show ?thesis using "1.IH"(2) [OF False Cons WriteBlocked] by simp
      qed (use "1.prems" False Cons in \<open>auto simp: fd_send.simps [of buf]\<close>)
    qed
  qed
qed

end
