(* ===== verification/Tun_Device.thy ===== *)
theory Tun_Device
  imports Platform
begin

text \<open>
  The tunnel device of the platform layer (\<open>crates/platform/src/tun.rs\<close>) and a tunnel over a descriptor someone else
  opened (\<open>RawFdTun::from_fd\<close> of \<open>crates/wg-userspace/src/raw_fd.rs\<close>). The \<open>tun\<close> crate and \<open>fcntl\<close> are arguments; a
  poisoned lock and a failure to start a blocking task are not modelled.
\<close>

unbundle bit_operations_syntax

section \<open>Operations\<close>

record tun_config =
  tn_name :: string
  tn_mtu :: u32

text \<open>The device of the \<open>tun\<close> crate: creating it by name and MTU, its name, and how it receives and sends.\<close>

record 'd tun_crate =
  tu_create :: "string \<Rightarrow> u16 option \<Rightarrow> (string, 'd) result"
  tu_name :: "'d \<Rightarrow> (string, string) result"
  tu_recv :: "'d \<Rightarrow> nat \<Rightarrow> (string, bytes) result"
  tu_send :: "'d \<Rightarrow> bytes \<Rightarrow> (string, nat) result"

record 'd tun_handle =
  th_device :: 'd
  th_name :: string

definition tun_mtu :: "tun_config \<Rightarrow> (platform_error, u16 option) result" where
  "tun_mtu cfg =
     (if tn_mtu cfg = 0 then Inr None
      else if uint (tn_mtu cfg) < 2 ^ 16 then Inr (Some (ucast (tn_mtu cfg)))
      else Inl (Tun ''mtu''))"

definition open_tun :: "bool \<Rightarrow> 'd tun_crate \<Rightarrow> tun_config \<Rightarrow> (platform_error, 'd tun_handle) result" where
  "open_tun supported tu cfg =
     (if \<not> supported then Inl Unsupported
      else
        and_then (tun_mtu cfg) (\<lambda>mtu.
        and_then (map_err Tun (tu_create tu (tn_name cfg) mtu)) (\<lambda>dev.
        and_then (map_err Tun (tu_name tu dev)) (\<lambda>assigned.
        Inr \<lparr>th_device = dev, th_name = (if assigned = [] then tn_name cfg else assigned)\<rparr>))))"

text \<open>Reading into a buffer: the packet is copied to its front. A device that returns more than was asked for is a panic.\<close>

definition read_packet :: "'d tun_crate \<Rightarrow> 'd tun_handle \<Rightarrow> bytes \<Rightarrow> (platform_error, nat \<times> bytes) result option" where
  "read_packet tu h buf =
     (case tu_recv tu (th_device h) (length buf) of
        Inl e \<Rightarrow> Some (Inl (Tun e))
      | Inr pkt \<Rightarrow> if length pkt > length buf then None else Some (Inr (length pkt, pkt @ drop (length pkt) buf)))"

definition write_packet :: "'d tun_crate \<Rightarrow> 'd tun_handle \<Rightarrow> bytes \<Rightarrow> (platform_error, unit) result" where
  "write_packet tu h pkt =
     and_then (map_err Tun (tu_send tu (th_device h) pkt)) (\<lambda>written.
     if written \<noteq> length pkt then Inl (Tun ''short write'') else Inr ())"

text \<open>
  \<open>set_nonblocking\<close>: the status flags of the descriptor, a C \<open>int\<close>, are read and written back with \<open>O_NONBLOCK\<close>; a
  negative answer is an error. The new flags are the result.
\<close>

definition set_nonblocking :: "32 word \<Rightarrow> 32 word \<Rightarrow> (32 word \<Rightarrow> 32 word) \<Rightarrow> (string, 32 word) result" where
  "set_nonblocking o_nonblock flags setfl =
     (if sint flags < 0 then Inl ''F_GETFL''
      else if sint (setfl (flags OR o_nonblock)) < 0 then Inl ''F_SETFL''
      else Inr (flags OR o_nonblock))"

record raw_fd_tun =
  rf_fd :: int
  rf_mtu :: u16

definition from_fd :: "32 word \<Rightarrow> 32 word \<Rightarrow> (32 word \<Rightarrow> 32 word) \<Rightarrow> bool \<Rightarrow> int \<Rightarrow> u16 \<Rightarrow> (string, raw_fd_tun \<times> 32 word) result" where
  "from_fd o_nonblock flags setfl registers fd mtu =
     and_then (set_nonblocking o_nonblock flags setfl) (\<lambda>fl.
     if registers then Inr (\<lparr>rf_fd = fd, rf_mtu = mtu\<rparr>, fl) else Inl ''AsyncFd'')"

section \<open>Facts\<close>

text \<open>The MTU reaches the device unchanged or not at all: it never wraps.\<close>


lemma open_tun_mtu:
  assumes "open_tun supported tu cfg = Inr h"
  obtains mtu a where "tu_create tu (tn_name cfg) mtu = Inr (th_device h)" "tu_name tu (th_device h) = Inr a"
    "case mtu of None \<Rightarrow> tn_mtu cfg = 0 | Some m \<Rightarrow> uint m = uint (tn_mtu cfg) \<and> m \<noteq> 0"
    "th_name h = (if a = [] then tn_name cfg else a)"
proof -
  from assms obtain mtu a where o: "tun_mtu cfg = Inr mtu" "tu_create tu (tn_name cfg) mtu = Inr (th_device h)"
    "tu_name tu (th_device h) = Inr a" "th_name h = (if a = [] then tn_name cfg else a)"
    by (auto simp: open_tun_def and_then_Inr split: if_splits)
  have "uint m = uint (tn_mtu cfg) \<and> m \<noteq> 0" if "mtu = Some m" for m
  proof -
    have m: "m = ucast (tn_mtu cfg)" "uint (tn_mtu cfg) < 2 ^ 16" "tn_mtu cfg \<noteq> 0"
      using o(1) that by (auto simp: tun_mtu_def split: if_splits)
    have "uint m = uint (tn_mtu cfg)" using m(1,2) by (simp add: unsigned_ucast_eq take_bit_int_eq_self)
    then show ?thesis using m(3) by (metis uint_0_iff)
  qed
  moreover have "mtu = None \<Longrightarrow> tn_mtu cfg = 0" using o(1) by (auto simp: tun_mtu_def split: if_splits)
  ultimately show thesis using that o(2-4) by (cases mtu) auto
qed

text \<open>A write that succeeds was whole; a read never touches the rest of the buffer.\<close>

lemma write_packet_whole: "write_packet tu h pkt = Inr () \<longleftrightarrow> tu_send tu (th_device h) pkt = Inr (length pkt)"
  by (auto simp: write_packet_def and_then_Inr split: if_splits)

lemma read_packet_buffer:
  assumes "read_packet tu h buf = Some (Inr (n, buf'))"
  shows "length buf' = length buf \<and> tu_recv tu (th_device h) (length buf) = Inr (take n buf') \<and> drop n buf' = drop n buf"
  using assms by (auto simp: read_packet_def split: sum.splits if_splits)

text \<open>The descriptor stays what it was, but does not block; its other flags are kept.\<close>

lemma from_fd_flags:
  assumes "from_fd o_nonblock flags setfl registers fd mtu = Inr (t, fl)"
  shows "rf_fd t = fd \<and> rf_mtu t = mtu \<and> fl AND o_nonblock = o_nonblock \<and> fl AND NOT o_nonblock = flags AND NOT o_nonblock"
  using assms by (auto simp: from_fd_def set_nonblocking_def and_then_Inr bit_eq_iff bit_simps split: if_splits)

end
