(* ===== verification/Cli_Text.thy ===== *)
theory Cli_Text
  imports Std_Bytes Engine_State Config_Text
begin

text \<open>
  The pure parts of the command line (\<open>crates/cli/src/commands\<close>): endpoints and validity periods given as
  arguments, host names for the peers, and the columns of the status table.
\<close>

section \<open>Arguments\<close>

datatype arg_error = EndpointIpv4 string | EndpointBad string | TtlEmpty | TtlBad string | TtlTooLarge string | TtlZero | TtlOverLimit string

definition parse_endpoint :: "string \<Rightarrow> (arg_error, socket_v6) result" where
  "parse_endpoint s =
     (case parse_sock s of
        Some (V6 v6) \<Rightarrow> Inr v6
      | Some (V4 _ _) \<Rightarrow> Inl (EndpointIpv4 s)
      | None \<Rightarrow> Inl (EndpointBad s))"

definition MAX_TTL_SECS :: int where "MAX_TTL_SECS = 365 * 24 * 3600"

definition ttl_unit :: "char \<Rightarrow> int option" where
  "ttl_unit c =
     (if c = CHR ''s'' then Some 1 else if c = CHR ''m'' then Some 60 else if c = CHR ''h'' then Some 3600
      else if c = CHR ''d'' then Some 86400 else None)"

definition parse_ttl :: "string \<Rightarrow> (arg_error, int) result" where
  "parse_ttl s0 =
     (let s = str_trim s0 in
      if s = [] then Inl TtlEmpty
      else let (digits, mult) = (case ttl_unit (last s) of Some m \<Rightarrow> (butlast s, m) | None \<Rightarrow> (s, 1)) in
        case parse_uint U64_MAX digits of
          None \<Rightarrow> Inl (TtlBad s)
        | Some n \<Rightarrow>
            if n * mult > U64_MAX then Inl (TtlTooLarge s)
            else if n * mult = 0 then Inl TtlZero
            else if n * mult > MAX_TTL_SECS then Inl (TtlOverLimit s)
            else Inr (n * mult))"

lemma parse_ttl_range: "parse_ttl s = Inr n \<Longrightarrow> 0 < n \<and> n \<le> MAX_TTL_SECS"
proof -
  assume p: "parse_ttl s = Inr n"
  have pos: "0 \<le> k" if "parse_uint U64_MAX d = Some k" for d k using parse_uint_range [OF that] by simp
  show ?thesis using p
    by (auto simp: parse_ttl_def ttl_unit_def Let_def split: if_splits option.splits dest!: pos)
qed

section \<open>Host names\<close>

definition host_char :: "char \<Rightarrow> bool" where
  "host_char c \<longleftrightarrow> (let n = of_char c :: nat in (97 \<le> n \<and> n \<le> 122) \<or> (48 \<le> n \<and> n \<le> 57))"

text \<open>The loop over the characters; the flag says whether the last one pushed was a dash.\<close>

fun sanitize_chars :: "bool \<Rightarrow> string \<Rightarrow> string" where
  "sanitize_chars last_was_dash [] = []"
| "sanitize_chars last_was_dash (c0 # cs) =
     (let c = ascii_lower c0 in
      if host_char c then c # sanitize_chars False cs
      else if last_was_dash then sanitize_chars True cs
      else CHR ''-'' # sanitize_chars True cs)"

definition is_dash :: "char \<Rightarrow> bool" where
  "is_dash c \<longleftrightarrow> c = CHR ''-''"

definition trim_dashes_end :: "string \<Rightarrow> string" where
  "trim_dashes_end s = rev (dropWhile is_dash (rev s))"

definition trim_dashes :: "string \<Rightarrow> string" where
  "trim_dashes s = trim_dashes_end (dropWhile is_dash s)"

definition sanitize_name :: "string \<Rightarrow> string" where
  "sanitize_name name = trim_dashes (sanitize_chars False name)"

definition MAX_HOST :: nat where "MAX_HOST = 63"

definition host_base :: "string \<Rightarrow> string" where
  "host_base name =
     (let base = sanitize_name name in if length base > MAX_HOST then trim_dashes_end (take MAX_HOST base) else base)"

definition host_line :: "ipv6 \<Rightarrow> string \<Rightarrow> string" where
  "host_line a h = show_ipv6 a @ ''  '' @ h @ ''  '' @ h @ ''.hextet''"

text \<open>The names given to the peers in turn; \<open>counts\<close> says how often each base occurred.\<close>

fun host_names :: "(string \<times> int) list \<Rightarrow> (string \<times> ipv6) list \<Rightarrow> (string \<times> ipv6) list" where
  "host_names counts [] = []"
| "host_names counts ((name, a) # ps) =
     (if sanitize_name name = [] then host_names counts ps
      else let base = host_base name;
               count = (case hm_get counts base of None \<Rightarrow> 0 | Some n \<Rightarrow> n) + 1;
               h = (if count = 1 then base else base @ ''-'' @ show_number 10 count)
           in (h, a) # host_names (hm_insert base count counts) ps)"

definition render_hosts :: "config_peer list \<Rightarrow> string list" where
  "render_hosts ps = map (\<lambda>(h, a). host_line a h) (host_names [] (map (\<lambda>p. (cp_name p, address (cp_addr p))) ps))"

definition hosts_contents :: "config_peer list \<Rightarrow> string" where
  "hosts_contents ps = concat (map (\<lambda>l. l @ newline) (render_hosts ps))"

section \<open>Columns of the status table\<close>

definition punch_column :: "status_row \<Rightarrow> string" where
  "punch_column r =
     (case (sr_punch_state r, sr_relay_via r) of
        (Some st, Some via) \<Rightarrow> if st = ''relayed'' then ''relayed via '' @ via else st
      | (Some st, None) \<Rightarrow> st
      | (None, _) \<Rightarrow> ''-'')"

definition handshake_column :: "status_row \<Rightarrow> string" where
  "handshake_column r = (case sr_last_handshake_secs r of None \<Rightarrow> ''-'' | Some s \<Rightarrow> show_number 10 (uint s) @ ''s'')"

definition routes_column :: "status_row \<Rightarrow> string" where
  "routes_column r = (if sr_routes r = [] then ''-'' else join_str '','' (sr_routes r))"

section \<open>Host names are valid\<close>

definition host_name_ok :: "string \<Rightarrow> bool" where
  "host_name_ok h \<longleftrightarrow> h \<noteq> [] \<and> list_all (\<lambda>c. host_char c \<or> c = CHR ''-'') h \<and> hd h \<noteq> CHR ''-'' \<and> last h \<noteq> CHR ''-''"

lemma sanitize_chars_set: "set (sanitize_chars d s) \<subseteq> {c. host_char c \<or> c = CHR ''-''}"
  by (induction d s rule: sanitize_chars.induct) (auto simp: Let_def)

lemma trim_dashes_end_last: "trim_dashes_end s \<noteq> [] \<Longrightarrow> last (trim_dashes_end s) \<noteq> CHR ''-''"
  using hd_dropWhile [of is_dash "rev s"] by (simp add: trim_dashes_end_def last_rev) (simp add: is_dash_def)

lemma trim_dashes_end_prefix: "\<exists>t. trim_dashes_end s @ t = s"
proof -
  have "rev (takeWhile is_dash (rev s) @ dropWhile is_dash (rev s)) = s" by simp
  then show ?thesis unfolding trim_dashes_end_def by (metis rev_append)
qed

lemma trim_dashes_end_hd: "trim_dashes_end s \<noteq> [] \<Longrightarrow> hd (trim_dashes_end s) = hd s"
  using trim_dashes_end_prefix [of s] by (metis hd_append2)

lemma trim_dashes_end_set: "set (trim_dashes_end s) \<subseteq> set s"
  using set_dropWhileD by (fastforce simp: trim_dashes_end_def)

lemma trim_dashes_end_keeps: "s \<noteq> [] \<Longrightarrow> hd s \<noteq> CHR ''-'' \<Longrightarrow> trim_dashes_end s \<noteq> []"
proof -
  assume s: "s \<noteq> []" "hd s \<noteq> CHR ''-''"
  then have "hd s \<in> set (rev s)" by simp
  with s(2) show ?thesis unfolding trim_dashes_end_def by (metis dropWhile_eq_Nil_conv is_dash_def rev_is_Nil_conv)
qed

lemma sanitize_ok: "sanitize_name n \<noteq> [] \<Longrightarrow> host_name_ok (sanitize_name n)"
proof -
  let ?d = "dropWhile is_dash (sanitize_chars False n)"
  assume ne: "sanitize_name n \<noteq> []"
  then have e: "trim_dashes_end ?d \<noteq> []" by (simp add: sanitize_name_def trim_dashes_def)
  then have "?d \<noteq> []" unfolding trim_dashes_end_def by force
  then have "\<not> is_dash (hd ?d)" by (rule hd_dropWhile)
  then have "hd ?d \<noteq> CHR ''-''" by (simp add: is_dash_def)
  moreover have "set (trim_dashes_end ?d) \<subseteq> {c. host_char c \<or> c = CHR ''-''}"
    using trim_dashes_end_set [of ?d] set_dropWhileD sanitize_chars_set [of False n] by fastforce
  ultimately show ?thesis
    using e trim_dashes_end_last [OF e] trim_dashes_end_hd [OF e]
    by (auto simp: host_name_ok_def sanitize_name_def trim_dashes_def list_all_iff)
qed

lemma host_base_ok: "sanitize_name n \<noteq> [] \<Longrightarrow> host_name_ok (host_base n) \<and> length (host_base n) \<le> MAX_HOST"
proof -
  assume ne: "sanitize_name n \<noteq> []"
  let ?s = "sanitize_name n"
  let ?t = "take MAX_HOST ?s"
  have ok: "host_name_ok ?s" by (rule sanitize_ok [OF ne])
  have t: "?t \<noteq> []" "hd ?t \<noteq> CHR ''-''" "set ?t \<subseteq> set ?s" using ok by (auto simp: host_name_ok_def MAX_HOST_def set_take_subset)
  have k: "trim_dashes_end ?t \<noteq> []" by (rule trim_dashes_end_keeps [OF t(1,2)])
  have "host_name_ok (trim_dashes_end ?t)"
    using k trim_dashes_end_last [OF k] trim_dashes_end_hd [OF k] t ok trim_dashes_end_set [of ?t]
    by (auto simp: host_name_ok_def list_all_iff)
  moreover have "length (trim_dashes_end ?t) \<le> MAX_HOST"
    using trim_dashes_end_prefix [of ?t] by (metis length_append length_take min.cobounded2 le_add1 le_trans)
  ultimately show ?thesis using ok by (auto simp: host_base_def Let_def)
qed

lemma show_number_digits: "0 \<le> n \<Longrightarrow> show_number 10 n \<noteq> [] \<and> list_all host_char (show_number 10 n)"
proof -
  assume n: "0 \<le> n"
  have "host_char (hex_digit d)" if "0 \<le> d" "d < 10" for d
  proof -
    have "d \<in> set [0..9]" using that by auto
    moreover have "list_all (\<lambda>d. host_char (hex_digit d)) [0..9]" by code_simp
    ultimately show ?thesis unfolding list_all_iff by blast
  qed
  then have "list_all host_char (show_number 10 n)" using show_number_chars [OF n, of 10] by (auto simp: list_all_iff)
  moreover have "digits_of 10 n \<noteq> []" by (subst digits_of.simps) simp
  ultimately show ?thesis by (simp add: show_number_def)
qed

lemma numbered_ok: "host_name_ok h \<Longrightarrow> 0 \<le> n \<Longrightarrow> host_name_ok (h @ ''-'' @ show_number 10 n)"
proof -
  assume h: "host_name_ok h" and n: "0 \<le> n"
  have d: "show_number 10 n \<noteq> []" "list_all host_char (show_number 10 n)" using show_number_digits [OF n] by auto
  then have "host_char (last (show_number 10 n))" by (simp add: list_all_iff)
  then have "last (show_number 10 n) \<noteq> CHR ''-''" by (auto simp: host_char_def)
  then show ?thesis using h d by (auto simp: host_name_ok_def list_all_iff)
qed

lemma host_names_ok: "\<forall>k n. hm_get counts k = Some n \<longrightarrow> 0 \<le> n \<Longrightarrow> list_all (\<lambda>(h, a). host_name_ok h) (host_names counts ps)"
proof (induction counts ps rule: host_names.induct)
  case (2 counts name a ps)
  show ?case
  proof (cases "sanitize_name name = []")
    case True
    then show ?thesis using 2 by simp
  next
    case False
    define count where "count = (case hm_get counts (host_base name) of None \<Rightarrow> 0 | Some n \<Rightarrow> n) + 1"
    have c: "0 \<le> count" using 2(3) by (auto simp: count_def split: option.splits)
    have "list_all (\<lambda>(h, a). host_name_ok h) (host_names (hm_insert (host_base name) count counts) ps)"
      using 2(2) [OF False refl] c 2(3) by (auto simp: count_def hm)
    moreover have "host_name_ok (host_base name)" "host_name_ok (host_base name @ ''-'' @ show_number 10 count)"
      using host_base_ok [OF False] numbered_ok c by auto
    ultimately show ?thesis using False by (simp add: Let_def count_def [symmetric])
  qed
qed simp

lemma host_names_addresses: "map snd (host_names counts ps) = map snd (filter (\<lambda>(n, a). sanitize_name n \<noteq> []) ps)"
  by (induction counts ps rule: host_names.induct) (simp_all add: Let_def)

text \<open>Two peers can still get the same name, and a name can be longer than a label may be.\<close>

lemma host_names_clash: "map fst (host_names [] [(''a'', 1), (''a'', 2), (''a-2'', 3)]) = [''a'', ''a-2'', ''a-2'']"
  by code_simp

lemma host_name_too_long:
  "length (fst (host_names [] [(replicate 63 CHR ''a'', 1), (replicate 63 CHR ''a'', 2)] ! 1)) = 65"
  by code_simp

end
