(* ===== verification/Cli_Admin.thy ===== *)
theory Cli_Admin
  imports Cli_Text Bootstrap Daemon_Behaviour
begin

text \<open>
  The commands that administer a network (\<open>crates/cli/src/commands\<close>): \<open>peer add\<close> with its edit of the
  configuration file (\<open>peer.rs\<close>), \<open>member add\<close> and \<open>member revoke\<close> with what they send (\<open>member.rs\<close>), and
  \<open>invite new\<close> (\<open>invite.rs\<close>). The file system is that of \<open>Bootstrap\<close>; the TOML parser, whether a socket can be
  bound and which sends fail are arguments.
\<close>

section \<open>Errors\<close>

datatype cmd_error =
    CmdConfig config_error | CmdKey identity_error | CmdArg arg_error | CmdRoute string
  | CmdOwnKey | CmdKnownPeer string | CmdNameTaken string | CmdAddr addr_error | CmdGossip gossip_error
  | CmdBind | CmdSend socket_v6 | CmdRead | CmdAppend | CmdRestored config_error | CmdNotRestored config_error
  | CmdNoAddresses string | CmdInvite invite_error

text \<open>The address of a new node; its site must differ from those of the peers and of this node.\<close>

definition new_node_addr :: "sha256 \<Rightarrow> config \<Rightarrow> public_key \<Rightarrow> string \<Rightarrow> public_key \<Rightarrow> (cmd_error, node_addr) result" where
  "new_node_addr sha cfg own name pk =
     and_then (map_err CmdAddr (derive_node_addr sha (cf_prefix cfg) pk)) (\<lambda>na.
     and_then (map_err CmdAddr (derive_node_addr sha (cf_prefix cfg) own)) (\<lambda>self.
     and_then (map_err CmdAddr (check_subnet_collisions
       (map (\<lambda>p. (cp_name p, cp_addr p)) (cf_peers cfg) @ [(''<self>'', self), (name, na)]))) (\<lambda>_.
     Inr na)))"

section \<open>peer add\<close>

record cmd_env =
  ce_text :: text_ops
  ce_valid_point :: "key32 \<Rightarrow> bool"
  ce_sha :: sha256
  ce_kdf :: hkdf
  ce_ed_public :: "key32 \<Rightarrow> public_key"
  ce_to_path :: "string \<Rightarrow> file_path"
  ce_parse :: "string \<Rightarrow> raw_config option"
  ce_b64 :: "public_key \<Rightarrow> string"

record peer_add_args =
  pa_name :: string
  pa_public_key :: string
  pa_endpoints :: "string list"
  pa_routes :: "string list"

text \<open>How reading the text, appending to it and writing it back go.\<close>

record peer_add_io =
  pi_read :: bool
  pi_append :: io_outcome
  pi_restore :: io_outcome

text \<open>Reading and deserialising the file, and \<open>Config::load\<close>.\<close>

definition config_file :: "cmd_env \<Rightarrow> file_system \<Rightarrow> file_path \<Rightarrow> (config_error, raw_config) result" where
  "config_file env fs path =
     (case fs path of
        None \<Rightarrow> Inl (ConfigIo (path_text path))
      | Some txt \<Rightarrow> (case ce_parse env txt of None \<Rightarrow> Inl ConfigParse | Some raw \<Rightarrow> Inr raw))"

definition config_load_file :: "cmd_env \<Rightarrow> file_system \<Rightarrow> file_path \<Rightarrow> public_key option \<Rightarrow> (config_error, config) result option" where
  "config_load_file env fs path own =
     (case config_file env fs path of
        Inl e \<Rightarrow> Some (Inl e)
      | Inr raw \<Rightarrow> config_load (ce_text env) (ce_valid_point env) (ce_sha env) (ce_kdf env) raw own)"

fun append_file :: "io_outcome \<Rightarrow> file_system \<Rightarrow> file_path \<Rightarrow> string \<Rightarrow> bool \<times> file_system" where
  "append_file out fs path txt =
     (case fs path of
        None \<Rightarrow> (False, fs)
      | Some old \<Rightarrow>
          (case out of
             IoOpenFails \<Rightarrow> (False, fs)
           | IoOk \<Rightarrow> (True, fs(path \<mapsto> old @ txt))
           | IoWriteFails n \<Rightarrow> (False, fs(path \<mapsto> old @ take n txt))))"

fun rewrite_file :: "io_outcome \<Rightarrow> file_system \<Rightarrow> file_path \<Rightarrow> string \<Rightarrow> bool \<times> file_system" where
  "rewrite_file IoOpenFails fs path txt = (False, fs)"
| "rewrite_file IoOk fs path txt = (True, fs(path \<mapsto> txt))"
| "rewrite_file (IoWriteFails n) fs path txt = (False, fs(path \<mapsto> take n txt))"

definition peer_add_checks ::
  "cmd_env \<Rightarrow> config \<Rightarrow> public_key \<Rightarrow> peer_add_args \<Rightarrow> (cmd_error, public_key \<times> socket_v6 list \<times> ipv6_route list \<times> node_addr) result" where
  "peer_add_checks env cfg own args =
     and_then (map_err CmdKey (pk_from_base64 (ce_text env) (ce_valid_point env) (pa_public_key args))) (\<lambda>pk.
     and_then (map_err CmdArg (try_map parse_endpoint (pa_endpoints args))) (\<lambda>eps.
     and_then (try_map (\<lambda>s. map_err (\<lambda>_. CmdRoute s) (route_from_str s)) (pa_routes args)) (\<lambda>routes.
     if pk = own then Inl CmdOwnKey
     else case find (\<lambda>p. cp_public_key p = pk) (cf_peers cfg) of
       Some p \<Rightarrow> Inl (CmdKnownPeer (cp_name p))
     | None \<Rightarrow>
         if list_ex (\<lambda>p. cp_name p = pa_name args) (cf_peers cfg) then Inl (CmdNameTaken (pa_name args))
         else and_then (new_node_addr (ce_sha env) cfg own (pa_name args) pk) (\<lambda>na. Inr (pk, eps, routes, na)))))"

definition peer_add ::
  "cmd_env \<Rightarrow> peer_add_io \<Rightarrow> file_path \<Rightarrow> peer_add_args \<Rightarrow> file_system \<Rightarrow> ((cmd_error, ipv6) result \<times> file_system) option" where
  "peer_add env io path args fs =
     (case load_config_and_identity (ce_text env) (ce_valid_point env) (ce_sha env) (ce_kdf env) (ce_ed_public env) (ce_to_path env)
         fs (config_file env fs path) path of
        None \<Rightarrow> None
      | Some (Inl e) \<Rightarrow> Some (Inl (CmdConfig e), fs)
      | Some (Inr (cfg, seed)) \<Rightarrow>
          let own = ce_ed_public env seed in
          case peer_add_checks env cfg own args of
            Inl e \<Rightarrow> Some (Inl e, fs)
          | Inr (pk, eps, routes, na) \<Rightarrow>
              (case (if pi_read io then fs path else None) of
                 None \<Rightarrow> Some (Inl CmdRead, fs)
               | Some original \<Rightarrow>
                   (case append_file (pi_append io) fs path (render_peer_block (ce_b64 env) (pa_name args) pk eps routes) of
                      (False, fs) \<Rightarrow> Some (Inl CmdAppend, fs)
                    | (True, fs) \<Rightarrow>
                        (case config_load_file env fs path (Some own) of
                           None \<Rightarrow> None
                         | Some (Inr _) \<Rightarrow> Some (Inr (address na), fs)
                         | Some (Inl e) \<Rightarrow>
                             (case rewrite_file (pi_restore io) fs path original of
                                (True, fs) \<Rightarrow> Some (Inl (CmdRestored e), fs)
                              | (False, fs) \<Rightarrow> Some (Inl (CmdNotRestored e), fs))))))"

section \<open>member add and member revoke\<close>

text \<open>The sends in order, up to the first that fails.\<close>

fun send_each :: "(socket_v6 \<Rightarrow> bool) \<Rightarrow> bytes \<Rightarrow> u16 \<Rightarrow> ipv6 list \<Rightarrow> (bytes \<times> socket_v6) list \<times> (cmd_error, unit) result" where
  "send_each send bs gp [] = ([], Inr ())"
| "send_each send bs gp (a # as) =
     (if \<not> send (sock a gp) then ([], Inl (CmdSend (sock a gp)))
      else case send_each send bs gp as of (out, r) \<Rightarrow> ((bs, sock a gp) # out, r))"

definition broadcast_to_peers ::
  "bool \<Rightarrow> (socket_v6 \<Rightarrow> bool) \<Rightarrow> bytes \<Rightarrow> ipv6 list \<Rightarrow> u16 \<Rightarrow> (bytes \<times> socket_v6) list \<times> (cmd_error, unit) result" where
  "broadcast_to_peers bound send bs addrs gp = (if \<not> bound then ([], Inl CmdBind) else send_each send bs gp addrs)"

definition peer_addrs :: "config \<Rightarrow> ipv6 list" where
  "peer_addrs cfg = map (\<lambda>p. address (cp_addr p)) (cf_peers cfg)"

text \<open>Both give what was sent and how the command ended, for a loaded configuration and identity.\<close>

definition member_entry ::
  "'sk signer_ops \<Rightarrow> text_ops \<Rightarrow> (key32 \<Rightarrow> bool) \<Rightarrow> sha256 \<Rightarrow> config \<Rightarrow> 'sk \<Rightarrow> string \<Rightarrow> string \<Rightarrow> invite_id \<Rightarrow> u64 \<Rightarrow>
     (cmd_error, node_addr \<times> bytes) result" where
  "member_entry ops tops vp sha cfg ident name key rid now =
     and_then (map_err CmdKey (pk_from_base64 tops vp key)) (\<lambda>pk.
     if pk = sk_public ops ident then Inl CmdOwnKey
     else case find (\<lambda>p. cp_public_key p = pk) (cf_peers cfg) of
       Some p \<Rightarrow> Inl (CmdKnownPeer (cp_name p))
     | None \<Rightarrow>
         and_then (new_node_addr sha cfg (sk_public ops ident) name pk) (\<lambda>na.
         and_then (map_err CmdGossip (sign_member ops ident pk name (subnet_id na) now rid)) (\<lambda>e.
         and_then (map_err CmdGossip (entry_encode e)) (\<lambda>bs. Inr (na, bs)))))"

definition member_add ::
  "'sk signer_ops \<Rightarrow> text_ops \<Rightarrow> (key32 \<Rightarrow> bool) \<Rightarrow> sha256 \<Rightarrow> bool \<Rightarrow> (socket_v6 \<Rightarrow> bool) \<Rightarrow> config \<Rightarrow> 'sk \<Rightarrow> string \<Rightarrow> string \<Rightarrow> invite_id \<Rightarrow>
     u64 \<Rightarrow> (bytes \<times> socket_v6) list \<times> (cmd_error, ipv6) result" where
  "member_add ops tops vp sha bound send cfg ident name key rid now =
     (case member_entry ops tops vp sha cfg ident name key rid now of
        Inl e \<Rightarrow> ([], Inl e)
      | Inr (na, bs) \<Rightarrow>
          (case broadcast_to_peers bound send bs (peer_addrs cfg) (ns_gossip_port (cf_node cfg)) of
             (out, Inl e) \<Rightarrow> (out, Inl e)
           | (out, Inr _) \<Rightarrow> (out, Inr (address na))))"

definition revoke_entry ::
  "'sk signer_ops \<Rightarrow> text_ops \<Rightarrow> (key32 \<Rightarrow> bool) \<Rightarrow> 'sk \<Rightarrow> string \<Rightarrow> u64 \<Rightarrow> (cmd_error, bytes) result" where
  "revoke_entry ops tops vp ident key now =
     and_then (map_err CmdKey (pk_from_base64 tops vp key)) (\<lambda>pk.
     if pk = sk_public ops ident then Inl CmdOwnKey
     else and_then (map_err CmdGossip (sign_revocation ops ident pk now)) (\<lambda>e.
       map_err CmdGossip (entry_encode e)))"

definition member_revoke ::
  "'sk signer_ops \<Rightarrow> text_ops \<Rightarrow> (key32 \<Rightarrow> bool) \<Rightarrow> bool \<Rightarrow> (socket_v6 \<Rightarrow> bool) \<Rightarrow> config \<Rightarrow> 'sk \<Rightarrow> string \<Rightarrow> u64 \<Rightarrow>
     (bytes \<times> socket_v6) list \<times> (cmd_error, unit) result" where
  "member_revoke ops tops vp bound send cfg ident key now =
     (case revoke_entry ops tops vp ident key now of
        Inl e \<Rightarrow> ([], Inl e)
      | Inr bs \<Rightarrow> broadcast_to_peers bound send bs (peer_addrs cfg) (ns_gossip_port (cf_node cfg)))"

section \<open>invite new\<close>

text \<open>The own endpoints, from the addresses the platform lists.\<close>

definition discover_own_endpoints :: "(string, ipv6 list) result \<Rightarrow> u16 \<Rightarrow> (cmd_error, socket_v6 list) result" where
  "discover_own_endpoints listed lp =
     (case listed of
        Inl e \<Rightarrow> Inl (CmdNoAddresses e)
      | Inr addrs \<Rightarrow> if addrs = [] then Inl (CmdNoAddresses []) else Inr (map (\<lambda>a. sock a lp) addrs))"

definition invite_endpoints :: "(string, ipv6 list) result \<Rightarrow> u16 \<Rightarrow> string list \<Rightarrow> (cmd_error, socket_v6 list) result" where
  "invite_endpoints listed lp given =
     (if given = [] then discover_own_endpoints listed lp else map_err CmdArg (try_map parse_endpoint given))"

definition invite_command ::
  "'sk invite_ops \<Rightarrow> config \<Rightarrow> 'sk \<Rightarrow> (string, ipv6 list) result \<Rightarrow> string \<Rightarrow> string list \<Rightarrow> string \<Rightarrow> invite_id \<Rightarrow> u64 \<Rightarrow>
     (cmd_error, invite \<times> string) result" where
  "invite_command ops cfg ident listed ttl_text given name rid now =
     and_then (map_err CmdArg (parse_ttl ttl_text)) (\<lambda>ttl.
     and_then (invite_endpoints listed (ns_listen_port (cf_node cfg)) given) (\<lambda>eps.
     let pk = sk_public (io_signer ops) ident;
         iv = invite_new rid (cf_network_name cfg) (cf_network_key cfg) pk now (of_int ttl) (ns_listen_port (cf_node cfg))
           [\<lparr>bp_name = name, bp_public_key = pk, bp_endpoints = eps\<rparr>]
     in and_then (map_err CmdInvite (invite_encode ops ident iv)) (\<lambda>token. Inr (iv, token))))"

section \<open>Adding a peer to the configuration\<close>

text \<open>What the TOML reader makes of an appended block: one more peer, or a refusal of the whole file.\<close>

definition raw_peer_of :: "(public_key \<Rightarrow> string) \<Rightarrow> string \<Rightarrow> public_key \<Rightarrow> socket_v6 list \<Rightarrow> ipv6_route list \<Rightarrow> raw_peer" where
  "raw_peer_of b64 name pk eps routes =
     \<lparr>rp_name = name, rp_public_key = b64 pk, rp_endpoints = map show_sock_v6 eps, rp_relay = None, rp_relay_port = None,
      rp_routes = map show_route routes, rp_ddns = None, rp_keepalive = None\<rparr>"

definition toml_appends :: "cmd_env \<Rightarrow> bool" where
  "toml_appends env \<longleftrightarrow>
     (\<forall>txt raw name pk eps routes. ce_parse env txt = Some raw \<longrightarrow>
        ce_parse env (txt @ render_peer_block (ce_b64 env) name pk eps routes) \<in>
          {None, Some (raw\<lparr>rc_peers := rc_peers raw @ [raw_peer_of (ce_b64 env) name pk eps routes]\<rparr>)})"

definition key_text_ok :: "cmd_env \<Rightarrow> bool" where
  "key_text_ok env \<longleftrightarrow>
     (\<forall>k. ce_valid_point env k \<longrightarrow> pk_from_base64 (ce_text env) (ce_valid_point env) (ce_b64 env k) = Inr k)"

text \<open>No IPv4-mapped address, whose printed form differs.\<close>

definition args_plain :: "peer_add_args \<Rightarrow> bool" where
  "args_plain args \<longleftrightarrow>
     (\<forall>s\<in>set (pa_endpoints args). \<forall>e. parse_endpoint s = Inr e \<longrightarrow> \<not> is_ipv4_mapped (ip e)) \<and>
     (\<forall>s\<in>set (pa_routes args). \<forall>r. route_from_str s = Inr r \<longrightarrow> \<not> is_ipv4_mapped (prefix r))"

lemma try_map_append:
  "try_map f (xs @ ys) = Inr zs \<longleftrightarrow> (\<exists>us vs. try_map f xs = Inr us \<and> try_map f ys = Inr vs \<and> zs = us @ vs)"
  by (induction xs arbitrary: zs) (auto simp: and_then_Inr)

lemma parse_endpoint_flowinfo: "parse_endpoint s = Inr e \<Longrightarrow> flowinfo e = 0"
  by (auto simp: parse_endpoint_def parse_sock_def parse_all_def read_socket_v4_def read_socket_v6_def
      split: option.splits socket_addr.splits prod.splits list.splits)

lemma endpoints_load:
  "\<forall>e\<in>set eps. \<not> is_ipv4_mapped (ip e) \<and> flowinfo e = 0 \<Longrightarrow> try_map (load_endpoint name) (map show_sock_v6 eps) = Inr eps"
  by (induction eps) (auto simp: load_endpoint_def parse_sock_show)

lemma routes_load:
  "load_routes name acc (map show_route rs) = Inr out \<Longrightarrow> \<forall>r\<in>set rs. route_from_str (show_route r) = Inr r \<Longrightarrow> out = acc @ rs"
  by (induction rs arbitrary: acc) (fastforce split: if_splits)+

definition added_peer :: "string \<Rightarrow> public_key \<Rightarrow> socket_v6 list \<Rightarrow> ipv6_route list \<Rightarrow> node_addr \<Rightarrow> config_peer" where
  "added_peer name pk eps routes na =
     \<lparr>cp_name = name, cp_public_key = pk, cp_endpoints = eps, cp_addr = na, cp_relay = False, cp_relay_port = DEFAULT_RELAY_PORT,
      cp_routes = routes, cp_ddns = None, cp_keepalive = None\<rparr>"

lemma added_peer_loads:
  assumes "load_peer tops vp sha pfx (raw_peer_of b64 name pk eps routes) = Inr p"
    and "pk_from_base64 tops vp (b64 pk) = Inr pk" and "\<forall>e\<in>set eps. \<not> is_ipv4_mapped (ip e) \<and> flowinfo e = 0"
    and "\<forall>r\<in>set routes. route_from_str (show_route r) = Inr r" and "derive_node_addr sha pfx pk = Inr na"
  shows "p = added_peer name pk eps routes na"
  using assms(1,2,5) routes_load [OF _ assms(4), of name "[]"] endpoints_load [OF assms(3)]
  by (auto simp: load_peer_def raw_peer_of_def added_peer_def and_then_Inr load_ddns_def unwrap_or_def Let_def)

lemma config_load_Inr:
  assumes "config_load tops vp sha kdf raw own = Some (Inr cfg)"
  obtains key allow admins where "network_key_from_base64 tops (rc_network_key raw) = Inr key"
    "try_map (load_peer tops vp sha (prefix_derive kdf key)) (rc_peers raw) = Inr (cf_peers cfg)"
    "load_keys tops vp ''relay_allow'' (rn_relay_allow (rc_node raw)) = Inr allow"
    "load_keys tops vp ''admin_keys'' (rn_admin_keys (rc_node raw)) = Inr admins"
    "cfg = \<lparr>cf_network_name = rc_network_name raw, cf_network_key = key, cf_prefix = prefix_derive kdf key,
       cf_node = node_settings_of (rc_node raw) allow admins, cf_peers = cf_peers cfg\<rparr>"
  using assms by (auto simp: config_load_def load_checked_def and_then_Inr map_err_Inr split: sum.splits option.splits prod.splits)

lemma config_load_added:
  assumes "config_load tops vp sha kdf raw own = Some (Inr cfg)"
    and "config_load tops vp sha kdf (raw\<lparr>rc_peers := rc_peers raw @ [rp]\<rparr>) own = Some (Inr cfg')"
  obtains p where "load_peer tops vp sha (cf_prefix cfg) rp = Inr p" "cfg' = cfg\<lparr>cf_peers := cf_peers cfg @ [p]\<rparr>"
proof -
  obtain key allow admins where c: "network_key_from_base64 tops (rc_network_key raw) = Inr key"
    "try_map (load_peer tops vp sha (prefix_derive kdf key)) (rc_peers raw) = Inr (cf_peers cfg)"
    "load_keys tops vp ''relay_allow'' (rn_relay_allow (rc_node raw)) = Inr allow"
    "load_keys tops vp ''admin_keys'' (rn_admin_keys (rc_node raw)) = Inr admins"
    and cfg: "cfg = \<lparr>cf_network_name = rc_network_name raw, cf_network_key = key, cf_prefix = prefix_derive kdf key,
       cf_node = node_settings_of (rc_node raw) allow admins, cf_peers = cf_peers cfg\<rparr>"
    by (rule config_load_Inr [OF assms(1)])
  have pfx: "cf_prefix cfg = prefix_derive kdf key" by (subst cfg) simp
  obtain ps where p: "try_map (load_peer tops vp sha (prefix_derive kdf key)) (rc_peers raw @ [rp]) = Inr ps" and
    cfg': "cfg' = \<lparr>cf_network_name = rc_network_name raw, cf_network_key = key, cf_prefix = prefix_derive kdf key,
       cf_node = node_settings_of (rc_node raw) allow admins, cf_peers = ps\<rparr>"
    by (rule config_load_Inr [OF assms(2)]) (use c in simp)
  from p c(2) obtain q where q: "load_peer tops vp sha (prefix_derive kdf key) rp = Inr q" "ps = cf_peers cfg @ [q]"
    by (auto simp: try_map_append and_then_Inr)
  have "cfg' = cfg\<lparr>cf_peers := cf_peers cfg @ [q]\<rparr>" unfolding cfg' q(2) by (subst (2) cfg) simp
  then show ?thesis using that q(1) pfx by simp
qed

text \<open>What the checks let through.\<close>

lemma peer_add_checks_Inr:
  assumes "peer_add_checks env cfg own args = Inr (pk, eps, routes, na)" and "args_plain args" and "key_text_ok env"
  shows "pk_from_base64 (ce_text env) (ce_valid_point env) (pa_public_key args) = Inr pk"
    "try_map parse_endpoint (pa_endpoints args) = Inr eps"
    "list_all2 (\<lambda>s r. route_from_str s = Inr r) (pa_routes args) routes"
    "pk \<noteq> own" "\<forall>p\<in>set (cf_peers cfg). cp_public_key p \<noteq> pk \<and> cp_name p \<noteq> pa_name args"
    "derive_node_addr (ce_sha env) (cf_prefix cfg) pk = Inr na"
    "pk_from_base64 (ce_text env) (ce_valid_point env) (ce_b64 env pk) = Inr pk"
    "\<forall>e\<in>set eps. \<not> is_ipv4_mapped (ip e) \<and> flowinfo e = 0"
    "\<forall>r\<in>set routes. route_from_str (show_route r) = Inr r"
proof -
  show pk: "pk_from_base64 (ce_text env) (ce_valid_point env) (pa_public_key args) = Inr pk"
    and eps: "try_map parse_endpoint (pa_endpoints args) = Inr eps"
    and rs: "list_all2 (\<lambda>s r. route_from_str s = Inr r) (pa_routes args) routes"
    and "pk \<noteq> own" "\<forall>p\<in>set (cf_peers cfg). cp_public_key p \<noteq> pk \<and> cp_name p \<noteq> pa_name args"
    "derive_node_addr (ce_sha env) (cf_prefix cfg) pk = Inr na"
    using assms(1)
    by (auto simp: peer_add_checks_def new_node_addr_def and_then_Inr map_err_Inr try_map_Inr list_ex_iff find_None_iff
        split: if_splits option.splits)
  have "ce_valid_point env pk" using pk by (auto simp: pk_from_base64_def pk_from_bytes_def split: option.splits if_splits)
  then show "pk_from_base64 (ce_text env) (ce_valid_point env) (ce_b64 env pk) = Inr pk" using assms(3) by (simp add: key_text_ok_def)
  show "\<forall>e\<in>set eps. \<not> is_ipv4_mapped (ip e) \<and> flowinfo e = 0"
    using eps assms(2) parse_endpoint_flowinfo
    by (fastforce simp: try_map_Inr args_plain_def list_all2_conv_all_nth in_set_conv_nth)
  show "\<forall>r\<in>set routes. route_from_str (show_route r) = Inr r"
    using rs assms(2) route_from_str_ok route_reads_back
    by (fastforce simp: args_plain_def list_all2_conv_all_nth in_set_conv_nth)
qed

lemma identity_loads: "hkdf_fills kdf \<Longrightarrow> load_config_and_identity ops vp sha kdf ed_public to_path files file config_path \<noteq> None"
  by (auto simp: load_config_and_identity_def Let_def config_load_total [simplified] split: sum.splits option.splits)
    (use config_load_total in blast)+

lemma config_file_Inr: "config_file env fs path = Inr raw \<longleftrightarrow> (\<exists>old. fs path = Some old \<and> ce_parse env old = Some raw)"
  by (auto simp: config_file_def split: option.splits)

lemma config_load_file_total: "hkdf_fills (ce_kdf env) \<Longrightarrow> \<exists>r. config_load_file env fs path own = Some r"
  using config_load_total by (cases "config_file env fs path") (auto simp: config_load_file_def)

text \<open>Loading the file after the block was appended.\<close>

lemma appended_loads:
  assumes cfg: "config_load_file env fs path (Some own) = Some (Inr cfg)" and old: "fs path = Some old"
    and lib: "toml_appends env" "key_text_ok env" and args: "args_plain args"
    and ck: "peer_add_checks env cfg own args = Inr (pk, eps, routes, na)"
    and new: "config_load_file env (fs(path \<mapsto> old @ render_peer_block (ce_b64 env) (pa_name args) pk eps routes)) path (Some own) = Some (Inr cfg')"
  shows "cfg' = cfg\<lparr>cf_peers := cf_peers cfg @ [added_peer (pa_name args) pk eps routes na]\<rparr>"
proof -
  let ?rp = "raw_peer_of (ce_b64 env) (pa_name args) pk eps routes"
  note ck = peer_add_checks_Inr [OF ck args lib(2)]
  obtain raw where raw: "ce_parse env old = Some raw"
    and c: "config_load (ce_text env) (ce_valid_point env) (ce_sha env) (ce_kdf env) raw (Some own) = Some (Inr cfg)"
    using cfg old by (auto simp: config_load_file_def config_file_def split: option.splits)
  have "ce_parse env (old @ render_peer_block (ce_b64 env) (pa_name args) pk eps routes) \<in> {None, Some (raw\<lparr>rc_peers := rc_peers raw @ [?rp]\<rparr>)}"
    using lib(1) raw by (simp add: toml_appends_def)
  then have "config_load (ce_text env) (ce_valid_point env) (ce_sha env) (ce_kdf env) (raw\<lparr>rc_peers := rc_peers raw @ [?rp]\<rparr>) (Some own) = Some (Inr cfg')"
    using new by (auto simp: config_load_file_def config_file_def)
  from config_load_added [OF c this] obtain p where
    p: "load_peer (ce_text env) (ce_valid_point env) (ce_sha env) (cf_prefix cfg) ?rp = Inr p" "cfg' = cfg\<lparr>cf_peers := cf_peers cfg @ [p]\<rparr>" .
  then show ?thesis using added_peer_loads [OF p(1) ck(7,8,9,6)] by simp
qed

text \<open>The command once the configuration is loaded and the arguments are accepted.\<close>

lemma peer_add_accepted:
  assumes "load_config_and_identity (ce_text env) (ce_valid_point env) (ce_sha env) (ce_kdf env) (ce_ed_public env) (ce_to_path env)
      fs (config_file env fs path) path = Some (Inr (cfg, seed))"
    and "peer_add_checks env cfg (ce_ed_public env seed) args = Inr (pk, eps, routes, na)" and "fs path = Some old"
    and "\<And>n. pi_append io \<noteq> IoWriteFails n" and "pi_restore io = IoOk"
    and "new = fs(path \<mapsto> old @ render_peer_block (ce_b64 env) (pa_name args) pk eps routes)"
    and "config_load_file env new path (Some (ce_ed_public env seed)) = Some r"
  shows "(\<exists>e. peer_add env io path args fs = Some (Inl e, fs)) \<or>
    (\<exists>cfg'. r = Inr cfg' \<and> peer_add env io path args fs = Some (Inr (address na), new))"
proof (cases "pi_read io \<and> pi_append io = IoOk")
  case True
  have "new(path \<mapsto> old) = fs" using assms(3,6) by auto
  then show ?thesis using assms True by (cases r) (simp_all add: peer_add_def Let_def)
next
  case False
  then have "\<not> pi_read io \<or> pi_append io = IoOpenFails" using assms(4) by (cases "pi_append io") auto
  then show ?thesis using assms(1-3) by (auto simp: peer_add_def Let_def)
qed


text \<open>A reader of one file and one block, for a network of one key.\<close>

definition ex_new_key :: public_key where "ex_new_key = from_be_bytes (replicate 32 78)"

definition ex_env_raw :: raw_config where
  "ex_env_raw = ex_raw\<lparr>rc_node := ex_node\<lparr>rn_admin_keys := []\<rparr>, rc_peers := []\<rparr>"

definition ex_block :: string where
  "ex_block = render_peer_block (\<lambda>_. ''N'') ''new'' ex_new_key [] []"

definition ex_env :: cmd_env where
  "ex_env = \<lparr>ce_text = ex_ops, ce_valid_point = (\<lambda>k. k = ex_new_key), ce_sha = ex_sha, ce_kdf = (\<lambda>_ _ _ n. replicate n 1),
     ce_ed_public = (\<lambda>_. from_be_bytes (replicate 32 9)), ce_to_path = (\<lambda>s. \<lparr>fp_absolute = False, fp_components = [s]\<rparr>),
     ce_parse = (\<lambda>t. if t = ''x'' then Some ex_env_raw
       else if t = ''x'' @ ex_block then Some (ex_env_raw\<lparr>rc_peers := [raw_peer_of (\<lambda>_. ''N'') ''new'' ex_new_key [] []]\<rparr>) else None),
     ce_b64 = (\<lambda>_. ''N'')\<rparr>"

definition ex_path :: file_path where "ex_path = \<lparr>fp_absolute = True, fp_components = [''etc'', ''home.toml'']\<rparr>"

definition ex_disk :: file_system where
  "ex_disk p = (if p = ex_path then Some ''x'' else ex_files p)"

lemma block_nonempty: "render_peer_block b64 name pk eps routes \<noteq> []"
  by (simp add: render_peer_block_def newline_def)

lemma ex_block_inj:
  assumes "render_peer_block (\<lambda>_. ''N'') name pk eps routes = ex_block"
  shows "raw_peer_of (\<lambda>_. ''N'') name pk eps routes = raw_peer_of (\<lambda>_. ''N'') ''new'' ex_new_key [] []"
proof -
  let ?n = "length (newline @ ''[[peers]]'' @ newline @ ''name = '') + 1"
  have r: "read_basic (drop ?n (render_peer_block (\<lambda>_. ''N'') name pk eps routes)) =
     Some (name, newline @ ''public_key = '' @ quoted ''N'' @ newline @
       render_list ''endpoints'' (map show_sock_v6 eps) @ render_list ''routes'' (map show_route routes))" for name pk eps routes
    by (rule peer_block_reads_back)
  have "name = ''new''" "render_list ''endpoints'' (map show_sock_v6 eps) @ render_list ''routes'' (map show_route routes) = []"
    using r [of name pk eps routes] r [of "''new''" ex_new_key "[]" "[]"] assms
    by (simp_all add: ex_block_def render_list_def)
  then show ?thesis by (simp add: raw_peer_of_def render_list_def split: if_splits)
qed

lemma ex_env_laws: "toml_appends ex_env" "key_text_ok ex_env" "hkdf_fills (ce_kdf ex_env)"
proof -
  show "toml_appends ex_env"
    using ex_block_inj by (auto simp: toml_appends_def ex_env_def block_nonempty ex_env_raw_def)
  have "pk_from_base64 ex_ops (\<lambda>k. k = ex_new_key) ''N'' = Inr ex_new_key" by code_simp
  then show "key_text_ok ex_env" by (simp add: key_text_ok_def ex_env_def)
  show "hkdf_fills (ce_kdf ex_env)" by (simp add: hkdf_fills_def ex_env_def)
qed

definition ex_args :: peer_add_args where
  "ex_args = \<lparr>pa_name = ''new'', pa_public_key = ''N'', pa_endpoints = [], pa_routes = []\<rparr>"

definition ex_io :: peer_add_io where
  "ex_io = \<lparr>pi_read = True, pi_append = IoOk, pi_restore = IoOk\<rparr>"

definition ex_cfg :: "config_peer list \<Rightarrow> config" where
  "ex_cfg ps = \<lparr>cf_network_name = ''net'', cf_network_key = from_be_bytes (replicate 32 75), cf_prefix = ex_prefix,
     cf_node = node_settings_of (ex_node\<lparr>rn_admin_keys := []\<rparr>) [] [], cf_peers = ps\<rparr>"

lemma ex_cfg_loads:
  assumes "load_own ex_sha ex_prefix own = Inr o'" and "try_map (load_peer ex_ops vp ex_sha ex_prefix) rps = Inr ps"
    and "check_duplicates ps = Inr ()" and "check_subnet_collisions (named_addrs ps o') = Inr ()" and "ps = [] \<or> (\<exists>p. ps = [p] \<and> cp_routes p = [])"
  shows "config_load ex_ops vp ex_sha (\<lambda>_ _ _ n. replicate n 1) (ex_env_raw\<lparr>rc_peers := rps\<rparr>) own = Some (Inr (ex_cfg ps))"
proof -
  have p: "prefix_derive (\<lambda>_ _ _ n. replicate n 1) k = ex_prefix" for k
    by (simp add: prefix_derive_def ex_prefix_def eval_nat_numeral)
  obtain rs where r: "reserved_routes ex_prefix o' = Some rs"
    using reserved_routes_ok [of ex_prefix ex_sha own o'] assms(1) by (auto simp: prefix_ok_def ex_prefix_def)
  have c: "check_conflicts rs ps = Inr ()" "check_overlaps ps = Inr ()"
    using assms(5) by (auto simp: check_conflicts_def check_overlaps_def try_all_Inr)
  have n: "check_node (ex_node\<lparr>rn_admin_keys := []\<rparr>) = Inr ()" by code_simp
  have rn: "rn_relay_allow ex_node = []" by (simp add: ex_node_def)
  show ?thesis
    using assms(1-4) r c n ex_keys(3)
    by (simp add: config_load_def ex_env_raw_def ex_raw_def p load_checked_def load_keys_def ex_cfg_def rn)
qed

abbreviation "ex_new_peer \<equiv> added_peer ''new'' ex_new_key [] [] (ex_addr 78)"

lemma ex_env_load:
  assumes "own \<in> {None, Some (from_be_bytes (replicate 32 9))}"
  shows "config_load ex_ops (\<lambda>k. k = ex_new_key) ex_sha (\<lambda>_ _ _ n. replicate n 1) ex_env_raw own = Some (Inr (ex_cfg []))"
proof -
  have "load_own ex_sha ex_prefix own = Inr (if own = None then None else Some (ex_addr 9))"
    using assms by (auto simp: load_own_def ex_addrs)
  from ex_cfg_loads [OF this, of _ "[]" "[]"] show ?thesis
    by (simp add: check_duplicates_def check_subnet_collisions_iff named_addrs_def ex_env_raw_def split: if_splits)
qed

lemma ex_added_load:
  "config_load ex_ops (\<lambda>k. k = ex_new_key) ex_sha (\<lambda>_ _ _ n. replicate n 1)
     (ex_env_raw\<lparr>rc_peers := [raw_peer_of (\<lambda>_. ''N'') ''new'' ex_new_key [] []]\<rparr>) (Some (from_be_bytes (replicate 32 9))) = Some (Inr (ex_cfg [ex_new_peer]))"
proof -
  have k: "pk_from_base64 ex_ops (\<lambda>k. k = ex_new_key) ''N'' = Inr ex_new_key" by code_simp
  have a: "derive_node_addr ex_sha ex_prefix ex_new_key = Inr (ex_addr 78)" by (simp add: ex_addrs ex_new_key_def)
  have l: "load_peer ex_ops (\<lambda>k. k = ex_new_key) ex_sha ex_prefix (raw_peer_of (\<lambda>_. ''N'') ''new'' ex_new_key [] []) = Inr ex_new_peer"
    by (simp add: load_peer_def raw_peer_of_def k a load_ddns_def unwrap_or_def added_peer_def)
  have o: "load_own ex_sha ex_prefix (Some (from_be_bytes (replicate 32 9))) = Inr (Some (ex_addr 9))" by (simp add: load_own_def ex_addrs)
  have c: "check_subnet_collisions (named_addrs [ex_new_peer] (Some (ex_addr 9))) = Inr ()" by code_simp
  show ?thesis
    by (rule ex_cfg_loads [OF o _ _ c]) (simp_all add: l check_duplicates_def, simp add: added_peer_def)
qed

lemma ex_cfg_peers [simp]: "cf_peers (ex_cfg ps) = ps"
  by (simp add: ex_cfg_def)

lemma ex_loaded:
  "load_config_and_identity (ce_text ex_env) (ce_valid_point ex_env) (ce_sha ex_env) (ce_kdf ex_env) (ce_ed_public ex_env)
      (ce_to_path ex_env) ex_disk (config_file ex_env ex_disk ex_path) ex_path = Some (Inr (ex_cfg [], from_be_bytes (replicate 32 107)))"
proof -
  have i: "identity_load ex_ops (Some ''key'') = Inr (from_be_bytes (replicate 32 107))" by code_simp
  show ?thesis
    by (simp add: load_config_and_identity_def ex_env_def config_file_def ex_disk_def ex_env_load ex_cfg_def node_settings_of_def ex_node_def
        resolve_key_file_def path_join_def config_dir_def path_parent_def ex_path_def ex_files_def i)
qed

lemma ex_checked:
  "peer_add_checks ex_env (ex_cfg []) (ce_ed_public ex_env (from_be_bytes (replicate 32 107))) ex_args = Inr (ex_new_key, [], [], ex_addr 78)"
proof -
  have k: "pk_from_base64 ex_ops (\<lambda>k. k = ex_new_key) ''N'' = Inr ex_new_key" by code_simp
  have "check_subnet_collisions [(''<self>'', ex_addr 9), (''new'', ex_addr 78)] = Inr ()" by code_simp
  then have n: "new_node_addr ex_sha (ex_cfg []) (from_be_bytes (replicate 32 9)) ''new'' ex_new_key = Inr (ex_addr 78)"
    by (simp add: new_node_addr_def ex_cfg_def ex_addrs) (simp add: ex_new_key_def ex_addrs)
  have "ex_new_key \<noteq> from_be_bytes (replicate 32 9)" by code_simp
  then show ?thesis by (simp add: peer_add_checks_def ex_env_def ex_args_def k n)
qed

lemma ex_accessors:
  "ex_disk ex_path = Some ''x''" "pa_name ex_args = ''new''" "ce_b64 ex_env = (\<lambda>_. ''N'')" "pi_read ex_io" "pi_append ex_io = IoOk"
  "ce_ed_public ex_env k = from_be_bytes (replicate 32 9)"
  by (simp_all add: ex_disk_def ex_args_def ex_env_def ex_io_def)

lemma ex_appended_load:
  "config_load_file ex_env (ex_disk(ex_path \<mapsto> CHR ''x'' # ex_block)) ex_path (Some (from_be_bytes (replicate 32 9))) = Some (Inr (ex_cfg [ex_new_peer]))"
  using ex_added_load by (simp add: config_load_file_def config_file_def) (simp add: ex_env_def block_nonempty ex_block_def)

lemma ex_peer_add:
  "\<exists>fs'. peer_add ex_env ex_io ex_path ex_args ex_disk = Some (Inr (address (ex_addr 78)), fs')"
  using ex_appended_load ex_checked
  by (simp add: peer_add_def ex_loaded ex_accessors ex_block_def [symmetric] Let_def)


text \<open>A write that fails half way leaves a part of the block in the file, and no restoration is tried.\<close>

lemma peer_add_half_written:
  "peer_add ex_env (ex_io\<lparr>pi_append := IoWriteFails 3\<rparr>) ex_path ex_args ex_disk =
     Some (Inl CmdAppend, ex_disk(ex_path \<mapsto> ''x'' @ take 3 ex_block))"
  using ex_checked by (simp add: peer_add_def ex_loaded ex_accessors ex_block_def [symmetric] Let_def)

section \<open>Admitting and revoking members\<close>

lemma send_each_sent:
  "send_each send bs gp as = (out, Inr u) \<Longrightarrow> out = map (\<lambda>a. (bs, sock a gp)) as"
  by (induction as arbitrary: out) (auto split: if_splits prod.splits)

lemma new_node_addr_Inr:
  assumes "new_node_addr sha cfg own name pk = Inr na"
  shows "derive_node_addr sha (cf_prefix cfg) pk = Inr na" "\<forall>p\<in>set (cf_peers cfg). subnet_id (cp_addr p) \<noteq> subnet_id na"
  using assms by (force simp: new_node_addr_def and_then_Inr map_err_Inr check_subnet_collisions_iff)+

text \<open>A newer entry of a node is taken over as long as the table has room.\<close>

lemma newer_applied:
  assumes "entry_is_valid verify e" and "\<And>old. hm_get s (entry_key e) = Some old \<Longrightarrow> entry_seq old < entry_seq e"
    and "length s < MAX_STORE_ENTRIES"
  shows "store_merge verify s e = (hm_insert (entry_key e) e s, Applied)"
proof -
  have "lww_compare e old = Greater" if "hm_get s (entry_key e) = Some old" for old
  proof -
    have c: "cmp (entry_seq e) (entry_seq old) = Greater" using assms(2) [OF that] by simp
    show ?thesis unfolding lww_compare_def c by simp
  qed
  then show ?thesis using assms by (auto simp: store_merge_def split: option.splits)
qed

text \<open>The datagram of a signed entry, received whole.\<close>

lemma entry_received:
  assumes "entry_ok (g_verify env) (g_valid_point env) e" and "entry_encode e = Inr bs" and "is_within_prefix (ip src) (gc_prefix gcfg)"
    and "gc_admin_keys gcfg = [] \<or> entry_signer e \<in> set (gc_admin_keys gcfg)" and "entry_kind e \<noteq> KEndpoint"
    and "\<And>old. hm_get (gn_store n) (entry_key e) = Some old \<Longrightarrow> entry_seq old < entry_seq e"
    and "length (gn_store n) < MAX_STORE_ENTRIES"
    and "gossip_step env ops gcfg n (GossipRecv (V6 src) bs listed t) = (n', out, ev)"
  shows "ev = (case e of
      Member _ name _ _ _ _ _ \<Rightarrow>
        if is_revoked (gn_store n) (entry_node e) then None
        else (case derive_node_addr (g_sha env) (gc_prefix gcfg) (entry_node e) of Inl _ \<Rightarrow> None | Inr a \<Rightarrow> Some (MemberAdmitted (entry_node e) name (address a)))
    | Revocation _ _ _ _ \<Rightarrow> Some (Revoked (entry_node e))
    | Endpoint _ _ _ _ _ \<Rightarrow> None)"
proof -
  have len: "take GOSSIP_BUF_LEN bs = bs"
    using assms(2,5) by (cases e) (auto simp: entry_encode_def signed_region_def and_then_Inr GOSSIP_BUF_LEN_def GOSSIP_MAX_NAME_def split: if_splits)
  have dec: "entry_decode (g_verify env) (g_valid_point env) bs = Inr e" by (rule entry_decode_encode [OF assms(1,2)])
  have m: "store_merge (g_verify env) (gn_store n) e = (hm_insert (entry_key e) e (gn_store n), Applied)"
    by (rule newer_applied) (use assms(1,6,7) in \<open>simp_all add: entry_ok_def\<close>)
  have adm: "\<not> admin_refuses (gc_admin_keys gcfg) e" using assms(4) by (auto simp: admin_refuses_def)
  have rev: "is_revoked (hm_insert (entry_key e) e (gn_store n)) k = is_revoked (gn_store n) k" if "entry_kind e = KMember" for k
    using that by (auto simp: is_revoked_def entry_key_def hm)
  let ?h = "gossip_handle_datagram env bs (ip src) (gc_prefix gcfg) (g_b64 env (sk_public ops (gc_own_identity gcfg))) (gc_admin_keys gcfg) (gn_store n)"
  have "ev = snd ?h" using assms(8) len by (auto split: prod.splits option.splits)
  then show ?thesis
    using assms(3,5) dec adm m rev
    by (cases e) (auto simp: gossip_handle_datagram_def on_member_def on_revocation_def)
qed

lemma sign_member_Inr:
  assumes "sign_member ops sk pk name st sq rid = Inr e"
  shows "\<exists>sg. e = Member pk name st sq sg (sk_public ops sk) rid"
  using assms by (auto simp: sign_member_def sign_entry_def and_then_Inr split: if_splits)

lemma sign_revocation_Inr: "sign_revocation ops sk pk sq = Inr e \<Longrightarrow> \<exists>sg. e = Revocation pk sq sg (sk_public ops sk)"
  by (auto simp: sign_revocation_def sign_entry_def and_then_Inr)

lemma pk_from_base64_valid: "pk_from_base64 tops vp s = Inr pk \<Longrightarrow> vp pk"
  by (auto simp: pk_from_base64_def pk_from_bytes_def split: option.splits if_splits)

lemma member_entry_Inr:
  assumes "member_entry ops tops vp sha cfg ident name key rid now = Inr (na, bs)" and "signatures_verify verify vp ops" and "utf8_ok (ascii name)"
  shows "\<exists>pk sg. pk_from_base64 tops vp key = Inr pk \<and> new_node_addr sha cfg (sk_public ops ident) name pk = Inr na \<and>
    entry_ok verify vp (Member pk name (subnet_id na) now sg (sk_public ops ident) rid) \<and>
    entry_encode (Member pk name (subnet_id na) now sg (sk_public ops ident) rid) = Inr bs"
proof -
  obtain pk e where pk: "pk_from_base64 tops vp key = Inr pk" "pk \<noteq> sk_public ops ident"
    and na: "new_node_addr sha cfg (sk_public ops ident) name pk = Inr na"
    and e: "sign_member ops ident pk name (subnet_id na) now rid = Inr e" and bs: "entry_encode e = Inr bs"
    using assms(1) by (auto simp: member_entry_def and_then_Inr map_err_Inr split: if_splits option.splits)
  have "entry_ok verify vp e"
    using e pk(2) pk_from_base64_valid [OF pk(1)] assms(3)
    by (intro sign_entry_ok [OF _ assms(2)]) (auto simp: sign_member_def signer_ok_def split: if_splits)
  then show ?thesis using pk(1) na bs sign_member_Inr [OF e] by blast
qed

lemma revoke_entry_Inr:
  assumes "revoke_entry ops tops vp ident key now = Inr bs" and "signatures_verify verify vp ops"
  shows "\<exists>pk sg. pk_from_base64 tops vp key = Inr pk \<and> entry_ok verify vp (Revocation pk now sg (sk_public ops ident)) \<and>
    entry_encode (Revocation pk now sg (sk_public ops ident)) = Inr bs"
proof -
  obtain pk e where pk: "pk_from_base64 tops vp key = Inr pk" "pk \<noteq> sk_public ops ident"
    and e: "sign_revocation ops ident pk now = Inr e" and bs: "entry_encode e = Inr bs"
    using assms(1) by (auto simp: revoke_entry_def and_then_Inr map_err_Inr split: if_splits)
  have "entry_ok verify vp e"
    using e pk(2) pk_from_base64_valid [OF pk(1)]
    by (intro sign_entry_ok [OF _ assms(2)]) (auto simp: sign_revocation_def signer_ok_def)
  then show ?thesis using pk(1) bs sign_revocation_Inr [OF e] by blast
qed

text \<open>C13: Admitting a member on one node makes it a peer of the others. When \<open>member add\<close> succeeds it has sent
  one datagram to every configured peer; a peer that receives it, accepts the signer, has neither revoked the
  node nor a newer admission of it and has room in its table reports the admission to its daemon, which adds a
  peer with the given name and the address derived from the key, points no other peer elsewhere, adds the
  peer's site and nothing else to the device, and persists the member. The address has a subnet of its own
  among the peers of the node the command ran on.\<close>

theorem member_add_admits:
  assumes lib: "signatures_verify (g_verify env) (g_valid_point env) ops" and name: "utf8_ok (ascii name)"
    and cmd: "member_add ops tops (g_valid_point env) (g_sha env) bound send cfg ident name key rid now = (sent, Inr a)"
    and recv: "(bs, dst) \<in> set sent" "is_within_prefix (ip src) (cf_prefix cfg)" "gc_prefix gcfg = cf_prefix cfg"
      "gc_admin_keys gcfg = [] \<or> sk_public ops ident \<in> set (gc_admin_keys gcfg)" "length (gn_store n) < MAX_STORE_ENTRIES"
    and pk: "pk_from_base64 tops (g_valid_point env) key = Inr pk" "\<not> is_revoked (gn_store n) pk"
      "\<And>old. hm_get (gn_store n) (pk, KMember) = Some old \<Longrightarrow> entry_seq old < now"
    and step: "gossip_step env nops gcfg n (GossipRecv (V6 src) bs listed t) = (n', out, ev)"
    and daemon: "find_peer (dm_peers d) (to_base64 sops pk) = None" "daemon_step ctx sops rb d (GossipNews (the ev) dt) = (d', fx)"
  shows "map snd sent = map (\<lambda>p. sock (address (cp_addr p)) (ns_gossip_port (cf_node cfg))) (cf_peers cfg) \<and>
    ev = Some (MemberAdmitted pk name a) \<and>
    (\<exists>na. derive_node_addr (g_sha env) (cf_prefix cfg) pk = Inr na \<and> a = address na \<and> (\<forall>p\<in>set (cf_peers cfg). subnet_id (cp_addr p) \<noteq> subnet_id na)) \<and>
    (\<exists>p. dm_peers d' = dm_peers d @ [p] \<and> pr_name p = name \<and> pr_overlay p = a \<and> pr_wg_public p = wg_public_bytes sops pk) \<and>
    (\<exists>ka. [e \<leftarrow> fx. case e of WgAddPeer _ \<Rightarrow> True | WgRemovePeer _ \<Rightarrow> True | WgSetEndpoint _ _ \<Rightarrow> True | _ \<Rightarrow> False] =
       [WgAddPeer \<lparr>ps_wg_public = wg_public_bytes sops pk, ps_endpoint = None, ps_allowed_ips = [(site_of a, 64)], ps_persistent_keepalive = ka\<rparr>]) \<and>
    members_get (dm_members d') (to_base64 sops pk) = Some \<lparr>m_name = name, m_public_key = to_base64 sops pk, m_address = a\<rparr>"
proof -
  obtain na b where m: "member_entry ops tops (g_valid_point env) (g_sha env) cfg ident name key rid now = Inr (na, b)" and a: "a = address na"
    and bc: "broadcast_to_peers bound send b (peer_addrs cfg) (ns_gossip_port (cf_node cfg)) = (sent, Inr ())"
    using cmd by (auto simp: member_add_def split: sum.splits prod.splits)
  have sent: "sent = map (\<lambda>x. (b, sock x (ns_gossip_port (cf_node cfg)))) (peer_addrs cfg)"
    using bc send_each_sent by (auto simp: broadcast_to_peers_def split: if_splits)
  then have b: "bs = b" using recv(1) by auto
  from member_entry_Inr [OF m lib name] pk(1) obtain sg where
    na: "new_node_addr (g_sha env) cfg (sk_public ops ident) name pk = Inr na" and
    e: "entry_ok (g_verify env) (g_valid_point env) (Member pk name (subnet_id na) now sg (sk_public ops ident) rid)"
       "entry_encode (Member pk name (subnet_id na) now sg (sk_public ops ident) rid) = Inr bs" unfolding b by auto
  note addr = new_node_addr_Inr [OF na]
  have ev: "ev = Some (MemberAdmitted pk name a)"
    using entry_received [OF e, where gcfg = gcfg and n = n and src = src] recv pk(2,3) step addr(1) a by (simp add: entry_key_def)
  have "on_member_admitted ctx sops pk name a dt d = (d', fx)" using daemon(2) ev by simp
  then have d: "dm_peers d' = dm_peers d @ [member_peer name (to_base64 sops pk) (wg_public_bytes sops pk) a (cx_keepalive ctx) (build_candidates empty_sources) dt]"
    "dm_members d' = fst (members_upsert (dm_members d) \<lparr>m_name = name, m_public_key = to_base64 sops pk, m_address = a\<rparr>)"
    "fx = WgAddPeer \<lparr>ps_wg_public = wg_public_bytes sops pk, ps_endpoint = None, ps_allowed_ips = [(site_of a, 64)],
       ps_persistent_keepalive = keepalive_opt (cx_keepalive ctx)\<rparr> # SaveMembers (dm_members d') # rendezvous_updates (dm_peers d')"
    using daemon(1) by (auto simp: on_member_admitted_def Let_def)
  show ?thesis
    unfolding ev using sent addr a d by (auto simp: peer_addrs_def member_peer_def members_get_upsert rendezvous_updates_def)
qed

text \<open>C30: Revoking a member on one node cuts it off on the others. When \<open>member revoke\<close> succeeds it has sent one
  datagram to every configured peer; a peer that receives it, accepts the signer and has no newer revocation
  of the node reports it revoked, and its daemon drops the peer from its table, its persisted members and the
  device.\<close>

theorem member_revoke_removes:
  assumes lib: "signatures_verify (g_verify env) (g_valid_point env) ops"
    and cmd: "member_revoke ops tops (g_valid_point env) bound send cfg ident key now = (sent, Inr ())"
    and recv: "(bs, dst) \<in> set sent" "is_within_prefix (ip src) (gc_prefix gcfg)"
      "gc_admin_keys gcfg = [] \<or> sk_public ops ident \<in> set (gc_admin_keys gcfg)" "length (gn_store n) < MAX_STORE_ENTRIES"
    and pk: "pk_from_base64 tops (g_valid_point env) key = Inr pk" "\<And>old. hm_get (gn_store n) (pk, KRevocation) = Some old \<Longrightarrow> entry_seq old < now"
    and step: "gossip_step env nops gcfg n (GossipRecv (V6 src) bs listed t) = (n', out, ev)"
    and daemon: "daemon_ok d" "daemon_step ctx sops rb d (GossipNews (the ev) dt) = (d', fx)"
  shows "map snd sent = map (\<lambda>p. sock (address (cp_addr p)) (ns_gossip_port (cf_node cfg))) (cf_peers cfg) \<and>
    ev = Some (Revoked pk) \<and> to_base64 sops pk \<notin> pr_key_b64 ` set (dm_peers d') \<and>
    members_get (dm_members d') (to_base64 sops pk) = None \<and> WgRemovePeer (wg_public_bytes sops pk) \<in> set fx"
proof -
  obtain b where m: "revoke_entry ops tops (g_valid_point env) ident key now = Inr b"
    and bc: "broadcast_to_peers bound send b (peer_addrs cfg) (ns_gossip_port (cf_node cfg)) = (sent, Inr ())"
    using cmd by (auto simp: member_revoke_def split: sum.splits)
  have sent: "sent = map (\<lambda>x. (b, sock x (ns_gossip_port (cf_node cfg)))) (peer_addrs cfg)"
    using bc send_each_sent by (auto simp: broadcast_to_peers_def split: if_splits)
  then have b: "bs = b" using recv(1) by auto
  from revoke_entry_Inr [OF m lib] pk(1) obtain sg where
    e: "entry_ok (g_verify env) (g_valid_point env) (Revocation pk now sg (sk_public ops ident))"
       "entry_encode (Revocation pk now sg (sk_public ops ident)) = Inr bs" unfolding b by auto
  have ev: "ev = Some (Revoked pk)"
    using entry_received [OF e, where gcfg = gcfg and n = n and src = src] recv pk(2) step by (simp add: entry_key_def)
  then have r: "on_revoked sops pk d = (d', fx)" using daemon(2) by simp
  then have "dm_members d' = fst (members_remove (dm_members d) (to_base64 sops pk))" "WgRemovePeer (wg_public_bytes sops pk) \<in> set fx"
    by (auto simp: on_revoked_def Let_def case_prod_unfold)
  then show ?thesis using ev sent revoked_peers [OF daemon(1), of sops pk] r by (auto simp: peer_addrs_def members_get_remove)
qed

text \<open>The commands run on the node of the example configuration; a peer with an empty table receives the datagram.\<close>

definition ex_signer :: "unit signer_ops" where
  "ex_signer = \<lparr>sk_public = (\<lambda>_. from_be_bytes (replicate 32 9)), sk_sign = (\<lambda>_ _. 0)\<rparr>"

definition ex_gossip_env :: gossip_env where
  "ex_gossip_env = \<lparr>g_verify = (\<lambda>_ _ _. True), g_valid_point = (\<lambda>_. True), g_b64 = (\<lambda>_. ''A''), g_sha = ex_sha\<rparr>"

definition ex_receiver :: "unit gossip_config" where
  "ex_receiver = \<lparr>gc_port = 4197, gc_own_address = address (ex_addr 65), gc_prefix = ex_prefix, gc_own_identity = (), gc_listen_port = 4193,
     gc_admin_keys = [], gc_targets = []\<rparr>"

lemma ex_gossip_laws: "signatures_verify (g_verify ex_gossip_env) (g_valid_point ex_gossip_env) ex_signer"
  by (simp add: signatures_verify_def ex_gossip_env_def)

lemma ex_receiver_facts:
  "is_within_prefix (ip (sock (address (ex_addr 9)) 1)) ex_prefix" "gc_prefix ex_receiver = ex_prefix" "gc_admin_keys ex_receiver = []"
  "gn_store (gossip_start ex_receiver 0) = []" "length ([] :: gossip_store) < MAX_STORE_ENTRIES" "\<not> is_revoked [] k" "hm_get ([] :: gossip_store) j = None"
proof -
  show "is_within_prefix (ip (sock (address (ex_addr 9)) 1)) ex_prefix" by code_simp
qed (simp_all add: ex_receiver_def gossip_start_def store_new_def MAX_STORE_ENTRIES_def is_revoked_def)

lemma ex_new_key_read: "pk_from_base64 ex_ops (\<lambda>_. True) ''N'' = Inr ex_new_key"
  by code_simp

lemma ex_member_add:
  "\<exists>bs. member_add ex_signer ex_ops (\<lambda>_. True) ex_sha True (\<lambda>_. True) ex_config () ''n'' ''N'' 0 5 =
     ([(bs, sock (address (ex_addr 65)) 4197), (bs, sock (address (ex_addr 66)) 4197)], Inr (address (ex_addr 78)))"
proof -
  have f: "find (\<lambda>p. cp_public_key p = ex_new_key) ex_peers = None" "ex_new_key \<noteq> from_be_bytes (replicate 32 9)" by code_simp+
  have "check_subnet_collisions (map (\<lambda>p. (cp_name p, cp_addr p)) ex_peers @ [(''<self>'', ex_addr 9), (''n'', ex_addr 78)]) = Inr ()" by code_simp
  then have n: "new_node_addr ex_sha ex_config (from_be_bytes (replicate 32 9)) ''n'' ex_new_key = Inr (ex_addr 78)"
    by (simp add: new_node_addr_def ex_config_def ex_addrs) (simp add: ex_new_key_def ex_addrs)
  have s: "\<exists>e. sign_member ex_signer () ex_new_key ''n'' (subnet_id (ex_addr 78)) 5 0 = Inr e \<and> (\<exists>bs. entry_encode e = Inr bs)"
    by (simp add: sign_member_def sign_entry_def signed_region_def entry_encode_def GOSSIP_MAX_NAME_def)
  have p: "cf_peers ex_config = ex_peers" "ns_gossip_port (cf_node ex_config) = 4197" "peer_addrs ex_config = [address (ex_addr 65), address (ex_addr 66)]"
    by (simp_all add: ex_config_def peer_addrs_def ex_peers_def ex_config_peer_def node_settings_of_def ex_node_def unwrap_or_def DEFAULT_GOSSIP_PORT_def)
  obtain e bs where e: "sign_member ex_signer () ex_new_key ''n'' (subnet_id (ex_addr 78)) 5 0 = Inr e" "entry_encode e = Inr bs" using s by blast
  have pub: "sk_public ex_signer () = from_be_bytes (replicate 32 9)" by (simp add: ex_signer_def)
  have "member_entry ex_signer ex_ops (\<lambda>_. True) ex_sha ex_config () ''n'' ''N'' 0 5 = Inr (ex_addr 78, bs)"
    by (simp add: member_entry_def ex_new_key_read pub p f n e)
  then show ?thesis by (simp add: member_add_def broadcast_to_peers_def p)
qed

theorem member_add_admits_witness:
  "\<exists>bs dst. (bs, dst) \<in> set (fst (member_add ex_signer ex_ops (\<lambda>_. True) ex_sha True (\<lambda>_. True) ex_config () ''n'' ''N'' 0 5)) \<and>
     snd (snd (gossip_step ex_gossip_env ex_signer ex_receiver (gossip_start ex_receiver 0)
       (GossipRecv (V6 (sock (address (ex_addr 9)) 1)) bs None 0))) = Some (MemberAdmitted ex_new_key ''n'' (address (ex_addr 78)))"
proof -
  obtain bs where m: "member_add ex_signer ex_ops (\<lambda>_. True) ex_sha True (\<lambda>_. True) ex_config () ''n'' ''N'' 0 5 =
     ([(bs, sock (address (ex_addr 65)) 4197), (bs, sock (address (ex_addr 66)) 4197)], Inr (address (ex_addr 78)))" using ex_member_add by blast
  obtain n' out ev where g: "gossip_step ex_gossip_env ex_signer ex_receiver (gossip_start ex_receiver 0)
      (GossipRecv (V6 (sock (address (ex_addr 9)) 1)) bs None 0) = (n', out, ev)" by (metis prod_cases3)
  obtain d' fx where d: "daemon_step ex_ctx ex_show accepting daemon_idle (GossipNews (the ev) 0) = (d', fx)" by fastforce
  have u: "utf8_ok (ascii ''n'')" by code_simp
  have c: "cf_prefix ex_config = ex_prefix" by (simp add: ex_config_def)
  have e: "g_valid_point ex_gossip_env = (\<lambda>_. True)" "g_sha ex_gossip_env = ex_sha" by (simp_all add: ex_gossip_env_def)
  have "ev = Some (MemberAdmitted ex_new_key ''n'' (address (ex_addr 78)))"
    using member_add_admits [OF ex_gossip_laws u m [folded e] _ _ _ _ _ _ _ _ g _ d, of "sock (address (ex_addr 65)) 4197" ex_new_key]
      ex_receiver_facts ex_new_key_read
    by (simp add: c e daemon_idle_def find_peer_None)
  then show ?thesis using m g by auto
qed

lemma ex_member_revoke:
  "\<exists>bs. member_revoke ex_signer ex_ops (\<lambda>_. True) True (\<lambda>_. True) ex_config () ''N'' 5 =
     ([(bs, sock (address (ex_addr 65)) 4197), (bs, sock (address (ex_addr 66)) 4197)], Inr ())"
proof -
  have f: "ex_new_key \<noteq> from_be_bytes (replicate 32 9)" by code_simp
  have p: "ns_gossip_port (cf_node ex_config) = 4197" "peer_addrs ex_config = [address (ex_addr 65), address (ex_addr 66)]"
    by (simp_all add: ex_config_def peer_addrs_def ex_peers_def ex_config_peer_def node_settings_of_def ex_node_def unwrap_or_def DEFAULT_GOSSIP_PORT_def)
  show ?thesis
    by (simp add: member_revoke_def revoke_entry_def ex_new_key_read ex_signer_def f sign_revocation_def sign_entry_def signed_region_def
        entry_encode_def broadcast_to_peers_def p)
qed

theorem member_revoke_removes_witness:
  "\<exists>bs dst. (bs, dst) \<in> set (fst (member_revoke ex_signer ex_ops (\<lambda>_. True) True (\<lambda>_. True) ex_config () ''N'' 5)) \<and>
     snd (snd (gossip_step ex_gossip_env ex_signer ex_receiver (gossip_start ex_receiver 0)
       (GossipRecv (V6 (sock (address (ex_addr 9)) 1)) bs None 0))) = Some (Revoked ex_new_key)"
proof -
  obtain bs where m: "member_revoke ex_signer ex_ops (\<lambda>_. True) True (\<lambda>_. True) ex_config () ''N'' 5 =
     ([(bs, sock (address (ex_addr 65)) 4197), (bs, sock (address (ex_addr 66)) 4197)], Inr ())" using ex_member_revoke by blast
  obtain n' out ev where g: "gossip_step ex_gossip_env ex_signer ex_receiver (gossip_start ex_receiver 0)
      (GossipRecv (V6 (sock (address (ex_addr 9)) 1)) bs None 0) = (n', out, ev)" by (metis prod_cases3)
  obtain d' fx where d: "daemon_step ex_ctx ex_show accepting (daemon_idle\<lparr>dm_peers := [ex_runtime]\<rparr>) (GossipNews (the ev) 0) = (d', fx)" by fastforce
  have e: "g_valid_point ex_gossip_env = (\<lambda>_. True)" by (simp add: ex_gossip_env_def)
  have "ev = Some (Revoked ex_new_key)"
    using member_revoke_removes [OF ex_gossip_laws m [folded e] _ _ _ _ _ _ g ex_runtime_ok d, of "sock (address (ex_addr 65)) 4197" ex_new_key]
      ex_receiver_facts ex_new_key_read
    by (simp add: e)
  then show ?thesis using m g by auto
qed

section \<open>Inviting\<close>

lemma invite_command_Inr:
  assumes "invite_command ops cfg ident listed ttl_text given name rid now = Inr (iv, token)"
  obtains ttl eps where "parse_ttl ttl_text = Inr ttl" "invite_endpoints listed (ns_listen_port (cf_node cfg)) given = Inr eps"
    "iv = invite_new rid (cf_network_name cfg) (cf_network_key cfg) (sk_public (io_signer ops) ident) now (of_int ttl) (ns_listen_port (cf_node cfg))
       [\<lparr>bp_name = name, bp_public_key = sk_public (io_signer ops) ident, bp_endpoints = eps\<rparr>]"
    "invite_encode ops ident iv = Inr token"
  using assms by (auto simp: invite_command_def and_then_Inr map_err_Inr Let_def)

lemma invite_endpoints_flowinfo: "invite_endpoints listed lp given = Inr eps \<Longrightarrow> e \<in> set eps \<Longrightarrow> flowinfo e = 0"
  using parse_endpoint_flowinfo
  by (auto simp: invite_endpoints_def discover_own_endpoints_def sock_def map_err_Inr try_map_Inr list_all2_conv_all_nth in_set_conv_nth
      split: if_splits sum.splits)

lemma ttl_expiry:
  assumes "0 < ttl" and "ttl \<le> MAX_TTL_SECS" and "uint now + MAX_TTL_SECS < 2 ^ 64"
  shows "uint (sat_add now (of_int ttl :: u64)) = uint now + ttl"
proof -
  have t: "uint (of_int ttl :: u64) = ttl" using assms(1,2) by (simp add: uint_word_of_int MAX_TTL_SECS_def)
  have "int (unat now + unat (of_int ttl :: u64)) < 2 ^ 64" using assms t by simp
  then have "unat now + unat (of_int ttl :: u64) < 2 ^ 64" by (simp only: of_nat_less_numeral_power_cancel_iff)
  then have "sat_add now (of_int ttl) = now + (of_int ttl :: u64)" by (simp add: sat_add_def)
  moreover have "uint (now + (of_int ttl :: u64)) = uint now + uint (of_int ttl :: u64)"
    using assms t by (simp add: uint_plus_if')
  ultimately show ?thesis using t by simp
qed

text \<open>A token printed by \<open>invite new\<close> does what it says: it decodes to an invitation into the network of the
  configuration, signed by this node, with this node as its bootstrap peer under the given endpoints or the
  addresses found on the machine; it is accepted until exactly the given time has passed since it was issued,
  and never after. The clock is not within a year of the end of 64-bit time, and no endpoint is IPv4-mapped.\<close>

theorem invite_command_works:
  assumes "invite_laws ops" and "invite_command ops cfg ident listed ttl_text given name rid now = Inr (iv, token)"
    and "length token \<le> MAX_TOKEN_LEN" and "\<forall>b\<in>set (iv_bootstrap iv). \<forall>e\<in>set (bp_endpoints b). \<not> is_ipv4_mapped (ip e)"
    and "uint now + MAX_TTL_SECS < 2 ^ 64"
  shows "invite_decode ops token = Inr iv \<and> iv_network_name iv = cf_network_name cfg \<and> iv_network_key iv = cf_network_key cfg \<and>
    iv_issuer iv = sk_public (io_signer ops) ident \<and>
    (\<exists>ttl eps. parse_ttl ttl_text = Inr ttl \<and> 0 < ttl \<and> ttl \<le> MAX_TTL_SECS \<and>
       (\<forall>t. check_not_expired iv t = Inr () \<longleftrightarrow> uint t \<le> uint now + ttl) \<and>
       iv_bootstrap iv = [\<lparr>bp_name = name, bp_public_key = sk_public (io_signer ops) ident, bp_endpoints = eps\<rparr>] \<and>
       (if given = [] then \<exists>as. listed = Inr as \<and> as \<noteq> [] \<and> eps = map (\<lambda>a. sock a (ns_listen_port (cf_node cfg))) as
        else try_map parse_endpoint given = Inr eps))"
proof -
  obtain ttl eps where ttl: "parse_ttl ttl_text = Inr ttl" and eps: "invite_endpoints listed (ns_listen_port (cf_node cfg)) given = Inr eps"
    and iv: "iv = invite_new rid (cf_network_name cfg) (cf_network_key cfg) (sk_public (io_signer ops) ident) now (of_int ttl) (ns_listen_port (cf_node cfg))
       [\<lparr>bp_name = name, bp_public_key = sk_public (io_signer ops) ident, bp_endpoints = eps\<rparr>]"
    and enc: "invite_encode ops ident iv = Inr token"
    by (rule invite_command_Inr [OF assms(2)])
  have b: "iv_bootstrap iv = [\<lparr>bp_name = name, bp_public_key = sk_public (io_signer ops) ident, bp_endpoints = eps\<rparr>]" by (simp add: iv invite_new_def)
  have "invite_plain ops iv"
    using assms(1,4) invite_endpoints_flowinfo [OF eps] by (simp add: invite_plain_def b invite_laws_def signatures_verify_def)
  note dec = invite_reads_back [OF assms(1) this assms(3) enc]
  note range = parse_ttl_range [OF ttl]
  have "check_not_expired iv t = Inr () \<longleftrightarrow> uint t \<le> uint now + ttl" for t
    using ttl_expiry [of ttl now] range assms(5) by (simp add: iv invite_new_valid word_le_def)
  moreover have "if given = [] then \<exists>as. listed = Inr as \<and> as \<noteq> [] \<and> eps = map (\<lambda>a. sock a (ns_listen_port (cf_node cfg))) as
      else try_map parse_endpoint given = Inr eps"
    using eps by (auto simp: invite_endpoints_def discover_own_endpoints_def map_err_Inr split: sum.splits if_splits)
  ultimately show ?thesis using dec ttl range b by (simp add: iv invite_new_def)
qed

theorem invite_command_works_witness:
  "invite_command ex_invite_ops (ex_cfg []\<lparr>cf_network_name := ''home'', cf_network_key := 5\<rparr>) () (Inr [push_bit 96 0x20010db8 + 1]) ''1d'' [] ''router'' 17 1000 =
     Inr (ex_invite, ex_token) \<and> check_not_expired ex_invite 87400 = Inr ()"
proof -
  let ?cfg = "ex_cfg []\<lparr>cf_network_name := ''home'', cf_network_key := 5\<rparr>"
  have t: "parse_ttl ''1d'' = Inr 86400" by code_simp
  have lp: "ns_listen_port (cf_node (ex_cfg [])) = 4193" by (simp add: ex_cfg_def node_settings_of_def ex_node_def unwrap_or_def DEFAULT_PORT_def)
  have c: "invite_command ex_invite_ops ?cfg () (Inr [push_bit 96 0x20010db8 + 1]) ''1d'' [] ''router'' 17 1000 = Inr (ex_invite, ex_token)"
    using ex_invite_encodes(1)
    by (simp add: invite_command_def t invite_endpoints_def discover_own_endpoints_def lp Let_def ex_invite_def ex_invite_ops_def ex_base_ops_def)
  have "\<forall>b\<in>set (iv_bootstrap ex_invite). \<forall>e\<in>set (bp_endpoints b). \<not> is_ipv4_mapped (ip e)"
    using ex_invite_encodes(3) by (simp add: invite_plain_def)
  from invite_command_works [OF ex_invite_laws c ex_invite_encodes(2) this] t c show ?thesis by (simp add: MAX_TTL_SECS_def)
qed

end
