(* ===== verification/Daemon_Main.thy ===== *)
theory Daemon_Main
  imports Device_Sync Platform Relay_Server Lan_Discovery Probe_Service Rendezvous_Tasks Config_Text
begin

text \<open>
  The life of the daemon around its handlers (\<open>crates/engine/src/daemon.rs\<close>, \<open>run_async\<close>): bringing up the
  device and the interface, which services are started with which settings, the main loop until it is told to
  stop, and the clean-up; and the status service (\<open>http.rs\<close>). What the system answers is an argument.
\<close>

section \<open>Bringing up the device\<close>

datatype start_error =
    StartConfig config_error | StartAddr addr_error | StartStateDir | StartDevice wg_error
  | StartInterface platform_error | StartOverlayRoute platform_error | StartNudge

datatype transport = PlatformTransport | FdTransport

record 'b start_env =
  sx_state_dir :: bool
  sx_apply :: "device_spec \<Rightarrow> 'b \<Rightarrow> (wg_error, string) result \<times> 'b"
  sx_apply_fd :: "device_spec \<Rightarrow> 'b \<Rightarrow> (wg_error, string) result \<times> 'b"
  sx_setup :: "string \<Rightarrow> ipv6 \<Rightarrow> u8 \<Rightarrow> u32 \<Rightarrow> (platform_error, unit) result"
  sx_macos :: bool
  sx_add_route :: "string \<Rightarrow> ipv6 \<Rightarrow> u8 \<Rightarrow> (platform_error, unit) result"
  sx_nudge :: bool

text \<open>The address of the interface and, on macOS, the route of the overlay.\<close>

definition set_up_interface :: "'b start_env \<Rightarrow> config \<Rightarrow> node_addr \<Rightarrow> string \<Rightarrow> (start_error, unit) result" where
  "set_up_interface env cfg own dev =
     and_then (map_err StartInterface (sx_setup env dev (address own) PREFIX_LEN (ns_mtu (cf_node cfg)))) (\<lambda>_.
     if sx_macos env then map_err StartOverlayRoute (sx_add_route env dev (prefix_network (cf_prefix cfg)) PREFIX_LEN) else Inr ())"

definition ctx_of :: "show_ops \<Rightarrow> config \<Rightarrow> public_key \<Rightarrow> node_addr \<Rightarrow> daemon_ctx" where
  "ctx_of ops cfg pk own =
     \<lparr>cx_interface = ns_interface (cf_node cfg), cx_node_address = address own, cx_node_public_key = to_base64 ops pk,
      cx_own_public = pk, cx_listen_port = ns_listen_port (cf_node cfg), cx_keepalive = ns_keepalive (cf_node cfg)\<rparr>"

text \<open>A node whose device is up: its context, the real name of the device, and the key of its relay frames.\<close>

record running =
  ru_config :: config
  ru_seed :: key32
  ru_own :: node_addr
  ru_ctx :: daemon_ctx
  ru_device :: string
  ru_relay_key :: key32

definition bring_up ::
  "show_ops \<Rightarrow> sha256 \<Rightarrow> hkdf \<Rightarrow> (key32 \<Rightarrow> public_key) \<Rightarrow> (key32 \<Rightarrow> key32) \<Rightarrow> 'b start_env \<Rightarrow> transport \<Rightarrow>
     (config_error, config \<times> key32) result \<Rightarrow> 'b \<Rightarrow> (start_error, running) result \<times> 'b" where
  "bring_up ops sha kdf ed_public wg_secret env tr loaded b =
     (case loaded of
        Inl e \<Rightarrow> (Inl (StartConfig e), b)
      | Inr (cfg, seed) \<Rightarrow>
          (case derive_node_addr sha (cf_prefix cfg) (ed_public seed) of
             Inl e \<Rightarrow> (Inl (StartAddr e), b)
           | Inr own \<Rightarrow>
               if \<not> sx_state_dir env then (Inl StartStateDir, b)
               else (case (if tr = FdTransport then sx_apply_fd env else sx_apply env)
                        (build_device_spec (wg_public_bytes ops) cfg (wg_secret seed)) b of
                 (Inl e, b) \<Rightarrow> (Inl (StartDevice e), b)
               | (Inr dev, b) \<Rightarrow>
                   (case (if tr = FdTransport then Inr () else set_up_interface env cfg own dev) of
                      Inl e \<Rightarrow> (Inl e, b)
                    | Inr _ \<Rightarrow>
                        if \<not> sx_nudge env then (Inl StartNudge, b)
                        else (Inr \<lparr>ru_config = cfg, ru_seed = seed, ru_own = own, ru_ctx = ctx_of ops cfg (ed_public seed) own,
                                   ru_device = dev, ru_relay_key = derive_relay_key kdf (cf_network_key cfg)\<rparr>, b)))))"

text \<open>\<open>PlatformRoutes\<close>: the route manager's commands go to the device by its real name.\<close>

definition platform_routes ::
  "(string \<Rightarrow> ipv6 \<Rightarrow> u8 \<Rightarrow> ('e, unit) result) \<Rightarrow> (string \<Rightarrow> ipv6 \<Rightarrow> u8 \<Rightarrow> ('e, unit) result) \<Rightarrow> string \<Rightarrow> 'e route_backend" where
  "platform_routes add remove dev = (\<lambda>_ c.
     case (case c of AddRoute r \<Rightarrow> add dev (prefix r) (prefix_len r) | RemoveRoute r \<Rightarrow> remove dev (prefix r) (prefix_len r)) of
       Inl e \<Rightarrow> Some e | Inr _ \<Rightarrow> None)"

section \<open>The services\<close>

record service_env =
  sn_probe_bind :: bool
  sn_relay_bind :: bool
  sn_multicast :: "(platform_error, (u32 \<times> string) list) result"
  sn_url_parses :: "string \<Rightarrow> bool"
  sn_http_bind :: bool

record services =
  sv_probe :: "(u16 \<times> key32) option"
  sv_relay :: "(u16 \<times> key32 \<times> relay_policy) option"
  sv_lan :: "lan_config option"
  sv_gossip :: "key32 gossip_config option"
  sv_dht :: "(dht_config \<times> string list) option"
  sv_ddns :: "(ddns_config \<times> ddns_updater option \<times> socket_addr option \<times> ddns_peer list) option"
  sv_http :: "socket_v6 option"

definition start_probe :: "hkdf \<Rightarrow> service_env \<Rightarrow> config \<Rightarrow> (u16 \<times> key32) option" where
  "start_probe kdf sn cfg =
     (if sn_probe_bind sn then Some (ns_probe_port (cf_node cfg), derive_probe_key kdf (cf_network_key cfg)) else None)"

definition relay_policy_of :: "config \<Rightarrow> relay_policy" where
  "relay_policy_of cfg = (if ns_relay_allow (cf_node cfg) = [] then AnyMember else Allowlist (ns_relay_allow (cf_node cfg)))"

definition start_relay :: "service_env \<Rightarrow> running \<Rightarrow> (u16 \<times> key32 \<times> relay_policy) option" where
  "start_relay sn ru =
     (let cfg = ru_config ru in
      if ns_relay (cf_node cfg) \<and> sn_relay_bind sn then Some (ns_relay_port (cf_node cfg), ru_relay_key ru, relay_policy_of cfg) else None)"

definition start_lan :: "hkdf \<Rightarrow> service_env \<Rightarrow> running \<Rightarrow> lan_config option" where
  "start_lan kdf sn ru =
     (let cfg = ru_config ru in
      if \<not> ns_lan_discovery (cf_node cfg) then None
      else case sn_multicast sn of
        Inl _ \<Rightarrow> None
      | Inr interfaces \<Rightarrow>
          if interfaces = [] then None
          else Some \<lparr>lc_port = ns_lan_port (cf_node cfg), lc_group = LAN_MULTICAST_GROUP, lc_interfaces = map fst interfaces,
                     lc_own_public_key = cx_own_public (ru_ctx ru), lc_lan_key = derive_lan_key kdf (cf_network_key cfg),
                     lc_listen_port = ns_listen_port (cf_node cfg)\<rparr>)"

definition start_gossip :: "running \<Rightarrow> peer_runtime list \<Rightarrow> key32 gossip_config option" where
  "start_gossip ru ps =
     (let cfg = ru_config ru in
      if \<not> ns_gossip (cf_node cfg) then None
      else Some \<lparr>gc_port = ns_gossip_port (cf_node cfg), gc_own_address = address (ru_own ru), gc_prefix = cf_prefix cfg,
                 gc_own_identity = ru_seed ru, gc_listen_port = ns_listen_port (cf_node cfg),
                 gc_admin_keys = ns_admin_keys (cf_node cfg), gc_targets = map pr_overlay ps\<rparr>)"

definition start_dht :: "hkdf \<Rightarrow> running \<Rightarrow> peer_runtime list \<Rightarrow> (dht_config \<times> string list) option" where
  "start_dht kdf ru ps =
     (let cfg = ru_config ru in
      if \<not> ns_dht (cf_node cfg) then None
      else Some (\<lparr>dc_key = derive_dht_key kdf (cf_network_key cfg), dc_own_public = cx_own_public (ru_ctx ru),
                  dc_listen_port = ns_listen_port (cf_node cfg)\<rparr>, map pr_key_b64 ps))"

definition build_ddns_updater :: "(string \<Rightarrow> bool) \<Rightarrow> config \<Rightarrow> ddns_updater option" where
  "build_ddns_updater url_parses cfg =
     (case ns_ddns_provider (cf_node cfg) of
        Webhook \<Rightarrow>
          (case ns_ddns_webhook_url (cf_node cfg) of
             None \<Rightarrow> None
           | Some url \<Rightarrow> (case webhook_new url_parses url (ns_ddns_secret (cf_node cfg)) of
               Inl _ \<Rightarrow> None | Inr (u, t) \<Rightarrow> Some (WebhookUpdater u t)))
      | Cloudflare \<Rightarrow>
          (case (ns_ddns_secret (cf_node cfg), ns_ddns_zone (cf_node cfg)) of
             (Some token, Some zone) \<Rightarrow> (case cloudflare_new token zone of Inl _ \<Rightarrow> None | Inr cf \<Rightarrow> Some (CloudflareUpdater cf))
           | _ \<Rightarrow> None))"

definition start_ddns ::
  "hkdf \<Rightarrow> service_env \<Rightarrow> running \<Rightarrow> peer_runtime list \<Rightarrow> (ddns_config \<times> ddns_updater option \<times> socket_addr option \<times> ddns_peer list) option" where
  "start_ddns kdf sn ru ps =
     (let cfg = ru_config ru;
          publish = ns_ddns (cf_node cfg) \<and> ns_ddns_fqdn (cf_node cfg) \<noteq> None;
          lookups = list_ex (\<lambda>p. pr_ddns p \<noteq> None) ps
      in if publish \<or> lookups
         then Some (\<lparr>dd_key = derive_ddns_key kdf (cf_network_key cfg), dd_listen_port = ns_listen_port (cf_node cfg),
                     dd_fqdn = ns_ddns_fqdn (cf_node cfg)\<rparr>,
                    if publish then build_ddns_updater (sn_url_parses sn) cfg else None, ns_ddns_resolver (cf_node cfg),
                    map (\<lambda>p. \<lparr>dp_key_b64 = pr_key_b64 p, dp_fqdn = pr_ddns p\<rparr>) ps)
         else None)"

definition start_http :: "service_env \<Rightarrow> config \<Rightarrow> socket_v6 option" where
  "start_http sn cfg =
     (case (ns_http_addr (cf_node cfg), ns_http_port (cf_node cfg)) of
        (Some a, Some p) \<Rightarrow> if sn_http_bind sn then Some (sock a p) else None
      | _ \<Rightarrow> None)"

definition start_services :: "hkdf \<Rightarrow> service_env \<Rightarrow> running \<Rightarrow> peer_runtime list \<Rightarrow> services" where
  "start_services kdf sn ru ps =
     \<lparr>sv_probe = start_probe kdf sn (ru_config ru), sv_relay = start_relay sn ru, sv_lan = start_lan kdf sn ru,
      sv_gossip = start_gossip ru ps, sv_dht = start_dht kdf ru ps, sv_ddns = start_ddns kdf sn ru ps,
      sv_http = start_http sn (ru_config ru)\<rparr>"

section \<open>The status service\<close>

datatype http_answer = Alive | Report status_report | ReportFailed | StaticFile string string | NotServed

text \<open>The two routes come before the static files of \<open>web_dir\<close>.\<close>

definition http_get ::
  "show_ops \<Rightarrow> config \<Rightarrow> string \<Rightarrow> ('e, peer_status list) result \<Rightarrow> (io_error, engine_state) result \<Rightarrow> time \<Rightarrow> string \<Rightarrow> http_answer" where
  "http_get ops cfg path statuses file now url =
     (if url = ''/healthz'' then Alive
      else if url = ''/api/status'' then
        (case build_report ops cfg path statuses file now of Inl _ \<Rightarrow> ReportFailed | Inr r \<Rightarrow> Report r)
      else case ns_web_dir (cf_node cfg) of None \<Rightarrow> NotServed | Some dir \<Rightarrow> StaticFile dir url)"

definition ALLOWED_ORIGINS :: "string list" where
  "ALLOWED_ORIGINS = [''tauri://localhost'', ''http://tauri.localhost'']"

section \<open>The main loop\<close>

datatype 'x main_event = Handle "'x daemon_event" | Shutdown

fun daemon_loop ::
  "daemon_ctx \<Rightarrow> show_ops \<Rightarrow> 'e route_backend \<Rightarrow> daemon \<Rightarrow> 'x main_event list \<Rightarrow> daemon \<times> effect list" where
  "daemon_loop ctx ops rb d [] = (d, [])"
| "daemon_loop ctx ops rb d (Handle e # es) =
     (let (d, fx) = daemon_step ctx ops rb d e; (d, gx) = daemon_loop ctx ops rb d es in (d, fx @ gx))"
| "daemon_loop ctx ops rb d (Shutdown # es) = (d, [])"

definition daemon_exit :: "'e route_backend \<Rightarrow> daemon \<Rightarrow> daemon \<times> effect list" where
  "daemon_exit rb d = (case remove_all rb (dm_routes d) of (cmds, rm, _) \<Rightarrow> (d\<lparr>dm_routes := rm\<rparr>, [RouteCmds cmds]))"

text \<open>From the start of the peers to the end, for the events up to the request to stop.\<close>

definition daemon_main ::
  "text_ops \<Rightarrow> (key32 \<Rightarrow> bool) \<Rightarrow> show_ops \<Rightarrow> running \<Rightarrow> (io_error, endpoint_cache) result \<Rightarrow> (io_error, members_file) result \<Rightarrow> time \<Rightarrow> time \<Rightarrow>
     'e route_backend \<Rightarrow> 'x main_event list \<Rightarrow> daemon \<times> effect list" where
  "daemon_main tops vp ops ru cf mf start now rb es =
     (let (d, fx) = daemon_start tops vp ops (ru_config ru) cf mf start now;
          (d, gx) = daemon_loop (ru_ctx ru) ops rb d es;
          (d, hx) = daemon_exit rb d
      in (d, fx @ gx @ hx))"

section \<open>The routes a daemon leaves behind\<close>

fun route_cmds :: "effect list \<Rightarrow> route_cmd list" where
  "route_cmds [] = []"
| "route_cmds (RouteCmds cs # fx) = cs @ route_cmds fx"
| "route_cmds (_ # fx) = route_cmds fx"

lemma route_cmds_append [simp]: "route_cmds (fx @ gx) = route_cmds fx @ route_cmds gx"
  by (induction fx rule: route_cmds.induct) auto

lemma apply_action_routes [simp]: "route_cmds (snd (apply_action now p cache a)) = []"
  by (cases a) (auto simp: Let_def)

lemma apply_actions_routes [simp]: "route_cmds (snd (apply_actions now p cache as)) = []"
  by (induction as arbitrary: cache) (auto simp: Let_def case_prod_unfold)

lemma drive_relay_routes [simp]: "route_cmds (snd (snd (drive_relay ctx p cache inst now))) = []"
  by (auto simp: drive_relay_def drive_direct_def drive_relayed_def drive_probing_def spawn_register_def spawn_unregister_def Let_def case_prod_unfold
      split: option.splits punch_state.splits)

lemma kick_peers_routes [simp]: "route_cmds (snd (snd (kick_peers now cache ps))) = []"
  by (induction ps arbitrary: cache) (auto simp: Let_def case_prod_unfold)

lemma discovered_peer_routes [simp]: "route_cmds (snd (snd (discovered_peer p src eps cache now))) = []"
  by (auto simp: discovered_peer_def upgrade_from_relay_def prune_endpoint_def leave_endpoint_def adopt_discovered_def Let_def case_prod_unfold
      split: option.splits punch_state.splits)

lemma relay_registered_routes [simp]: "route_cmds (snd (snd (relay_registered_peer p res cache inst now))) = []"
  by (auto simp: relay_registered_peer_def relay_ready_def Let_def case_prod_unfold split: option.splits punch_state.splits)

text \<open>
  As long as the backend takes every command: what the kernel holds beyond its initial routes \<open>K0\<close> is tracked, only
  announced routes (\<open>A\<close>) are tracked, and no other initial route is gone.
\<close>

definition no_stray :: "ipv6_route set \<Rightarrow> ipv6_route set \<Rightarrow> ipv6_route set \<Rightarrow> route_manager \<Rightarrow> bool" where
  "no_stray K0 A K m \<longleftrightarrow> hm_ok m \<and> K \<subseteq> K0 \<union> tracked m \<and> tracked m \<subseteq> A \<and> K0 - A \<subseteq> K"

definition announces :: "ipv6_route set \<Rightarrow> peer_runtime list \<Rightarrow> bool" where
  "announces A ps \<longleftrightarrow> (\<forall>p\<in>set ps. set (pr_routes p) \<subseteq> A)"

lemma sync_no_stray:
  assumes "no_stray K0 A K m" and "accepts_all rb" and "set desired \<subseteq> A" and "sync rb m key desired = (cmds, m', r)"
  shows "no_stray K0 A (kernel_exec K cmds) m'"
proof -
  obtain out where s: "sync rb m key desired = (cmds, m', Inr out)"
    using sync_total [of rb m key desired] assms(2,4) by (auto simp: accepts_all_def)
  obtain new where new: "cmds = map RemoveRoute (filter (\<lambda>r. r \<notin> set desired) (routes_of m key)) @ map AddRoute new"
    "routes_of m' key = filter (\<lambda>r. r \<in> set desired) (routes_of m key) @ new" using sync_Inr(3) [OF s] by blast
  have ok: "hm_ok m" "hm_ok m'" using assms(1) sync_hm_ok [OF s] by (simp_all add: no_stray_def)
  have own: "set (routes_of m' key) = set desired" using sync_Inr(1) [OF s] by auto
  have tr: "tracked m' = set desired \<union> (\<Union>k\<in>- {key}. set (routes_of m k))"
  proof -
    have "tracked m' = set (routes_of m' key) \<union> (\<Union>k\<in>- {key}. set (routes_of m' k))" using tracked_iff [OF ok(2)] by auto
    then show ?thesis using sync_keeps_others [OF s] by (simp add: own)
  qed
  have k: "kernel_exec K cmds = K - {r \<in> set (routes_of m key). r \<notin> set desired} \<union> set new"
    by (auto simp: new(1) kernel_exec_adds kernel_exec_removes)
  have "tracked m = set (routes_of m key) \<union> (\<Union>k\<in>- {key}. set (routes_of m k))"
    using tracked_iff [OF ok(1)] by auto
  moreover have "set new \<subseteq> set desired" using own new(2) by auto
  ultimately show ?thesis using assms(1,3) ok(2) by (auto simp: no_stray_def k tr)
qed

lemma sync_peer_no_stray:
  assumes "no_stray K0 A K m" and "accepts_all rb" and "set (pr_routes p) \<subseteq> A"
  shows "no_stray K0 A (kernel_exec K (fst (sync_peer_routes rb m p))) (snd (sync_peer_routes rb m p))"
proof -
  define ds where "ds = (case state (pr_fsm p) of Connected _ \<Rightarrow> pr_routes p | Probing _ _ \<Rightarrow> [])"
  have "set ds \<subseteq> A" using assms(3) by (auto simp: ds_def split: punch_state.splits)
  then show ?thesis using sync_no_stray [OF assms(1,2)]
    by (auto simp: sync_peer_routes_def ds_def [symmetric] split: prod.splits)
qed

lemma tick_peer_no_stray:
  assumes "no_stray K0 A K (snd cr)" and "accepts_all rb" and "set (pr_routes p) \<subseteq> A"
    and "tick_peer ctx rb now inst o' cr p = (p', cr', fx, st, c)"
  shows "no_stray K0 A (kernel_exec K (route_cmds fx)) (snd cr')"
proof -
  let ?p1 = "p\<lparr>pr_fsm := fst (tick (pr_fsm p) now (observe o'))\<rparr>"
  have "keeps ?p1 (fst (drive_relay ctx ?p1 c inst now))" for c by (rule drive_relay_keeps)
  then have "set (pr_routes (fst (drive_relay ctx ?p1 c inst now))) \<subseteq> A" for c
    using assms(3) by (simp add: keeps_def identity_def)
  then show ?thesis using assms(4) sync_peer_no_stray [OF assms(1,2)] by (auto simp: tick_peer_def Let_def case_prod_unfold)
qed

lemma tick_peers_no_stray:
  assumes "accepts_all rb" and "announces A ps" and "no_stray K0 A K (snd cr)"
    and "tick_peers ctx rb now inst by_key cr ps = (ps', cr', fx, sts, c)"
  shows "no_stray K0 A (kernel_exec K (route_cmds fx)) (snd cr')"
  using assms(2-4)
proof (induction ps arbitrary: K cr ps' cr' fx sts c)
  case (Cons p ps)
  obtain p1 cr1 fx1 st1 c1 where t: "tick_peer ctx rb now inst (by_key (pr_wg_public p)) cr p = (p1, cr1, fx1, st1, c1)"
    by (metis prod_cases5)
  obtain ps2 cr2 fx2 sts2 c2 where ts: "tick_peers ctx rb now inst by_key cr1 ps = (ps2, cr2, fx2, sts2, c2)"
    by (metis prod_cases5)
  have A: "announces A ps" "set (pr_routes p) \<subseteq> A" using Cons.prems(1) by (auto simp: announces_def)
  from Cons.IH [OF A(1) tick_peer_no_stray [OF Cons.prems(2) assms(1) A(2) t] ts] Cons.prems(3) t ts show ?case by auto
qed simp

text \<open>Only a tick touches the routes of the kernel.\<close>

lemma discovered_no_routes [simp]:
  "dm_routes (fst (on_discovered u now d)) = dm_routes d" "route_cmds (snd (on_discovered u now d)) = []"
  by (auto simp: on_discovered_def case_prod_unfold split: option.splits)

lemma relay_done_no_routes [simp]:
  "dm_routes (fst (on_relay_registered m inst now d)) = dm_routes d" "route_cmds (snd (on_relay_registered m inst now d)) = []"
  by (auto simp: on_relay_registered_def case_prod_unfold split: option.splits)

lemma membership_no_routes [simp]:
  "dm_routes (fst (on_member_admitted ctx ops n nm a now d)) = dm_routes d" "route_cmds (snd (on_member_admitted ctx ops n nm a now d)) = []"
  "dm_routes (fst (on_revoked ops n d)) = dm_routes d" "route_cmds (snd (on_revoked ops n d)) = []"
  by (simp_all add: on_member_admitted_def on_revoked_def rendezvous_updates_def Let_def case_prod_unfold)

lemma daemon_step_no_stray:
  assumes "no_stray K0 A K (dm_routes d)" and rb: "accepts_all rb" and A: "announces A (dm_peers d)"
  shows "no_stray K0 A (kernel_exec K (route_cmds (snd (daemon_step ctx ops rb d e)))) (dm_routes (fst (daemon_step ctx ops rb d e)))"
proof (cases e)
  case (TickEvent statuses now inst)
  then show ?thesis using assms(1) tick_peers_no_stray [OF rb A, of K0 K "(dm_cache d, dm_routes d)"]
    by (auto simp: tick_once_def split: sum.splits prod.splits)
next
  case (GossipNews g now)
  then show ?thesis using assms by (cases g) auto
next
  case (AddrChanged now)
  then show ?thesis using assms by (simp add: case_prod_unfold Let_def)
qed (use assms in auto)

text \<open>Peers never announce more than they did at start-up.\<close>

lemma announces_keeps: "list_all2 keeps ps qs \<Longrightarrow> announces A ps \<Longrightarrow> announces A qs"
  by (induction rule: list_all2_induct) (auto simp: announces_def keeps_def identity_def)

lemma announces_update: "announces A ps \<Longrightarrow> step_keeps (ps ! i) c (p, c', fx) \<Longrightarrow> find_peer ps k = Some i \<Longrightarrow> announces A (ps[i := p])"
  by (auto simp: find_peer_def step_keeps_def dest!: position_less intro!: announces_keeps [of ps]
      simp: list_all2_conv_all_nth nth_list_update)

lemma announces_step: "announces A (dm_peers d) \<Longrightarrow> announces A (dm_peers (fst (daemon_step ctx ops rb d e)))"
proof (induction ctx ops rb d e rule: daemon_step.induct)
  case (1 ctx ops rb d statuses now inst)
  then show ?case using announces_keeps [OF conjunct1 [OF tick_peers_keeps]]
    by (auto simp: tick_once_def case_prod_unfold split: sum.splits)
next
  case (2 ctx ops rb d now)
  then show ?case using announces_keeps [OF conjunct1 [OF kick_peers_keeps]] by (simp add: case_prod_unfold Let_def)
next
  case (3 ctx ops rb d upd now)
  then show ?case using announces_update discovered_keeps
    by (auto simp: on_discovered_def split: option.splits prod.splits) metis
next
  case (4 ctx ops rb d upd now)
  then show ?case using announces_update discovered_keeps
    by (auto simp: on_discovered_def split: option.splits prod.splits) metis
next
  case (5 ctx ops rb d node name a now)
  then show ?case by (auto simp: on_member_admitted_def Let_def announces_def) (auto simp: member_peer_def)
next
  case (6 ctx ops rb d node now)
  then show ?case using set_vec_remove [of _ "dm_peers d"]
    by (fastforce simp: on_revoked_def Let_def case_prod_unfold announces_def split: option.splits)
next
  case (7 ctx ops rb d msg inst now)
  then show ?case using announces_update relay_registered_keeps
    by (auto simp: on_relay_registered_def split: option.splits prod.splits) metis
qed

lemma daemon_loop_no_stray:
  assumes "accepts_all rb" and "announces A (dm_peers d)" and "no_stray K0 A K (dm_routes d)"
  shows "no_stray K0 A (kernel_exec K (route_cmds (snd (daemon_loop ctx ops rb d es)))) (dm_routes (fst (daemon_loop ctx ops rb d es)))"
  using assms(2,3)
proof (induction es arbitrary: d K)
  case (Cons m es)
  show ?case
  proof (cases m)
    case (Handle e)
    from Cons.IH [OF announces_step [OF Cons.prems(1)] daemon_step_no_stray [OF Cons.prems(2) assms(1) Cons.prems(1)]]
    show ?thesis by (simp add: Handle case_prod_unfold Let_def)
  qed (use Cons.prems in simp)
qed simp

lemma remove_routes_total: "accepts_all rb \<Longrightarrow> remove_routes rb cmds rs = (cmds @ map RemoveRoute rs, Inr ())"
  by (induction rs arbitrary: cmds) (auto simp: accepts_all_def)

lemma daemon_exit_kernel:
  assumes "accepts_all rb" and "no_stray K0 A K (dm_routes d)"
  shows "kernel_exec K (route_cmds (snd (daemon_exit rb d))) \<subseteq> K0" "K0 - A \<subseteq> kernel_exec K (route_cmds (snd (daemon_exit rb d)))"
proof -
  have "kernel_exec K (route_cmds (snd (daemon_exit rb d))) = K - tracked (dm_routes d)"
    using assms(1) by (auto simp: daemon_exit_def remove_all_def remove_routes_total kernel_exec_removes tracked_def)
  then show "kernel_exec K (route_cmds (snd (daemon_exit rb d))) \<subseteq> K0" "K0 - A \<subseteq> kernel_exec K (route_cmds (snd (daemon_exit rb d)))"
    using assms(2) by (auto simp: no_stray_def)
qed

lemma startup_announces:
  "announces (\<Union>p\<in>set (cf_peers cfg). set (cp_routes p)) (startup_peers tops vp ops cfg cache mf start)"
  by (auto simp: announces_def startup_peers_def Let_def in_map_filter dest!: member_runtime_Some)

lemma start_announces:
  "announces (\<Union>p\<in>set (cf_peers cfg). set (cp_routes p)) (dm_peers (fst (daemon_start tops vp ops cfg cf mf start now)))"
  using announces_keeps [OF conjunct1 [OF kick_peers_keeps] startup_announces]
  by (simp add: daemon_start_def Let_def case_prod_unfold)

lemma start_no_routes:
  "dm_routes (fst (daemon_start tops vp ops cfg cf mf start now)) = []" "route_cmds (snd (daemon_start tops vp ops cfg cf mf start now)) = []"
  by (simp_all add: daemon_start_def Let_def case_prod_unfold)

text \<open>
  C32: When the daemon stops, whatever happened before, the kernel's routing table is what it was before the daemon
  started: every route it installed for a peer is withdrawn, those of peers revoked in the meantime included, and no
  route it did not install is touched (the announced routes were not there before, and the system takes every command).
\<close>

theorem shutdown_leaves_no_routes:
  assumes "accepts_all rb" and "\<forall>p\<in>set (cf_peers (ru_config ru)). set (cp_routes p) \<inter> K = {}"
    and "daemon_main tops vp ops ru cf mf start now rb es = (d, fx)"
  shows "kernel_exec K (route_cmds fx) = K \<and> dm_routes d = []"
proof -
  let ?A = "\<Union>p\<in>set (cf_peers (ru_config ru)). set (cp_routes p)"
  let ?d = "daemon_start tops vp ops (ru_config ru) cf mf start now"
  let ?l = "daemon_loop (ru_ctx ru) ops rb (fst ?d) es"
  have "no_stray K ?A K (dm_routes (fst ?d))" by (simp add: no_stray_def start_no_routes tracked_def)
  from daemon_exit_kernel [OF assms(1) daemon_loop_no_stray [OF assms(1) start_announces this]]
  have "kernel_exec (kernel_exec K (route_cmds (snd ?l))) (route_cmds (snd (daemon_exit rb (fst ?l)))) = K"
    using assms(2) by blast
  moreover have "fx = snd ?d @ snd ?l @ snd (daemon_exit rb (fst ?l))" "d = fst (daemon_exit rb (fst ?l))"
    using assms(3) unfolding daemon_main_def Let_def case_prod_unfold prod.inject fst_conv snd_conv by blast+
  moreover have "dm_routes (fst (daemon_exit rb (fst ?l))) = []"
    by (simp add: daemon_exit_def remove_all_def case_prod_unfold)
  ultimately show ?thesis by (simp only: route_cmds_append kernel_exec_append start_no_routes kernel_exec.simps)
qed

definition ex_running :: running where
  "ex_running = \<lparr>ru_config = ex_config, ru_seed = 1, ru_own = ex_addr 9, ru_ctx = ex_ctx, ru_device = ''hextet0'', ru_relay_key = 5\<rparr>"

theorem shutdown_leaves_no_routes_witness:
  "\<exists>d fx. daemon_main ex_ops (\<lambda>_. True) ex_show ex_running (Inl NotFound) (Inl NotFound) 0 0 accepting
      [Handle (TickEvent (Inr [ex_status] :: (unit, peer_status list) result) 10 10), Handle (AddrChanged 11), Shutdown] = (d, fx) \<and>
    ex_route \<notin> {\<lparr>prefix = 0, prefix_len = 0\<rparr>} \<and>
    kernel_exec {\<lparr>prefix = 0, prefix_len = 0\<rparr>} (route_cmds fx) = {\<lparr>prefix = 0, prefix_len = 0\<rparr>} \<and> dm_routes d = []"
proof -
  let ?es = "[Handle (TickEvent (Inr [ex_status] :: (unit, peer_status list) result) 10 10), Handle (AddrChanged 11), Shutdown]"
  let ?K = "{\<lparr>prefix = 0, prefix_len = 0\<rparr> :: ipv6_route}"
  obtain d fx where m: "daemon_main ex_ops (\<lambda>_. True) ex_show ex_running (Inl NotFound) (Inl NotFound) 0 0 accepting ?es = (d, fx)"
    by fastforce
  have acc: "accepts_all accepting" by (simp add: accepts_all_def accepting_def)
  have r: "ex_route \<notin> ?K" by (simp add: ex_route_def)
  then have "\<forall>p\<in>set (cf_peers (ru_config ex_running)). set (cp_routes p) \<inter> ?K = {}"
    by (simp add: ex_running_def ex_config_def ex_peers_def ex_config_peer_def)
  from shutdown_leaves_no_routes [OF acc this m] m r show ?thesis by blast
qed

section \<open>Two nodes of one network\<close>

text \<open>A condition on two services that matters only where both run.\<close>

definition both :: "'a option \<Rightarrow> 'b option \<Rightarrow> ('a \<Rightarrow> 'b \<Rightarrow> bool) \<Rightarrow> bool" where
  "both x y P = (case (x, y) of (Some a, Some b) \<Rightarrow> P a b | _ \<Rightarrow> True)"

lemma bothI: "(\<And>a b. x = Some a \<Longrightarrow> y = Some b \<Longrightarrow> P a b) \<Longrightarrow> both x y P"
  by (auto simp: both_def split: option.splits)

lemma bring_up_Inr:
  assumes "bring_up ops sha kdf ed wgs env tr (Inr (cfg, seed)) b = (Inr ru, b')"
  shows "ru_config ru = cfg" "ru_seed ru = seed" "derive_node_addr sha (cf_prefix cfg) (ed seed) = Inr (ru_own ru)"
    "ru_ctx ru = ctx_of ops cfg (ed seed) (ru_own ru)" "ru_relay_key ru = derive_relay_key kdf (cf_network_key cfg)"
  using assms by (auto simp: bring_up_def split: sum.splits if_splits prod.splits)

lemma address_in_site:
  assumes "derive_node_addr sha pfx k = Inr n" and "prefix_ok pfx"
  shows "contains (site_route n) (address n)" "is_within_prefix (address n) pfx"
proof -
  obtain iid where "octets (address n) = prefix_bytes pfx @ u16_be (subnet_id n) @ iid" using derive_node_addr_Inr(2) [OF assms] by blast
  moreover have "length (u16_be (subnet_id n)) = 2" by simp
  moreover have "length (prefix_bytes pfx) = 6" using assms(2) by (simp add: prefix_ok_def)
  ultimately show "contains (site_route n) (address n)" "is_within_prefix (address n) pfx"
    by (simp_all add: contains_site_route [OF assms] is_within_prefix_def del: to_be_bytes.simps)
qed

lemma loaded_node:
  assumes "hkdf_fills kdf" and "load_config_and_identity ops vp sha kdf ed tp files file path = Some (Inr (cfg, seed))"
  shows "prefix_ok (cf_prefix cfg)" "cf_prefix cfg = prefix_derive kdf (cf_network_key cfg)"
    "p \<in> set (cf_peers cfg) \<Longrightarrow> derive_node_addr sha (cf_prefix cfg) (cp_public_key p) = Inr (cp_addr p)"
proof -
  from load_identity_Inr [OF assms(2)] obtain raw where "config_load ops vp sha kdf raw (Some (ed seed)) = Some (Inr cfg)" by blast
  from config_load_ok [OF assms(1) this] show "prefix_ok (cf_prefix cfg)" "cf_prefix cfg = prefix_derive kdf (cf_network_key cfg)"
    "p \<in> set (cf_peers cfg) \<Longrightarrow> derive_node_addr sha (cf_prefix cfg) (cp_public_key p) = Inr (cp_addr p)"
    by (auto simp: config_ok_def peer_ok_def)
qed

lemma startup_has_config_peer:
  "p \<in> set (cf_peers cfg) \<Longrightarrow> config_runtime shw cfg cache start p \<in> set (startup_peers tops vp shw cfg cache mf start)"
  by (simp add: startup_peers_def Let_def)

text \<open>
  C6: Nodes find each other from nothing but the network key and public keys. Of two nodes that came up with the
  same network key, where the first lists the public key of the second, the first lets the second use in WireGuard
  the address the second puts on its interface; it gossips to that address, each takes the other's address as one of
  the network, it looks for the second in the DHT under the key the second publishes for; and the probe, relay, LAN,
  DHT and DDNS services of both use the same secrets.
\<close>

theorem nodes_agree:
  assumes lib: "hkdf_fills kdf"
    and a: "load_config_and_identity tops vp sha kdf ed tpa filesa filea patha = Some (Inr (ca, sa))"
      "bring_up shw sha kdf ed wgs enva tra (Inr (ca, sa)) ba = (Inr ra, ba')"
      "va = start_services kdf sna ra (startup_peers tops vp shw ca cachea mfa starta)"
    and b: "load_config_and_identity tops vp sha kdf ed tpb filesb fileb pathb = Some (Inr (cb, sb))"
      "bring_up shw sha kdf ed wgs envb trb (Inr (cb, sb)) bb = (Inr rb, bb')"
      "vb = start_services kdf snb rb (startup_peers tops vp shw cb cacheb mfb startb)"
    and net: "cf_network_key ca = cf_network_key cb"
    and knows: "ed sb \<in> cp_public_key ` set (cf_peers ca)"
  shows "(\<exists>q\<in>set (ds_peers (build_device_spec (wg_public_bytes shw) ca (wgs sa))).
        ps_wg_public q = wg_public_bytes shw (ed sb) \<and> allows (ps_allowed_ips q) (address (ru_own rb))) \<and>
    both (sv_gossip va) (sv_gossip vb) (\<lambda>ga gb. gc_own_address gb \<in> set (gc_targets ga) \<and>
      is_within_prefix (gc_own_address gb) (gc_prefix ga) \<and> is_within_prefix (gc_own_address ga) (gc_prefix gb)) \<and>
    both (sv_dht va) (sv_dht vb) (\<lambda>(da, looked_up) (db, _). to_base64 shw (dc_own_public db) \<in> set looked_up \<and> dc_key da = dc_key db) \<and>
    both (sv_probe va) (sv_probe vb) (\<lambda>pa pb. snd pa = snd pb) \<and>
    both (sv_lan va) (sv_lan vb) (\<lambda>la lb. lc_lan_key la = lc_lan_key lb) \<and>
    both (sv_ddns va) (sv_ddns vb) (\<lambda>da db. dd_key (fst da) = dd_key (fst db)) \<and>
    both (sv_relay va) (Some (ru_relay_key rb)) (\<lambda>relay key. fst (snd relay) = key)"
proof -
  note ra = bring_up_Inr [OF a(2)] and rb = bring_up_Inr [OF b(2)]
  note la = loaded_node [OF lib a(1)] and lb = loaded_node [OF lib b(1)]
  have pfx: "cf_prefix ca = cf_prefix cb" using la(2) lb(2) net by simp
  obtain p where p: "p \<in> set (cf_peers ca)" "cp_public_key p = ed sb" using knows by auto
  have own: "cp_addr p = ru_own rb" using la(3) [OF p(1)] rb(3) p(2) pfx by simp
  note in_site = address_in_site [OF rb(3) lb(1)] and in_a = address_in_site(2) [OF ra(3) la(1)]
  have rt: "config_runtime shw ca cachea starta p \<in> set (startup_peers tops vp shw ca cachea mfa starta)"
    by (rule startup_has_config_peer [OF p(1)])
  have key: "to_base64 shw (ed sb) \<in> pr_key_b64 ` set (startup_peers tops vp shw ca cachea mfa starta)"
    using rt by (rule rev_image_eqI) (simp add: p(2))
  have addr: "address (ru_own rb) \<in> pr_overlay ` set (startup_peers tops vp shw ca cachea mfa starta)"
    using rt by (rule rev_image_eqI) (simp add: own)
  have dev: "\<exists>q\<in>set (ds_peers (build_device_spec (wg_public_bytes shw) ca (wgs sa))).
      ps_wg_public q = wg_public_bytes shw (ed sb) \<and> allows (ps_allowed_ips q) (address (ru_own rb))"
    using p own in_site(1) by (auto simp: build_device_spec_def peer_spec_of_def allows_allowed_ips_for intro!: bexI [of _ p])
  have gossip: "both (sv_gossip va) (sv_gossip vb) (\<lambda>ga gb. gc_own_address gb \<in> set (gc_targets ga) \<and>
      is_within_prefix (gc_own_address gb) (gc_prefix ga) \<and> is_within_prefix (gc_own_address ga) (gc_prefix gb))"
    using addr in_site(2) in_a pfx by (auto intro!: bothI simp: a(3) b(3) start_services_def start_gossip_def ra rb split: if_splits)
  have dht: "both (sv_dht va) (sv_dht vb) (\<lambda>(da, looked_up) (db, _). to_base64 shw (dc_own_public db) \<in> set looked_up \<and> dc_key da = dc_key db)"
    using key net by (auto intro!: bothI simp: a(3) b(3) start_services_def start_dht_def ra rb ctx_of_def split: if_splits)
  have "both (sv_probe va) (sv_probe vb) (\<lambda>pa pb. snd pa = snd pb)" "both (sv_lan va) (sv_lan vb) (\<lambda>la lb. lc_lan_key la = lc_lan_key lb)"
    "both (sv_ddns va) (sv_ddns vb) (\<lambda>da db. dd_key (fst da) = dd_key (fst db))"
    "both (sv_relay va) (Some (ru_relay_key rb)) (\<lambda>relay key. fst (snd relay) = key)"
    using net by (auto intro!: bothI simp: a(3) b(3) start_services_def start_probe_def start_lan_def start_ddns_def start_relay_def ra rb Let_def
        split: if_splits sum.splits)
  with dev gossip dht show ?thesis by blast
qed

text \<open>A second node, without peers, under the key the first one lists as \<open>A\<close>.\<close>

definition ex_raw_b :: raw_config where
  "ex_raw_b = ex_raw\<lparr>rc_peers := []\<rparr>"

definition ex_config_b :: config where
  "ex_config_b = ex_config\<lparr>cf_peers := []\<rparr>"

definition ex_ed :: "key32 \<Rightarrow> public_key" where
  "ex_ed k = (if k = from_be_bytes (replicate 32 107) then from_be_bytes (replicate 32 9) else k)"

definition ex_start_env :: "unit start_env" where
  "ex_start_env = \<lparr>sx_state_dir = True, sx_apply = (\<lambda>s b. (Inr (ds_interface s), b)), sx_apply_fd = (\<lambda>s b. (Inr (ds_interface s), b)),
     sx_setup = (\<lambda>_ _ _ _. Inr ()), sx_macos = False, sx_add_route = (\<lambda>_ _ _. Inr ()), sx_nudge = True\<rparr>"

definition ex_service_env :: service_env where
  "ex_service_env = \<lparr>sn_probe_bind = True, sn_relay_bind = True, sn_multicast = Inr [(1, ''eth0'')], sn_url_parses = (\<lambda>_. True), sn_http_bind = True\<rparr>"

lemma ex_load_b:
  "config_load ex_ops (\<lambda>_. True) ex_sha (\<lambda>_ _ _ n. replicate n 1) ex_raw_b None = Some (Inr ex_config_b)"
  "config_load ex_ops (\<lambda>_. True) ex_sha (\<lambda>_ _ _ n. replicate n 1) ex_raw_b (Some (from_be_bytes (replicate 32 65))) = Some (Inr ex_config_b)"
proof -
  have p: "prefix_derive (\<lambda>_ _ _ n. replicate n 1) k = ex_prefix" for k
    by (simp add: prefix_derive_def ex_prefix_def eval_nat_numeral)
  have raw: "rc_node ex_raw_b = ex_node" "rc_network_key ex_raw_b = ''K''" "rc_network_name ex_raw_b = ''net''" "rc_peers ex_raw_b = []"
    by (simp_all add: ex_raw_b_def ex_raw_def)
  have n: "check_subnet_collisions (named_addrs [] o') = Inr ()" for o'
    by (cases o') (simp_all add: check_subnet_collisions_def named_addrs_def)
  have c: "check_conflicts rs [] = Inr ()" "check_overlaps [] = Inr ()" "check_duplicates [] = Inr ()" for rs
    by code_simp+
  have own: "load_own ex_sha ex_prefix None = Inr None" "load_own ex_sha ex_prefix (Some (from_be_bytes (replicate 32 65))) = Inr (Some (ex_addr 65))"
    by (simp_all add: load_own_def ex_addrs)
  have r: "\<exists>rs. reserved_routes ex_prefix o' = Some rs" if "load_own ex_sha ex_prefix k = Inr o'" for k o'
    using reserved_routes_ok [of ex_prefix ex_sha k o'] that by (simp add: prefix_ok_def ex_prefix_def)
  have l: "load_checked ex_ops (\<lambda>_. True) ex_sha ex_prefix ex_raw_b k = Inr ([], [], [from_be_bytes (replicate 32 65)], o')"
    if "load_own ex_sha ex_prefix k = Inr o'" for k o'
    by (simp add: load_checked_def raw c n that load_keys_def) (simp add: ex_node_def load_key_def ex_keys)
  have "config_load ex_ops (\<lambda>_. True) ex_sha (\<lambda>_ _ _ n. replicate n 1) ex_raw_b k = Some (Inr ex_config_b)"
    if "load_own ex_sha ex_prefix k = Inr o'" for k o'
    using r [OF that] unfolding config_load_def raw ex_check_node ex_keys
    by (auto simp: p l [OF that] c n ex_config_b_def ex_config_def)
  from this [OF own(1)] this [OF own(2)] show
    "config_load ex_ops (\<lambda>_. True) ex_sha (\<lambda>_ _ _ n. replicate n 1) ex_raw_b None = Some (Inr ex_config_b)"
    "config_load ex_ops (\<lambda>_. True) ex_sha (\<lambda>_ _ _ n. replicate n 1) ex_raw_b (Some (from_be_bytes (replicate 32 65))) = Some (Inr ex_config_b)" .
qed

definition ex_node_up :: "config \<Rightarrow> key32 \<Rightarrow> running" where
  "ex_node_up cfg seed = \<lparr>ru_config = cfg, ru_seed = seed, ru_own = (if seed = from_be_bytes (replicate 32 107) then ex_addr 9 else ex_addr 65),
     ru_ctx = ctx_of ex_show cfg (ex_ed seed) (if seed = from_be_bytes (replicate 32 107) then ex_addr 9 else ex_addr 65),
     ru_device = ns_interface (cf_node cfg), ru_relay_key = derive_relay_key (\<lambda>_ _ _ n. replicate n 1) (cf_network_key cfg)\<rparr>"

lemma ex_seed_neq: "from_be_bytes (replicate 32 65) \<noteq> (from_be_bytes (replicate 32 107) :: key32)"
  by code_simp

lemma ex_bring_up:
  "bring_up ex_show ex_sha (\<lambda>_ _ _ n. replicate n 1) ex_ed id ex_start_env PlatformTransport (Inr (ex_config, from_be_bytes (replicate 32 107))) () =
     (Inr (ex_node_up ex_config (from_be_bytes (replicate 32 107))), ())"
  "bring_up ex_show ex_sha (\<lambda>_ _ _ n. replicate n 1) ex_ed id ex_start_env PlatformTransport (Inr (ex_config_b, from_be_bytes (replicate 32 65))) () =
     (Inr (ex_node_up ex_config_b (from_be_bytes (replicate 32 65))), ())"
  using ex_seed_neq
  by (simp_all add: bring_up_def ex_node_up_def ex_config_b_def ex_config_def ex_addrs ex_ed_def ex_start_env_def set_up_interface_def build_device_spec_def)

theorem nodes_agree_witness:
  "address (ex_addr 65) \<in> set (gc_targets (the (start_gossip (ex_node_up ex_config (from_be_bytes (replicate 32 107)))
     (startup_peers ex_ops (\<lambda>_. True) ex_show ex_config cache_new members_new 0))))"
proof -
  let ?kdf = "\<lambda>_ _ _ n. replicate n 1" and ?sa = "from_be_bytes (replicate 32 107) :: key32" and ?sb = "from_be_bytes (replicate 32 65) :: key32"
  let ?tp = "\<lambda>s. \<lparr>fp_absolute = False, fp_components = [s]\<rparr>" and ?path = "\<lparr>fp_absolute = True, fp_components = [''etc'', ''home.toml'']\<rparr>"
  have k: "hkdf_fills ?kdf" by (simp add: hkdf_fills_def)
  have f: "ns_key_file (cf_node ex_config) = ''node.key''" "ns_key_file (cf_node ex_config_b) = ''node.key''"
    by (simp_all add: ex_config_b_def ex_config_def node_settings_of_def ex_node_def)
  have d: "config_dir ?path = \<lparr>fp_absolute = True, fp_components = [''etc'']\<rparr>" by (simp add: config_dir_def path_parent_def)
  have i: "identity_load ex_ops (Some ''key'') = Inr ?sa" "identity_load ex_ops (Some ''A'') = Inr ?sb" by code_simp+
  have a: "load_config_and_identity ex_ops (\<lambda>_. True) ex_sha ?kdf ex_ed ?tp (\<lambda>_. Some ''key'') (Inr ex_raw) ?path = Some (Inr (ex_config, ?sa))"
    by (simp add: load_config_and_identity_def ex_load_first f d i ex_ed_def ex_load_Inr [unfolded ex_load_def])
  have b: "load_config_and_identity ex_ops (\<lambda>_. True) ex_sha ?kdf ex_ed ?tp (\<lambda>_. Some ''A'') (Inr ex_raw_b) ?path = Some (Inr (ex_config_b, ?sb))"
    using ex_seed_neq by (simp add: load_config_and_identity_def ex_load_b f d i ex_ed_def)
  have e: "ex_ed ?sb = ?sb" using ex_seed_neq by (simp add: ex_ed_def)
  have n: "cf_network_key ex_config = cf_network_key ex_config_b" "ex_ed ?sb \<in> cp_public_key ` set (cf_peers ex_config)"
    unfolding e by (simp_all add: ex_config_b_def ex_config_def ex_peers_def ex_config_peer_def)
  note w = nodes_agree [OF k a ex_bring_up(1) refl b ex_bring_up(2) refl n, of ex_service_env cache_new members_new 0 ex_service_env cache_new members_new 0]
  have g: "ns_gossip (cf_node ex_config)" "ns_gossip (cf_node ex_config_b)"
    by (simp_all add: ex_config_b_def ex_config_def node_settings_of_def ex_node_def unwrap_or_def)
  from w [THEN conjunct2, THEN conjunct1] show ?thesis using ex_seed_neq
    by (simp add: start_services_def start_gossip_def both_def g ex_node_up_def)
qed

end
