(* ===== verification/First_Run.thy ===== *)
theory First_Run
  imports Cli_Admin Daemon_Main
begin

text \<open>
  The first run of a node: what \<open>join_network\<close> (\<open>crates/core/src/bootstrap.rs\<close>) wrote is what
  \<open>load_config_and_identity\<close> (\<open>crates/core/src/config.rs\<close>) reads at the next start, and an invitation issued on one
  node makes the joining node a peer of it. The TOML reader and the text form of paths are parameters.
\<close>

section \<open>What the TOML reader makes of a template\<close>

definition raw_node_of :: "file_path \<Rightarrow> u16 \<Rightarrow> file_path option \<Rightarrow> raw_node" where
  "raw_node_of key_file lp state_dir =
     \<lparr>rn_key_file = path_text key_file, rn_listen_port = Some lp, rn_mtu = None, rn_interface = None, rn_probe_port = None,
      rn_state_dir = map_option path_text state_dir, rn_keepalive = None, rn_lan_discovery = None, rn_lan_port = None,
      rn_relay = None, rn_relay_port = None, rn_relay_allow = [], rn_gossip_port = None, rn_gossip = None, rn_admin_keys = [],
      rn_dht = None, rn_http_addr = None, rn_http_port = None, rn_web_dir = None, rn_ddns = None, rn_ddns_fqdn = None,
      rn_ddns_provider = None, rn_ddns_webhook_url = None, rn_ddns_secret = None, rn_ddns_zone = None, rn_ddns_resolver = None\<rparr>"

definition join_raw :: "'sk invite_ops \<Rightarrow> invite \<Rightarrow> file_path \<Rightarrow> file_path \<Rightarrow> u16 \<Rightarrow> file_path option \<Rightarrow> raw_config" where
  "join_raw ops iv config_path key_path lp state_dir =
     \<lparr>rc_network_name = iv_network_name iv, rc_network_key = io_b64_encode ops (iv_network_key iv),
      rc_node = raw_node_of (key_file_ref_for_config config_path key_path) lp state_dir,
      rc_peers = map (\<lambda>b. raw_peer_of (io_b64_encode ops) (bp_name b) (bp_public_key b) (bp_endpoints b) []) (iv_bootstrap iv)\<rparr>"

text \<open>The environment a started node reads its files in.\<close>

definition node_env :: "'sk boot_env \<Rightarrow> (string \<Rightarrow> file_path) \<Rightarrow> (string \<Rightarrow> raw_config option) \<Rightarrow> cmd_env" where
  "node_env env to_path parse =
     \<lparr>ce_text = io_text (be_ops env), ce_valid_point = io_valid_point (be_ops env), ce_sha = be_sha env, ce_kdf = be_kdf env,
      ce_ed_public = be_ed_public env, ce_to_path = to_path, ce_parse = parse, ce_b64 = io_b64_encode (be_ops env)\<rparr>"

definition load_node :: "cmd_env \<Rightarrow> file_system \<Rightarrow> file_path \<Rightarrow> (config_error, config \<times> key32) result option" where
  "load_node env fs path =
     load_config_and_identity (ce_text env) (ce_valid_point env) (ce_sha env) (ce_kdf env) (ce_ed_public env) (ce_to_path env)
       fs (config_file env fs path) path"

section \<open>Loading what was written\<close>

lemma raw_node_checked: "check_node (raw_node_of kf lp sd) = Inr ()"
  by (simp add: check_node_def raw_node_of_def unwrap_or_def)

lemma bootstrap_peer_loads:
  assumes "invite_laws ops" and "io_valid_point ops (bp_public_key b)"
    and "\<forall>e\<in>set (bp_endpoints b). \<not> is_ipv4_mapped (ip e) \<and> flowinfo e = 0" and "derive_node_addr sha pfx (bp_public_key b) = Inr a"
  shows "load_peer (io_text ops) (io_valid_point ops) sha pfx (raw_peer_of (io_b64_encode ops) (bp_name b) (bp_public_key b) (bp_endpoints b) []) =
    Inr (added_peer (bp_name b) (bp_public_key b) (bp_endpoints b) [] a)"
  using assms(4) pk_reads_back [OF assms(1,2)] endpoints_load [OF assms(3)]
  by (simp add: load_peer_def raw_peer_of_def added_peer_def load_ddns_def unwrap_or_def)

definition peers_of_invite :: "invite \<Rightarrow> node_addr list \<Rightarrow> config_peer list" where
  "peers_of_invite iv as = map2 (\<lambda>b a. added_peer (bp_name b) (bp_public_key b) (bp_endpoints b) [] a) (iv_bootstrap iv) as"

lemma peers_of_invite_fields:
  assumes "length as = length (iv_bootstrap iv)"
  shows "map cp_addr (peers_of_invite iv as) = as" "map cp_public_key (peers_of_invite iv as) = map bp_public_key (iv_bootstrap iv)"
    "\<forall>p\<in>set (peers_of_invite iv as). cp_routes p = []"
proof -
  have "map2 f xs as = map g xs" if "length as = length xs" "\<And>x a. f x a = g x" for f :: "bootstrap_peer \<Rightarrow> node_addr \<Rightarrow> public_key" and g xs
    using that by (induction as xs rule: list_induct2) auto
  moreover have "map2 (\<lambda>b a. a) xs as = as" if "length as = length xs" for xs :: "bootstrap_peer list"
    using that by (induction as xs rule: list_induct2) auto
  ultimately show "map cp_addr (peers_of_invite iv as) = as" "map cp_public_key (peers_of_invite iv as) = map bp_public_key (iv_bootstrap iv)"
    using assms by (simp_all add: peers_of_invite_def added_peer_def map2_map_map case_prod_unfold comp_def)
  show "\<forall>p\<in>set (peers_of_invite iv as). cp_routes p = []" by (auto simp: peers_of_invite_def added_peer_def)
qed

lemma invite_peers_load:
  assumes "invite_laws ops" and "invite_plain ops iv"
    and "list_all2 (\<lambda>b a. derive_node_addr sha pfx (bp_public_key b) = Inr a) (iv_bootstrap iv) as"
  shows "try_map (load_peer (io_text ops) (io_valid_point ops) sha pfx) (rc_peers (join_raw ops iv cp kp lp sd)) = Inr (peers_of_invite iv as)"
proof -
  have "list_all2 (\<lambda>b p. load_peer (io_text ops) (io_valid_point ops) sha pfx
      (raw_peer_of (io_b64_encode ops) (bp_name b) (bp_public_key b) (bp_endpoints b) []) = Inr p) (iv_bootstrap iv) (peers_of_invite iv as)"
    unfolding list_all2_conv_all_nth
  proof (intro conjI allI impI)
    show "length (iv_bootstrap iv) = length (peers_of_invite iv as)" using assms(3) by (simp add: peers_of_invite_def list_all2_lengthD)
    fix i assume i: "i < length (iv_bootstrap iv)"
    let ?b = "iv_bootstrap iv ! i"
    have d: "derive_node_addr sha pfx (bp_public_key ?b) = Inr (as ! i)" and l: "i < length as"
      using assms(3) i by (auto simp: list_all2_conv_all_nth)
    have "?b \<in> set (iv_bootstrap iv)" using i by simp
    then have "io_valid_point ops (bp_public_key ?b)" "\<forall>e\<in>set (bp_endpoints ?b). \<not> is_ipv4_mapped (ip e) \<and> flowinfo e = 0"
      using assms(2) unfolding invite_plain_def by blast+
    from bootstrap_peer_loads [OF assms(1) this d] i l
    show "load_peer (io_text ops) (io_valid_point ops) sha pfx (raw_peer_of (io_b64_encode ops) (bp_name ?b)
        (bp_public_key ?b) (bp_endpoints ?b) []) = Inr (peers_of_invite iv as ! i)"
      by (simp add: peers_of_invite_def)
  qed
  then show ?thesis by (simp add: try_map_Inr join_raw_def list_all2_map1)
qed

text \<open>Two nodes with the same key would share a subnet.\<close>

lemma keys_distinct:
  assumes "list_all2 (\<lambda>b a. derive_node_addr sha pfx (bp_public_key b) = Inr a) bs as" and "distinct (map subnet_id as)"
  shows "distinct (map bp_public_key bs)"
proof -
  have n: "length bs = length as" "\<And>i. i < length as \<Longrightarrow> derive_node_addr sha pfx (bp_public_key (bs ! i)) = Inr (as ! i)"
    using assms(1) by (auto simp: list_all2_conv_all_nth)
  show ?thesis unfolding distinct_conv_nth
  proof (intro allI impI)
    fix i j assume ij: "i < length (map bp_public_key bs)" "j < length (map bp_public_key bs)" "i \<noteq> j"
    then have "subnet_id (as ! i) \<noteq> subnet_id (as ! j)" using assms(2) n(1) by (auto simp: distinct_conv_nth)
    moreover have "Inr (as ! i) = derive_node_addr sha pfx (bp_public_key (bs ! i))" "Inr (as ! j) = derive_node_addr sha pfx (bp_public_key (bs ! j))"
      using n ij by auto
    ultimately show "map bp_public_key bs ! i \<noteq> map bp_public_key bs ! j" using ij by (auto simp del: sum.inject) (metis sum.inject(2))
  qed
qed

lemma pairs_in: "(x, y) \<in> set (pairs xs) \<Longrightarrow> x \<in> set xs \<and> y \<in> set xs"
  by (induction xs) auto

definition joined_config :: "hkdf \<Rightarrow> invite \<Rightarrow> file_path \<Rightarrow> u16 \<Rightarrow> file_path option \<Rightarrow> node_addr list \<Rightarrow> config" where
  "joined_config kdf iv key_file lp sd as =
     \<lparr>cf_network_name = iv_network_name iv, cf_network_key = iv_network_key iv, cf_prefix = prefix_derive kdf (iv_network_key iv),
      cf_node = node_settings_of (raw_node_of key_file lp sd) [] [], cf_peers = peers_of_invite iv as\<rparr>"

lemma joined_raw_loads:
  assumes laws: "invite_laws ops" "hkdf_fills kdf" and plain: "invite_plain ops iv"
    and as: "list_all2 (\<lambda>b a. derive_node_addr sha (prefix_derive kdf (iv_network_key iv)) (bp_public_key b) = Inr a) (iv_bootstrap iv) as"
    and dist: "distinct (map subnet_id (as @ [own]))"
    and own: "own_pk = None \<and> o' = None \<or> (\<exists>pk. own_pk = Some pk \<and> o' = Some own \<and> derive_node_addr sha (prefix_derive kdf (iv_network_key iv)) pk = Inr own)"
  shows "config_load (io_text ops) (io_valid_point ops) sha kdf (join_raw ops iv cp kp lp sd) own_pk =
    Some (Inr (joined_config kdf iv (key_file_ref_for_config cp kp) lp sd as))"
proof -
  let ?pfx = "prefix_derive kdf (iv_network_key iv)" and ?raw = "join_raw ops iv cp kp lp sd"
  have len: "length as = length (iv_bootstrap iv)" using as by (simp add: list_all2_lengthD)
  note f = peers_of_invite_fields [OF len]
  have node: "check_node (rc_node ?raw) = Inr ()" "rn_relay_allow (rc_node ?raw) = []" "rn_admin_keys (rc_node ?raw) = []"
    using raw_node_checked by (simp_all add: join_raw_def raw_node_of_def)
  have key: "network_key_from_base64 (io_text ops) (rc_network_key ?raw) = Inr (iv_network_key iv)"
    using network_key_reads_back [OF laws(1)] by (simp add: join_raw_def)
  have o': "load_own sha ?pfx own_pk = Inr o'" using own by (auto simp: load_own_def)
  have "distinct (map bp_public_key (iv_bootstrap iv))" using keys_distinct [OF as] dist by simp
  then have dup: "check_duplicates (peers_of_invite iv as) = Inr ()" by (simp add: check_duplicates_Inr f)
  have sub: "check_subnet_collisions (named_addrs (peers_of_invite iv as) o') = Inr ()"
    using dist own unfolding check_subnet_collisions_iff named_addrs_distinct f by (auto split: option.splits)
  have lc: "load_checked (io_text ops) (io_valid_point ops) sha ?pfx ?raw own_pk = Inr (peers_of_invite iv as, [], [], o')"
    by (simp add: load_checked_def invite_peers_load [OF laws(1) plain as] dup node load_keys_def o' sub)
  have "prefix_ok ?pfx" by (rule prefix_derive_ok [OF laws(2)])
  note r = reserved_routes_ok [OF this o']
  have none: "concat (map (\<lambda>p. map (Pair p) (cp_routes p)) (peers_of_invite iv as)) = []"
    "concat (map (\<lambda>(p, q). map (Pair (p, q)) (List.product (cp_routes p) (cp_routes q))) (pairs (peers_of_invite iv as))) = []"
    using f(3) by (auto simp: concat_eq_Nil_conv dest!: pairs_in)
  show ?thesis
    by (simp add: config_load_def node key lc r check_conflicts_def check_overlaps_def none joined_config_def)
       (simp add: join_raw_def)
qed

text \<open>
  Once \<open>join\<close> reported success, loading the configuration it wrote, with the identity the configuration names, gives
  the network of the invitation and exactly its bootstrap peers; the node's own address is the one that was reported.
\<close>

lemma joined_node_loads:
  assumes laws: "invite_laws (be_ops env)" "hkdf_fills (be_kdf env)" "others_only_add env"
    and paths: "fp_absolute kp \<or> path_strip_prefix kp (config_dir cp) \<noteq> None" "fp_components kp \<noteq> fp_components (config_dir cp)"
      "to_path (path_text (key_file_ref_for_config cp kp)) = key_file_ref_for_config cp kp"
    and join: "join_network env token kp cp now opts fs = (Inr outc, fs')"
    and iv: "invite_decode (be_ops env) (str_trim token) = Inr iv" "invite_plain (be_ops env) iv"
    and toml: "parse (join_text (be_ops env) iv cp kp (jc_listen_port outc) (jo_state_dir opts)) =
      Some (join_raw (be_ops env) iv cp kp (jc_listen_port outc) (jo_state_dir opts))"
  obtains seed own as where
    "load_node (node_env env to_path parse) fs' cp =
      Some (Inr (joined_config (be_kdf env) iv (key_file_ref_for_config cp kp) (jc_listen_port outc) (jo_state_dir opts) as, seed))"
    "list_all2 (\<lambda>b a. derive_node_addr (be_sha env) (prefix_derive (be_kdf env) (iv_network_key iv)) (bp_public_key b) = Inr a) (iv_bootstrap iv) as"
    "distinct (map subnet_id (as @ [own]))"
    "derive_node_addr (be_sha env) (prefix_derive (be_kdf env) (iv_network_key iv)) (be_ed_public env seed) = Inr own"
    "outc = join_outcome_of (be_ops env) iv (prefix_derive (be_kdf env) (iv_network_key iv)) own (be_ed_public env seed) kp cp
       (jc_listen_port outc) (jo_name opts)"
proof -
  let ?lp = "jc_listen_port outc" and ?sd = "jo_state_dir opts" and ?ref = "key_file_ref_for_config cp kp"
  let ?raw = "join_raw (be_ops env) iv cp kp ?lp ?sd" and ?pfx = "prefix_derive (be_kdf env) (iv_network_key iv)"
  obtain iv' seed own where d: "invite_decode (be_ops env) (str_trim token) = Inr iv'" "now \<le> iv_expires_unix iv'"
    "fs' cp = Some (join_text (be_ops env) iv' cp kp ?lp ?sd)"
    "identity_load (io_text (be_ops env)) (fs' (resolve_key_file cp ?ref)) = Inr seed"
    "join_addrs (be_sha env) (prefix_derive (be_kdf env) (iv_network_key iv')) iv' (be_ed_public env seed) = Inr own"
    "outc = join_outcome_of (be_ops env) iv' (prefix_derive (be_kdf env) (iv_network_key iv')) own (be_ed_public env seed) kp cp ?lp (jo_name opts)"
    by (rule join_network_done [OF laws(1,3) paths(1,2) join])
  have iv': "iv' = iv" using d(1) iv(1) by simp
  note d = d [unfolded iv']
  from join_addrs_Inr [OF d(5)] obtain as where own: "derive_node_addr (be_sha env) ?pfx (be_ed_public env seed) = Inr own" and
    as: "list_all2 (\<lambda>b a. derive_node_addr (be_sha env) ?pfx (bp_public_key b) = Inr a) (iv_bootstrap iv) as" "distinct (map subnet_id (as @ [own]))"
    by blast
  let ?cfg = "joined_config (be_kdf env) iv ?ref ?lp ?sd as"
  have l: "config_load (io_text (be_ops env)) (io_valid_point (be_ops env)) (be_sha env) (be_kdf env) ?raw None = Some (Inr ?cfg)"
    "config_load (io_text (be_ops env)) (io_valid_point (be_ops env)) (be_sha env) (be_kdf env) ?raw (Some (be_ed_public env seed)) = Some (Inr ?cfg)"
    by (rule joined_raw_loads [OF laws(1,2) iv(2) as]; use own in auto)+
  have conf: "config_file (node_env env to_path parse) fs' cp = Inr ?raw" using d(3) toml by (simp add: config_file_def node_env_def)
  have key: "ns_key_file (cf_node ?cfg) = path_text ?ref" by (simp add: joined_config_def node_settings_of_def raw_node_of_def)
  have "load_node (node_env env to_path parse) fs' cp = Some (Inr (?cfg, seed))"
    unfolding load_node_def conf load_config_and_identity_def by (simp add: node_env_def l key paths(3) d(4))
  then show thesis by (rule that [OF _ as own d(6)])
qed

section \<open>From the invitation to the peer\<close>

lemma issued_token_reads:
  assumes "invite_laws ops" and "invite_command ops cfg ident listed ttl_text given name rid now = Inr (iv, token)"
    and "length token \<le> MAX_TOKEN_LEN" and "\<forall>b\<in>set (iv_bootstrap iv). \<forall>e\<in>set (bp_endpoints b). \<not> is_ipv4_mapped (ip e)"
  obtains eps where "invite_decode ops token = Inr iv" "invite_plain ops iv" "invite_endpoints listed (ns_listen_port (cf_node cfg)) given = Inr eps"
    "iv_network_name iv = cf_network_name cfg" "iv_network_key iv = cf_network_key cfg"
    "iv_bootstrap iv = [\<lparr>bp_name = name, bp_public_key = sk_public (io_signer ops) ident, bp_endpoints = eps\<rparr>]"
proof -
  obtain ttl eps where eps: "invite_endpoints listed (ns_listen_port (cf_node cfg)) given = Inr eps"
    and iv: "iv = invite_new rid (cf_network_name cfg) (cf_network_key cfg) (sk_public (io_signer ops) ident) now (of_int ttl) (ns_listen_port (cf_node cfg))
       [\<lparr>bp_name = name, bp_public_key = sk_public (io_signer ops) ident, bp_endpoints = eps\<rparr>]"
    and enc: "invite_encode ops ident iv = Inr token"
    by (rule invite_command_Inr [OF assms(2)])
  have f: "iv_network_name iv = cf_network_name cfg" "iv_network_key iv = cf_network_key cfg"
    "iv_bootstrap iv = [\<lparr>bp_name = name, bp_public_key = sk_public (io_signer ops) ident, bp_endpoints = eps\<rparr>]"
    by (simp_all add: iv invite_new_def)
  have plain: "invite_plain ops iv"
    using assms(1,4) invite_endpoints_flowinfo [OF eps] by (simp add: invite_plain_def f(3) invite_laws_def signatures_verify_def)
  show thesis by (rule that [OF invite_reads_back [OF assms(1) plain assms(3) enc] plain eps f])
qed


text \<open>The issuer of the example invitation, and the node that joins with it.\<close>

definition ex_issuer :: config where
  "ex_issuer = ex_cfg []\<lparr>cf_network_name := ''home'', cf_network_key := 5\<rparr>"

lemma ex_issued:
  "invite_command ex_invite_ops ex_issuer () (Inr [push_bit 96 0x20010db8 + 1]) ''1d'' [] ''router'' 17 1000 = Inr (ex_invite, ex_token)"
proof -
  have t: "parse_ttl ''1d'' = Inr 86400" by code_simp
  have lp: "ns_listen_port (cf_node ex_issuer) = 4193"
    by (simp add: ex_issuer_def ex_cfg_def node_settings_of_def ex_node_def unwrap_or_def DEFAULT_PORT_def)
  show ?thesis using ex_invite_encodes(1)
    by (simp add: invite_command_def t invite_endpoints_def discover_own_endpoints_def lp Let_def)
       (simp add: ex_invite_def ex_invite_ops_def ex_base_ops_def ex_issuer_def)
qed


end
