(* ===== verification/Embedding.thy ===== *)
theory Embedding
  imports First_Run Engine_State
begin

text \<open>
  The interface for embedding the engine in an app (\<open>crates/engine-ffi/src/lib.rs\<close>) and the handle of a daemon that
  runs in the background (\<open>DaemonHandle\<close>, \<open>spawn\<close> and \<open>spawn_with_fd\<close> of \<open>crates/engine/src/daemon.rs\<close>): reading a
  configuration and the state, joining and initialising below one directory, and the registry of running daemons. An
  answer is the value whose JSON the code returns. The files at the time of a call and how a stopped daemon ended are
  arguments; a poisoned lock is not modelled.
\<close>

section \<open>Errors and answers\<close>

datatype ffi_error =
    FfiConfig config_error | FfiAddr addr_error | FfiBootstrap bootstrap_error | FfiUnsupported | FfiUnknownHandle u64 | FfiStop start_error

record peer_summary =
  ys_name :: string
  ys_public_key :: string
  ys_address :: string

record config_summary =
  cy_network_name :: string
  cy_prefix :: string
  cy_node_address :: string
  cy_node_public_key :: string
  cy_peers :: "peer_summary list"

section \<open>Reading\<close>

definition peer_summary_of :: "(public_key \<Rightarrow> string) \<Rightarrow> config_peer \<Rightarrow> peer_summary" where
  "peer_summary_of b64 p = \<lparr>ys_name = cp_name p, ys_public_key = b64 (cp_public_key p), ys_address = show_ipv6 (address (cp_addr p))\<rparr>"

definition ffi_load_config :: "cmd_env \<Rightarrow> file_system \<Rightarrow> file_path \<Rightarrow> (ffi_error, config_summary) result option" where
  "ffi_load_config env fs path =
     (case load_node env fs path of
        None \<Rightarrow> None
      | Some (Inl e) \<Rightarrow> Some (Inl (FfiConfig e))
      | Some (Inr (cfg, seed)) \<Rightarrow>
          let pk = ce_ed_public env seed in
          Some (and_then (map_err FfiAddr (derive_node_addr (ce_sha env) (cf_prefix cfg) pk)) (\<lambda>own.
            Inr \<lparr>cy_network_name = cf_network_name cfg, cy_prefix = show_prefix (cf_prefix cfg),
                 cy_node_address = show_ipv6 (address own), cy_node_public_key = ce_b64 env pk,
                 cy_peers = map (peer_summary_of (ce_b64 env)) (cf_peers cfg)\<rparr>)))"

definition ffi_status ::
  "show_ops \<Rightarrow> cmd_env \<Rightarrow> file_system \<Rightarrow> file_path \<Rightarrow> (config \<Rightarrow> string) \<Rightarrow> (io_error, engine_state) result \<Rightarrow> time \<Rightarrow>
     (ffi_error, status_report) result option" where
  "ffi_status ops env fs path state_path state_file now =
     (case load_node env fs path of
        None \<Rightarrow> None
      | Some (Inl e) \<Rightarrow> Some (Inl (FfiConfig e))
      | Some (Inr (cfg, _)) \<Rightarrow> Some (Inr (build_report_from_state ops cfg (state_path cfg) state_file now)))"

section \<open>Joining and initialising\<close>

definition in_dir :: "file_path \<Rightarrow> string \<Rightarrow> file_path" where
  "in_dir d name = path_join d \<lparr>fp_absolute = False, fp_components = [name]\<rparr>"

definition ffi_join :: "'sk boot_env \<Rightarrow> string \<Rightarrow> file_path \<Rightarrow> u64 \<Rightarrow> file_system \<Rightarrow> (ffi_error, join_outcome) result \<times> file_system" where
  "ffi_join env token out_dir now fs =
     (case join_network env token (in_dir out_dir ''node.key'') (in_dir out_dir ''hextet.toml'') now
        \<lparr>jo_name = ''new-node'', jo_listen_port = None, jo_state_dir = Some (in_dir out_dir ''state'')\<rparr> fs of
      (r, fs) \<Rightarrow> (map_err FfiBootstrap r, fs))"

definition ffi_init :: "'sk boot_env \<Rightarrow> string \<Rightarrow> file_path \<Rightarrow> file_system \<Rightarrow> (ffi_error, init_outcome) result \<times> file_system" where
  "ffi_init env name out_dir fs =
     (case init_network env name (in_dir out_dir ''node.key'') (in_dir out_dir ''hextet.toml'') None
        \<lparr>io_listen_port = DEFAULT_PORT, io_state_dir = Some (in_dir out_dir ''state''), io_require_existing_key = False\<rparr> fs of
      (r, fs) \<Rightarrow> (map_err FfiBootstrap r, fs))"

section \<open>Running daemons\<close>

text \<open>A handle stands for its task: the configuration it was started with and, for a borrowed tunnel, descriptor and MTU.\<close>

record daemon_handle =
  dh_config :: file_path
  dh_tunnel :: "(int \<times> u16) option"

definition spawn :: "file_path \<Rightarrow> daemon_handle" where
  "spawn path = \<lparr>dh_config = path, dh_tunnel = None\<rparr>"

definition spawn_with_fd :: "file_path \<Rightarrow> int \<Rightarrow> u16 \<Rightarrow> daemon_handle" where
  "spawn_with_fd path tun_fd mtu = \<lparr>dh_config = path, dh_tunnel = Some (tun_fd, mtu)\<rparr>"

record ffi_state =
  ff_next :: u64
  ff_daemons :: "(u64 \<times> daemon_handle) list"

definition ffi_new :: ffi_state where
  "ffi_new = \<lparr>ff_next = 1, ff_daemons = []\<rparr>"

datatype ffi_call =
    FfiSpawn file_system file_path
  | FfiSpawnFd file_system file_path int u16
  | FfiShutdown u64 "daemon_handle \<Rightarrow> (start_error, unit) result"

datatype ffi_answer = FfiHandle u64 | FfiDone | FfiError ffi_error | FfiPanic

text \<open>Registering a daemon: the counter is taken and moved on, then the handle is stored under it.\<close>

definition register_daemon :: "ffi_state \<Rightarrow> daemon_handle \<Rightarrow> ffi_state \<times> ffi_answer" where
  "register_daemon s d =
     (let h = ff_next s in (s\<lparr>ff_next := h + 1, ff_daemons := hm_insert h d (ff_daemons s)\<rparr>, FfiHandle h))"

definition daemon_spawn_checked :: "cmd_env \<Rightarrow> bool \<Rightarrow> ffi_state \<Rightarrow> file_system \<Rightarrow> file_path \<Rightarrow> daemon_handle \<Rightarrow> ffi_state \<times> ffi_answer" where
  "daemon_spawn_checked env supported s fs path d =
     (if \<not> supported then (s, FfiError FfiUnsupported)
      else case load_node env fs path of
        None \<Rightarrow> (s, FfiPanic)
      | Some (Inl e) \<Rightarrow> (s, FfiError (FfiConfig e))
      | Some (Inr _) \<Rightarrow> register_daemon s d)"

definition daemon_shutdown :: "ffi_state \<Rightarrow> u64 \<Rightarrow> (daemon_handle \<Rightarrow> (start_error, unit) result) \<Rightarrow> ffi_state \<times> ffi_answer" where
  "daemon_shutdown s h ended =
     (case hm_get (ff_daemons s) h of
        None \<Rightarrow> (s, FfiError (FfiUnknownHandle h))
      | Some d \<Rightarrow> (s\<lparr>ff_daemons := hm_remove h (ff_daemons s)\<rparr>,
          (case ended d of Inl e \<Rightarrow> FfiError (FfiStop e) | Inr _ \<Rightarrow> FfiDone)))"

text \<open>\<open>desktop\<close>: the platform has a named tunnel; \<open>unix\<close>: it has descriptors.\<close>

fun ffi_step :: "cmd_env \<Rightarrow> bool \<Rightarrow> bool \<Rightarrow> ffi_state \<Rightarrow> ffi_call \<Rightarrow> ffi_state \<times> ffi_answer" where
  "ffi_step env desktop unix s (FfiSpawn fs path) = daemon_spawn_checked env desktop s fs path (spawn path)"
| "ffi_step env desktop unix s (FfiSpawnFd fs path tun_fd mtu) = daemon_spawn_checked env unix s fs path (spawn_with_fd path tun_fd mtu)"
| "ffi_step env desktop unix s (FfiShutdown h ended) = daemon_shutdown s h ended"

fun ffi_run :: "cmd_env \<Rightarrow> bool \<Rightarrow> bool \<Rightarrow> ffi_state \<Rightarrow> ffi_call list \<Rightarrow> ffi_state \<times> ffi_answer list" where
  "ffi_run env desktop unix s [] = (s, [])"
| "ffi_run env desktop unix s (c # cs) =
     (let (s, a) = ffi_step env desktop unix s c; (s, as) = ffi_run env desktop unix s cs in (s, a # as))"

section \<open>Handles\<close>

text \<open>What the caller knows from its calls and their answers: the handles it was given and has not shut down.\<close>

fun live_after :: "u64 set \<Rightarrow> ffi_call \<times> ffi_answer \<Rightarrow> u64 set" where
  "live_after L (FfiShutdown h _, _) = L - {h}"
| "live_after L (_, FfiHandle h) = insert h L"
| "live_after L _ = L"

definition live :: "(ffi_call \<times> ffi_answer) list \<Rightarrow> u64 set" where
  "live H = foldl live_after {} H"

fun handles :: "ffi_answer list \<Rightarrow> u64 list" where
  "handles [] = []"
| "handles (FfiHandle h # as) = h # handles as"
| "handles (_ # as) = handles as"

lemma handles_append [simp]: "handles (as @ bs) = handles as @ handles bs"
  by (induction as rule: handles.induct) auto

lemma length_handles: "length (handles as) \<le> length as"
  by (induction as rule: handles.induct) auto

lemma ffi_run_snoc:
  "ffi_run env dt ux s (cs @ [c]) =
     (case ffi_run env dt ux s cs of (s', as) \<Rightarrow> case ffi_step env dt ux s' c of (s'', a) \<Rightarrow> (s'', as @ [a]))"
  by (induction cs arbitrary: s) (auto simp: Let_def split: prod.splits)

lemma ffi_run_length: "length (snd (ffi_run env dt ux s cs)) = length cs"
  by (induction cs arbitrary: s) (auto simp: Let_def case_prod_unfold)

text \<open>The registry holds exactly the live handles, and every handle given out is below the counter.\<close>

definition registry_ok :: "ffi_state \<Rightarrow> ffi_call list \<Rightarrow> ffi_answer list \<Rightarrow> bool" where
  "registry_ok s cs as \<longleftrightarrow>
     fst ` set (ff_daemons s) = live (zip cs as) \<and> distinct (handles as) \<and> unat (ff_next s) = Suc (length (handles as)) \<and>
     (\<forall>h\<in>set (handles as). unat h < unat (ff_next s)) \<and> live (zip cs as) \<subseteq> set (handles as)"

lemma live_snoc: "length cs = length as \<Longrightarrow> live (zip (cs @ [c]) (as @ [a])) = live_after (live (zip cs as)) (c, a)"
  by (simp add: live_def)

lemma register_keeps:
  assumes "registry_ok s cs as" and "length cs = length as" and "length cs + 2 < 2 ^ 64" and "register_daemon s d = (s', a)"
    and c: "\<And>L h. live_after L (c, FfiHandle h) = insert h L"
  shows "registry_ok s' (cs @ [c]) (as @ [a])"
proof -
  have a: "a = FfiHandle (ff_next s)" "s' = s\<lparr>ff_next := ff_next s + 1, ff_daemons := hm_insert (ff_next s) d (ff_daemons s)\<rparr>"
    using assms(4) by (auto simp: register_daemon_def Let_def)
  have len: "length (handles as) \<le> length cs" using length_handles [of as] assms(2) by simp
  have n: "unat (ff_next s) = Suc (length (handles as))" using assms(1) by (simp add: registry_ok_def)
  have "unat (ff_next s) + 1 < 2 ^ 64" using n len assms(3) by simp
  then have up: "unat (ff_next s + 1) = unat (ff_next s) + 1" by (simp add: unat_word_ariths)
  have "ff_next s \<notin> set (handles as)" using assms(1) by (auto simp: registry_ok_def)
  moreover have "fst ` set (hm_insert (ff_next s) d (ff_daemons s)) = insert (ff_next s) (fst ` set (ff_daemons s))"
    by (simp add: dom_update [unfolded dom_map_of_conv_image_fst])
  ultimately show ?thesis using assms(1) up n unfolding registry_ok_def live_snoc [OF assms(2)] a
    by (auto simp: c)
qed

lemma spawn_keeps:
  assumes "registry_ok s cs as" and "length cs = length as" and "length cs + 2 < 2 ^ 64"
    and "daemon_spawn_checked env ok s fs path d = (s', a)" and c: "\<And>L. live_after L (c, a) = (case a of FfiHandle h \<Rightarrow> insert h L | _ \<Rightarrow> L)"
    "\<And>L h. live_after L (c, FfiHandle h) = insert h L"
  shows "registry_ok s' (cs @ [c]) (as @ [a])"
proof (cases "\<exists>x. register_daemon s d = (s', a)")
  case True
  then show ?thesis using register_keeps [OF assms(1-3) _ c(2)] by blast
next
  case False
  then have "s' = s" "\<forall>h. a \<noteq> FfiHandle h" using assms(4) by (auto simp: daemon_spawn_checked_def split: if_splits option.splits sum.splits)
  then show ?thesis using assms(1) unfolding registry_ok_def live_snoc [OF assms(2)] c by (cases a) auto
qed

lemma shutdown_answer:
  "snd (daemon_shutdown s h ended) = FfiError (FfiUnknownHandle h) \<longleftrightarrow> h \<notin> fst ` set (ff_daemons s)"
  unfolding map_of_eq_None_iff [symmetric]
  by (cases "hm_get (ff_daemons s) h") (auto simp: daemon_shutdown_def split: sum.splits)

lemma keys_removed: "fst ` set (hm_remove k m) = fst ` set m - {k}"
  by (induction m) auto

lemma shutdown_keeps:
  assumes "registry_ok s cs as" and "length cs = length as" and "daemon_shutdown s h ended = (s', a)"
  shows "registry_ok s' (cs @ [FfiShutdown h ended]) (as @ [a])"
proof -
  have "fst ` set (ff_daemons s') = fst ` set (ff_daemons s) - {h} \<and> ff_next s' = ff_next s \<and> handles [a] = []"
  proof (cases "hm_get (ff_daemons s) h")
    case None
    then have "s' = s" "handles [a] = []" using assms(3) by (auto simp: daemon_shutdown_def)
    then show ?thesis using None by (simp add: map_of_eq_None_iff)
  next
    case (Some d)
    then have "s' = s\<lparr>ff_daemons := hm_remove h (ff_daemons s)\<rparr>" "handles [a] = []"
      using assms(3) by (auto simp: daemon_shutdown_def split: sum.splits)
    then show ?thesis by (simp add: keys_removed)
  qed
  then show ?thesis using assms(1) unfolding registry_ok_def live_snoc [OF assms(2)] by auto
qed

lemma ffi_step_keeps:
  assumes "registry_ok s cs as" and "length cs = length as" and "length cs + 2 < 2 ^ 64" and "ffi_step env dt ux s c = (s', a)"
  shows "registry_ok s' (cs @ [c]) (as @ [a])"
proof (cases c)
  case (FfiSpawn fs path)
  then show ?thesis using spawn_keeps [OF assms(1-3), where c = c and a = a] assms(4) by (cases a) auto
next
  case (FfiSpawnFd fs path tun_fd mtu)
  then show ?thesis using spawn_keeps [OF assms(1-3), where c = c and a = a] assms(4) by (cases a) auto
next
  case (FfiShutdown h ended)
  then show ?thesis using shutdown_keeps [OF assms(1,2)] assms(4) by simp
qed

lemma ffi_run_ok: "length cs + 1 < 2 ^ 64 \<Longrightarrow> ffi_run env dt ux ffi_new cs = (s, as) \<Longrightarrow> registry_ok s cs as"
proof (induction cs arbitrary: s as rule: rev_induct)
  case Nil
  then show ?case by (auto simp: registry_ok_def ffi_new_def live_def)
next
  case (snoc c cs)
  obtain s1 as1 s2 a where r: "ffi_run env dt ux ffi_new cs = (s1, as1)" "ffi_step env dt ux s1 c = (s2, a)" by (metis surj_pair)
  then have e: "s = s2" "as = as1 @ [a]" using snoc.prems(2) by (simp_all add: ffi_run_snoc)
  have l: "length cs = length as1" using ffi_run_length [of env dt ux ffi_new cs] r(1) by simp
  show ?case unfolding e by (rule ffi_step_keeps [OF snoc.IH [OF _ r(1)] l _ r(2)]) (use snoc.prems(1) in simp_all)
qed

lemma ffi_run_prefix:
  assumes "ffi_run env dt ux s cs = (s', as)" and "i < length cs"
  shows "snd (ffi_run env dt ux s (take i cs)) = take i as \<and> as ! i = snd (ffi_step env dt ux (fst (ffi_run env dt ux s (take i cs))) (cs ! i))"
  using assms
proof (induction cs arbitrary: s s' as i)
  case (Cons c cs)
  obtain s1 a s2 as' where r: "ffi_step env dt ux s c = (s1, a)" "ffi_run env dt ux s1 cs = (s2, as')" by (metis surj_pair)
  then have "as = a # as'" using Cons.prems(1) by simp
  moreover have "snd (ffi_run env dt ux s1 (take j cs)) = take j as' \<and> as' ! j = snd (ffi_step env dt ux (fst (ffi_run env dt ux s1 (take j cs))) (cs ! j))"
    if "i = Suc j" for j using Cons.IH [OF r(2), of j] Cons.prems(2) that by simp
  ultimately show ?case using r(1) by (cases i) (auto simp: Let_def case_prod_unfold)
qed simp



section \<open>The first run of an app\<close>

text \<open>The summary shows no secret: it is the same for two nodes that differ only in network key and seed.\<close>

lemma summary_hides_secrets:
  assumes "load_node env fs path = Some (Inr (cfg, seed))" "load_node env fs' path' = Some (Inr (cfg', seed'))"
    and "cf_network_name cfg = cf_network_name cfg'" "cf_prefix cfg = cf_prefix cfg'" "cf_peers cfg = cf_peers cfg'"
    and "ce_ed_public env seed = ce_ed_public env seed'"
  shows "ffi_load_config env fs path = ffi_load_config env fs' path'"
  using assms by (simp add: ffi_load_config_def Let_def)

lemma in_dir_paths:
  "path_strip_prefix (in_dir d ''node.key'') (config_dir (in_dir d ''hextet.toml'')) \<noteq> None"
  "fp_components (in_dir d ''node.key'') \<noteq> fp_components (config_dir (in_dir d ''hextet.toml''))"
  "key_file_ref_for_config (in_dir d ''hextet.toml'') (in_dir d ''node.key'') = \<lparr>fp_absolute = False, fp_components = [''node.key'']\<rparr>"
proof -
  have c: "config_dir (in_dir d ''hextet.toml'') = d"
    by (simp add: in_dir_def path_join_def config_dir_def path_parent_def)
  have s: "strip_components xs (xs @ ys) = Some ys" for xs ys by (induction xs) auto
  have p: "path_strip_prefix (in_dir d ''node.key'') d = Some \<lparr>fp_absolute = False, fp_components = [''node.key'']\<rparr>"
    by (simp add: path_strip_prefix_def in_dir_def path_join_def s)
  show "path_strip_prefix (in_dir d ''node.key'') (config_dir (in_dir d ''hextet.toml'')) \<noteq> None"
    "fp_components (in_dir d ''node.key'') \<noteq> fp_components (config_dir (in_dir d ''hextet.toml''))"
    "key_file_ref_for_config (in_dir d ''hextet.toml'') (in_dir d ''node.key'') = \<lparr>fp_absolute = False, fp_components = [''node.key'']\<rparr>"
    unfolding c key_file_ref_for_config_def p by (simp_all add: in_dir_def path_join_def)
qed

lemma peers_of_invite_names:
  "length as = length (iv_bootstrap iv) \<Longrightarrow> map cp_name (peers_of_invite iv as) = map bp_name (iv_bootstrap iv)"
proof -
  have "map cp_name (map2 (\<lambda>b a. added_peer (bp_name b) (bp_public_key b) (bp_endpoints b) [] a) bs as) = map bp_name bs"
    if "length as = length bs" for bs using that by (induction as bs rule: list_induct2) (auto simp: added_peer_def)
  then show "length as = length (iv_bootstrap iv) \<Longrightarrow> map cp_name (peers_of_invite iv as) = map bp_name (iv_bootstrap iv)"
    unfolding peers_of_invite_def by blast
qed

text \<open>
  An app that joined with an invitation is ready to run. After \<open>join\<close> succeeded in a directory, \<open>load_config\<close> of the
  file it wrote there succeeds and shows the same network, prefix, address, public key and peers the join reported, and a
  daemon can be started on it at once, under the next handle.
\<close>

theorem ffi_first_run:
  assumes laws: "invite_laws (be_ops env)" "hkdf_fills (be_kdf env)" "others_only_add env"
    and join: "ffi_join env token dir now fs = (Inr outc, fs')"
    and iv: "invite_decode (be_ops env) (str_trim token) = Inr iv" "invite_plain (be_ops env) iv"
    and path: "to_path ''node.key'' = \<lparr>fp_absolute = False, fp_components = [''node.key'']\<rparr>"
    and toml: "parse (join_text (be_ops env) iv (in_dir dir ''hextet.toml'') (in_dir dir ''node.key'') (jc_listen_port outc) (Some (in_dir dir ''state''))) =
      Some (join_raw (be_ops env) iv (in_dir dir ''hextet.toml'') (in_dir dir ''node.key'') (jc_listen_port outc) (Some (in_dir dir ''state'')))"
  shows "(\<exists>y. ffi_load_config (node_env env to_path parse) fs' (in_dir dir ''hextet.toml'') = Some (Inr y) \<and>
      cy_network_name y = jc_network_name outc \<and> cy_prefix y = jc_prefix outc \<and> cy_node_address y = jc_node_address outc \<and>
      cy_node_public_key y = jc_public_key outc \<and> map ys_name (cy_peers y) = jc_bootstrap_peers outc) \<and>
    snd (ffi_step (node_env env to_path parse) desktop True s (FfiSpawnFd fs' (in_dir dir ''hextet.toml'') tun_fd mtu)) = FfiHandle (ff_next s)"
proof -
  let ?opts = "\<lparr>jo_name = ''new-node'', jo_listen_port = None, jo_state_dir = Some (in_dir dir ''state'')\<rparr>"
  let ?kp = "in_dir dir ''node.key''" and ?cp = "in_dir dir ''hextet.toml''" and ?pfx = "prefix_derive (be_kdf env) (iv_network_key iv)"
  have j: "join_network env token ?kp ?cp now ?opts fs = (Inr outc, fs')"
    using join by (auto simp: ffi_join_def map_err_Inr split: prod.splits)
  have key: "to_path (path_text (key_file_ref_for_config ?cp ?kp)) = key_file_ref_for_config ?cp ?kp"
    using path by (simp add: in_dir_paths path_text_def)
  obtain seed own as where
    l: "load_node (node_env env to_path parse) fs' ?cp =
      Some (Inr (joined_config (be_kdf env) iv (key_file_ref_for_config ?cp ?kp) (jc_listen_port outc) (Some (in_dir dir ''state'')) as, seed))"
    and as: "list_all2 (\<lambda>b a. derive_node_addr (be_sha env) ?pfx (bp_public_key b) = Inr a) (iv_bootstrap iv) as"
    and own: "derive_node_addr (be_sha env) ?pfx (be_ed_public env seed) = Inr own"
    and outc: "outc = join_outcome_of (be_ops env) iv ?pfx own (be_ed_public env seed) ?kp ?cp (jc_listen_port outc) (jo_name ?opts)"
    by (rule joined_node_loads [where to_path = to_path and parse = parse, OF laws disjI2 [OF in_dir_paths(1)] in_dir_paths(2) key j iv])
       (use toml in simp_all)
  have o: "jc_network_name outc = iv_network_name iv" "jc_prefix outc = show_prefix ?pfx" "jc_node_address outc = show_ipv6 (address own)"
    "jc_public_key outc = io_b64_encode (be_ops env) (be_ed_public env seed)" "jc_bootstrap_peers outc = map bp_name (iv_bootstrap iv)"
    by (subst outc, simp add: join_outcome_of_def)+
  have "length as = length (iv_bootstrap iv)" using as by (simp add: list_all2_lengthD)
  then have names: "map ys_name (map (peer_summary_of b64) (peers_of_invite iv as)) = map bp_name (iv_bootstrap iv)" for b64
    using peers_of_invite_names by (simp add: peer_summary_of_def comp_def)
  show ?thesis
    using own names by (simp add: ffi_load_config_def l daemon_spawn_checked_def register_daemon_def Let_def joined_config_def o)
       (simp add: node_env_def)
qed

theorem ffi_first_run_witness:
  "\<exists>outc fs' y. ffi_join ex_boot ex_token \<lparr>fp_absolute = True, fp_components = [''app'']\<rparr> 2000 Map.empty = (Inr outc, fs') \<and>
     ffi_load_config (node_env ex_boot (\<lambda>_. \<lparr>fp_absolute = False, fp_components = [''node.key'']\<rparr>)
       (\<lambda>_. Some (join_raw ex_invite_ops ex_invite \<lparr>fp_absolute = True, fp_components = [''app'', ''hextet.toml'']\<rparr>
          \<lparr>fp_absolute = True, fp_components = [''app'', ''node.key'']\<rparr> (jc_listen_port outc) (Some \<lparr>fp_absolute = True, fp_components = [''app'', ''state'']\<rparr>))))
       fs' \<lparr>fp_absolute = True, fp_components = [''app'', ''hextet.toml'']\<rparr> = Some (Inr y) \<and> cy_node_address y = jc_node_address outc"
proof -
  let ?dir = "\<lparr>fp_absolute = True, fp_components = [''app'']\<rparr>" and ?to = "\<lambda>_ :: string. \<lparr>fp_absolute = False, fp_components = [''node.key'']\<rparr>"
  have d: "in_dir ?dir n = \<lparr>fp_absolute = True, fp_components = [''app'', n]\<rparr>" for n by (simp add: in_dir_def path_join_def)
  obtain outc fs' where "join_network ex_boot ex_token (in_dir ?dir ''node.key'') (in_dir ?dir ''hextet.toml'') 2000
      \<lparr>jo_name = ''new-node'', jo_listen_port = None, jo_state_dir = Some (in_dir ?dir ''state'')\<rparr> Map.empty = (Inr outc, fs')"
    using ex_join_works [of "in_dir ?dir ''hextet.toml''" "in_dir ?dir ''node.key''"] by (simp add: d) blast
  then have j: "ffi_join ex_boot ex_token ?dir 2000 Map.empty = (Inr outc, fs')" by (simp add: ffi_join_def)
  let ?parse = "\<lambda>_ :: string. Some (join_raw ex_invite_ops ex_invite (in_dir ?dir ''hextet.toml'') (in_dir ?dir ''node.key'')
    (jc_listen_port outc) (Some (in_dir ?dir ''state'')))"
  have b: "be_ops ex_boot = ex_invite_ops" by (simp add: ex_boot_def)
  have k: "hkdf_fills (be_kdf ex_boot)" by (simp add: hkdf_fills_def ex_boot_def)
  have iv: "invite_decode (be_ops ex_boot) (str_trim ex_token) = Inr ex_invite" "invite_plain (be_ops ex_boot) ex_invite"
    using ex_invite_decodes ex_invite_encodes(3) by (simp_all add: b ex_token_trimmed)
  have toml: "?parse (join_text (be_ops ex_boot) ex_invite (in_dir ?dir ''hextet.toml'') (in_dir ?dir ''node.key'') (jc_listen_port outc) (Some (in_dir ?dir ''state''))) =
      Some (join_raw (be_ops ex_boot) ex_invite (in_dir ?dir ''hextet.toml'') (in_dir ?dir ''node.key'') (jc_listen_port outc) (Some (in_dir ?dir ''state'')))"
    by (simp add: b)
  from ffi_first_run [where to_path = ?to and parse = ?parse, OF ex_boot_laws(3) k ex_boot_laws(1) j iv refl toml, THEN conjunct1]
  show ?thesis using j unfolding d by blast
qed

end
