(* ===== verification/Cli_Node.thy ===== *)
theory Cli_Node
  imports Embedding
begin

text \<open>
  The commands that run a node (\<open>crates/cli/src/commands\<close>): \<open>keygen\<close>, \<open>init\<close> and \<open>join\<close>, \<open>inspect\<close>, \<open>up\<close> and
  \<open>down\<close>, \<open>doctor\<close>, \<open>status\<close> with its interactive view, and the Windows service. A command is its result and what it
  does to the files, the device or the terminal; the platform it is compiled for, the answers of the operating system
  and the events of a loop are arguments, and a printed line is the value it shows.
\<close>

datatype platform = OnLinux | OnMacos | OnWindows | OnOther

section \<open>keygen, init and join\<close>

datatype keygen_error = KeyExists file_path | KeyRemove file_path | KeySave identity_error

definition keygen_cmd :: "'sk boot_env \<Rightarrow> file_path \<Rightarrow> bool \<Rightarrow> file_system \<Rightarrow> (keygen_error, string \<times> file_path) result \<times> file_system" where
  "keygen_cmd env out force fs =
     (if fs out \<noteq> None \<and> \<not> force then (Inl (KeyExists out), fs)
      else if fs out \<noteq> None \<and> \<not> be_removed env then (Inl (KeyRemove out), fs)
      else
        case identity_save env (be_before_save env (if fs out \<noteq> None then remove_file fs out else fs)) out (be_seed env) of
          (Inl e, fs) \<Rightarrow> (Inl (KeySave e), fs)
        | (Inr _, fs) \<Rightarrow> (Inr (io_b64_encode (be_ops env) (be_ed_public env (be_seed env)), out), fs))"

record init_args =
  ia_name :: string
  ia_key_file :: file_path
  ia_listen_port :: u16
  ia_state_dir :: "file_path option"
  ia_network_key :: "string option"
  ia_out :: file_path

definition init_cmd :: "'sk boot_env \<Rightarrow> init_args \<Rightarrow> file_system \<Rightarrow> (bootstrap_error, init_outcome) result \<times> file_system" where
  "init_cmd env args fs =
     init_network env (ia_name args) (ia_key_file args) (ia_out args) (ia_network_key args)
       \<lparr>io_listen_port = ia_listen_port args, io_state_dir = ia_state_dir args, io_require_existing_key = True\<rparr> fs"

record join_args =
  ja_token :: string
  ja_key_file :: file_path
  ja_out :: file_path
  ja_listen_port :: "u16 option"
  ja_state_dir :: "file_path option"
  ja_name :: string

record join_report =
  jr_network_name :: string
  jr_prefix :: string
  jr_public_key :: string
  jr_address :: string
  jr_site :: string
  jr_config :: string
  jr_key_file :: string
  jr_peers :: "string list"
  jr_peer_add_command :: string

definition join_cmd :: "'sk boot_env \<Rightarrow> join_args \<Rightarrow> time \<Rightarrow> file_system \<Rightarrow> (bootstrap_error, join_report) result \<times> file_system" where
  "join_cmd env args now fs =
     (case join_network env (ja_token args) (ja_key_file args) (ja_out args) (unix_secs now)
        \<lparr>jo_name = ja_name args, jo_listen_port = ja_listen_port args, jo_state_dir = ja_state_dir args\<rparr> fs of
        (r, fs) \<Rightarrow>
          (and_then r (\<lambda>o'.
             Inr \<lparr>jr_network_name = jc_network_name o', jr_prefix = jc_prefix o', jr_public_key = jc_public_key o',
                  jr_address = jc_node_address o', jr_site = jc_site o', jr_config = path_text (ja_out args),
                  jr_key_file = path_text (ja_key_file args), jr_peers = jc_bootstrap_peers o',
                  jr_peer_add_command = jc_peer_add_command o'\<rparr>), fs))"

section \<open>invite new\<close>

record bootstrap_report =
  br_name :: string
  br_public_key :: string
  br_endpoints :: "string list"

record invite_report =
  vr_token :: string
  vr_id :: string
  vr_network_name :: string
  vr_issuer :: string
  vr_issued_unix :: u64
  vr_expires_unix :: u64
  vr_bootstrap :: "bootstrap_report list"

definition invite_report_of :: "'sk invite_ops \<Rightarrow> invite \<Rightarrow> string \<Rightarrow> invite_report" where
  "invite_report_of ops iv token =
     \<lparr>vr_token = token, vr_id = id_string ops iv, vr_network_name = iv_network_name iv, vr_issuer = io_b64_encode ops (iv_issuer iv),
      vr_issued_unix = iv_issued_unix iv, vr_expires_unix = iv_expires_unix iv,
      vr_bootstrap = map (\<lambda>b. \<lparr>br_name = bp_name b, br_public_key = io_b64_encode ops (bp_public_key b),
        br_endpoints = map (\<lambda>e. show_sock (V6 e)) (bp_endpoints b)\<rparr>) (iv_bootstrap iv)\<rparr>"

text \<open>The whole command: \<open>signer\<close> is the signing key of a seed; the addresses, the random identifier and the time are arguments.\<close>

definition invite_new_cmd ::
  "'sk invite_ops \<Rightarrow> (key32 \<Rightarrow> 'sk) \<Rightarrow> (string \<Rightarrow> (string, ipv6 list) result) \<Rightarrow> string \<Rightarrow> string list \<Rightarrow> string \<Rightarrow> invite_id \<Rightarrow> time \<Rightarrow>
     (config_error, config \<times> key32) result \<Rightarrow> (cmd_error, invite_report) result" where
  "invite_new_cmd ops signer listed ttl_text given name rid now loaded =
     and_then (map_err CmdConfig loaded) (\<lambda>(cfg, seed).
     and_then (invite_command ops cfg (signer seed) (listed (ns_interface (cf_node cfg))) ttl_text given name rid (unix_secs now))
       (\<lambda>(iv, token). Inr (invite_report_of ops iv token)))"

section \<open>inspect\<close>

datatype node_error =
    NodeConfig config_error | NodeAddr addr_error | NodeDevice wg_error | NodeInterface platform_error
  | NodeOverlayRoute platform_error | NodeDelete platform_error | NodeUnsupported | NodeHeld string

record peer_report =
  er_name :: string
  er_public_key :: string
  er_address :: string
  er_endpoints :: "string list"

record inspect_report =
  in_network_name :: string
  in_prefix :: string
  in_public_key :: string
  in_address :: string
  in_site :: string
  in_peers :: "peer_report list"

definition peer_report_of :: "(public_key \<Rightarrow> string) \<Rightarrow> config_peer \<Rightarrow> peer_report" where
  "peer_report_of b64 p =
     \<lparr>er_name = cp_name p, er_public_key = b64 (cp_public_key p), er_address = show_ipv6 (address (cp_addr p)),
      er_endpoints = map (\<lambda>e. show_sock (V6 e)) (cp_endpoints p)\<rparr>"

definition inspect_cmd :: "cmd_env \<Rightarrow> file_system \<Rightarrow> file_path \<Rightarrow> (node_error, inspect_report) result option" where
  "inspect_cmd env fs path =
     (case load_node env fs path of
        None \<Rightarrow> None
      | Some (Inl e) \<Rightarrow> Some (Inl (NodeConfig e))
      | Some (Inr (cfg, seed)) \<Rightarrow>
          let pk = ce_ed_public env seed in
          Some (and_then (map_err NodeAddr (derive_node_addr (ce_sha env) (cf_prefix cfg) pk)) (\<lambda>own.
            Inr \<lparr>in_network_name = cf_network_name cfg, in_prefix = show_prefix (cf_prefix cfg), in_public_key = ce_b64 env pk,
                 in_address = show_ipv6 (address own), in_site = show_ipv6 (site own) @ ''/64'',
                 in_peers = map (peer_report_of (ce_b64 env)) (cf_peers cfg)\<rparr>)))"

section \<open>up and down\<close>

text \<open>The backend and the interface of the platform are those of \<open>start_env\<close>.\<close>

definition up_interface :: "platform \<Rightarrow> 'b start_env \<Rightarrow> config \<Rightarrow> node_addr \<Rightarrow> string \<Rightarrow> (node_error, unit) result" where
  "up_interface os env cfg own dev =
     and_then (map_err NodeInterface (sx_setup env dev (address own) PREFIX_LEN (ns_mtu (cf_node cfg)))) (\<lambda>_.
     if os = OnMacos \<or> os = OnWindows
     then map_err NodeOverlayRoute (sx_add_route env dev (prefix_network (cf_prefix cfg)) PREFIX_LEN) else Inr ())"

text \<open>The line printed: the configured name, the name of the device where it can differ, the address, the number of peers.\<close>

record up_report =
  up_interface_name :: string
  up_device :: "string option"
  up_address :: ipv6
  up_peers :: nat

definition up_cmd ::
  "platform \<Rightarrow> show_ops \<Rightarrow> sha256 \<Rightarrow> (key32 \<Rightarrow> public_key) \<Rightarrow> (key32 \<Rightarrow> key32) \<Rightarrow> 'b start_env \<Rightarrow>
     (config_error, config \<times> key32) result \<Rightarrow> 'b \<Rightarrow> (node_error, up_report) result \<times> 'b" where
  "up_cmd os ops sha ed_public wg_secret env loaded b =
     (if os = OnOther then (Inl NodeUnsupported, b)
      else case loaded of
        Inl e \<Rightarrow> (Inl (NodeConfig e), b)
      | Inr (cfg, seed) \<Rightarrow>
          (case derive_node_addr sha (cf_prefix cfg) (ed_public seed) of
             Inl e \<Rightarrow> (Inl (NodeAddr e), b)
           | Inr own \<Rightarrow>
               (case sx_apply env (build_device_spec (wg_public_bytes ops) cfg (wg_secret seed)) b of
                  (Inl e, b) \<Rightarrow> (Inl (NodeDevice e), b)
                | (Inr dev, b) \<Rightarrow>
                    (and_then (up_interface os env cfg own dev) (\<lambda>_.
                       Inr \<lparr>up_interface_name = ns_interface (cf_node cfg), up_device = (if os = OnLinux then None else Some dev),
                            up_address = address own, up_peers = length (cf_peers cfg)\<rparr>), b))))"

text \<open>Only Linux and the platforms without an implementation ask for the interface to be deleted.\<close>

definition down_cmd ::
  "platform \<Rightarrow> (string \<Rightarrow> (platform_error, unit) result) \<Rightarrow> (config_error, config \<times> key32) result \<Rightarrow> (node_error, string) result" where
  "down_cmd os delete_interface loaded =
     (case loaded of
        Inl e \<Rightarrow> Inl (NodeConfig e)
      | Inr (cfg, _) \<Rightarrow>
          if os = OnMacos \<or> os = OnWindows then Inl (NodeHeld (ns_interface (cf_node cfg)))
          else and_then (map_err NodeDelete (delete_interface (ns_interface (cf_node cfg)))) (\<lambda>_. Inr (ns_interface (cf_node cfg))))"

section \<open>doctor\<close>

datatype doctor_error =
    DocConfig config_error | DocEndpoint arg_error | DocNoPeers | DocNoSuchPeer string | DocManyPeers nat | DocNoAddress string
  | DocAddresses platform_error | DocSockets | DocBind u16

record doctor_args =
  da_peer :: "string option"
  da_probe_endpoint :: "string option"
  da_serve :: bool

definition chosen_peer :: "config \<Rightarrow> doctor_args \<Rightarrow> (doctor_error, config_peer) result" where
  "chosen_peer cfg args =
     (if cf_peers cfg = [] then Inl DocNoPeers
      else case da_peer args of
        Some name \<Rightarrow>
          (case find (\<lambda>p. cp_name p = name) (cf_peers cfg) of None \<Rightarrow> Inl (DocNoSuchPeer name) | Some p \<Rightarrow> Inr p)
      | None \<Rightarrow> if length (cf_peers cfg) = 1 then Inr (hd (cf_peers cfg)) else Inl (DocManyPeers (length (cf_peers cfg))))"

text \<open>The address the kernel has for a peer; only on Linux, and an unreadable device has none.\<close>

definition kernel_ip :: "platform \<Rightarrow> show_ops \<Rightarrow> ('e, peer_status list) result \<Rightarrow> config_peer \<Rightarrow> ipv6 option" where
  "kernel_ip os ops statuses p =
     (if os \<noteq> OnLinux then None
      else case statuses of
        Inl _ \<Rightarrow> None
      | Inr ss \<Rightarrow>
          Option.bind (find (\<lambda>s. wgs_public s = wg_public_bytes ops (cp_public_key p)) ss)
            (\<lambda>s. case wgs_endpoint s of Some (V6 e) \<Rightarrow> Some (ip e) | _ \<Rightarrow> None))"

definition resolve_target ::
  "platform \<Rightarrow> show_ops \<Rightarrow> config \<Rightarrow> doctor_args \<Rightarrow> ('e, peer_status list) result \<Rightarrow> (doctor_error, socket_v6) result" where
  "resolve_target os ops cfg args statuses =
     (case da_probe_endpoint args of
        Some raw \<Rightarrow> map_err DocEndpoint (parse_endpoint raw)
      | None \<Rightarrow>
          and_then (chosen_peer cfg args) (\<lambda>p.
            case (case kernel_ip os ops statuses p of
                    Some a \<Rightarrow> Some a
                  | None \<Rightarrow> (case cp_endpoints p of [] \<Rightarrow> None | e # _ \<Rightarrow> Some (ip e))) of
              None \<Rightarrow> Inl (DocNoAddress (cp_name p))
            | Some a \<Rightarrow> Inr (sock a (ns_probe_port (cf_node cfg)))))"

text \<open>
  What the operating system answers: the device's peers, the global addresses, whether the sockets could be bound, the
  nonce drawn and the events of the exchange.
\<close>

record 'e doctor_io =
  dx_statuses :: "('e, peer_status list) result"
  dx_global :: "(platform_error, ipv6 list) result"
  dx_sockets :: bool
  dx_nonce :: u64
  dx_events :: "client_event list"

datatype doctor_end = DoctorServes u16 key32 | DoctorSays probe_outcome

definition doctor_cmd ::
  "platform \<Rightarrow> show_ops \<Rightarrow> hkdf \<Rightarrow> hmac \<Rightarrow> doctor_args \<Rightarrow> 'e doctor_io \<Rightarrow> (config_error, config \<times> key32) result \<Rightarrow>
     (doctor_error, doctor_end) result" where
  "doctor_cmd os ops kdf mac args dx loaded =
     (case loaded of
        Inl e \<Rightarrow> Inl (DocConfig e)
      | Inr (cfg, _) \<Rightarrow>
          let key = derive_probe_key kdf (cf_network_key cfg) in
          if da_serve args
          then (if dx_sockets dx then Inr (DoctorServes (ns_probe_port (cf_node cfg)) key) else Inl (DocBind (ns_probe_port (cf_node cfg))))
          else
            and_then (resolve_target os ops cfg args (dx_statuses dx)) (\<lambda>target.
            and_then (map_err DocAddresses (dx_global dx)) (\<lambda>global.
            if dx_sockets dx
            then Inr (DoctorSays (probe_result (client_run mac key (dx_nonce dx) client_new (dx_events dx)) target global))
            else Inl DocSockets)))"

section \<open>status\<close>

text \<open>The report of the platform: from the kernel on Linux, from the daemon's file elsewhere.\<close>

definition read_report ::
  "platform \<Rightarrow> show_ops \<Rightarrow> config \<Rightarrow> string \<Rightarrow> ('e, peer_status list) result \<Rightarrow> (io_error, engine_state) result \<Rightarrow> time \<Rightarrow>
     ('e, status_report) result" where
  "read_report os ops cfg path statuses state_file now =
     (if os = OnLinux then build_report ops cfg path statuses state_file now
      else Inr (build_report_from_state ops cfg path state_file now))"

datatype header_line = DaemonRunning u64 | DaemonStale string u64 | DaemonAbsent

definition daemon_header :: "daemon_info option \<Rightarrow> header_line" where
  "daemon_header d =
     (case d of
        None \<Rightarrow> DaemonAbsent
      | Some d \<Rightarrow> if di_running d then DaemonRunning (di_updated_secs_ago d) else DaemonStale (di_state_file d) (di_updated_secs_ago d))"

definition show_u64 :: "u64 \<Rightarrow> string" where
  "show_u64 n = show_number 10 (uint n)"

text \<open>A line of the printed table, and one of the interactive view, which has no count of LAN endpoints.\<close>

definition status_line :: "status_row \<Rightarrow> string list" where
  "status_line r =
     [sr_peer r, sr_address r, unwrap_or (sr_endpoint r) [], unwrap_or (sr_endpoint_source r) ''-'',
      (case sr_lan_endpoints r of None \<Rightarrow> ''-'' | Some n \<Rightarrow> show_number 10 (int n)),
      punch_column r, handshake_column r, show_u64 (sr_rx_bytes r), show_u64 (sr_tx_bytes r), routes_column r]"

definition tui_row :: "status_row \<Rightarrow> string list" where
  "tui_row r =
     [sr_peer r, sr_address r, unwrap_or (sr_endpoint r) [], unwrap_or (sr_endpoint_source r) ''-'',
      punch_column r, handshake_column r, show_u64 (sr_rx_bytes r), show_u64 (sr_tx_bytes r), routes_column r]"

definition peer_rows :: "status_row list \<Rightarrow> string list list" where
  "peer_rows = map tui_row"

datatype 'e status_error = StatusUnsupported | StatusConfig config_error | StatusBothViews | StatusRead 'e

datatype status_output = ShowJson status_report | ShowTable header_line "string list list" | ShowTui config

definition status_cmd ::
  "platform \<Rightarrow> show_ops \<Rightarrow> (config \<Rightarrow> string) \<Rightarrow> bool \<Rightarrow> bool \<Rightarrow> ('e, peer_status list) result \<Rightarrow> (io_error, engine_state) result \<Rightarrow> time \<Rightarrow>
     (config_error, config \<times> key32) result \<Rightarrow> ('e status_error, status_output) result" where
  "status_cmd os ops state_path json tui statuses state_file now loaded =
     (if os = OnOther then Inl StatusUnsupported
      else case loaded of
        Inl e \<Rightarrow> Inl (StatusConfig e)
      | Inr (cfg, _) \<Rightarrow>
          if tui then (if json then Inl StatusBothViews else Inr (ShowTui cfg))
          else and_then (map_err StatusRead (read_report os ops cfg (state_path cfg) statuses state_file now)) (\<lambda>r.
            Inr (if json then ShowJson r else ShowTable (daemon_header (rep_daemon r)) (map status_line (rep_peers r)))))"

section \<open>The interactive view\<close>

datatype key_code = KeyChar char | KeyEsc | KeyOther
datatype key_kind = Press | Repeat | Release
datatype tui_event = KeyEvent key_code bool key_kind | OtherEvent

definition quit_requested :: "tui_event \<Rightarrow> bool" where
  "quit_requested e =
     (case e of
        OtherEvent \<Rightarrow> False
      | KeyEvent code control kind \<Rightarrow>
          if kind \<noteq> Press then False
          else case code of
            KeyChar c \<Rightarrow> c = CHR ''q'' \<or> c = CHR ''c'' \<and> control
          | KeyEsc \<Rightarrow> True
          | KeyOther \<Rightarrow> False)"

datatype 'e tui_header = HeaderDaemon header_line | HeaderUnavailable 'e | HeaderReading

record 'e tui_frame =
  tf_header :: "'e tui_header"
  tf_rows :: "string list list"
  tf_footer :: "'e option"

definition tui_draw :: "status_report option \<Rightarrow> 'e option \<Rightarrow> 'e tui_frame" where
  "tui_draw report err =
     \<lparr>tf_header = (case report of
         Some r \<Rightarrow> HeaderDaemon (daemon_header (rep_daemon r))
       | None \<Rightarrow> (case err of Some e \<Rightarrow> HeaderUnavailable e | None \<Rightarrow> HeaderReading)),
      tf_rows = (case report of Some r \<Rightarrow> peer_rows (rep_peers r) | None \<Rightarrow> []),
      tf_footer = err\<rparr>"

text \<open>A turn of the loop: the report as read, whether drawing works, and what polling for an event and reading it give.\<close>

record 'e tui_turn =
  tt_report :: "('e, status_report) result"
  tt_draw :: bool
  tt_poll :: "(unit, bool) result"
  tt_read :: "(unit, tui_event) result"

datatype tui_end = TuiQuit | TuiDrawFailed | TuiPollFailed | TuiReadFailed | TuiRunning

fun tui_loop :: "status_report option \<Rightarrow> 'e tui_turn list \<Rightarrow> 'e tui_frame list \<times> tui_end" where
  "tui_loop last_report [] = ([], TuiRunning)"
| "tui_loop last_report (t # ts) =
     (let last_report = (case tt_report t of Inr r \<Rightarrow> Some r | Inl _ \<Rightarrow> last_report);
          err = (case tt_report t of Inl e \<Rightarrow> Some e | Inr _ \<Rightarrow> None);
          go = (\<lambda>_. let (fs, w) = tui_loop last_report ts in (tui_draw last_report err # fs, w))
      in if \<not> tt_draw t then ([], TuiDrawFailed)
         else case tt_poll t of
           Inl _ \<Rightarrow> ([tui_draw last_report err], TuiPollFailed)
         | Inr False \<Rightarrow> go ()
         | Inr True \<Rightarrow>
             (case tt_read t of
                Inl _ \<Rightarrow> ([tui_draw last_report err], TuiReadFailed)
              | Inr e \<Rightarrow> if quit_requested e then ([tui_draw last_report err], TuiQuit) else go ()))"

text \<open>The terminal: \<open>Tui::new\<close> takes it over in three steps, \<open>Drop\<close> gives it back and ignores failures.\<close>

record term_state =
  tm_raw :: bool
  tm_alternate :: bool

datatype tui_step = EnableRaw | EnterAlternate | NewTerminal

definition tui_new :: "(tui_step \<Rightarrow> bool) \<Rightarrow> term_state \<Rightarrow> (tui_step, unit) result \<times> term_state" where
  "tui_new works tm =
     (if \<not> works EnableRaw then (Inl EnableRaw, tm)
      else if \<not> works EnterAlternate then (Inl EnterAlternate, tm\<lparr>tm_raw := True\<rparr>)
      else if \<not> works NewTerminal then (Inl NewTerminal, tm\<lparr>tm_raw := True, tm_alternate := True\<rparr>)
      else (Inr (), tm\<lparr>tm_raw := True, tm_alternate := True\<rparr>))"

definition tui_dropped :: "bool \<Rightarrow> bool \<Rightarrow> term_state \<Rightarrow> term_state" where
  "tui_dropped leaves disables tm =
     tm\<lparr>tm_alternate := tm_alternate tm \<and> \<not> leaves, tm_raw := tm_raw tm \<and> \<not> disables\<rparr>"

text \<open>The whole view; while the loop is running the terminal stays taken.\<close>

definition tui_run ::
  "(tui_step \<Rightarrow> bool) \<Rightarrow> bool \<Rightarrow> bool \<Rightarrow> 'e tui_turn list \<Rightarrow> term_state \<Rightarrow> (tui_step, 'e tui_frame list \<times> tui_end) result \<times> term_state" where
  "tui_run works leaves disables ts tm =
     (case tui_new works tm of
        (Inl e, tm) \<Rightarrow> (Inl e, tm)
      | (Inr _, tm) \<Rightarrow>
          let (fs, w) = tui_loop None ts in (Inr (fs, w), if w = TuiRunning then tm else tui_dropped leaves disables tm))"

section \<open>The Windows service\<close>

datatype service_control = Interrogate | StopControl | OtherControl
datatype handler_result = NoError | NotImplemented
datatype service_state = ServiceRunning | ServiceStopped

text \<open>The handler's answer and whether it signals the waiting service.\<close>

definition service_event :: "service_control \<Rightarrow> handler_result \<times> bool" where
  "service_event c = (case c of Interrogate \<Rightarrow> (NoError, False) | StopControl \<Rightarrow> (NoError, True) | OtherControl \<Rightarrow> (NotImplemented, False))"

datatype service_error = SvcRegister | SvcSetStatus service_state | SvcRuntime | SvcDaemon start_error

record service_io =
  vx_register :: bool
  vx_set_status :: "service_state \<Rightarrow> bool"
  vx_runtime :: bool
  vx_controls :: "service_control list"
  vx_ended :: "daemon_handle \<Rightarrow> (start_error, unit) result"

text \<open>The states reported and the result, or nothing while the service waits for a stop.\<close>

definition run_service :: "service_io \<Rightarrow> file_path \<Rightarrow> service_state list \<times> (service_error, unit) result option" where
  "run_service vx config =
     (if \<not> vx_register vx then ([], Some (Inl SvcRegister))
      else if \<not> vx_set_status vx ServiceRunning then ([], Some (Inl (SvcSetStatus ServiceRunning)))
      else if \<not> vx_runtime vx then ([ServiceRunning], Some (Inl SvcRuntime))
      else if \<not> list_ex (\<lambda>c. snd (service_event c)) (vx_controls vx) then ([ServiceRunning], None)
      else case vx_ended vx (spawn config) of
        Inl e \<Rightarrow> ([ServiceRunning], Some (Inl (SvcDaemon e)))
      | Inr _ \<Rightarrow>
          if vx_set_status vx ServiceStopped then ([ServiceRunning, ServiceStopped], Some (Inr ()))
          else ([ServiceRunning], Some (Inl (SvcSetStatus ServiceStopped))))"

section \<open>A new network\<close>

lemma keygen_Inr:
  assumes "keygen_cmd env out force fs = (Inr (pk, p), fs')"
  shows "fs' out = Some (io_b64_encode (be_ops env) (be_seed env) @ newline) \<and> pk = io_b64_encode (be_ops env) (be_ed_public env (be_seed env))"
  using assms by (auto simp: keygen_cmd_def split: if_splits prod.splits sum.splits dest!: identity_save_Inr)

text \<open>Only \<open>--force\<close> gives up a file, and only the key file; a failure to save then leaves no key.\<close>

lemma keygen_keeps:
  assumes "others_only_add env" and "keygen_cmd env out force fs = (r, fs')" and "fs q = Some v" and "q = out \<Longrightarrow> \<not> force"
  shows "fs' q = Some v"
proof -
  let ?fs = "be_before_save env (if fs out \<noteq> None then remove_file fs out else fs)"
  have "?fs q = Some v" if "q \<noteq> out" using that assms(1,3) others_keep(1) by (auto simp: remove_file_def)
  then have "snd (identity_save env ?fs out (be_seed env)) q = Some v" if "q \<noteq> out"
    using that identity_save_keeps [of env ?fs out "be_seed env"] by (metis prod.collapse)
  with assms(2-4) show ?thesis
    by (cases "q = out") (auto simp: keygen_cmd_def split: if_splits prod.splits sum.splits)
qed

lemma keygen_force_loses:
  assumes "fs out \<noteq> None" and "be_removed env" and "be_save env = IoOpenFails" and "be_before_save env = id"
  shows "keygen_cmd env out True fs = (Inl (KeySave (Io ''save'')), fs(out := None))"
  using assms by (simp add: keygen_cmd_def identity_save_def remove_file_def)

text \<open>What the TOML reader makes of the template of \<open>init\<close>: that of an invitation without bootstrap peers.\<close>

definition init_raw :: "'sk invite_ops \<Rightarrow> string \<Rightarrow> network_key \<Rightarrow> file_path \<Rightarrow> file_path \<Rightarrow> u16 \<Rightarrow> file_path option \<Rightarrow> raw_config" where
  "init_raw ops name key config_path key_path lp state_dir =
     \<lparr>rc_network_name = name, rc_network_key = io_b64_encode ops key,
      rc_node = raw_node_of (key_file_ref_for_config config_path key_path) lp state_dir, rc_peers = []\<rparr>"

definition bare_invite :: "string \<Rightarrow> network_key \<Rightarrow> invite" where
  "bare_invite name key = invite_new 0 name key 0 0 0 0 []"

lemma bare_invite_fields [simp]:
  "iv_network_name (bare_invite name key) = name" "iv_network_key (bare_invite name key) = key" "iv_bootstrap (bare_invite name key) = []"
  by (simp_all add: bare_invite_def invite_new_def)

lemma init_raw_bare: "join_raw ops (bare_invite name key) cp kp lp sd = init_raw ops name key cp kp lp sd"
  by (simp add: join_raw_def init_raw_def)

definition init_key :: "'sk boot_env \<Rightarrow> init_args \<Rightarrow> network_key \<Rightarrow> bool" where
  "init_key env args key \<longleftrightarrow>
     (case ia_network_key args of
        None \<Rightarrow> key = be_network_key env
      | Some s \<Rightarrow> network_key_from_base64 (io_text (be_ops env)) s = Inr key)"

lemma init_network_done:
  assumes "others_only_add env" and "init_cmd env args fs = (Inr outc, fs')" and "init_key env args key"
    and "identity_load (io_text (be_ops env)) (fs (ia_key_file args)) = Inr seed" and "fs (ia_key_file args) = Some v"
  obtains own where "fs' (ia_key_file args) = Some v"
    "fs' (ia_out args) = Some (render_template (io_b64_encode (be_ops env)) (ia_name args) key
       (key_file_ref_for_config (ia_out args) (ia_key_file args)) (ia_listen_port args) (ia_state_dir args))"
    "derive_node_addr (be_sha env) (prefix_derive (be_kdf env) key) (be_ed_public env seed) = Inr own"
    "ic_network_name outc = ia_name args" "ic_prefix outc = show_prefix (prefix_derive (be_kdf env) key)"
    "ic_node_address outc = show_ipv6 (address own)"
proof -
  let ?txt = "render_template (io_b64_encode (be_ops env)) (ia_name args) key
       (key_file_ref_for_config (ia_out args) (ia_key_file args)) (ia_listen_port args) (ia_state_dir args)"
  have l: "load_or_generate_identity env fs (ia_key_file args) True = Inr (seed, False)"
    using assms(4,5) by (simp add: load_or_generate_identity_def)
  have k: "(case ia_network_key args of
                 Some s \<Rightarrow> map_err BootNetworkKey (network_key_from_base64 (io_text (be_ops env)) s)
               | None \<Rightarrow> Inr (be_network_key env)) = Inr key"
    using assms(3) by (auto simp: init_key_def split: option.splits)
  obtain own where own: "derive_node_addr (be_sha env) (prefix_derive (be_kdf env) key) (be_ed_public env seed) = Inr own"
    using assms(2) by (cases "derive_node_addr (be_sha env) (prefix_derive (be_kdf env) key) (be_ed_public env seed)")
      (simp_all add: init_cmd_def init_network_def init_checks_def l k)
  have c: "init_checks env (ia_key_file args) (ia_network_key args) True fs = Inr (seed, False, key, own)"
    by (simp add: init_checks_def l k own)
  obtain r s where s: "save_and_write env fs (ia_key_file args) (ia_out args) seed False ?txt = (r, s)" by fastforce
  have o: "s = fs'" "r = Inr ()" "ic_network_name outc = ia_name args" "ic_prefix outc = show_prefix (prefix_derive (be_kdf env) key)"
    "ic_node_address outc = show_ipv6 (address own)"
    using assms(2) by (cases r; auto simp: init_cmd_def init_network_def c s)+
  from s have s: "save_and_write env fs (ia_key_file args) (ia_out args) seed False ?txt = (Inr (), fs')" by (simp add: o)
  show thesis using that [OF save_and_write_keeps [OF assms(1) _ s assms(5)] _ own o(3-5)] save_and_write_done [OF assms(1) s] by simp
qed


definition ex_init_args :: init_args where
  "ex_init_args = \<lparr>ia_name = ''home'', ia_key_file = ex_key, ia_listen_port = 4193, ia_state_dir = None, ia_network_key = None, ia_out = ex_conf\<rparr>"

lemma ex_keygen:
  "\<exists>pk fs1. keygen_cmd ex_boot ex_key False Map.empty = (Inr (pk, ex_key), fs1) \<and> fs1 = [ex_key \<mapsto> io_b64_encode ex_invite_ops 3 @ newline]"
  by (simp add: keygen_cmd_def identity_save_def ex_boot_def)

lemma ex_init_done: "\<exists>outc fs2. init_cmd ex_boot ex_init_args [ex_key \<mapsto> io_b64_encode ex_invite_ops 3 @ newline] = (Inr outc, fs2)"
proof -
  let ?fs = "[ex_key \<mapsto> io_b64_encode ex_invite_ops 3 @ newline]"
  have p: "prefix_derive (be_kdf ex_boot) k = ex_prefix" for k
    by (simp add: ex_boot_def prefix_derive_def ex_prefix_def eval_nat_numeral)
  have i: "identity_load (io_text ex_invite_ops) (Some (io_b64_encode ex_invite_ops 3 @ newline)) = Inr 3"
    using identity_reads_back ex_boot_laws(3) by (simp add: ex_boot_def)
  have "init_checks ex_boot ex_key None True ?fs = Inr (3, False, 5, ex_addr 9)"
    using i by (simp add: init_checks_def load_or_generate_identity_def p) (simp add: ex_boot_def ex_addrs)
  then show ?thesis
    by (simp add: init_cmd_def init_network_def ex_init_args_def save_and_write_def write_new_0600_def split: prod.splits sum.splits)
       (simp add: ex_boot_def ex_key_def ex_conf_def)
qed


section \<open>up and the daemon\<close>

fun node_error_of :: "start_error \<Rightarrow> node_error option" where
  "node_error_of (StartConfig e) = Some (NodeConfig e)"
| "node_error_of (StartAddr e) = Some (NodeAddr e)"
| "node_error_of (StartDevice e) = Some (NodeDevice e)"
| "node_error_of (StartInterface e) = Some (NodeInterface e)"
| "node_error_of (StartOverlayRoute e) = Some (NodeOverlayRoute e)"
| "node_error_of _ = None"

definition up_report_of :: "platform \<Rightarrow> running \<Rightarrow> up_report" where
  "up_report_of os r =
     \<lparr>up_interface_name = ns_interface (cf_node (ru_config r)), up_device = (if os = OnLinux then None else Some (ru_device r)),
      up_address = address (ru_own r), up_peers = length (cf_peers (ru_config r))\<rparr>"

lemma map_err_case: "map_err f r = (case r of Inl e \<Rightarrow> Inl (f e) | Inr a \<Rightarrow> Inr a)"
  by (cases r) simp_all


text \<open>The difference on Windows: the route of the overlay.\<close>

lemma up_windows_route:
  assumes "loaded = Inr (cfg, seed)" and "derive_node_addr sha (cf_prefix cfg) (ed_public seed) = Inr own"
    and "sx_apply env (build_device_spec (wg_public_bytes ops) cfg (wg_secret seed)) b = (Inr dev, b')"
    and "sx_setup env dev (address own) PREFIX_LEN (ns_mtu (cf_node cfg)) = Inr ()"
    and "sx_add_route env dev (prefix_network (cf_prefix cfg)) PREFIX_LEN = Inl e"
    and "sx_state_dir env" and "sx_nudge env" and "\<not> sx_macos env"
  shows "fst (up_cmd OnWindows ops sha ed_public wg_secret env loaded b) = Inl (NodeOverlayRoute e) \<and>
    (\<exists>r. fst (bring_up ops sha kdf ed_public wg_secret env PlatformTransport loaded b) = Inr r)"
  using assms by (simp add: up_cmd_def bring_up_def up_interface_def set_up_interface_def)


section \<open>doctor\<close>

text \<open>The peer asked is one of the configuration, by the name given or the only one.\<close>

lemma chosen_peer_Inr:
  "chosen_peer cfg args = Inr p \<Longrightarrow> p \<in> set (cf_peers cfg) \<and> (case da_peer args of Some n \<Rightarrow> cp_name p = n | None \<Rightarrow> cf_peers cfg = [p])"
  by (auto simp: chosen_peer_def find_Some_iff length_Suc_conv split: if_splits option.splits)

lemma client_verdict:
  "po_reachability (probe_result c target global) =
     (if global = [] then NoIpv6 else if pc_unsolicited c then Open else if pc_solicited c then Stateful else Blocked)"
  by (simp add: probe_result_def classify_def Let_def)

lemma client_target: "po_target (probe_result c target global) = target"
  by (simp add: probe_result_def Let_def)

text \<open>
  C36: The doctor's question reaches the daemon it is meant for. Two nodes share a network key and a probe port; the
  second one's daemon serves probes. When the first one runs \<open>hextet doctor\<close> for that peer, the probe goes to the
  address the kernel last saw the peer at, and to its first configured endpoint when the kernel knows none, at the port
  the daemon listens on; the daemon accepts the request under its own key and answers with a reply and a later
  unsolicited packet to the second socket. \<open>doctor\<close> then says open when the unsolicited packet arrives, stateful when
  only the reply does and blocked when neither does, names that target, and says no-ipv6 instead when it has no global
  address.
\<close>

theorem doctor_reaches_daemon:
  assumes peer: "da_serve args = False" "da_probe_endpoint args = None" "chosen_peer cfg args = Inr p"
    and addr: "a = (case kernel_ip os ops (dx_statuses dx) p of Some k \<Rightarrow> k | None \<Rightarrow> ip (hd (cp_endpoints p)))"
      "kernel_ip os ops (dx_statuses dx) p \<noteq> None \<or> cp_endpoints p \<noteq> []"
    and daemon: "start_probe kdf sn cfg' = Some (dport, key)" "cf_network_key cfg' = cf_network_key cfg"
      "ns_probe_port (cf_node cfg') = ns_probe_port (cf_node cfg)"
    and open_sockets: "dx_sockets dx" "dx_global dx = Inr global" "rport \<noteq> 0"
    and limit: "snd (rate_allow l (ip src) now)"
  shows "\<exists>resp uns.
    snd (responder_step mac key l (V6 src) (probe_request mac key (dx_nonce dx) rport) now) =
      [Reply src resp, Delayed UNSOLICITED_DELAY \<lparr>ip = ip src, port = rport, flowinfo = 0, scope_id = scope_id src\<rparr> uns] \<and>
    (\<forall>es v. (es, v) \<in> {([RetryTick, RecvS1 resp, RecvS2 uns], Open), ([RetryTick, RecvS2 uns, Deadline], Open),
        ([RetryTick, RecvS1 resp, Deadline], Stateful), ([RetryTick, Deadline], Blocked)} \<longrightarrow>
      (\<exists>out. doctor_cmd os ops kdf mac args (dx\<lparr>dx_events := es\<rparr>) (Inr (cfg, seed)) = Inr (DoctorSays out) \<and>
         po_target out = sock a dport \<and> po_reachability out = (if global = [] then NoIpv6 else v)))"
proof -
  have key: "key = derive_probe_key kdf (cf_network_key cfg)" "dport = ns_probe_port (cf_node cfg)"
    using daemon by (auto simp: start_probe_def split: if_splits)
  have target: "resolve_target os ops cfg args (dx_statuses dx) = Inr (sock a dport)"
    using peer addr by (auto simp: resolve_target_def key split: option.splits list.splits)
  have "doctor_cmd os ops kdf mac args (dx\<lparr>dx_events := es\<rparr>) (Inr (cfg, seed)) =
      Inr (DoctorSays (probe_result (client_run mac key (dx_nonce dx) client_new es) (sock a dport) global))" for es
    using peer(1) open_sockets target by (simp add: doctor_cmd_def key)
  then show ?thesis unfolding responder_answers [OF limit] using open_sockets(3)
    by (auto simp: client_verdict client_target client_new_def client_finished_def)
qed

definition ex_doctor_args :: doctor_args where
  "ex_doctor_args = \<lparr>da_peer = None, da_probe_endpoint = None, da_serve = False\<rparr>"

text \<open>A node with one peer and an endpoint for it; the kernel has none.\<close>

definition ex_doctor_config :: config where
  "ex_doctor_config = ex_config\<lparr>cf_peers := [(hd (cf_peers ex_config))\<lparr>cp_endpoints := [sock 7 1]\<rparr>]\<rparr>"

definition ex_doctor_io :: "unit doctor_io" where
  "ex_doctor_io = \<lparr>dx_statuses = Inl (), dx_global = Inr [1], dx_sockets = True, dx_nonce = 9, dx_events = []\<rparr>"

theorem doctor_reaches_daemon_witness:
  "\<exists>resp uns out.
     snd (responder_step (\<lambda>_ _. 0) (derive_probe_key (\<lambda>_ _ _ n. replicate n 1) (cf_network_key ex_config)) rate_new (V6 (sock 8 2))
       (probe_request (\<lambda>_ _. 0) (derive_probe_key (\<lambda>_ _ _ n. replicate n 1) (cf_network_key ex_config)) 9 3) 0) =
       [Reply (sock 8 2) resp, Delayed UNSOLICITED_DELAY (sock 8 3) uns] \<and>
     doctor_cmd OnLinux ex_show (\<lambda>_ _ _ n. replicate n 1) (\<lambda>_ _. 0) ex_doctor_args
       (ex_doctor_io\<lparr>dx_events := [RetryTick, RecvS1 resp, Deadline]\<rparr>) (Inr (ex_doctor_config, 1)) = Inr (DoctorSays out) \<and>
     po_reachability out = Stateful"
proof -
  let ?kdf = "\<lambda>_ _ _ n. replicate n 1" and ?p = "(hd (cf_peers ex_config))\<lparr>cp_endpoints := [sock 7 1]\<rparr>"
  have c: "chosen_peer ex_doctor_config ex_doctor_args = Inr ?p"
    "cf_network_key ex_doctor_config = cf_network_key ex_config" "cf_node ex_doctor_config = cf_node ex_config"
    by (simp_all add: chosen_peer_def ex_doctor_config_def ex_doctor_args_def)
  have s: "start_probe ?kdf ex_service_env ex_config = Some (ns_probe_port (cf_node ex_config), derive_probe_key ?kdf (cf_network_key ex_config))"
    by (simp add: start_probe_def ex_service_env_def)
  have x: "da_serve ex_doctor_args = False" "da_probe_endpoint ex_doctor_args = None" "dx_sockets ex_doctor_io" "dx_global ex_doctor_io = Inr [1]"
    "dx_nonce ex_doctor_io = 9" "kernel_ip OnLinux ex_show (dx_statuses ex_doctor_io) ?p = None"
    by (simp_all add: ex_doctor_args_def ex_doctor_io_def kernel_ip_def)
  have r: "snd (rate_allow rate_new (ip (sock 8 2)) 0)" by (simp add: rate_allow_def rate_new_def)
  have e: "kernel_ip OnLinux ex_show (dx_statuses ex_doctor_io) ?p \<noteq> None \<or> cp_endpoints ?p \<noteq> []" by simp
  have src: "\<lparr>ip = ip (sock 8 2), port = 3, flowinfo = 0, scope_id = scope_id (sock 8 2)\<rparr> = sock 8 3" by (simp add: sock_def)
  have p: "(3 :: u16) \<noteq> 0" by simp
  from doctor_reaches_daemon [OF x(1,2) c(1) refl e s c(2) [symmetric] _ x(3,4) p r, of "\<lambda>_ _. 0" 1]
  show ?thesis unfolding c(3) src x(5) by fastforce
qed

section \<open>The interactive view\<close>

definition successes :: "('e, 'a) result list \<Rightarrow> 'a list" where
  "successes rs = concat (map (\<lambda>r. case r of Inl _ \<Rightarrow> [] | Inr a \<Rightarrow> [a]) rs)"

text \<open>The last report that was read, if any was.\<close>

definition last_good :: "status_report option \<Rightarrow> ('e, status_report) result list \<Rightarrow> status_report option" where
  "last_good start rs = (if successes rs = [] then start else Some (last (successes rs)))"

lemma last_good_Cons: "last_good start (r # rs) = last_good (case r of Inr a \<Rightarrow> Some a | Inl _ \<Rightarrow> start) rs"
  by (simp add: last_good_def successes_def split: sum.splits)

definition asks_to_quit :: "'e tui_turn \<Rightarrow> bool" where
  "asks_to_quit t \<longleftrightarrow> tt_poll t = Inr True \<and> (\<exists>e. tt_read t = Inr e \<and> quit_requested e)"

definition turn_error :: "('e, 'a) result \<Rightarrow> 'e option" where
  "turn_error r = (case r of Inl e \<Rightarrow> Some e | Inr _ \<Rightarrow> None)"

lemma tui_loop_frames:
  "tui_loop start ts = (frames, w) \<Longrightarrow> i < length frames \<Longrightarrow>
     i < length ts \<and> frames ! i = tui_draw (last_good start (map tt_report (take (Suc i) ts))) (turn_error (tt_report (ts ! i)))"
proof (induction start ts arbitrary: frames i rule: tui_loop.induct)
  case (2 start t ts)
  let ?start = "case tt_report t of Inr r \<Rightarrow> Some r | Inl _ \<Rightarrow> start"
  let ?frame = "tui_draw ?start (turn_error (tt_report t))"
  have g: "last_good start (map tt_report (take (Suc 0) (t # ts))) = ?start"
    by (simp add: last_good_def successes_def split: sum.splits)
  obtain fs w' where r: "tui_loop ?start ts = (fs, w')" by fastforce
  consider "frames = []" | "frames = [?frame]" | "frames = ?frame # fs" "tui_loop ?start ts = (fs, w)"
    using "2.prems"(1) r by (auto simp: Let_def turn_error_def split: if_splits sum.splits bool.splits)
  then show ?case
  proof cases
    case 3
    have IH: "i' < length fs \<Longrightarrow> i' < length ts \<and> fs ! i' = tui_draw (last_good ?start (map tt_report (take (Suc i') ts))) (turn_error (tt_report (ts ! i')))" for i'
      using "2.prems" "2.IH" 3 by (auto simp: Let_def split: if_splits sum.splits bool.splits)
    show ?thesis using 3 "2.prems"(2) g IH by (cases i) (auto simp: last_good_Cons)
  qed (use "2.prems"(2) g in auto)
qed simp

text \<open>
  Why the loop ended, at the turn of the last frame: the user asked for it, or that turn failed; before that turn nobody
  asked.
\<close>

lemma tui_loop_end:
  "tui_loop start ts = (frames, w) \<Longrightarrow>
     (\<forall>i. Suc i < length frames \<longrightarrow> \<not> asks_to_quit (ts ! i)) \<and>
     (w = TuiQuit \<longleftrightarrow> frames \<noteq> [] \<and> length frames \<le> length ts \<and> asks_to_quit (ts ! (length frames - 1)))"
proof (induction start ts arbitrary: frames rule: tui_loop.induct)
  case (2 start t ts)
  let ?start = "case tt_report t of Inr r \<Rightarrow> Some r | Inl _ \<Rightarrow> start"
  let ?frame = "tui_draw ?start (turn_error (tt_report t))"
  obtain fs w' where r: "tui_loop ?start ts = (fs, w')" by fastforce
  consider "frames = []" "w = TuiDrawFailed" | "frames = [?frame]" "w = TuiPollFailed \<or> w = TuiReadFailed" "\<not> asks_to_quit t"
    | "frames = [?frame]" "w = TuiQuit" "asks_to_quit t" | "frames = ?frame # fs" "tui_loop ?start ts = (fs, w)" "\<not> asks_to_quit t"
    using "2.prems"(1) r by (auto simp: Let_def turn_error_def asks_to_quit_def split: if_splits sum.splits bool.splits)
  then show ?case
  proof cases
    case 4
    have IH: "(\<forall>i. Suc i < length fs \<longrightarrow> \<not> asks_to_quit (ts ! i)) \<and>
        (w = TuiQuit \<longleftrightarrow> fs \<noteq> [] \<and> length fs \<le> length ts \<and> asks_to_quit (ts ! (length fs - 1)))"
      using "2.prems" "2.IH" 4 by (auto simp: Let_def split: if_splits sum.splits bool.splits)
    show ?thesis
    proof (intro conjI allI impI)
      show "\<not> asks_to_quit ((t # ts) ! i)" if "Suc i < length frames" for i using that 4 IH by (cases i) auto
      show "w = TuiQuit \<longleftrightarrow> frames \<noteq> [] \<and> length frames \<le> length (t # ts) \<and> asks_to_quit ((t # ts) ! (length frames - 1))"
        using 4 IH by (cases fs) auto
    qed
  qed auto
qed simp

text \<open>
  The interactive status view shows the last good report and gives the terminal back. Each frame drawn shows the
  report last read successfully, with the error of this turn's reading below it, if it failed; the view keeps running
  through such failures and ends by \<open>q\<close>, \<open>Esc\<close> or \<open>Ctrl-C\<close> in the very turn they are read. Once the view was set up,
  however the loop ends, the terminal is as it was; set-up that fails half-way leaves it in raw mode.
\<close>

theorem tui_shows_latest:
  "(\<forall>frames w tm'. tui_run works leaves disables ts tm = (Inr (frames, w), tm') \<longrightarrow>
      (\<forall>i<length frames. i < length ts \<and>
         frames ! i = tui_draw (last_good None (map tt_report (take (Suc i) ts))) (turn_error (tt_report (ts ! i)))) \<and>
      (\<forall>i. Suc i < length frames \<longrightarrow> \<not> asks_to_quit (ts ! i)) \<and>
      (w = TuiQuit \<longleftrightarrow> frames \<noteq> [] \<and> asks_to_quit (ts ! (length frames - 1))) \<and>
      (w \<noteq> TuiRunning \<and> leaves \<and> disables \<and> \<not> tm_raw tm \<and> \<not> tm_alternate tm \<longrightarrow> tm' = tm)) \<and>
   (\<forall>e tm'. tui_run works leaves disables ts tm = (Inl e, tm') \<longrightarrow> (tm' = tm \<or> tm_raw tm') \<and> (e \<noteq> EnableRaw \<longrightarrow> tm_raw tm'))"
proof (intro conjI allI impI)
  fix frames w tm' assume run: "tui_run works leaves disables ts tm = (Inr (frames, w), tm')"
  then have loop: "tui_loop None ts = (frames, w)"
    by (auto simp: tui_run_def Let_def split: prod.splits sum.splits)
  show "i < length ts" "frames ! i = tui_draw (last_good None (map tt_report (take (Suc i) ts))) (turn_error (tt_report (ts ! i)))"
    if "i < length frames" for i using tui_loop_frames [OF loop that] by blast+
  then have len: "length frames \<le> length ts" by (metis leI less_irrefl)
  show "\<not> asks_to_quit (ts ! i)" if "Suc i < length frames" for i using that tui_loop_end [OF loop] by blast
  show "w = TuiQuit \<longleftrightarrow> frames \<noteq> [] \<and> asks_to_quit (ts ! (length frames - 1))" using len tui_loop_end [OF loop] by blast
  show "w \<noteq> TuiRunning \<and> leaves \<and> disables \<and> \<not> tm_raw tm \<and> \<not> tm_alternate tm \<Longrightarrow> tm' = tm"
    using run by (auto simp: tui_run_def tui_new_def tui_dropped_def Let_def split: prod.splits if_splits)
qed (auto simp: tui_run_def tui_new_def Let_def split: prod.splits if_splits)

text \<open>A failed reading between two good ones, then \<open>Esc\<close>.\<close>

definition ex_turns :: "unit tui_turn list" where
  "ex_turns =
     [\<lparr>tt_report = Inr \<lparr>rep_daemon = None, rep_peers = []\<rparr>, tt_draw = True, tt_poll = Inr False, tt_read = Inl ()\<rparr>,
      \<lparr>tt_report = Inl (), tt_draw = True, tt_poll = Inr True, tt_read = Inr (KeyEvent KeyEsc False Press)\<rparr>]"

lemma ex_tui_run:
  "tui_run (\<lambda>_. True) True True ex_turns \<lparr>tm_raw = False, tm_alternate = False\<rparr> =
     (Inr ([tui_draw (Some \<lparr>rep_daemon = None, rep_peers = []\<rparr>) None, tui_draw (Some \<lparr>rep_daemon = None, rep_peers = []\<rparr>) (Some ())], TuiQuit),
      \<lparr>tm_raw = False, tm_alternate = False\<rparr>)"
  by (simp add: tui_run_def tui_new_def tui_dropped_def ex_turns_def quit_requested_def Let_def)

theorem tui_shows_latest_witness:
  "last_good None (map tt_report (take 2 ex_turns)) = Some \<lparr>rep_daemon = None, rep_peers = []\<rparr> \<and> asks_to_quit (ex_turns ! 1) \<and>
   tui_draw (Some \<lparr>rep_daemon = None, rep_peers = []\<rparr>) (Some ()) =
     tui_draw (last_good None (map tt_report (take 2 ex_turns))) (turn_error (tt_report (ex_turns ! 1)))"
proof -
  let ?good = "Some \<lparr>rep_daemon = None, rep_peers = []\<rparr>"
  note w = tui_shows_latest [THEN conjunct1, rule_format, OF ex_tui_run]
  have "asks_to_quit (ex_turns ! 1)" using w by simp
  moreover have "[tui_draw ?good None, tui_draw ?good (Some ())] ! 1 =
      tui_draw (last_good None (map tt_report (take (Suc 1) ex_turns))) (turn_error (tt_report (ex_turns ! 1)))"
    using w by (metis (no_types, lifting) One_nat_def length_Cons lessI list.size(3))
  ultimately show ?thesis by (simp add: ex_turns_def last_good_def successes_def eval_nat_numeral)
qed

section \<open>The service\<close>

text \<open>The service reports \<open>Stopped\<close> exactly when it ends well; a failed daemon leaves \<open>Running\<close> as the last report.\<close>

lemma service_reports:
  "(snd (run_service vx config) = Some (Inr ()) \<longleftrightarrow> ServiceStopped \<in> set (fst (run_service vx config))) \<and>
   (ServiceStopped \<in> set (fst (run_service vx config)) \<longrightarrow> StopControl \<in> set (vx_controls vx) \<and> vx_ended vx (spawn config) = Inr ()) \<and>
   (\<forall>e. snd (run_service vx config) = Some (Inl (SvcDaemon e)) \<longrightarrow> fst (run_service vx config) = [ServiceRunning])"
proof -
  have "snd (service_event c) \<longleftrightarrow> c = StopControl" for c by (cases c) (simp_all add: service_event_def)
  then show ?thesis by (auto simp: run_service_def list_ex_iff split: sum.splits)
qed

section \<open>The report of an invitation\<close>

text \<open>What \<open>invite new\<close> reports is what the reported token says to the node that decodes it.\<close>

lemma invite_report_true:
  assumes "invite_laws ops" and "invite_new_cmd ops signer listed ttl_text given name rid now (Inr (cfg, seed)) = Inr rep"
    and "length (vr_token rep) \<le> MAX_TOKEN_LEN" and "\<And>s e. s \<in> set given \<Longrightarrow> parse_endpoint s = Inr e \<Longrightarrow> \<not> is_ipv4_mapped (ip e)"
    and "given = [] \<Longrightarrow> listed (ns_interface (cf_node cfg)) = Inr as \<and> (\<forall>a\<in>set as. \<not> is_ipv4_mapped a)"
  shows "\<exists>iv. invite_decode ops (vr_token rep) = Inr iv \<and> rep = invite_report_of ops iv (vr_token rep) \<and>
    vr_network_name rep = cf_network_name cfg \<and> map br_name (vr_bootstrap rep) = [name]"
proof -
  obtain iv token where c: "invite_command ops cfg (signer seed) (listed (ns_interface (cf_node cfg))) ttl_text given name rid (unix_secs now) = Inr (iv, token)"
    and rep: "rep = invite_report_of ops iv token"
    using assms(2) by (auto simp: invite_new_cmd_def and_then_Inr)
  obtain eps where e: "invite_endpoints (listed (ns_interface (cf_node cfg))) (ns_listen_port (cf_node cfg)) given = Inr eps"
    and iv: "iv_bootstrap iv = [\<lparr>bp_name = name, bp_public_key = sk_public (io_signer ops) (signer seed), bp_endpoints = eps\<rparr>]"
    using invite_command_Inr [OF c] by (metis (no_types, lifting) invite.select_convs(8) invite_new_def)
  have "\<not> is_ipv4_mapped (ip x)" if x: "x \<in> set eps" for x
  proof (cases "given = []")
    case True
    then show ?thesis using e assms(5) x by (auto simp: invite_endpoints_def discover_own_endpoints_def sock_def split: if_splits)
  next
    case False
    then have l: "length given = length eps" "\<And>i. i < length eps \<Longrightarrow> parse_endpoint (given ! i) = Inr (eps ! i)"
      using e by (auto simp: invite_endpoints_def try_map_Inr list_all2_conv_all_nth)
    obtain i where "i < length eps" "x = eps ! i" using x by (auto simp: in_set_conv_nth)
    then have "given ! i \<in> set given" "parse_endpoint (given ! i) = Inr x" using l by simp_all
    then show ?thesis by (rule assms(4))
  qed
  then have m: "\<forall>b\<in>set (iv_bootstrap iv). \<forall>x\<in>set (bp_endpoints b). \<not> is_ipv4_mapped (ip x)" by (simp add: iv)
  have t: "vr_token rep = token" by (simp add: rep invite_report_of_def)
  show ?thesis
    by (rule issued_token_reads [OF assms(1) c assms(3) [unfolded t] m])
       (auto simp: rep invite_report_of_def)
qed

section \<open>Two views of one configuration\<close>

text \<open>\<open>inspect\<close> on the command line and \<open>load_config\<close> of the embedding interface read the same.\<close>

definition summary_of :: "inspect_report \<Rightarrow> config_summary" where
  "summary_of r = \<lparr>cy_network_name = in_network_name r, cy_prefix = in_prefix r, cy_node_address = in_address r,
     cy_node_public_key = in_public_key r,
     cy_peers = map (\<lambda>p. \<lparr>ys_name = er_name p, ys_public_key = er_public_key p, ys_address = er_address p\<rparr>) (in_peers r)\<rparr>"

lemma inspect_agrees:
  "ffi_load_config env fs path = Some (Inr y) \<longleftrightarrow> (\<exists>r. inspect_cmd env fs path = Some (Inr r) \<and> y = summary_of r)"
  by (auto simp: ffi_load_config_def inspect_cmd_def summary_of_def peer_summary_of_def peer_report_of_def Let_def and_then_case map_err_case comp_def
      split: option.splits sum.splits)

end
