(* ===== verification/Node_System.thy ===== *)
theory Node_System
  imports Cli_Node
begin

text \<open>
  The commands \<open>up\<close> and \<open>down\<close> on top of the platform layer: which implementation the crate \<open>platform\<close> exports on which
  system (\<open>crates/platform/src/lib.rs\<close>), and what the operating system has accepted when \<open>up\<close> reports success.
\<close>

section \<open>The platform's functions\<close>

text \<open>The answers of the three systems.\<close>

record platform_sys =
  py_look :: "string \<Rightarrow> (nl_error, u32 option) result"
  py_netlink :: "plat_request \<Rightarrow> nl_error option"
  py_exists :: "string \<Rightarrow> bool"
  py_ioctl :: "in6_request \<Rightarrow> ioctl_answer"
  py_index :: "string \<Rightarrow> u32 option"
  py_handle :: "string option"
  py_route :: "plat_request \<Rightarrow> string option"
  py_luid :: "string \<Rightarrow> (u32, u64) result"
  py_win :: "win_request \<Rightarrow> u32"

definition setup_interface :: "platform \<Rightarrow> platform_sys \<Rightarrow> string \<Rightarrow> ipv6 \<Rightarrow> u8 \<Rightarrow> u32 \<Rightarrow> (platform_error, unit) result" where
  "setup_interface os y name a len mtu =
     (case os of
        OnLinux \<Rightarrow> snd (linux_setup_interface (py_look y) (py_netlink y) name a len mtu)
      | OnMacos \<Rightarrow> macos_setup_interface (py_exists y) (py_ioctl y) name a len mtu
      | OnWindows \<Rightarrow> snd (win_setup_interface (py_luid y) (py_win y) name a len mtu)
      | OnOther \<Rightarrow> Inl Unsupported)"

definition delete_interface :: "platform \<Rightarrow> platform_sys \<Rightarrow> string \<Rightarrow> (platform_error, unit) result" where
  "delete_interface os y name =
     (case os of
        OnLinux \<Rightarrow> snd (linux_delete_interface (py_look y) (py_netlink y) name)
      | OnMacos \<Rightarrow> macos_delete_interface name
      | OnWindows \<Rightarrow> win_delete_interface name
      | OnOther \<Rightarrow> Inl Unsupported)"

definition add_route :: "platform \<Rightarrow> platform_sys \<Rightarrow> string \<Rightarrow> ipv6 \<Rightarrow> u8 \<Rightarrow> (platform_error, unit) result" where
  "add_route os y name p len =
     (case os of
        OnLinux \<Rightarrow> snd (linux_add_route (py_look y) (py_netlink y) name p len)
      | OnMacos \<Rightarrow> snd (macos_add_route (py_index y) (py_handle y) (py_route y) name p len)
      | OnWindows \<Rightarrow> snd (win_add_route (py_luid y) (py_win y) name p len)
      | OnOther \<Rightarrow> Inl Unsupported)"

definition remove_route :: "platform \<Rightarrow> platform_sys \<Rightarrow> string \<Rightarrow> ipv6 \<Rightarrow> u8 \<Rightarrow> (platform_error, unit) result" where
  "remove_route os y name p len =
     (case os of
        OnLinux \<Rightarrow> snd (linux_remove_route (py_look y) (py_netlink y) name p len)
      | OnMacos \<Rightarrow> snd (macos_remove_route (py_index y) (py_handle y) (py_route y) name p len)
      | OnWindows \<Rightarrow> snd (win_remove_route (py_luid y) (py_win y) name p len)
      | OnOther \<Rightarrow> Inl Unsupported)"

text \<open>The environment of \<open>up\<close> and of the daemon on a system.\<close>

definition on_platform :: "platform \<Rightarrow> platform_sys \<Rightarrow> 'b start_env \<Rightarrow> 'b start_env" where
  "on_platform os y env = env\<lparr>sx_setup := setup_interface os y, sx_macos := (os = OnMacos), sx_add_route := add_route os y\<rparr>"

section \<open>What the system accepted\<close>

lemma run_requests_Inr: "snd (run_requests sys rs) = Inr () \<longleftrightarrow> (\<forall>r\<in>set rs. sys r = None)"
  by (induction rs) (auto split: option.splits prod.splits)

lemma link_index_Inr: "link_index look name = Inr i \<longleftrightarrow> look name = Inr (Some i)"
  by (auto simp: link_index_def split: sum.splits option.splits if_splits)

lemma on_link_Inr:
  "snd (case link_index look name of Inl e \<Rightarrow> ([], Inl e) | Inr i \<Rightarrow> run_requests sys (rs i)) = Inr () \<longleftrightarrow>
     (\<exists>i. look name = Inr (Some i) \<and> (\<forall>r\<in>set (rs i). sys r = None))"
  unfolding link_index_Inr [symmetric] by (cases "link_index look name") (simp_all add: run_requests_Inr)

text \<open>The address, the MTU and the route of the overlay as each system is asked for them; only Linux is told the MTU.\<close>

definition interface_accepted :: "platform \<Rightarrow> platform_sys \<Rightarrow> config \<Rightarrow> ipv6 \<Rightarrow> string \<Rightarrow> bool" where
  "interface_accepted os y cfg a dev =
     (case os of
        OnLinux \<Rightarrow>
          (\<exists>i. py_look y dev = Inr (Some i) \<and> py_netlink y (AddAddress i a PREFIX_LEN True) = None \<and>
             py_netlink y (SetLink i (ns_mtu (cf_node cfg)) True) = None)
      | OnMacos \<Rightarrow>
          (\<exists>n i. copy_ifname dev = Inr n \<and> py_ioctl y (AliasReq n a (prefix_mask PREFIX_LEN)) = IoctlOk \<and>
             py_index y dev = Some i \<and> py_route y (RouteAdd i (prefix_network (cf_prefix cfg)) PREFIX_LEN) = None)
      | OnWindows \<Rightarrow>
          (\<exists>l. py_luid y dev = Inr l \<and> py_win y (CreateUnicast l a PREFIX_LEN) = 0 \<and>
             py_win y (CreateForward (route_row l (prefix_network (cf_prefix cfg)) PREFIX_LEN)) = 0)
      | OnOther \<Rightarrow> False)"

lemma ioctl_in6_Inr: "ioctl_in6 sys r name = Inr () \<longleftrightarrow> sys r = IoctlOk"
  by (auto simp: ioctl_in6_def split: ioctl_answer.splits if_splits)

lemma up_interface_accepted:
  assumes "up_interface os (on_platform os y env) cfg own dev = Inr ()"
  shows "interface_accepted os y cfg (address own) dev"
proof (cases os)
  case OnLinux
  with assms show ?thesis
    by (simp add: up_interface_def on_platform_def setup_interface_def linux_setup_interface_def interface_accepted_def and_then_Inr on_link_Inr)
next
  case OnMacos
  with assms show ?thesis
    by (auto simp: up_interface_def on_platform_def setup_interface_def macos_setup_interface_def assign_ipv6_def add_route_def macos_add_route_def
        macos_route_def interface_accepted_def and_then_Inr ioctl_in6_Inr split: sum.splits if_splits option.splits)
next
  case OnWindows
  with assms show ?thesis
    by (auto simp: up_interface_def on_platform_def setup_interface_def win_setup_interface_def add_route_def win_add_route_def iface_luid_def
        interface_accepted_def and_then_Inr Let_def split: sum.splits if_splits)
next
  case OnOther
  with assms show ?thesis by (auto simp: up_interface_def on_platform_def setup_interface_def and_then_Inr)
qed

text \<open>
  What \<open>up\<close> promises by reporting success: the backend took the device of the configuration, and the system accepted this
  node's own address and, where the kernel does not add it itself, the route of the overlay, on the very device the
  backend made. Elsewhere it only says that the platform is not supported. On Linux \<open>down\<close> then asks for exactly the link
  of the configured name to be deleted; on the other systems it never pretends to.
\<close>

theorem up_configures_system:
  "(\<forall>rep b'. up_cmd os ops sha ed_public wg_secret (on_platform os y env) (Inr (cfg, seed)) b = (Inr rep, b') \<longrightarrow>
      (\<exists>own dev. derive_node_addr sha (cf_prefix cfg) (ed_public seed) = Inr own \<and> up_address rep = address own \<and>
         sx_apply env (build_device_spec (wg_public_bytes ops) cfg (wg_secret seed)) b = (Inr dev, b') \<and>
         interface_accepted os y cfg (address own) dev)) \<and>
   (down_cmd os (delete_interface os y) (Inr (cfg, seed)) = Inr (ns_interface (cf_node cfg)) \<longleftrightarrow>
      os = OnLinux \<and> (\<exists>i. py_look y (ns_interface (cf_node cfg)) = Inr (Some i) \<and> py_netlink y (DelLink i) = None))"
proof (intro conjI allI impI)
  fix rep b' assume up: "up_cmd os ops sha ed_public wg_secret (on_platform os y env) (Inr (cfg, seed)) b = (Inr rep, b')"
  then obtain own dev where d: "derive_node_addr sha (cf_prefix cfg) (ed_public seed) = Inr own" "up_address rep = address own"
    "sx_apply env (build_device_spec (wg_public_bytes ops) cfg (wg_secret seed)) b = (Inr dev, b')"
    "up_interface os (on_platform os y env) cfg own dev = Inr ()"
    by (auto simp: up_cmd_def and_then_Inr on_platform_def split: if_splits sum.splits prod.splits)
  then show "\<exists>own dev. derive_node_addr sha (cf_prefix cfg) (ed_public seed) = Inr own \<and> up_address rep = address own \<and>
         sx_apply env (build_device_spec (wg_public_bytes ops) cfg (wg_secret seed)) b = (Inr dev, b') \<and>
         interface_accepted os y cfg (address own) dev"
    using up_interface_accepted by blast
next
  show "down_cmd os (delete_interface os y) (Inr (cfg, seed)) = Inr (ns_interface (cf_node cfg)) \<longleftrightarrow>
      os = OnLinux \<and> (\<exists>i. py_look y (ns_interface (cf_node cfg)) = Inr (Some i) \<and> py_netlink y (DelLink i) = None)"
    by (cases os) (simp_all add: down_cmd_def delete_interface_def linux_delete_interface_def and_then_Inr on_link_Inr)
qed

end
