(* ===== verification/Spec2Isabelle.thy ===== *)
theory Spec2Isabelle
  imports Prelude Contracts Net_Addr Site_Route Probe_Packet Relay_Frame Lan_Beacon Gossip_Entry
    Gossip_Store Candidates Punch_Fsm Relay_Server Relay_Client Lan_Discovery Gossip_Node Node_Config
    Route_Manager Member_Table Probe_Service Engine_State Daemon Daemon_Safety Daemon_Behaviour Std_Text Route_Text
    Rendezvous_Record Rendezvous_Tasks Config_Text Invite Bootstrap
    State_Files Std_Bytes Local_Ddns Local_Nodes Wg_Backend Device_Sync Platform Tun_Device Cli_Text Cli_Admin Daemon_Main
    First_Run Embedding Cli_Node Node_System
begin

text \<open>
  A verification development of hextet, an IPv6-only mesh VPN on top of WireGuard (Rust, the crates under
  \<open>src/crates\<close>). Every node derives its address from its key; a daemon drives one hole-punching state machine
  per peer, fed by the kernel's handshakes and by several sources of endpoints (configuration, cache, LAN
  announcements, gossip inside the tunnel, DHT and DDNS records); a relay is the last resort.

  \<^bold>\<open>Conventions.\<close> A struct is a record, an enum a datatype, a fixed-width integer a word, a hash map an
  association list with distinct keys, \<open>Result\<close> is \<open>result\<close> (\<open>Inl\<close> the error), a panic is \<open>None\<close>. A task that
  loops over \<open>select!\<close> is a function from its state and one event to its new state and what it sends, so that
  every interleaving is a list of events. Sockets, clocks, random bytes and the answers of the operating system
  are arguments of the events. Cryptography (HMAC, SHA-256, HKDF, Ed25519, AEAD), base64, JSON, TOML, HTTP, DNS
  and the DHT are third-party code: parameters of the definitions, with what is relied on as named hypotheses
  (\<open>hkdf_fills\<close>, \<open>signatures_verify\<close>, \<open>record_laws\<close>, \<open>invite_laws\<close>, \<open>gotatun_ok\<close>, \<open>toml_appends\<close>,
  \<open>key_text_ok\<close>), each shown satisfiable by a witness.

  \<^bold>\<open>Foundations.\<close>
  \<^item> \<open>Prelude\<close>: results and their laws, big-endian words, hash maps, saturating arithmetic, clocks.
  \<^item> \<open>Contracts\<close>: the interfaces, as locales: codecs (\<open>codec\<close>, \<open>exact_codec\<close>, \<open>reversible\<close>), bounded tables,
    last-writer-wins tables, machines with an invariant, the connection contract. Each is interpreted on the
    model in the theory that provides it.
  \<^item> \<open>Std_Text\<close>: the text forms of the standard library (numbers, IPv4, IPv6 and socket addresses, trimming),
    with proofs that what is printed reads back; \<open>Std_Bytes\<close>: searching, splitting and reading byte strings.

  \<^bold>\<open>Data and wire formats (crate core).\<close>
  \<^item> \<open>Net_Addr\<close> (\<open>addr.rs\<close>, \<open>network.rs\<close>, \<open>identity.rs\<close>): prefix, site and node address derivation.
  \<^item> \<open>Site_Route\<close>, \<open>Route_Text\<close> (\<open>route.rs\<close>): normalised routes, overlap, AllowedIPs, text form.
  \<^item> \<open>Probe_Packet\<close>, \<open>Relay_Frame\<close>, \<open>Lan_Beacon\<close>, \<open>Gossip_Entry\<close> (\<open>probe.rs\<close>, \<open>relay.rs\<close>, \<open>beacon.rs\<close>,
    \<open>gossip.rs\<close>): the authenticated formats; decoding accepts exactly what encoding produces.
  \<^item> \<open>Gossip_Store\<close> (\<open>gossip.rs\<close>): the last-writer-wins table, its convergence, monotonicity and cap.
  \<^item> \<open>Node_Config\<close>, \<open>Config_Text\<close> (\<open>config.rs\<close>): from the deserialised file to the checked configuration on every
    error path, the WireGuard device built from it (\<open>spec.rs\<close>), rendering of files and loading of identities.
  \<^item> \<open>Invite\<close>, \<open>Bootstrap\<close> (\<open>invite.rs\<close>, \<open>bootstrap.rs\<close>): signed invitation tokens; joining and initialising on
    a file system whose writes may fail while other processes add files.

  \<^bold>\<open>The engine.\<close>
  \<^item> \<open>Candidates\<close> (\<open>candidates.rs\<close>, \<open>cache.rs\<close>), \<open>Punch_Fsm\<close> (\<open>fsm.rs\<close>): candidate endpoints, the endpoint cache and
    the state machine, which refines the abstract connection contract and rotates fairly.
  \<^item> \<open>Relay_Server\<close>, \<open>Relay_Client\<close> (\<open>relay_server.rs\<close>, \<open>relay_client.rs\<close>): sessions, forwarding tasks with their
    channels and rate limits; the register loop.
  \<^item> \<open>Lan_Discovery\<close>, \<open>Gossip_Node\<close>, \<open>Probe_Service\<close>, \<open>Route_Manager\<close>, \<open>Member_Table\<close>, \<open>Engine_State\<close> (\<open>lan.rs\<close>,
    \<open>gossip.rs\<close>, \<open>probe_responder.rs\<close> and \<open>doctor_client.rs\<close>, \<open>route_manager.rs\<close>, \<open>members.rs\<close>, \<open>state.rs\<close> and
    \<open>status.rs\<close>): the services of the daemon, each with its invariant and what it achieves.
  \<^item> \<open>Rendezvous_Record\<close>, \<open>Rendezvous_Tasks\<close> (crate discovery, \<open>dht.rs\<close>, \<open>ddns.rs\<close>): sealed records in the DHT and in
    DNS, the tasks that publish and look them up, the webhook and Cloudflare updaters.
  \<^item> \<open>Daemon\<close> (\<open>daemon.rs\<close>): the run-time peers, every handler of the main loop, the tick, the relay logic and the
    start-up; \<open>Daemon_Safety\<close> has its invariant, \<open>Daemon_Behaviour\<close> what it guarantees over time.
  \<^item> \<open>Daemon_Main\<close> (\<open>daemon.rs\<close>, \<open>http.rs\<close>): the life of the daemon around its handlers: bringing up the device, which
    services start with which settings, the main loop until it is stopped, the clean-up, and the status service.
    Two nodes that share a network key agree on addresses and secrets; a stopped daemon leaves no route behind.
  \<^item> \<open>State_Files\<close> (\<open>atomic.rs\<close>, \<open>nodes.rs\<close>): replacing a file through a temporary one, call by call, with failures
    and crashes in between.

  \<^bold>\<open>The data plane and the system.\<close>
  \<^item> \<open>Wg_Backend\<close> (crates wg and wg-userspace): the user-space backend with its tables of devices and names, the kernel
    backend with the updates it sends; \<open>Device_Sync\<close> proves that the device of either holds exactly the peers of the
    daemon's table, whatever happens.
  \<^item> \<open>Platform\<close> (crate platform): interfaces, routes, address lists and address watchers of the three systems, as the
    requests made and what is made of the answers.
  \<^item> \<open>Tun_Device\<close> (\<open>tun.rs\<close>, \<open>raw_fd.rs\<close>): opening a tunnel with its MTU, whole packets in and out, a borrowed descriptor.
  \<^item> \<open>Local_Ddns\<close>, \<open>Local_Nodes\<close> (\<open>ddns/node.rs\<close>): the local DDNS node, from the bytes of a webhook request to those of a
    DNS answer, and as a service whose two threads take turns: it serves what was published last.

  \<^bold>\<open>The command line (crate cli).\<close>
  \<^item> \<open>Cli_Text\<close>: endpoints and lifetimes given as arguments, the hosts file, the columns of the status table.
  \<^item> \<open>Cli_Admin\<close> (\<open>peer.rs\<close>, \<open>member.rs\<close>, \<open>invite.rs\<close>): adding a peer to the configuration file, admitting and revoking
    members over gossip, issuing invitations; each is followed to its effect on the node that receives it.
  \<^item> \<open>First_Run\<close>: from an invitation issued on one node, through the join on another, to the configuration, the identity
    and the WireGuard device of the joined node at its next start.
  \<^item> \<open>Cli_Node\<close> (\<open>keygen.rs\<close>, \<open>init.rs\<close>, \<open>join.rs\<close>, \<open>inspect.rs\<close>, \<open>up.rs\<close>, \<open>down.rs\<close>, \<open>doctor.rs\<close>, \<open>status.rs\<close>,
    \<open>status_tui.rs\<close>, \<open>service.rs\<close>): the commands that run a node. A network made by \<open>keygen\<close> and \<open>init\<close> is the one
    \<open>inspect\<close> shows, \<open>up\<close> brings up the device as the daemon does, the doctor reaches the peer's daemon, the interactive
    view shows the last good report, and the service reports its states.
  \<^item> \<open>Node_System\<close> (\<open>lib.rs\<close> of crate platform): \<open>up\<close> and \<open>down\<close> on the functions each system exports, and what the
    system has accepted when they succeed.

  \<^bold>\<open>Embedding (crate engine-ffi).\<close>
  \<^item> \<open>Embedding\<close>: every function offered to an app, with the registry of running daemons: handles are never confused, and
    an app that joined can load its configuration and start.

  \<^bold>\<open>Bounds and termination.\<close> All definitions are total; loops are structural or have a measure, no fuel is
  used. Counters that the code increments are words of the code's width, with its saturation written out. Times
  are unbounded integers of nanoseconds, as the code compares them with checked subtraction.

  \<^bold>\<open>Not modelled.\<close> Raw memory layouts of system calls, the C strings and JSON texts of the embedding interface, argument
  parsing, the layout of tables and screens, log set-up and signal handlers, the commands that only start a modelled part
  (\<open>daemon\<close>, \<open>dht node\<close>, \<open>ddns node\<close>), poisoned locks, the internals of the HTTP server, the third-party DHT server, file
  permissions, the string type that hides secrets when printed, test doubles, and the wording of messages: they hold no
  logic of the program, or their behaviour is that of third-party code. Comment lines of the configuration template are
  left out, since TOML ignores them.

  The claims of the development stand in the component theories, each after a text block with its number.
\<close>

end
